(* ===== verification/Prelude.thy ===== *)
theory Prelude
  imports Main "HOL-Library.Char_ord" "HOL-Library.List_Lexorder"
    "HOL-Library.Product_Lexorder" "HOL-Library.Monad_Syntax"
begin

text \<open>
  Shared vocabulary of the development: the types that stand for identifiers, instants and
  tenants; the string functions of the Rust standard library the code calls; tables as lists
  of rows with the three statements the storage layer issues against them (update, select
  with an order and a limit, count); and the collections of lemmas the component theories
  hand to the simplifier.
\<close>

section \<open>Lemma collections\<close>

named_theorems table_simps
  \<comment> \<open>what an update leaves unchanged, and what it selects\<close>

named_theorems step_defs
  \<comment> \<open>definitions of the operations of a component, unfolded together in a case analysis\<close>

section \<open>Basic types\<close>

text \<open>
  A UUID is represented by its text form, so that formatting one into a message is
  concatenation. Instants and durations are integers (milliseconds unless said otherwise).
  A tenant is the string of its identifier.
\<close>

type_synonym uuid = string
type_synonym time = int
type_synonym tenant = string

section \<open>Strings\<close>

text \<open>
  \<open>str::starts_with\<close>, \<open>str::contains\<close> and \<open>str::to_lowercase\<close> on the ASCII range: a
  \<open>char\<close> of HOL is a byte, and bytes outside \<open>A..Z\<close> are left alone.
\<close>

fun starts_with :: "string \<Rightarrow> string \<Rightarrow> bool" where
  "starts_with [] s = True"
| "starts_with (p # ps) [] = False"
| "starts_with (p # ps) (c # s) = (p = c \<and> starts_with ps s)"

fun str_contains :: "string \<Rightarrow> string \<Rightarrow> bool" where
  "str_contains p [] = (p = [])"
| "str_contains p (c # s) = (starts_with p (c # s) \<or> str_contains p s)"

definition lower_char :: "char \<Rightarrow> char" where
  "lower_char c = (if 65 \<le> (of_char c :: nat) \<and> (of_char c :: nat) \<le> 90
                   then char_of (of_char c + (32 :: nat)) else c)"

definition to_lowercase :: "string \<Rightarrow> string" where
  "to_lowercase s = map lower_char s"

text \<open>Text between single and between double quotes.\<close>

definition quoted :: "string \<Rightarrow> string" where
  "quoted s = [CHR 0x27] @ s @ [CHR 0x27]"

definition dquoted :: "string \<Rightarrow> string" where
  "dquoted s = [CHR 0x22] @ s @ [CHR 0x22]"

text \<open>The decimal text of a number, as \<open>Display\<close> formats it.\<close>

fun show_nat :: "nat \<Rightarrow> string" where
  "show_nat n = (if n < 10 then [char_of (48 + n)] else show_nat (n div 10) @ [char_of (48 + n mod 10)])"

definition show_int :: "int \<Rightarrow> string" where
  "show_int i = (if i < 0 then CHR ''-'' # show_nat (nat (- i)) else show_nat (nat i))"

declare show_nat.simps [simp del]

lemma starts_with_iff: "starts_with p s \<longleftrightarrow> (\<exists>r. s = p @ r)"
  by (induction p s rule: starts_with.induct) auto

lemma starts_with_append [simp]: "starts_with p (p @ s)"
  by (simp add: starts_with_iff)

lemma str_contains_iff: "str_contains p s \<longleftrightarrow> (\<exists>l r. s = l @ p @ r)"
proof (induction s)
  case Nil
  then show ?case by simp
next
  case (Cons c s)
  have "(\<exists>l r. c # s = l @ p @ r) \<longleftrightarrow> (\<exists>r. c # s = p @ r) \<or> (\<exists>l r. s = l @ p @ r)"
    by (metis append_Cons append_Nil append_eq_Cons_conv)
  then show ?case
    using Cons.IH by (simp add: starts_with_iff)
qed

lemma str_contains_append: "str_contains p s \<Longrightarrow> str_contains p (a @ s @ b)"
  by (metis append_assoc str_contains_iff)

section \<open>Tables\<close>

text \<open>
  A table is the list of its rows. \<open>upd_where p f\<close> is \<open>UPDATE .. SET f WHERE p\<close>,
  \<open>hits p\<close> its \<open>rows_affected()\<close> (and \<open>COUNT(*) WHERE p\<close>), and \<open>first_min key p\<close> is
  \<open>SELECT .. WHERE p ORDER BY key LIMIT 1\<close>; rows with equal keys come in table order.
\<close>

definition upd_where :: "('r \<Rightarrow> bool) \<Rightarrow> ('r \<Rightarrow> 'r) \<Rightarrow> 'r list \<Rightarrow> 'r list" where
  "upd_where p f rs = map (\<lambda>r. if p r then f r else r) rs"

definition hits :: "('r \<Rightarrow> bool) \<Rightarrow> 'r list \<Rightarrow> nat" where
  "hits p rs = length (filter p rs)"

fun min_row :: "('r \<Rightarrow> 'k::linorder) \<Rightarrow> 'r list \<Rightarrow> 'r option" where
  "min_row key [] = None"
| "min_row key (r # rs) =
     (case min_row key rs of
        None \<Rightarrow> Some r
      | Some m \<Rightarrow> if key r \<le> key m then Some r else Some m)"

definition first_min :: "('r \<Rightarrow> 'k::linorder) \<Rightarrow> ('r \<Rightarrow> bool) \<Rightarrow> 'r list \<Rightarrow> 'r option" where
  "first_min key p rs = min_row key (filter p rs)"

lemma length_upd_where [simp, table_simps]: "length (upd_where p f rs) = length rs"
  by (simp add: upd_where_def)

lemma set_upd_where [table_simps]: "set (upd_where p f rs) = (\<lambda>r. if p r then f r else r) ` set rs"
  by (simp add: upd_where_def)

lemma in_upd_where:
  "r \<in> set (upd_where p f rs) \<longleftrightarrow> (\<exists>q\<in>set rs. r = (if p q then f q else q))"
  by (auto simp: set_upd_where)

lemma upd_whereE:
  assumes "r \<in> set (upd_where p f rs)"
  obtains "r \<in> set rs" "\<not> p r" | q where "q \<in> set rs" "p q" "r = f q"
  using assms by (auto simp: set_upd_where split: if_splits)

lemma map_upd_where [table_simps]:
  "(\<And>r. p r \<Longrightarrow> g (f r) = g r) \<Longrightarrow> map g (upd_where p f rs) = map g rs"
  by (simp add: upd_where_def)

lemma upd_where_none: "hits p rs = 0 \<Longrightarrow> upd_where p f rs = rs"
  by (simp add: upd_where_def hits_def filter_empty_conv map_idI)

lemma hits_pos: "0 < hits p rs \<longleftrightarrow> (\<exists>r\<in>set rs. p r)"
  by (auto simp: hits_def filter_empty_conv)

lemma hits_zero: "hits p rs = 0 \<longleftrightarrow> (\<forall>r\<in>set rs. \<not> p r)"
  by (auto simp: hits_def filter_empty_conv)

lemma min_row_None [simp]: "min_row key rs = None \<longleftrightarrow> rs = []"
  by (cases rs) (auto split: option.splits)

lemma min_row_in: "min_row key rs = Some r \<Longrightarrow> r \<in> set rs"
  by (induction rs arbitrary: r) (auto split: option.splits if_splits)

lemma min_row_le: "min_row key rs = Some r \<Longrightarrow> x \<in> set rs \<Longrightarrow> key r \<le> key x"
proof (induction rs arbitrary: r)
  case Nil
  then show ?case by simp
next
  case (Cons a rs)
  then show ?case
    by (cases "min_row key rs") (fastforce split: if_splits)+
qed

lemma first_min_None: "first_min key p rs = None \<longleftrightarrow> (\<forall>r\<in>set rs. \<not> p r)"
  by (simp add: first_min_def filter_empty_conv)

lemma first_min_Some:
  assumes "first_min key p rs = Some r"
  shows first_min_in: "r \<in> set rs" and first_min_sat: "p r"
    and first_min_least: "\<And>x. x \<in> set rs \<Longrightarrow> p x \<Longrightarrow> key r \<le> key x"
  using assms min_row_in [of key "filter p rs" r] min_row_le [of key "filter p rs" r]
  by (auto simp: first_min_def)

section \<open>Lists and maps\<close>

text \<open>A loop of fallible steps that stops at the first error, as the operator \<open>?\<close> does.\<close>

fun fold_res :: "('s \<Rightarrow> 'a \<Rightarrow> 'e + 's) \<Rightarrow> 's \<Rightarrow> 'a list \<Rightarrow> 'e + 's" where
  "fold_res f s [] = Inr s"
| "fold_res f s (x # xs) = (case f s x of Inl e \<Rightarrow> Inl e | Inr s' \<Rightarrow> fold_res f s' xs)"

lemma find_append: "find p (xs @ ys) = (case find p xs of None \<Rightarrow> find p ys | Some x \<Rightarrow> Some x)"
  by (induction xs) auto

lemma find_Some_in: "find p xs = Some x \<Longrightarrow> x \<in> set xs \<and> p x"
  by (auto simp: find_Some_iff)

lemma distinct_map_unique:
  "distinct (map f xs) \<Longrightarrow> x \<in> set xs \<Longrightarrow> y \<in> set xs \<Longrightarrow> f x = f y \<Longrightarrow> x = y"
  by (meson distinct_map inj_onD)

lemma hits_unique:
  assumes "distinct (map f rs)" and "\<And>r. p r \<Longrightarrow> f r = k"
  shows "hits p rs \<le> 1"
proof -
  have "distinct (map f (filter p rs))"
    using assms(1) by (simp add: distinct_map_filter)
  moreover have "set (map f (filter p rs)) \<subseteq> {k}"
    using assms(2) by auto
  ultimately have "length (map f (filter p rs)) \<le> card {k}"
    by (metis card_mono distinct_card finite.emptyI finite.insertI)
  then show ?thesis by (simp add: hits_def)
qed

end
