(* ===== verification/Text.thy ===== *)
theory Text
  imports Prelude
begin

text \<open>
  More string functions of the Rust standard library, on bytes: case mapping, splitting, trimming and
  the parsers of integers.
\<close>

section \<open>Characters\<close>

definition is_digit :: "char \<Rightarrow> bool" where
  "is_digit c \<longleftrightarrow> 48 \<le> (of_char c :: nat) \<and> (of_char c :: nat) \<le> 57"

definition is_upper :: "char \<Rightarrow> bool" where
  "is_upper c \<longleftrightarrow> 65 \<le> (of_char c :: nat) \<and> (of_char c :: nat) \<le> 90"

definition is_lower :: "char \<Rightarrow> bool" where
  "is_lower c \<longleftrightarrow> 97 \<le> (of_char c :: nat) \<and> (of_char c :: nat) \<le> 122"

definition is_alphanumeric :: "char \<Rightarrow> bool" where
  "is_alphanumeric c \<longleftrightarrow> is_digit c \<or> is_upper c \<or> is_lower c"

definition upper_char :: "char \<Rightarrow> char" where
  "upper_char c = (if 97 \<le> (of_char c :: nat) \<and> (of_char c :: nat) \<le> 122
                   then char_of (of_char c - (32 :: nat)) else c)"

definition to_uppercase :: "string \<Rightarrow> string" where
  "to_uppercase s = map upper_char s"

text \<open>\<open>join\<close> of a str_slice of strings.\<close>

fun join_with :: "string \<Rightarrow> string list \<Rightarrow> string" where
  "join_with sep [] = []"
| "join_with sep [s] = s"
| "join_with sep (s # t # ts) = s @ sep @ join_with sep (t # ts)"

section \<open>Numbers\<close>

definition digits_value :: "string \<Rightarrow> nat" where
  "digits_value s = foldl (\<lambda>n c. 10 * n + (of_char c - 48)) 0 s"

text \<open>\<open>str::parse\<close> for an unsigned and for a signed type of \<open>w\<close> bits.\<close>

definition parse_unsigned :: "nat \<Rightarrow> string \<Rightarrow> nat option" where
  "parse_unsigned w s =
     (let ds = (case s of c # r \<Rightarrow> (if c = CHR ''+'' then r else s) | [] \<Rightarrow> s) in
      if ds \<noteq> [] \<and> list_all is_digit ds \<and> digits_value ds < 2 ^ w then Some (digits_value ds) else None)"

lemma parse_unsigned_code [code]: "parse_unsigned w s =
     (let ds = (case s of c # r \<Rightarrow> (if c = CHR ''+'' then r else s) | [] \<Rightarrow> s) in
      if ds \<noteq> [] \<and> list_all is_digit ds \<and> int (digits_value ds) < 2 ^ w then Some (digits_value ds) else None)"
proof -
  have "int n < 2 ^ w \<longleftrightarrow> n < 2 ^ w" for n :: nat by (metis of_nat_less_iff of_nat_numeral of_nat_power)
  then show ?thesis by (simp add: parse_unsigned_def Let_def)
qed

definition parse_signed :: "nat \<Rightarrow> string \<Rightarrow> int option" where
  "parse_signed w s =
     (case s of
        [] \<Rightarrow> None
      | c # r \<Rightarrow>
          if c = CHR ''-''
          then (if r \<noteq> [] \<and> list_all is_digit r \<and> digits_value r \<le> 2 ^ (w - 1)
                then Some (- int (digits_value r)) else None)
          else map_option int (parse_unsigned (w - 1) s))"

text \<open>\<open>{:02}\<close>.\<close>

definition show_pad2 :: "nat \<Rightarrow> string" where
  "show_pad2 n = (if n < 10 then CHR ''0'' # show_nat n else show_nat n)"

lemma digits_value_snoc: "digits_value (s @ [c]) = 10 * digits_value s + (of_char c - 48)"
  by (simp add: digits_value_def)

lemma digit_char: "d < 10 \<Longrightarrow> is_digit (char_of (48 + d)) \<and> (of_char (char_of (48 + d :: nat)) :: nat) = 48 + d"
  by (simp add: is_digit_def)

lemma show_nat_digits: "show_nat n \<noteq> [] \<and> list_all is_digit (show_nat n) \<and> digits_value (show_nat n) = n"
proof (induction n rule: less_induct)
  case (less n)
  show ?case
  proof (cases "n < 10")
    case True
    then show ?thesis
      using digit_char [of n] by (subst (1 2 3) show_nat.simps) (simp add: digits_value_def)
  next
    case False
    then have IH: "show_nat (n div 10) \<noteq> []" "list_all is_digit (show_nat (n div 10))"
      "digits_value (show_nat (n div 10)) = n div 10"
      using less [of "n div 10"] by simp_all
    have d: "n mod 10 < 10" by simp
    have "show_nat n = show_nat (n div 10) @ [char_of (48 + n mod 10)]"
      using False by (subst show_nat.simps) simp
    with IH digit_char [OF d] show ?thesis
      by (simp add: digits_value_snoc del: of_char_of)
  qed
qed

lemmas show_nat_not_Nil [simp] = show_nat_digits [THEN conjunct1]

lemma show_nat_head: "\<exists>c r. show_nat n = c # r \<and> is_digit c"
  using show_nat_digits [of n] by (cases "show_nat n") auto

lemma not_digit: "\<not> is_digit (CHR ''+'')" "\<not> is_digit (CHR ''-'')" "\<not> is_digit (CHR '' '')"
  by (simp_all add: is_digit_def)

lemma parse_digits:
  assumes "s \<noteq> []" "list_all is_digit s" "digits_value s < 2 ^ w"
  shows "parse_unsigned w s = Some (digits_value s)"
proof (cases s)
  case (Cons c r)
  then have "c \<noteq> CHR ''+''" using assms(2) not_digit(1) by auto
  with assms show ?thesis by (simp add: parse_unsigned_def Let_def Cons)
qed (use assms in simp)

lemma parse_show_unsigned: "n < 2 ^ w \<Longrightarrow> parse_unsigned w (show_nat n) = Some n"
  using show_nat_digits [of n] parse_digits [of "show_nat n" w] by simp

lemma parse_show_signed: "n < 2 ^ (w - 1) \<Longrightarrow> parse_signed w (show_nat n) = Some (int n)"
  using parse_show_unsigned [of n "w - 1"] show_nat_head [of n] not_digit
  by (auto simp: parse_signed_def split: list.splits)

lemma digits_value_zero: "digits_value (CHR ''0'' # s) = digits_value s"
  by (simp add: digits_value_def)

lemma pad2_digits: "show_pad2 n \<noteq> [] \<and> list_all is_digit (show_pad2 n) \<and> digits_value (show_pad2 n) = n"
  using show_nat_digits [of n] by (auto simp: show_pad2_def digits_value_zero is_digit_def)

lemma parse_show_pad2: "n < 2 ^ w \<Longrightarrow> parse_unsigned w (show_pad2 n) = Some n"
  using pad2_digits [of n] parse_digits [of "show_pad2 n" w] by simp

section \<open>Splitting and trimming\<close>

text \<open>\<open>str::split\<close> at a character and at a (non-empty) string.\<close>

fun split_char :: "char \<Rightarrow> string \<Rightarrow> string list" where
  "split_char c [] = [[]]"
| "split_char c (x # s) =
     (if x = c then [] # split_char c s
      else (case split_char c s of p # ps \<Rightarrow> (x # p) # ps | [] \<Rightarrow> [[x]]))"

function split_str :: "string \<Rightarrow> string \<Rightarrow> string list" where
  "split_str p s =
     (if p = [] \<or> s = [] then [s]
      else if starts_with p s then [] # split_str p (drop (length p) s)
      else (case split_str p (tl s) of q # qs \<Rightarrow> (hd s # q) # qs | [] \<Rightarrow> [s]))"
  by pat_completeness auto
termination
  by (relation "measure (\<lambda>(p, s). length s)") auto

declare split_str.simps [simp del]

definition trim_with :: "(char \<Rightarrow> bool) \<Rightarrow> string \<Rightarrow> string" where
  "trim_with ws s = rev (dropWhile ws (rev (dropWhile ws s)))"

lemma split_char_none: "c \<notin> set s \<Longrightarrow> split_char c s = [s]"
  by (induction s) auto

lemma split_char_append: "c \<notin> set s \<Longrightarrow> split_char c (s @ c # t) = s # split_char c t"
  by (induction s) auto

section \<open>Durations\<close>

text \<open>\<open>Debug\<close> of a duration in milliseconds.\<close>

definition show_pad3 :: "nat \<Rightarrow> string" where
  "show_pad3 n = (if n < 10 then ''00'' else if n < 100 then ''0'' else []) @ show_nat n"

definition debug_duration :: "nat \<Rightarrow> string" where
  "debug_duration ms =
     (if ms = 0 then ''0ns''
      else if ms < 1000 then show_nat ms @ ''ms''
      else if ms mod 1000 = 0 then show_nat (ms div 1000) @ ''s''
      else show_nat (ms div 1000) @ ''.'' @
        rev (dropWhile (\<lambda>c. c = CHR ''0'') (rev (show_pad3 (ms mod 1000)))) @ ''s'')"


text \<open>A byte of UTF-8 that continues a character.\<close>

definition continuation :: "char \<Rightarrow> bool" where
  "continuation c \<longleftrightarrow> 128 \<le> (of_char c :: nat) \<and> (of_char c :: nat) < 192"

text \<open>The characters of a text, as their bytes.\<close>

fun utf8_chars :: "string \<Rightarrow> string list" where
  "utf8_chars [] = []"
| "utf8_chars (c # cs) =
     (case utf8_chars cs of
        [] \<Rightarrow> [[c]]
      | x # xs \<Rightarrow> if continuation (hd x) then (c # x) # xs else [c] # x # xs)"

text \<open>A slice by byte positions; a position inside a character is a panic.\<close>

definition char_boundary :: "string \<Rightarrow> nat \<Rightarrow> bool" where
  "char_boundary s i \<longleftrightarrow> i = length s \<or> i < length s \<and> \<not> continuation (s ! i)"

definition str_slice :: "string \<Rightarrow> nat \<Rightarrow> nat \<Rightarrow> string option" where
  "str_slice s i j = (if i \<le> j \<and> char_boundary s i \<and> char_boundary s j then Some (take (j - i) (drop i s)) else None)"

end
