(* ===== verification/Eta.thy ===== *)
theory Eta
  imports Text "HOL-Library.Word"
begin

text \<open>
  The estimate of the remaining time of a backfill (\<open>servo-runtime/src/eta.rs\<close>). The operations on
  \<open>f64\<close> are those of IEEE 754; they are a parameter, the record \<open>float_ops\<close>, so that the definitions
  keep the order of the operations of the code and say nothing about rounding.
\<close>

record 'f float_ops =
  fl_of_int :: "int \<Rightarrow> 'f"
  fl_decimal :: "int \<Rightarrow> nat \<Rightarrow> 'f"  \<comment> \<open>a literal: digits and number of decimals\<close>
  fl_add :: "'f \<Rightarrow> 'f \<Rightarrow> 'f"
  fl_sub :: "'f \<Rightarrow> 'f \<Rightarrow> 'f"
  fl_mul :: "'f \<Rightarrow> 'f \<Rightarrow> 'f"
  fl_div :: "'f \<Rightarrow> 'f \<Rightarrow> 'f"
  fl_less :: "'f \<Rightarrow> 'f \<Rightarrow> bool"
  fl_le :: "'f \<Rightarrow> 'f \<Rightarrow> bool"
  fl_round :: "'f \<Rightarrow> int"  \<comment> \<open>\<open>round() as i64\<close>\<close>

record 'f eta =
  eta_alpha :: 'f
  eta_avg :: 'f
  eta_count :: "32 word"

text \<open>\<open>f64::clamp(0.01, 1.0)\<close>.\<close>

definition clamp_alpha :: "'f float_ops \<Rightarrow> 'f \<Rightarrow> 'f" where
  "clamp_alpha fl a =
     (let a1 = (if fl_less fl a (fl_decimal fl 1 2) then fl_decimal fl 1 2 else a) in
      if fl_less fl (fl_decimal fl 1 0) a1 then fl_decimal fl 1 0 else a1)"

definition eta_new :: "'f float_ops \<Rightarrow> 'f \<Rightarrow> 'f eta" where
  "eta_new fl alpha = \<lparr>eta_alpha = clamp_alpha fl alpha, eta_avg = fl_of_int fl 0, eta_count = 0\<rparr>"

definition eta_default :: "'f float_ops \<Rightarrow> 'f eta" where
  "eta_default fl = eta_new fl (fl_decimal fl 3 1)"

definition eta_with_initial_avg :: "'f float_ops \<Rightarrow> 'f \<Rightarrow> int \<Rightarrow> 'f eta" where
  "eta_with_initial_avg fl alpha avg_ms =
     \<lparr>eta_alpha = clamp_alpha fl alpha, eta_avg = fl_of_int fl avg_ms, eta_count = (if avg_ms > 0 then 1 else 0)\<rparr>"

definition eta_update :: "'f float_ops \<Rightarrow> int \<Rightarrow> 'f eta \<Rightarrow> 'f eta" where
  "eta_update fl duration_ms e =
     (let duration = fl_of_int fl duration_ms in
      e\<lparr>eta_avg :=
          (if eta_count e = 0 then duration
           else fl_add fl (fl_mul fl (eta_alpha e) duration)
                  (fl_mul fl (fl_sub fl (fl_decimal fl 1 0) (eta_alpha e)) (eta_avg e))),
        eta_count := eta_count e + 1\<rparr>)"

definition eta_avg_duration_ms :: "'f float_ops \<Rightarrow> 'f eta \<Rightarrow> int" where
  "eta_avg_duration_ms fl e = fl_round fl (eta_avg e)"

definition eta_estimate_remaining :: "'f float_ops \<Rightarrow> 32 word \<Rightarrow> 'f eta \<Rightarrow> int option" where
  "eta_estimate_remaining fl remaining e =
     (if eta_count e = 0 then None
      else Some (fl_round fl (fl_mul fl (eta_avg e) (fl_of_int fl (uint remaining)))))"

definition eta_completion_time :: "'f float_ops \<Rightarrow> time \<Rightarrow> 32 word \<Rightarrow> 'f eta \<Rightarrow> time option" where
  "eta_completion_time fl utc_now remaining e =
     map_option (\<lambda>d. utc_now + d) (eta_estimate_remaining fl remaining e)"

definition eta_has_reliable_estimate :: "'f eta \<Rightarrow> bool" where
  "eta_has_reliable_estimate e \<longleftrightarrow> 3 \<le> eta_count e"

definition eta_partitions_per_minute :: "'f float_ops \<Rightarrow> 'f eta \<Rightarrow> 'f option" where
  "eta_partitions_per_minute fl e =
     (if eta_count e = 0 \<or> fl_le fl (eta_avg e) (fl_of_int fl 0) then None
      else Some (fl_div fl (fl_of_int fl 60000) (eta_avg e)))"

text \<open>The argument is the duration in whole seconds.\<close>

definition format_duration_human :: "int \<Rightarrow> string" where
  "format_duration_human secs =
     (if secs < 60 then show_int secs @ ''s''
      else if secs < 3600 then
        (if secs mod 60 = 0 then show_int (secs div 60) @ ''m''
         else show_int (secs div 60) @ ''m '' @ show_int (secs mod 60) @ ''s'')
      else
        (if (secs mod 3600) div 60 = 0 then show_int (secs div 3600) @ ''h''
         else show_int (secs div 3600) @ ''h '' @ show_int ((secs mod 3600) div 60) @ ''m''))"

end
