(* ===== verification/Quality.thy ===== *)
theory Quality
  imports Eta
begin

text \<open>
  Data quality checks as the core library defines them (\<open>servo-core/src/quality.rs\<close>): the types of
  checks, their severity and outcome, the results, and the summary of the checks of one execution.
  Documents, and the values in them, are a parameter of the types.
\<close>

section \<open>Checks\<close>

datatype ('v, 'f) core_check_type =
    NotNull "string list"
  | Unique "string list"
  | InRange string "'f option" "'f option"
  | Regex string string
  | RowCount "int option" "int option"
  | Freshness string nat
  | AcceptedValues string "'v list"
  | Custom string string
  | ReferentialIntegrity string string string
  | SchemaMatch "string list" bool

fun check_type_name :: "('v, 'f) core_check_type \<Rightarrow> string" where
  "check_type_name (NotNull _) = ''not_null''"
| "check_type_name (Unique _) = ''unique''"
| "check_type_name (InRange _ _ _) = ''in_range''"
| "check_type_name (Regex _ _) = ''regex''"
| "check_type_name (RowCount _ _) = ''row_count''"
| "check_type_name (Freshness _ _) = ''freshness''"
| "check_type_name (AcceptedValues _ _) = ''accepted_values''"
| "check_type_name (Custom _ _) = ''custom''"
| "check_type_name (ReferentialIntegrity _ _ _) = ''referential_integrity''"
| "check_type_name (SchemaMatch _ _) = ''schema_match''"

datatype check_severity = Info | Warning | SevError

definition default_severity :: check_severity where
  "default_severity = SevError"

definition can_block :: "check_severity \<Rightarrow> bool" where
  "can_block s \<longleftrightarrow> s = SevError"

fun severity_string :: "check_severity \<Rightarrow> string" where
  "severity_string Info = ''info''"
| "severity_string Warning = ''warning''"
| "severity_string SevError = ''error''"

datatype check_outcome = Passed | Failed | Skipped | OutError

definition is_success :: "check_outcome \<Rightarrow> bool" where
  "is_success q \<longleftrightarrow> q = Passed"

definition is_failure :: "check_outcome \<Rightarrow> bool" where
  "is_failure q \<longleftrightarrow> q = Failed \<or> q = OutError"

fun outcome_string :: "check_outcome \<Rightarrow> string" where
  "outcome_string Passed = ''passed''"
| "outcome_string Failed = ''failed''"
| "outcome_string Skipped = ''skipped''"
| "outcome_string OutError = ''error''"

record ('v, 'f) asset_check =
  ac_id :: uuid
  ac_name :: string
  ac_description :: "string option"
  ac_asset_id :: uuid
  ac_check_type :: "('v, 'f) core_check_type"
  ac_severity :: check_severity
  ac_blocking :: bool
  ac_enabled :: bool
  ac_tags :: "string list"
  ac_owner :: "string option"
  ac_tenant_id :: "tenant option"
  ac_created_at :: time
  ac_updated_at :: time

text \<open>The fresh identifier and the clock are arguments.\<close>

definition asset_check_new :: "uuid \<Rightarrow> time \<Rightarrow> string \<Rightarrow> uuid \<Rightarrow> ('v, 'f) core_check_type \<Rightarrow> ('v, 'f) asset_check" where
  "asset_check_new fresh t nm a ct =
     \<lparr>ac_id = fresh, ac_name = nm, ac_description = None, ac_asset_id = a, ac_check_type = ct,
      ac_severity = default_severity, ac_blocking = True, ac_enabled = True, ac_tags = [],
      ac_owner = None, ac_tenant_id = None, ac_created_at = t, ac_updated_at = t\<rparr>"

definition should_block_on_failure :: "('v, 'f) asset_check \<Rightarrow> bool" where
  "should_block_on_failure k \<longleftrightarrow> ac_enabled k \<and> ac_blocking k \<and> can_block (ac_severity k)"

definition check_touch :: "time \<Rightarrow> ('v, 'f) asset_check \<Rightarrow> ('v, 'f) asset_check" where
  "check_touch t k = k\<lparr>ac_updated_at := t\<rparr>"

record ('v, 'f) check_builder =
  cb_name :: string
  cb_asset_id :: uuid
  cb_check_type :: "('v, 'f) core_check_type"
  cb_description :: "string option"
  cb_severity :: check_severity
  cb_blocking :: bool
  cb_enabled :: bool
  cb_tags :: "string list"
  cb_owner :: "string option"
  cb_tenant_id :: "tenant option"

definition check_builder_new :: "string \<Rightarrow> uuid \<Rightarrow> ('v, 'f) core_check_type \<Rightarrow> ('v, 'f) check_builder" where
  "check_builder_new nm a ct =
     \<lparr>cb_name = nm, cb_asset_id = a, cb_check_type = ct, cb_description = None, cb_severity = default_severity,
      cb_blocking = True, cb_enabled = True, cb_tags = [], cb_owner = None, cb_tenant_id = None\<rparr>"

definition cb_set_description :: "string \<Rightarrow> ('v, 'f) check_builder \<Rightarrow> ('v, 'f) check_builder" where
  "cb_set_description d b = b\<lparr>cb_description := Some d\<rparr>"

definition cb_set_severity :: "check_severity \<Rightarrow> ('v, 'f) check_builder \<Rightarrow> ('v, 'f) check_builder" where
  "cb_set_severity s b = b\<lparr>cb_severity := s\<rparr>"

definition cb_set_blocking :: "bool \<Rightarrow> ('v, 'f) check_builder \<Rightarrow> ('v, 'f) check_builder" where
  "cb_set_blocking x b = b\<lparr>cb_blocking := x\<rparr>"

definition cb_set_enabled :: "bool \<Rightarrow> ('v, 'f) check_builder \<Rightarrow> ('v, 'f) check_builder" where
  "cb_set_enabled x b = b\<lparr>cb_enabled := x\<rparr>"

definition cb_add_tag :: "string \<Rightarrow> ('v, 'f) check_builder \<Rightarrow> ('v, 'f) check_builder" where
  "cb_add_tag t b = b\<lparr>cb_tags := cb_tags b @ [t]\<rparr>"

definition cb_set_owner :: "string \<Rightarrow> ('v, 'f) check_builder \<Rightarrow> ('v, 'f) check_builder" where
  "cb_set_owner x b = b\<lparr>cb_owner := Some x\<rparr>"

definition cb_set_tenant :: "tenant \<Rightarrow> ('v, 'f) check_builder \<Rightarrow> ('v, 'f) check_builder" where
  "cb_set_tenant t b = b\<lparr>cb_tenant_id := Some t\<rparr>"

definition cb_build :: "uuid \<Rightarrow> time \<Rightarrow> ('v, 'f) check_builder \<Rightarrow> ('v, 'f) asset_check" where
  "cb_build fresh t b =
     \<lparr>ac_id = fresh, ac_name = cb_name b, ac_description = cb_description b, ac_asset_id = cb_asset_id b,
      ac_check_type = cb_check_type b, ac_severity = cb_severity b, ac_blocking = cb_blocking b,
      ac_enabled = cb_enabled b, ac_tags = cb_tags b, ac_owner = cb_owner b, ac_tenant_id = cb_tenant_id b,
      ac_created_at = t, ac_updated_at = t\<rparr>"

lemma builder_default: "cb_build i t (check_builder_new nm a ct) = asset_check_new i t nm a ct"
  by (simp add: cb_build_def check_builder_new_def asset_check_new_def)

section \<open>Results\<close>

record 'v check_result =
  qr_id :: uuid
  qr_check_id :: uuid
  qr_execution_id :: uuid
  qr_asset_id :: uuid
  qr_outcome :: check_outcome
  qr_severity :: check_severity
  qr_blocking :: bool
  qr_failed_row_count :: "int option"
  qr_total_row_count :: "int option"
  qr_error_message :: "string option"
  qr_failed_samples :: "'v option"
  qr_duration_ms :: int
  qr_executed_at :: time
  qr_metadata :: "'v option"
  qr_tenant_id :: "tenant option"

text \<open>What the four constructors share.\<close>

definition result_of :: "uuid \<Rightarrow> time \<Rightarrow> ('v, 'f) asset_check \<Rightarrow> uuid \<Rightarrow> check_outcome \<Rightarrow> string option \<Rightarrow> int \<Rightarrow> 'v check_result" where
  "result_of fresh t k x q msg ms =
     \<lparr>qr_id = fresh, qr_check_id = ac_id k, qr_execution_id = x, qr_asset_id = ac_asset_id k, qr_outcome = q,
      qr_severity = ac_severity k, qr_blocking = ac_blocking k, qr_failed_row_count = None,
      qr_total_row_count = None, qr_error_message = msg, qr_failed_samples = None, qr_duration_ms = ms,
      qr_executed_at = t, qr_metadata = None, qr_tenant_id = ac_tenant_id k\<rparr>"

definition result_passed where
  "result_passed fresh t k x ms = result_of fresh t k x Passed None ms"

definition result_failed where
  "result_failed fresh t k x ms msg = result_of fresh t k x Failed (Some msg) ms"

definition result_error where
  "result_error fresh t k x ms msg = result_of fresh t k x OutError (Some msg) ms"

definition result_skipped where
  "result_skipped fresh t k x reason = result_of fresh t k x Skipped (Some reason) 0"

definition should_block :: "'v check_result \<Rightarrow> bool" where
  "should_block r \<longleftrightarrow> qr_blocking r \<and> is_failure (qr_outcome r) \<and> can_block (qr_severity r)"

definition with_row_counts :: "int \<Rightarrow> int \<Rightarrow> 'v check_result \<Rightarrow> 'v check_result" where
  "with_row_counts f n r = r\<lparr>qr_failed_row_count := Some f, qr_total_row_count := Some n\<rparr>"

definition with_failed_samples :: "'v \<Rightarrow> 'v check_result \<Rightarrow> 'v check_result" where
  "with_failed_samples v r = r\<lparr>qr_failed_samples := Some v\<rparr>"

definition with_metadata :: "'v \<Rightarrow> 'v check_result \<Rightarrow> 'v check_result" where
  "with_metadata v r = r\<lparr>qr_metadata := Some v\<rparr>"

definition failure_rate :: "'f float_ops \<Rightarrow> 'v check_result \<Rightarrow> 'f option" where
  "failure_rate fl r =
     (case (qr_failed_row_count r, qr_total_row_count r) of
        (Some f, Some n) \<Rightarrow>
          if n > 0 then Some (fl_mul fl (fl_div fl (fl_of_int fl f) (fl_of_int fl n)) (fl_of_int fl 100)) else None
      | _ \<Rightarrow> None)"

section \<open>Summaries\<close>

record 'v check_summary =
  qs_total :: nat
  qs_passed :: nat
  qs_failed :: nat
  qs_errors :: nat
  qs_skipped :: nat
  qs_blocking_failures :: bool
  qs_results :: "'v check_result list"

definition summary_new :: "'v check_summary" where
  "summary_new = \<lparr>qs_total = 0, qs_passed = 0, qs_failed = 0, qs_errors = 0, qs_skipped = 0,
     qs_blocking_failures = False, qs_results = []\<rparr>"

definition add_result :: "'v check_result \<Rightarrow> 'v check_summary \<Rightarrow> 'v check_summary" where
  "add_result r s =
     (let s1 = s\<lparr>qs_total := qs_total s + 1\<rparr>;
          s2 = (case qr_outcome r of
                  Passed \<Rightarrow> s1\<lparr>qs_passed := qs_passed s1 + 1\<rparr>
                | Failed \<Rightarrow> s1\<lparr>qs_failed := qs_failed s1 + 1\<rparr>
                | OutError \<Rightarrow> s1\<lparr>qs_errors := qs_errors s1 + 1\<rparr>
                | Skipped \<Rightarrow> s1\<lparr>qs_skipped := qs_skipped s1 + 1\<rparr>);
          s3 = (if should_block r then s2\<lparr>qs_blocking_failures := True\<rparr> else s2) in
      s3\<lparr>qs_results := qs_results s3 @ [r]\<rparr>)"

definition summary_of :: "'v check_result list \<Rightarrow> 'v check_summary" where
  "summary_of rs = fold add_result rs summary_new"

definition summary_ok :: "'v check_summary \<Rightarrow> bool" where
  "summary_ok s \<longleftrightarrow>
     (\<forall>q n. (q, n) \<in> {(Passed, qs_passed s), (Failed, qs_failed s), (OutError, qs_errors s), (Skipped, qs_skipped s)}
        \<longrightarrow> n = length (filter (\<lambda>r. qr_outcome r = q) (qs_results s))) \<and>
     qs_total s = qs_passed s + qs_failed s + qs_errors s + qs_skipped s \<and>
     qs_total s = length (qs_results s) \<and>
     (qs_blocking_failures s \<longleftrightarrow> (\<exists>r \<in> set (qs_results s). should_block r))"

lemma add_result_ok: "summary_ok s \<Longrightarrow> summary_ok (add_result r s)"
  by (cases "qr_outcome r") (auto simp: summary_ok_def add_result_def Let_def)

lemma add_result_results: "qs_results (add_result r s) = qs_results s @ [r]"
  by (simp add: add_result_def Let_def split: check_outcome.split)

text \<open>
  The summary of a list of results keeps them in order, counts each outcome, its counters add up,
  and it reports a blocking failure exactly when one of the results blocks. A check blocks on failure
  exactly when it is enabled and its failed result blocks; an error blocks like a failure, and a
  result that passed or was skipped never does.
\<close>

theorem summary_correct:
  "summary_ok (summary_of rs) \<and> qs_results (summary_of rs) = rs \<and>
   should_block_on_failure k = (ac_enabled k \<and> should_block (result_failed i t k x ms msg)) \<and>
   should_block (result_error i t k x ms msg) = should_block (result_failed i t k x ms msg) \<and>
   \<not> should_block (result_passed i t k x ms) \<and> \<not> should_block (result_skipped i t k x msg)"
proof -
  have "summary_ok (fold add_result rs s) \<and> qs_results (fold add_result rs s) = qs_results s @ rs"
    if "summary_ok s" for s
    using that by (induction rs arbitrary: s) (simp_all add: add_result_ok add_result_results)
  moreover have "summary_ok (summary_new :: 'a check_summary)"
    by (simp add: summary_ok_def summary_new_def)
  ultimately show ?thesis
    by (auto simp: summary_of_def summary_new_def should_block_def should_block_on_failure_def result_of_def
        result_failed_def result_error_def result_passed_def result_skipped_def is_failure_def)
qed

end
