(* ===== verification/Storage.thy ===== *)
theory Storage
  imports Prelude
begin

text \<open>
  The common part of the PostgreSQL storage layer (\<open>servo-storage/src/postgres.rs\<close>,
  \<open>lib.rs\<close>): its error type and the mapping of database errors to it, the validators of
  the arguments, the transaction wrapper that carries the tenant, and the statements the
  operations are made of, on tables as lists of rows.

  Row level security (\<open>migrations/002\<close>, \<open>007\<close>) restricts every statement to the rows
  of the tenant set in the transaction: the condition of each statement below is conjoined with
  it. One call is one transaction and takes effect as a whole; a call reads the clock once, and
  the connection can fail when the transaction begins, commits and rolls back, so the clock, these
  faults and the identifiers of the rows that other transactions hold locked are parts of the
  record \<open>call\<close>.
\<close>

section \<open>Errors\<close>

datatype sqlx_error =
    PoolTimedOut
  | PoolClosed
  | DbError string string  \<comment> \<open>SQLSTATE code, message\<close>
  | OtherDb string

datatype storage_error =
    Database sqlx_error
  | NotFound string
  | AlreadyExists string
  | TenantViolation string
  | Migration string
  | Internal string
  | ValidationError string
  | PoolExhausted string
  | ConnectionFailed string
  | CircuitOpen

fun map_db_error :: "sqlx_error \<Rightarrow> storage_error" where
  "map_db_error PoolTimedOut = PoolExhausted ''Connection pool timed out''"
| "map_db_error PoolClosed = ConnectionFailed ''Connection pool closed''"
| "map_db_error (DbError code msg) =
     (if code = ''23505'' then AlreadyExists msg
      else if code = ''23503'' then NotFound msg
      else if code = ''23502'' then ValidationError (''Required field cannot be null: '' @ msg)
      else if code = ''23514'' then ValidationError (''Constraint violation: '' @ msg)
      else if code = ''53300'' then PoolExhausted msg
      else if code \<in> {''08006'', ''08001'', ''08003'', ''08004''} then ConnectionFailed msg
      else Database (DbError code msg))"
| "map_db_error (OtherDb s) = Database (OtherDb s)"

section \<open>Calls\<close>

record call =
  tenant :: tenant
  now :: time
  locked :: "uuid list"
  begin_fault :: "sqlx_error option"
  commit_fault :: "sqlx_error option"
  rollback_fault :: "sqlx_error option"

definition call_of :: "tenant \<Rightarrow> time \<Rightarrow> call" where
  "call_of t n = \<lparr>tenant = t, now = n, locked = [], begin_fault = None, commit_fault = None,
                 rollback_fault = None\<rparr>"

lemma call_of_simps [simp]:
  "tenant (call_of t n) = t" "now (call_of t n) = n" "locked (call_of t n) = []"
  "begin_fault (call_of t n) = None" "commit_fault (call_of t n) = None"
  "rollback_fault (call_of t n) = None"
  by (simp_all add: call_of_def)

text \<open>A transaction body either fails or gives its result and the new database.\<close>

type_synonym ('a, 'db) tx = "'db \<Rightarrow> storage_error + ('a \<times> 'db)"
type_synonym ('a, 'db) outcome = "(storage_error + 'a) \<times> 'db"

definition with_tenant_context :: "call \<Rightarrow> ('a, 'db) tx \<Rightarrow> 'db \<Rightarrow> ('a, 'db) outcome" where
  "with_tenant_context c f db =
     (case begin_fault c of
        Some e \<Rightarrow> (Inl (Database e), db)
      | None \<Rightarrow>
          (case f db of
             Inl e \<Rightarrow>
               (case rollback_fault c of
                  Some e' \<Rightarrow> (Inl (Database e'), db)
                | None \<Rightarrow> (Inl e, db))
           | Inr (a, db') \<Rightarrow>
               (case commit_fault c of
                  Some e \<Rightarrow> (Inl (Database e), db)
                | None \<Rightarrow> (Inr a, db'))))"

lemma with_tenant_context_db:
  "with_tenant_context c f db = (r, db') \<Longrightarrow>
   db' = db \<or> (\<exists>a. f db = Inr (a, db') \<and> r = Inr a)"
  by (auto simp: with_tenant_context_def split: option.splits sum.splits prod.splits)

lemma with_tenant_context_Inl: "with_tenant_context c f db = (Inl e, db') \<Longrightarrow> db' = db"
  by (auto simp: with_tenant_context_def split: option.splits sum.splits prod.splits)

lemma with_tenant_context_Inr:
  "with_tenant_context c f db = (Inr a, db') \<longleftrightarrow>
   begin_fault c = None \<and> commit_fault c = None \<and> f db = Inr (a, db')"
  by (auto simp: with_tenant_context_def split: option.splits sum.splits prod.splits)

lemma with_tenant_context_call_of [simp]:
  "with_tenant_context (call_of t n) f db =
     (case f db of Inl e \<Rightarrow> (Inl e, db) | Inr (a, db') \<Rightarrow> (Inr a, db'))"
  by (simp add: with_tenant_context_def split: sum.splits prod.splits)

text \<open>Sequencing inside a transaction, and the checks an operation makes before it opens one.\<close>

definition tx_bind :: "('a, 'db) tx \<Rightarrow> ('a \<Rightarrow> ('b, 'db) tx) \<Rightarrow> ('b, 'db) tx" where
  "tx_bind f g db = (case f db of Inl e \<Rightarrow> Inl e | Inr (a, db') \<Rightarrow> g a db')"

definition tx_return :: "'a \<Rightarrow> ('a, 'db) tx" where
  "tx_return a db = Inr (a, db)"

definition tx_fail :: "storage_error \<Rightarrow> ('a, 'db) tx" where
  "tx_fail e db = Inl e"

fun checked :: "(storage_error + unit) list \<Rightarrow> ('db \<Rightarrow> ('a, 'db) outcome) \<Rightarrow> 'db \<Rightarrow> ('a, 'db) outcome" where
  "checked [] f db = f db"
| "checked (v # vs) f db = (case v of Inl e \<Rightarrow> (Inl e, db) | Inr _ \<Rightarrow> checked vs f db)"

lemma tx_bind_Inr:
  "tx_bind f g db = Inr (b, db'') \<longleftrightarrow> (\<exists>a db'. f db = Inr (a, db') \<and> g a db' = Inr (b, db''))"
  by (auto simp: tx_bind_def split: sum.splits prod.splits)

lemma tx_simps [simp]: "tx_return a db = Inr (a, db)" "tx_fail e db = Inl e"
  by (simp_all add: tx_return_def tx_fail_def)

lemma checked_Inr:
  "checked vs f db = (Inr a, db') \<longleftrightarrow> (\<forall>v\<in>set vs. \<not> isl v) \<and> f db = (Inr a, db')"
  by (induction vs f db rule: checked.induct) (auto split: sum.splits)

lemma checked_db: "checked vs f db = (r, db') \<Longrightarrow> db' = db \<or> f db = (r, db')"
  by (induction vs f db rule: checked.induct) (auto split: sum.splits)

lemma checked_Inl: "checked vs f db = (Inl e, db') \<Longrightarrow> db' = db \<or> f db = (Inl e, db')"
  by (induction vs f db rule: checked.induct) (auto split: sum.splits)

section \<open>Validation of arguments\<close>

definition is_whitespace :: "char \<Rightarrow> bool" where
  "is_whitespace c = ((of_char c :: nat) \<in> {9, 10, 11, 12, 13, 32})"

definition validate_non_empty_string :: "string \<Rightarrow> string \<Rightarrow> storage_error + unit" where
  "validate_non_empty_string v field =
     (if list_all is_whitespace v then Inl (ValidationError (field @ '' cannot be empty'')) else Inr ())"

definition validate_pagination_params :: "int \<Rightarrow> int \<Rightarrow> storage_error + unit" where
  "validate_pagination_params limit offset =
     (if limit \<le> 0 then Inl (ValidationError ''Limit must be greater than 0'')
      else if limit > 1000 then Inl (ValidationError ''Limit cannot exceed 1000'')
      else if offset < 0 then Inl (ValidationError ''Offset must be non-negative'')
      else Inr ())"

definition execution_states :: "string list" where
  "execution_states = [''pending'', ''running'', ''succeeded'', ''failed'', ''cancelled'', ''timeout'']"

definition validate_execution_state :: "string \<Rightarrow> storage_error + unit" where
  "validate_execution_state s =
     (if s \<in> set execution_states then Inr ()
      else Inl (ValidationError (''Invalid execution state: '' @ s)))"

definition validate_dependency_type :: "string \<Rightarrow> storage_error + unit" where
  "validate_dependency_type d =
     (if d \<in> {''data'', ''metadata'', ''control''} then Inr ()
      else Inl (ValidationError (''Invalid dependency type: '' @ d)))"

section \<open>Statements\<close>

text \<open>
  \<open>UPDATE\<close> of the rows that \<open>hit\<close> selects; a row that would violate a constraint (\<open>ck\<close>)
  fails the statement. The result counts the affected rows.
\<close>

fun stmt_update ::
  "('r \<Rightarrow> bool) \<Rightarrow> ('r \<Rightarrow> 'r) \<Rightarrow> ('r \<Rightarrow> sqlx_error option) \<Rightarrow> 'r list \<Rightarrow>
   storage_error + (nat \<times> 'r list)" where
  "stmt_update hit f ck [] = Inr (0, [])"
| "stmt_update hit f ck (r # rs) =
     (case stmt_update hit f ck rs of
        Inl e \<Rightarrow> Inl e
      | Inr (n, rs') \<Rightarrow>
          (if hit r
           then (case ck (f r) of Some e \<Rightarrow> Inl (map_db_error e) | None \<Rightarrow> Inr (Suc n, f r # rs'))
           else Inr (n, r # rs')))"

text \<open>
  \<open>INSERT\<close> of one row: first the policy and the \<open>CHECK\<close> constraints of the row (\<open>ck\<close>), then
  the unique indexes, each a relation between two rows that carry the same key with the name of
  its constraint, then the foreign keys (\<open>fk\<close>).
\<close>

definition unique_violation :: "string \<Rightarrow> sqlx_error" where
  "unique_violation nm =
     DbError ''23505'' (''duplicate key value violates unique constraint '' @ nm)"

definition check_violation :: "string \<Rightarrow> sqlx_error" where
  "check_violation nm = DbError ''23514'' (''new row violates check constraint '' @ nm)"

definition fk_violation :: "string \<Rightarrow> sqlx_error" where
  "fk_violation nm = DbError ''23503'' (''insert or update violates foreign key constraint '' @ nm)"

definition rls_violation :: "string \<Rightarrow> sqlx_error" where
  "rls_violation nm = DbError ''42501'' (''new row violates row-level security policy for table '' @ nm)"

text \<open>The first constraint of a list that does not hold.\<close>

fun violated :: "(bool \<times> sqlx_error) list \<Rightarrow> sqlx_error option" where
  "violated [] = None"
| "violated ((ok, e) # cs) = (if ok then violated cs else Some e)"

fun key_clash :: "(string \<times> ('r \<Rightarrow> 'r \<Rightarrow> bool)) list \<Rightarrow> 'r \<Rightarrow> 'r list \<Rightarrow> sqlx_error option" where
  "key_clash [] r rs = None"
| "key_clash ((nm, same) # ks) r rs =
     (if list_ex (same r) rs then Some (unique_violation nm) else key_clash ks r rs)"

definition stmt_insert ::
  "('r \<Rightarrow> sqlx_error option) \<Rightarrow> (string \<times> ('r \<Rightarrow> 'r \<Rightarrow> bool)) list \<Rightarrow> ('r \<Rightarrow> sqlx_error option) \<Rightarrow>
   'r \<Rightarrow> 'r list \<Rightarrow> storage_error + 'r list" where
  "stmt_insert ck keys fk r rs =
     (case ck r of
        Some e \<Rightarrow> Inl (map_db_error e)
      | None \<Rightarrow>
          (case key_clash keys r rs of
             Some e \<Rightarrow> Inl (map_db_error e)
           | None \<Rightarrow>
               (case fk r of
                  Some e \<Rightarrow> Inl (map_db_error e)
                | None \<Rightarrow> Inr (rs @ [r]))))"

text \<open>\<open>SELECT .. ORDER BY key\<close> of the selected rows; the sort is stable.\<close>

definition stmt_select :: "('r \<Rightarrow> 'k::linorder) \<Rightarrow> ('r \<Rightarrow> bool) \<Rightarrow> 'r list \<Rightarrow> 'r list" where
  "stmt_select key p rs = sort_key key (filter p rs)"

definition page :: "int \<Rightarrow> int \<Rightarrow> 'r list \<Rightarrow> 'r list" where
  "page limit offset rs = take (nat limit) (drop (nat offset) rs)"

definition coalesce :: "'a option \<Rightarrow> 'a option \<Rightarrow> 'a option" where
  "coalesce a b = (case a of None \<Rightarrow> b | Some x \<Rightarrow> Some x)"

definition int4 :: "int \<Rightarrow> bool" where
  "int4 i \<longleftrightarrow> - (2 ^ 31) \<le> i \<and> i < 2 ^ 31"

definition out_of_range :: sqlx_error where
  "out_of_range = DbError ''22003'' ''integer out of range''"

lemma coalesce_simps [simp]: "coalesce None b = b" "coalesce (Some x) b = Some x"
  by (simp_all add: coalesce_def)

lemma stmt_update_ok:
  "(\<And>r. r \<in> set rs \<Longrightarrow> hit r \<Longrightarrow> ck (f r) = None) \<Longrightarrow>
   stmt_update hit f ck rs = Inr (hits hit rs, upd_where hit f rs)"
  by (induction hit f ck rs rule: stmt_update.induct) (auto simp: hits_def upd_where_def)

lemma stmt_update_checked:
  "stmt_update hit f ck rs = Inr x \<Longrightarrow> r \<in> set rs \<Longrightarrow> hit r \<Longrightarrow> ck (f r) = None"
  by (induction hit f ck rs arbitrary: x rule: stmt_update.induct)
     (auto split: sum.splits option.splits if_splits)

lemma stmt_update_Inr:
  "stmt_update hit f ck rs = Inr (n, rs') \<longleftrightarrow>
     (\<forall>r\<in>set rs. hit r \<longrightarrow> ck (f r) = None) \<and> n = hits hit rs \<and> rs' = upd_where hit f rs"
  using stmt_update_ok [of rs hit ck f] stmt_update_checked [of hit f ck rs] by fastforce

lemma stmt_update_case:
  "(case stmt_update hit f ck rs of Inl e \<Rightarrow> Inl e | Inr (n, rs') \<Rightarrow> Inr (n, g rs')) = Inr (m, x) \<longleftrightarrow>
     (\<forall>r\<in>set rs. hit r \<longrightarrow> ck (f r) = None) \<and> m = hits hit rs \<and> x = g (upd_where hit f rs)"
proof (cases "\<forall>r\<in>set rs. hit r \<longrightarrow> ck (f r) = None")
  case True
  then show ?thesis by (auto simp: stmt_update_ok)
next
  case False
  then have "stmt_update hit f ck rs \<noteq> Inr y" for y by (cases y) (simp add: stmt_update_Inr)
  with False show ?thesis by (cases "stmt_update hit f ck rs") auto
qed

lemma violated_None: "violated cs = None \<longleftrightarrow> (\<forall>(ok, e)\<in>set cs. ok)"
  by (induction cs rule: violated.induct) auto

lemma key_clash_None:
  "key_clash ks r rs = None \<longleftrightarrow> (\<forall>(nm, same)\<in>set ks. \<forall>r'\<in>set rs. \<not> same r r')"
  by (induction ks r rs rule: key_clash.induct) (auto simp: list_ex_iff)

lemma stmt_insert_Inr:
  "stmt_insert ck keys fk r rs = Inr rs' \<longleftrightarrow>
     ck r = None \<and> key_clash keys r rs = None \<and> fk r = None \<and> rs' = rs @ [r]"
  by (auto simp: stmt_insert_def split: option.splits)

lemma stmt_insert_case:
  "(case stmt_insert ck keys fk r rs of Inl e \<Rightarrow> Inl e | Inr rs' \<Rightarrow> Inr (u, g rs')) = Inr (v, x) \<longleftrightarrow>
     ck r = None \<and> key_clash keys r rs = None \<and> fk r = None \<and> v = u \<and> x = g (rs @ [r])"
  by (auto simp: stmt_insert_def split: option.splits)

lemma stmt_select_set [simp]: "set (stmt_select key p rs) = {r \<in> set rs. p r}"
  by (auto simp: stmt_select_def)

lemma page_subset: "set (page l n rs) \<subseteq> set rs"
  by (auto simp: page_def dest: in_set_takeD in_set_dropD)

end
