(* ===== verification/Tables.thy ===== *)
theory Tables
  imports Storage
begin

text \<open>
  The tables of the metadata database: the row types of \<open>servo-storage/src/models.rs\<close> and the
  constraints of the migrations. A JSON column is the string of its text, except the list of the
  partition keys of a job. The length limits of the text columns are not modelled.
\<close>

section \<open>Rows\<close>

record asset_row =
  ar_id :: uuid
  ar_name :: string
  ar_description :: "string option"
  ar_asset_type :: string
  ar_owner :: "string option"
  ar_tags :: "string list"
  ar_partition_config :: "string option"
  ar_compute_fn_module :: "string option"
  ar_compute_fn_function :: "string option"
  ar_tenant_id :: "tenant option"
  ar_created_at :: time
  ar_updated_at :: time

record workflow_row =
  wr_id :: uuid
  wr_name :: string
  wr_description :: "string option"
  wr_owner :: "string option"
  wr_tags :: "string list"
  wr_tenant_id :: "tenant option"
  wr_version :: int
  wr_schedule_cron :: "string option"
  wr_schedule_timezone :: "string option"
  wr_schedule_enabled :: "bool option"
  wr_scheduler_job_name :: "string option"
  wr_last_scheduled_run :: "time option"
  wr_next_scheduled_run :: "time option"
  wr_created_at :: time
  wr_updated_at :: time

record execution_row =
  x_id :: uuid
  x_workflow_id :: uuid
  x_state :: string
  x_tenant_id :: "tenant option"
  x_idempotency_key :: "string option"
  x_started_at :: "time option"
  x_completed_at :: "time option"
  x_error_message :: "string option"
  x_created_at :: time
  x_updated_at :: time

record dependency_row =
  dr_id :: uuid
  dr_upstream_asset_id :: uuid
  dr_downstream_asset_id :: uuid
  dr_dependency_type :: string
  dr_created_at :: time

record job =
  j_id :: uuid
  j_tenant_id :: tenant
  j_asset_id :: uuid
  j_asset_name :: string
  j_idempotency_key :: string
  j_state :: string
  j_execution_strategy :: string
  j_partition_start :: "string option"
  j_partition_end :: "string option"
  j_partition_keys :: "string list"
  j_total_partitions :: int
  j_completed_partitions :: int
  j_failed_partitions :: int
  j_skipped_partitions :: int
  j_include_upstream :: bool
  j_error_message :: "string option"
  j_created_by :: "string option"
  j_created_at :: time
  j_started_at :: "time option"
  j_completed_at :: "time option"
  j_heartbeat_at :: "time option"
  j_version :: int
  j_paused_at :: "time option"
  j_checkpoint_partition_key :: "string option"
  j_estimated_completion_at :: "time option"
  j_avg_partition_duration_ms :: "int option"
  j_parent_job_id :: "uuid option"
  j_max_upstream_depth :: int
  j_upstream_job_count :: int
  j_completed_upstream_jobs :: int
  j_execution_order :: int
  j_sla_deadline_at :: "time option"
  j_priority :: int

record part =
  bp_id :: uuid
  bp_job_id :: uuid
  bp_key :: string
  bp_state :: string
  bp_attempt_count :: int
  bp_execution_id :: "uuid option"
  bp_error_message :: "string option"
  bp_duration_ms :: "int option"
  bp_started_at :: "time option"
  bp_completed_at :: "time option"
  bp_tenant_id :: tenant

record check_row =
  ck_id :: uuid
  ck_name :: string
  ck_description :: "string option"
  ck_asset_id :: uuid
  ck_check_type :: string
  ck_severity :: string
  ck_blocking :: bool
  ck_enabled :: bool
  ck_tags :: "string list"
  ck_owner :: "string option"
  ck_tenant_id :: "tenant option"
  ck_created_at :: time
  ck_updated_at :: time

record check_result_row =
  cr_id :: uuid
  cr_check_id :: uuid
  cr_execution_id :: uuid
  cr_asset_id :: uuid
  cr_outcome :: string
  cr_severity :: string
  cr_blocking :: bool
  cr_failed_row_count :: "int option"
  cr_total_row_count :: "int option"
  cr_error_message :: "string option"
  cr_failed_samples :: "string option"
  cr_duration_ms :: int
  cr_executed_at :: time
  cr_metadata :: "string option"
  cr_tenant_id :: "tenant option"

text \<open>The join table of migration 005, which the code reads and nothing in the repository fills.\<close>

record workflow_asset_row =
  wa_workflow_id :: uuid
  wa_asset_id :: uuid
  wa_position :: int

record db =
  t_assets :: "asset_row list"
  t_workflows :: "workflow_row list"
  t_executions :: "execution_row list"
  t_dependencies :: "dependency_row list"
  t_jobs :: "job list"
  t_parts :: "part list"
  t_checks :: "check_row list"
  t_check_results :: "check_result_row list"
  t_workflow_assets :: "workflow_asset_row list"

definition empty_db :: db where
  "empty_db = \<lparr>t_assets = [], t_workflows = [], t_executions = [], t_dependencies = [],
               t_jobs = [], t_parts = [], t_checks = [], t_check_results = [], t_workflow_assets = []\<rparr>"

section \<open>Constraints\<close>

definition backfill_states :: "string list" where
  "backfill_states = [''pending'', ''waiting_upstream'', ''running'', ''paused'', ''resuming'',
     ''completed'', ''failed'', ''cancelled'']"

definition partition_states :: "string list" where
  "partition_states = [''pending'', ''running'', ''completed'', ''failed'', ''skipped'']"

text \<open>\<open>backfill_jobs\<close>: migrations 007, 009, 010 and 011.\<close>

definition job_check :: "job \<Rightarrow> sqlx_error option" where
  "job_check j = violated
     [(list_all int4 [j_version j, j_completed_upstream_jobs j, j_upstream_job_count j], out_of_range),
      (j_state j \<in> set backfill_states, check_violation ''valid_backfill_state''),
      (0 \<le> j_upstream_job_count j \<and> 0 \<le> j_completed_upstream_jobs j \<and>
         j_completed_upstream_jobs j \<le> j_upstream_job_count j, check_violation ''valid_upstream_counts''),
      (0 \<le> j_max_upstream_depth j \<and> j_max_upstream_depth j \<le> 10,
         check_violation ''valid_upstream_depth''),
      (- 10 \<le> j_priority j \<and> j_priority j \<le> 10, check_violation ''valid_priority'')]"

definition job_insert_check :: "tenant \<Rightarrow> job \<Rightarrow> sqlx_error option" where
  "job_insert_check t j =
     (if j_tenant_id j \<noteq> t then Some (rls_violation ''backfill_jobs'') else job_check j)"

definition job_keys :: "(string \<times> (job \<Rightarrow> job \<Rightarrow> bool)) list" where
  "job_keys =
     [(''backfill_jobs_pkey'', \<lambda>j k. j_id j = j_id k),
      (''backfill_jobs_tenant_id_idempotency_key_key'',
       \<lambda>j k. j_tenant_id j = j_tenant_id k \<and> j_idempotency_key j = j_idempotency_key k)]"

definition job_fk :: "db \<Rightarrow> job \<Rightarrow> sqlx_error option" where
  "job_fk db j = violated
     [(list_ex (\<lambda>a. ar_id a = j_asset_id j) (t_assets db),
         fk_violation ''backfill_jobs_asset_id_fkey''),
      (case j_parent_job_id j of None \<Rightarrow> True | Some p \<Rightarrow> list_ex (\<lambda>k. j_id k = p) (t_jobs db @ [j]),
         fk_violation ''backfill_jobs_parent_job_id_fkey'')]"

text \<open>\<open>backfill_partitions\<close>: migration 007.\<close>

definition execution_exists :: "db \<Rightarrow> uuid option \<Rightarrow> bool" where
  "execution_exists db x =
     (case x of None \<Rightarrow> True | Some i \<Rightarrow> list_ex (\<lambda>e. x_id e = i) (t_executions db))"

definition part_check :: "part \<Rightarrow> sqlx_error option" where
  "part_check p = violated
     [(int4 (bp_attempt_count p), out_of_range),
      (bp_state p \<in> set partition_states, check_violation ''valid_partition_state'')]"

definition part_insert_check :: "tenant \<Rightarrow> part \<Rightarrow> sqlx_error option" where
  "part_insert_check t p =
     (if bp_tenant_id p \<noteq> t then Some (rls_violation ''backfill_partitions'') else part_check p)"

definition part_keys :: "(string \<times> (part \<Rightarrow> part \<Rightarrow> bool)) list" where
  "part_keys =
     [(''backfill_partitions_pkey'', \<lambda>p q. bp_id p = bp_id q),
      (''backfill_partitions_backfill_job_id_partition_key_key'',
       \<lambda>p q. bp_job_id p = bp_job_id q \<and> bp_key p = bp_key q)]"

definition part_execution_fk :: "db \<Rightarrow> part \<Rightarrow> sqlx_error option" where
  "part_execution_fk db p =
     (if execution_exists db (bp_execution_id p) then None
      else Some (fk_violation ''backfill_partitions_execution_id_fkey''))"

definition part_update_check :: "db \<Rightarrow> part \<Rightarrow> sqlx_error option" where
  "part_update_check db p =
     (case part_check p of Some e \<Rightarrow> Some e | None \<Rightarrow> part_execution_fk db p)"

definition part_fk :: "db \<Rightarrow> part \<Rightarrow> sqlx_error option" where
  "part_fk db p =
     (if list_ex (\<lambda>j. j_id j = bp_job_id p) (t_jobs db) then part_execution_fk db p
      else Some (fk_violation ''backfill_partitions_backfill_job_id_fkey''))"

lemmas constraint_defs =
  job_check_def job_insert_check_def job_fk_def part_check_def part_insert_check_def part_fk_def
  part_execution_fk_def

text \<open>A row whose constrained columns are those of a row that passes the check passes it too.\<close>

lemma job_check_None: "job_check j = None \<longleftrightarrow>
    int4 (j_version j) \<and> int4 (j_completed_upstream_jobs j) \<and> int4 (j_upstream_job_count j) \<and>
    j_state j \<in> set backfill_states \<and>
    0 \<le> j_completed_upstream_jobs j \<and> j_completed_upstream_jobs j \<le> j_upstream_job_count j \<and>
    0 \<le> j_max_upstream_depth j \<and> j_max_upstream_depth j \<le> 10 \<and>
    - 10 \<le> j_priority j \<and> j_priority j \<le> 10"
  by (auto simp: job_check_def violated_None)

lemma part_update_check_None:
  "part_update_check db p = None \<longleftrightarrow> part_check p = None \<and> part_execution_fk db p = None"
  by (simp add: part_update_check_def split: option.split)

lemma part_check_None: "part_check p = None \<longleftrightarrow>
    int4 (bp_attempt_count p) \<and> bp_state p \<in> set partition_states"
  by (auto simp: part_check_def violated_None)

end
