(* ===== verification/BackfillStore.thy ===== *)
theory BackfillStore
  imports Tables
begin

text \<open>
  The backfill operations of \<open>servo-storage/src/postgres.rs\<close>, one definition each: the SQL
  statements of the operation, in order, inside \<open>with_tenant_context\<close>. Instants are in
  milliseconds. Row order by a text column is the order of the characters (the C collation).
  A row that another transaction holds locked is skipped by the two claims
  (\<open>FOR UPDATE SKIP LOCKED\<close>).
\<close>

section \<open>Statements on the two tables\<close>

definition update_jobs :: "call \<Rightarrow> (job \<Rightarrow> bool) \<Rightarrow> (job \<Rightarrow> job) \<Rightarrow> (nat, db) tx" where
  "update_jobs c p f db =
     (case stmt_update (\<lambda>j. j_tenant_id j = tenant c \<and> p j) f job_check (t_jobs db) of
        Inl e \<Rightarrow> Inl e
      | Inr (n, js) \<Rightarrow> Inr (n, db\<lparr>t_jobs := js\<rparr>))"

definition update_parts :: "call \<Rightarrow> (part \<Rightarrow> bool) \<Rightarrow> (part \<Rightarrow> part) \<Rightarrow> (nat, db) tx" where
  "update_parts c p f db =
     (case stmt_update (\<lambda>q. bp_tenant_id q = tenant c \<and> p q) f
             (part_update_check db) (t_parts db) of
        Inl e \<Rightarrow> Inl e
      | Inr (n, ps) \<Rightarrow> Inr (n, db\<lparr>t_parts := ps\<rparr>))"

definition insert_job :: "call \<Rightarrow> job \<Rightarrow> (unit, db) tx" where
  "insert_job c j db =
     (case stmt_insert (job_insert_check (tenant c)) job_keys (job_fk db) j (t_jobs db) of
        Inl e \<Rightarrow> Inl e
      | Inr js \<Rightarrow> Inr ((), db\<lparr>t_jobs := js\<rparr>))"

definition insert_part :: "call \<Rightarrow> part \<Rightarrow> (unit, db) tx" where
  "insert_part c p db =
     (case stmt_insert (part_insert_check (tenant c)) part_keys (part_fk db) p (t_parts db) of
        Inl e \<Rightarrow> Inl e
      | Inr ps \<Rightarrow> Inr ((), db\<lparr>t_parts := ps\<rparr>))"

definition my_jobs :: "call \<Rightarrow> db \<Rightarrow> job list" where
  "my_jobs c db = filter (\<lambda>j. j_tenant_id j = tenant c) (t_jobs db)"

definition my_parts :: "call \<Rightarrow> db \<Rightarrow> part list" where
  "my_parts c db = filter (\<lambda>p. bp_tenant_id p = tenant c) (t_parts db)"

definition find_job :: "call \<Rightarrow> uuid \<Rightarrow> db \<Rightarrow> job option" where
  "find_job c i db = find (\<lambda>j. j_id j = i) (my_jobs c db)"

definition row_not_found :: storage_error where
  "row_not_found = Database (OtherDb ''no rows returned by a query that expected to return at least one row'')"

text \<open>A statement that must hit a row, and one whose count is not looked at.\<close>

definition must_hit :: "(nat, db) tx \<Rightarrow> string \<Rightarrow> (unit, db) tx" where
  "must_hit f msg = tx_bind f (\<lambda>n. if n = 0 then tx_fail (NotFound msg) else tx_return ())"

definition run_stmt :: "(nat, db) tx \<Rightarrow> (unit, db) tx" where
  "run_stmt f = tx_bind f (\<lambda>_. tx_return ())"

section \<open>Validation\<close>

definition validate_backfill_state :: "string \<Rightarrow> storage_error + unit" where
  "validate_backfill_state s =
     (if s \<in> {''pending'', ''waiting_upstream'', ''running'', ''paused'', ''resuming'', ''completed'',
              ''failed'', ''cancelled''}
      then Inr () else Inl (ValidationError (''Invalid backfill state: '' @ s)))"

definition validate_partition_state :: "string \<Rightarrow> storage_error + unit" where
  "validate_partition_state s =
     (if s \<in> {''pending'', ''running'', ''completed'', ''failed'', ''skipped''}
      then Inr () else Inl (ValidationError (''Invalid partition state: '' @ s)))"

definition backfill_transitions :: "(string \<times> string) list" where
  "backfill_transitions =
     [(''pending'', ''running''), (''pending'', ''waiting_upstream''), (''pending'', ''cancelled''),
      (''waiting_upstream'', ''pending''), (''waiting_upstream'', ''failed''),
      (''waiting_upstream'', ''cancelled''), (''running'', ''waiting_upstream''),
      (''running'', ''completed''), (''running'', ''failed''), (''running'', ''cancelled''),
      (''running'', ''paused''), (''paused'', ''resuming''), (''paused'', ''cancelled''),
      (''resuming'', ''running''), (''resuming'', ''cancelled'')]"

definition validate_backfill_state_transition :: "string \<Rightarrow> string \<Rightarrow> storage_error + unit" where
  "validate_backfill_state_transition from to =
     (if (from, to) \<in> set backfill_transitions then Inr ()
      else Inl (ValidationError
             (''Invalid backfill state transition: '' @ from @ '' -> '' @ to)))"

section \<open>Jobs: create, read, update\<close>

definition create_backfill_job :: "call \<Rightarrow> job \<Rightarrow> db \<Rightarrow> (unit, db) outcome" where
  "create_backfill_job c j =
     checked [validate_non_empty_string (j_asset_name j) ''Asset name'',
              validate_non_empty_string (j_idempotency_key j) ''Idempotency key'',
              validate_backfill_state (j_state j)]
       (with_tenant_context c
          (insert_job c (j\<lparr>j_paused_at := None, j_checkpoint_partition_key := None,
                           j_estimated_completion_at := None, j_avg_partition_duration_ms := None\<rparr>)))"

definition get_backfill_job :: "call \<Rightarrow> uuid \<Rightarrow> db \<Rightarrow> (job, db) outcome" where
  "get_backfill_job c i =
     with_tenant_context c (\<lambda>db. case find_job c i db of
        None \<Rightarrow> Inl (NotFound (''Backfill job '' @ i))
      | Some j \<Rightarrow> Inr (j, db))"

definition update_backfill_job :: "call \<Rightarrow> job \<Rightarrow> db \<Rightarrow> (unit, db) outcome" where
  "update_backfill_job c j =
     checked [validate_backfill_state (j_state j)]
       (with_tenant_context c
          (must_hit
             (update_jobs c (\<lambda>k. j_id k = j_id j \<and> j_version k = j_version j)
                (\<lambda>k. k\<lparr>j_state := j_state j, j_completed_partitions := j_completed_partitions j,
                       j_failed_partitions := j_failed_partitions j,
                       j_skipped_partitions := j_skipped_partitions j,
                       j_error_message := j_error_message j, j_started_at := j_started_at j,
                       j_completed_at := j_completed_at j, j_heartbeat_at := j_heartbeat_at j,
                       j_version := j_version k + 1\<rparr>))
             (''Backfill job '' @ j_id j @ '' (version '' @ show_int (j_version j) @ '')'')))"

definition list_backfill_jobs ::
  "call \<Rightarrow> string option \<Rightarrow> int \<Rightarrow> int \<Rightarrow> db \<Rightarrow> (job list, db) outcome" where
  "list_backfill_jobs c state_filter limit offset =
     checked [validate_pagination_params limit offset,
              case state_filter of None \<Rightarrow> Inr () | Some s \<Rightarrow> validate_backfill_state s]
       (with_tenant_context c (\<lambda>db.
          Inr (page limit offset
                 (stmt_select (\<lambda>j. - j_created_at j)
                    (\<lambda>j. case state_filter of None \<Rightarrow> True | Some s \<Rightarrow> j_state j = s)
                    (my_jobs c db)), db)))"

section \<open>Claims\<close>

definition claimable :: "call \<Rightarrow> int \<Rightarrow> job \<Rightarrow> bool" where
  "claimable c stale_secs j \<longleftrightarrow>
     j_state j = ''pending'' \<or> j_state j = ''resuming'' \<or>
     (j_state j = ''running'' \<and>
      (case j_heartbeat_at j of None \<Rightarrow> False | Some h \<Rightarrow> h < now c - stale_secs * 1000))"

definition claim_order :: "job \<Rightarrow> nat \<times> int \<times> int \<times> time" where
  "claim_order j =
     (if j_state j = ''pending'' then 0 else if j_state j = ''resuming'' then 1 else 2,
      - j_priority j, j_execution_order j, j_created_at j)"

text \<open>
  The update of the claimed row: \<open>old\<close> is the row as selected, \<open>j\<close> the row being updated.
\<close>

definition claim_job_row :: "call \<Rightarrow> job \<Rightarrow> job \<Rightarrow> job" where
  "claim_job_row c old j =
     j\<lparr>j_state := (if j_state old = ''pending'' \<or> j_state old = ''resuming'' then ''running''
                   else j_state old),
       j_started_at := coalesce (if j_state old = ''pending'' then Some (now c) else j_started_at old)
                         (j_started_at j),
       j_heartbeat_at := Some (now c),
       j_paused_at := (if j_state old = ''resuming'' then None else j_paused_at j),
       j_error_message :=
         (if j_state old = ''running'' \<and> j_state j = ''running''
          then Some ''Reclaimed by executor after stale heartbeat'' else j_error_message j),
       j_version := j_version j + 1\<rparr>"

definition claim_pending_backfill_job :: "call \<Rightarrow> int \<Rightarrow> db \<Rightarrow> (job option, db) outcome" where
  "claim_pending_backfill_job c stale_secs =
     with_tenant_context c (\<lambda>db.
       case first_min claim_order (\<lambda>j. claimable c stale_secs j \<and> j_id j \<notin> set (locked c))
              (my_jobs c db) of
         None \<Rightarrow> Inr (None, db)
       | Some job \<Rightarrow>
           tx_bind (update_jobs c (\<lambda>j. j_id j = j_id job) (claim_job_row c job))
             (\<lambda>_ db'. case find_job c (j_id job) db' of
                None \<Rightarrow> Inl row_not_found
              | Some updated \<Rightarrow> Inr (Some updated, db')) db)"

definition part_claimable :: "uuid \<Rightarrow> int \<Rightarrow> part \<Rightarrow> bool" where
  "part_claimable job_id max_retries p \<longleftrightarrow>
     bp_job_id p = job_id \<and>
     (bp_state p = ''pending'' \<or> (bp_state p = ''failed'' \<and> bp_attempt_count p < max_retries))"

definition part_claim_order :: "part \<Rightarrow> nat \<times> string" where
  "part_claim_order p = (if bp_state p = ''pending'' then 0 else 1, bp_key p)"

definition claim_part_row :: "call \<Rightarrow> part \<Rightarrow> part" where
  "claim_part_row c p =
     p\<lparr>bp_state := ''running'', bp_started_at := Some (now c),
       bp_attempt_count := bp_attempt_count p + 1, bp_error_message := None\<rparr>"

definition claim_pending_partition :: "call \<Rightarrow> uuid \<Rightarrow> int \<Rightarrow> db \<Rightarrow> (part option, db) outcome" where
  "claim_pending_partition c job_id max_retries =
     with_tenant_context c (\<lambda>db.
       case first_min part_claim_order (\<lambda>p. part_claimable job_id max_retries p \<and> bp_id p \<notin> set (locked c))
              (my_parts c db) of
         None \<Rightarrow> Inr (None, db)
       | Some p \<Rightarrow>
           tx_bind (update_parts c (\<lambda>q. bp_id q = bp_id p) (claim_part_row c))
             (\<lambda>_ db'. case find (\<lambda>q. bp_id q = bp_id p) (my_parts c db') of
                None \<Rightarrow> Inl row_not_found
              | Some updated \<Rightarrow> Inr (Some updated, db')) db)"

section \<open>Partitions\<close>

definition create_backfill_partition :: "call \<Rightarrow> part \<Rightarrow> db \<Rightarrow> (unit, db) outcome" where
  "create_backfill_partition c p =
     checked [validate_non_empty_string (bp_key p) ''Partition key'', validate_partition_state (bp_state p)]
       (with_tenant_context c (insert_part c p))"

fun insert_parts :: "call \<Rightarrow> part list \<Rightarrow> (unit, db) tx" where
  "insert_parts c [] = tx_return ()"
| "insert_parts c (p # ps) = tx_bind (insert_part c p) (\<lambda>_. insert_parts c ps)"

definition create_backfill_partitions_batch :: "call \<Rightarrow> part list \<Rightarrow> db \<Rightarrow> (unit, db) outcome" where
  "create_backfill_partitions_batch c ps db =
     (if ps = [] then (Inr (), db)
      else checked (concat (map (\<lambda>p. [validate_non_empty_string (bp_key p) ''Partition key'',
                                      validate_partition_state (bp_state p)]) ps))
             (with_tenant_context c (insert_parts c ps)) db)"

definition update_backfill_partition :: "call \<Rightarrow> part \<Rightarrow> db \<Rightarrow> (unit, db) outcome" where
  "update_backfill_partition c p =
     checked [validate_partition_state (bp_state p)]
       (with_tenant_context c
          (must_hit
             (update_parts c (\<lambda>q. bp_id q = bp_id p)
                (\<lambda>q. q\<lparr>bp_state := bp_state p, bp_attempt_count := bp_attempt_count p,
                       bp_execution_id := bp_execution_id p, bp_error_message := bp_error_message p,
                       bp_duration_ms := bp_duration_ms p, bp_started_at := bp_started_at p,
                       bp_completed_at := bp_completed_at p\<rparr>))
             (''Backfill partition '' @ bp_id p)))"

definition list_backfill_partitions :: "call \<Rightarrow> uuid \<Rightarrow> db \<Rightarrow> (part list, db) outcome" where
  "list_backfill_partitions c job_id =
     with_tenant_context c (\<lambda>db. Inr (stmt_select bp_key (\<lambda>p. bp_job_id p = job_id) (my_parts c db), db))"

definition get_failed_backfill_partitions :: "call \<Rightarrow> uuid \<Rightarrow> db \<Rightarrow> (part list, db) outcome" where
  "get_failed_backfill_partitions c job_id =
     with_tenant_context c (\<lambda>db.
       Inr (stmt_select bp_key (\<lambda>p. bp_job_id p = job_id \<and> bp_state p = ''failed'') (my_parts c db), db))"

text \<open>The join is over the rows of both tables the tenant can see.\<close>

definition is_partition_completed :: "call \<Rightarrow> uuid \<Rightarrow> string \<Rightarrow> db \<Rightarrow> (bool, db) outcome" where
  "is_partition_completed c asset_id key =
     with_tenant_context c (\<lambda>db.
       Inr (list_ex (\<lambda>p. list_ex (\<lambda>j. bp_job_id p = j_id j \<and> j_asset_id j = asset_id) (my_jobs c db) \<and>
                        bp_key p = key \<and> bp_state p = ''completed'') (my_parts c db), db))"

definition transition_backfill_partition_state ::
  "call \<Rightarrow> uuid \<Rightarrow> string \<Rightarrow> string \<Rightarrow> string option \<Rightarrow> db \<Rightarrow> (unit, db) outcome" where
  "transition_backfill_partition_state c i from to err =
     with_tenant_context c
       (must_hit
          (update_parts c (\<lambda>q. bp_id q = i \<and> bp_state q = from)
             (\<lambda>q. q\<lparr>bp_state := to, bp_error_message := coalesce err (bp_error_message q),
                    bp_started_at := coalesce (if to = ''running'' then Some (now c) else None)
                                       (bp_started_at q),
                    bp_attempt_count := bp_attempt_count q + (if to = ''running'' then 1 else 0)\<rparr>))
          (''Backfill partition '' @ i @ '' not found in state '' @ quoted from))"

definition complete_backfill_partition ::
  "call \<Rightarrow> uuid \<Rightarrow> uuid option \<Rightarrow> int \<Rightarrow> db \<Rightarrow> (unit, db) outcome" where
  "complete_backfill_partition c i exec duration =
     with_tenant_context c
       (must_hit
          (update_parts c (\<lambda>q. bp_id q = i \<and> bp_state q = ''running'')
             (\<lambda>q. q\<lparr>bp_state := ''completed'', bp_execution_id := exec,
                    bp_duration_ms := Some duration, bp_completed_at := Some (now c)\<rparr>))
          (''Backfill partition '' @ i @ '' not found in running state''))"

definition fail_backfill_partition :: "call \<Rightarrow> uuid \<Rightarrow> string \<Rightarrow> int \<Rightarrow> db \<Rightarrow> (unit, db) outcome" where
  "fail_backfill_partition c i err duration =
     with_tenant_context c
       (must_hit
          (update_parts c (\<lambda>q. bp_id q = i \<and> bp_state q = ''running'')
             (\<lambda>q. q\<lparr>bp_state := ''failed'', bp_error_message := Some err,
                    bp_duration_ms := Some duration, bp_completed_at := Some (now c)\<rparr>))
          (''Backfill partition '' @ i @ '' not found in running state''))"

definition requeue_backfill_partition :: "call \<Rightarrow> uuid \<Rightarrow> db \<Rightarrow> (unit, db) outcome" where
  "requeue_backfill_partition c i =
     with_tenant_context c
       (must_hit
          (update_parts c (\<lambda>q. bp_id q = i \<and> bp_state q = ''running'')
             (\<lambda>q. q\<lparr>bp_state := ''pending'', bp_started_at := None\<rparr>))
          (''Backfill partition '' @ i @ '' not found in running state''))"

section \<open>Jobs: lookup and state changes\<close>

definition find_backfill_job_by_idempotency_key :: "call \<Rightarrow> string \<Rightarrow> db \<Rightarrow> (job option, db) outcome" where
  "find_backfill_job_by_idempotency_key c key =
     with_tenant_context c (\<lambda>db. Inr (find (\<lambda>j. j_idempotency_key j = key) (my_jobs c db), db))"

definition active_states :: "string set" where
  "active_states = {''pending'', ''waiting_upstream'', ''running'', ''paused'', ''resuming''}"

definition find_active_backfill_for_partition ::
  "call \<Rightarrow> uuid \<Rightarrow> string \<Rightarrow> db \<Rightarrow> (job option, db) outcome" where
  "find_active_backfill_for_partition c asset_id key =
     with_tenant_context c (\<lambda>db.
       Inr (first_min (\<lambda>j. - j_created_at j)
              (\<lambda>j. j_asset_id j = asset_id \<and> j_state j \<in> active_states \<and> key \<in> set (j_partition_keys j))
              (my_jobs c db), db))"

definition terminal_states :: "string set" where
  "terminal_states = {''completed'', ''failed'', ''cancelled''}"

definition transition_backfill_job_state ::
  "call \<Rightarrow> uuid \<Rightarrow> string \<Rightarrow> string \<Rightarrow> string option \<Rightarrow> db \<Rightarrow> (unit, db) outcome" where
  "transition_backfill_job_state c i from to err =
     checked [validate_backfill_state from, validate_backfill_state to,
              validate_backfill_state_transition from to]
       (with_tenant_context c
          (must_hit
             (update_jobs c (\<lambda>j. j_id j = i \<and> j_state j = from)
                (\<lambda>j. j\<lparr>j_state := to, j_error_message := coalesce err (j_error_message j),
                       j_started_at := coalesce (if to = ''running'' then Some (now c) else None)
                                         (j_started_at j),
                       j_completed_at := coalesce (if to \<in> terminal_states then Some (now c) else None)
                                           (j_completed_at j),
                       j_heartbeat_at := Some (now c), j_version := j_version j + 1\<rparr>))
             (''Backfill job '' @ i @ '' not found in state '' @ quoted from)))"

text \<open>The state of a job under \<open>FOR UPDATE\<close>, which pause, resume and cancel read first.\<close>

definition with_job :: "call \<Rightarrow> uuid \<Rightarrow> (job \<Rightarrow> ('a, db) tx) \<Rightarrow> ('a, db) tx" where
  "with_job c i f db =
     (case find_job c i db of
        None \<Rightarrow> Inl (NotFound (''Backfill job '' @ i @ '' not found''))
      | Some j \<Rightarrow> f j db)"

definition cancel_backfill_job :: "call \<Rightarrow> uuid \<Rightarrow> string option \<Rightarrow> db \<Rightarrow> (unit, db) outcome" where
  "cancel_backfill_job c i reason =
     with_tenant_context c (with_job c i (\<lambda>job.
       if j_state job \<notin> active_states
       then tx_fail (ValidationError (''Cannot cancel job in state '' @ quoted (j_state job) @
              ''. Only pending, waiting_upstream, running, paused, or resuming jobs can be cancelled.''))
       else tx_bind (run_stmt (update_jobs c (\<lambda>j. j_id j = i)
                (\<lambda>j. j\<lparr>j_state := ''cancelled'',
                       j_error_message := Some (case reason of None \<Rightarrow> ''Cancelled by user'' | Some r \<Rightarrow> r),
                       j_completed_at := Some (now c), j_version := j_version j + 1\<rparr>)))
              (\<lambda>_. run_stmt (update_parts c (\<lambda>p. bp_job_id p = i \<and> bp_state p = ''pending'')
                (\<lambda>p. p\<lparr>bp_state := ''skipped'', bp_completed_at := Some (now c),
                       bp_error_message := Some ''Job cancelled''\<rparr>)))))"

definition is_backfill_job_cancelled :: "call \<Rightarrow> uuid \<Rightarrow> db \<Rightarrow> (bool, db) outcome" where
  "is_backfill_job_cancelled c i =
     with_tenant_context c (\<lambda>db.
       Inr (case find_job c i db of None \<Rightarrow> False | Some j \<Rightarrow> j_state j = ''cancelled'', db))"

definition is_backfill_job_paused :: "call \<Rightarrow> uuid \<Rightarrow> db \<Rightarrow> (bool, db) outcome" where
  "is_backfill_job_paused c i =
     with_tenant_context c (\<lambda>db.
       Inr (case find_job c i db of None \<Rightarrow> False | Some j \<Rightarrow> j_state j = ''paused'', db))"

text \<open>\<open>ORDER BY completed_at DESC\<close> puts the rows without a completion time first.\<close>

definition last_completed :: "call \<Rightarrow> uuid \<Rightarrow> db \<Rightarrow> string option" where
  "last_completed c i db =
     map_option bp_key
       (first_min (\<lambda>p. case bp_completed_at p of None \<Rightarrow> (0::nat, 0) | Some t \<Rightarrow> (1, - t))
          (\<lambda>p. bp_job_id p = i \<and> bp_state p = ''completed'') (my_parts c db))"

definition pause_backfill_job :: "call \<Rightarrow> uuid \<Rightarrow> db \<Rightarrow> (unit, db) outcome" where
  "pause_backfill_job c i =
     with_tenant_context c (with_job c i (\<lambda>job.
       if j_state job \<noteq> ''running''
       then tx_fail (ValidationError (''Cannot pause job in state '' @ quoted (j_state job) @
              ''. Only running jobs can be paused.''))
       else (\<lambda>db. run_stmt (update_jobs c (\<lambda>j. j_id j = i)
              (\<lambda>j. j\<lparr>j_state := ''paused'', j_paused_at := Some (now c),
                     j_checkpoint_partition_key :=
                       coalesce (last_completed c i db) (j_checkpoint_partition_key j),
                     j_heartbeat_at := Some (now c), j_version := j_version j + 1\<rparr>)) db)))"

definition resume_backfill_job :: "call \<Rightarrow> uuid \<Rightarrow> db \<Rightarrow> (unit, db) outcome" where
  "resume_backfill_job c i =
     with_tenant_context c (with_job c i (\<lambda>job.
       if j_state job \<noteq> ''paused''
       then tx_fail (ValidationError (''Cannot resume job in state '' @ quoted (j_state job) @
              ''. Only paused jobs can be resumed.''))
       else run_stmt (update_jobs c (\<lambda>j. j_id j = i)
              (\<lambda>j. j\<lparr>j_state := ''resuming'', j_heartbeat_at := Some (now c),
                     j_version := j_version j + 1\<rparr>))))"

definition update_backfill_job_heartbeat :: "call \<Rightarrow> uuid \<Rightarrow> db \<Rightarrow> (unit, db) outcome" where
  "update_backfill_job_heartbeat c i =
     with_tenant_context c
       (run_stmt (update_jobs c (\<lambda>j. j_id j = i \<and> j_state j = ''running'')
          (\<lambda>j. j\<lparr>j_heartbeat_at := Some (now c)\<rparr>)))"

definition update_backfill_job_progress ::
  "call \<Rightarrow> uuid \<Rightarrow> int \<Rightarrow> int \<Rightarrow> int \<Rightarrow> db \<Rightarrow> (unit, db) outcome" where
  "update_backfill_job_progress c i done failed skipped =
     with_tenant_context c
       (run_stmt (update_jobs c (\<lambda>j. j_id j = i \<and> j_state j = ''running'')
          (\<lambda>j. j\<lparr>j_completed_partitions := done, j_failed_partitions := failed,
                 j_skipped_partitions := skipped, j_heartbeat_at := Some (now c)\<rparr>)))"

record progress_update =
  pu_completed :: int
  pu_failed :: int
  pu_skipped :: int
  pu_avg_partition_duration_ms :: "int option"
  pu_estimated_completion_at :: "time option"
  pu_checkpoint_partition_key :: "string option"

definition update_backfill_job_progress_with_eta ::
  "call \<Rightarrow> uuid \<Rightarrow> progress_update \<Rightarrow> db \<Rightarrow> (unit, db) outcome" where
  "update_backfill_job_progress_with_eta c i u =
     with_tenant_context c
       (run_stmt (update_jobs c (\<lambda>j. j_id j = i \<and> j_state j = ''running'')
          (\<lambda>j. j\<lparr>j_completed_partitions := pu_completed u, j_failed_partitions := pu_failed u,
                 j_skipped_partitions := pu_skipped u, j_heartbeat_at := Some (now c),
                 j_avg_partition_duration_ms :=
                   coalesce (pu_avg_partition_duration_ms u) (j_avg_partition_duration_ms j),
                 j_estimated_completion_at := pu_estimated_completion_at u,
                 j_checkpoint_partition_key :=
                   coalesce (pu_checkpoint_partition_key u) (j_checkpoint_partition_key j)\<rparr>)))"

section \<open>Upstream propagation\<close>

record upstream_jobs_summary =
  us_total :: nat
  us_completed :: nat
  us_failed :: nat
  us_running :: nat
  us_pending :: nat

definition child_of :: "uuid \<Rightarrow> job \<Rightarrow> bool" where
  "child_of p j \<longleftrightarrow> j_parent_job_id j = Some p"

definition get_upstream_jobs_summary :: "call \<Rightarrow> uuid \<Rightarrow> db \<Rightarrow> (upstream_jobs_summary, db) outcome" where
  "get_upstream_jobs_summary c parent =
     with_tenant_context c (\<lambda>db.
       let n = (\<lambda>q. hits (\<lambda>j. child_of parent j \<and> q (j_state j)) (my_jobs c db)) in
       Inr (\<lparr>us_total = n (\<lambda>_. True), us_completed = n (\<lambda>s. s = ''completed''),
             us_failed = n (\<lambda>s. s = ''failed''), us_running = n (\<lambda>s. s = ''running''),
             us_pending = n (\<lambda>s. s \<in> {''pending'', ''waiting_upstream'', ''paused'', ''resuming''})\<rparr>, db))"

definition are_upstream_jobs_complete :: "call \<Rightarrow> uuid \<Rightarrow> db \<Rightarrow> (bool, db) outcome" where
  "are_upstream_jobs_complete c parent =
     with_tenant_context c (\<lambda>db.
       let total = hits (child_of parent) (my_jobs c db);
           completed = hits (\<lambda>j. child_of parent j \<and> j_state j = ''completed'') (my_jobs c db) in
       Inr (total = 0 \<or> total = completed, db))"

definition get_child_backfill_jobs :: "call \<Rightarrow> uuid \<Rightarrow> db \<Rightarrow> (job list, db) outcome" where
  "get_child_backfill_jobs c parent =
     with_tenant_context c (\<lambda>db. Inr (stmt_select j_execution_order (child_of parent) (my_jobs c db), db))"

definition increment_completed_upstream :: "call \<Rightarrow> uuid \<Rightarrow> db \<Rightarrow> (unit, db) outcome" where
  "increment_completed_upstream c parent =
     with_tenant_context c
       (must_hit
          (update_jobs c (\<lambda>j. j_id j = parent)
             (\<lambda>j. j\<lparr>j_completed_upstream_jobs := j_completed_upstream_jobs j + 1,
                    j_version := j_version j + 1\<rparr>))
          (''Parent backfill job '' @ parent @ '' not found''))"

definition cancel_job_tree :: "call \<Rightarrow> uuid \<Rightarrow> string \<Rightarrow> db \<Rightarrow> (nat, db) outcome" where
  "cancel_job_tree c root reason =
     with_tenant_context c
       (tx_bind
          (update_jobs c (\<lambda>j. (j_id j = root \<or> child_of root j) \<and> j_state j \<in> active_states)
             (\<lambda>j. j\<lparr>j_state := ''cancelled'', j_error_message := Some reason,
                    j_completed_at := Some (now c), j_version := j_version j + 1\<rparr>))
          (\<lambda>n db. tx_bind (run_stmt
             (update_parts c
                (\<lambda>p. list_ex (\<lambda>j. j_id j = bp_job_id p \<and> (j_id j = root \<or> child_of root j)) (my_jobs c db) \<and>
                     bp_state p = ''pending'')
                (\<lambda>p. p\<lparr>bp_state := ''skipped'', bp_completed_at := Some (now c),
                       bp_error_message := Some ''Job tree cancelled''\<rparr>)))
             (\<lambda>_. tx_return n) db))"

definition try_transition_parent_to_pending :: "call \<Rightarrow> uuid \<Rightarrow> db \<Rightarrow> (bool, db) outcome" where
  "try_transition_parent_to_pending c parent =
     with_tenant_context c
       (tx_bind
          (update_jobs c
             (\<lambda>j. j_id j = parent \<and> j_state j = ''waiting_upstream'' \<and> j_upstream_job_count j > 0 \<and>
                  j_completed_upstream_jobs j \<ge> j_upstream_job_count j)
             (\<lambda>j. j\<lparr>j_state := ''pending'', j_version := j_version j + 1\<rparr>))
          (\<lambda>n. tx_return (n > 0)))"

definition fail_parent_on_child_failure ::
  "call \<Rightarrow> uuid \<Rightarrow> uuid \<Rightarrow> string \<Rightarrow> db \<Rightarrow> (bool, db) outcome" where
  "fail_parent_on_child_failure c parent child asset_name =
     with_tenant_context c
       (tx_bind
          (update_jobs c (\<lambda>j. j_id j = parent \<and> j_state j = ''waiting_upstream'')
             (\<lambda>j. j\<lparr>j_state := ''failed'',
                    j_error_message := Some (''Upstream job '' @ child @ '' for asset '' @
                      quoted asset_name @ '' failed''),
                    j_completed_at := Some (now c), j_version := j_version j + 1\<rparr>))
          (\<lambda>n. tx_return (n > 0)))"

definition count_failed_upstream_jobs :: "call \<Rightarrow> uuid \<Rightarrow> db \<Rightarrow> (nat, db) outcome" where
  "count_failed_upstream_jobs c parent =
     with_tenant_context c (\<lambda>db.
       Inr (hits (\<lambda>j. child_of parent j \<and> j_state j \<in> {''failed'', ''cancelled''}) (my_jobs c db), db))"

definition update_backfill_upstream_count :: "call \<Rightarrow> uuid \<Rightarrow> int \<Rightarrow> db \<Rightarrow> (unit, db) outcome" where
  "update_backfill_upstream_count c i n =
     with_tenant_context c
       (run_stmt (update_jobs c (\<lambda>j. j_id j = i)
          (\<lambda>j. j\<lparr>j_upstream_job_count := n, j_version := j_version j + 1\<rparr>)))"

record child_params =
  cp_parent_job_id :: uuid
  cp_asset_id :: uuid
  cp_asset_name :: string
  cp_idempotency_key :: string
  cp_partition_start :: "string option"
  cp_partition_end :: "string option"
  cp_execution_order :: int

text \<open>The columns the statement does not name take the defaults of the migrations.\<close>

definition child_job :: "call \<Rightarrow> uuid \<Rightarrow> child_params \<Rightarrow> job" where
  "child_job c fresh p =
     \<lparr>j_id = fresh, j_tenant_id = tenant c, j_asset_id = cp_asset_id p, j_asset_name = cp_asset_name p,
      j_idempotency_key = cp_idempotency_key p, j_state = ''pending'',
      j_execution_strategy = ''{'' @ dquoted ''type'' @ '': '' @ dquoted ''sequential'' @ ''}'',
      j_partition_start = cp_partition_start p, j_partition_end = cp_partition_end p,
      j_partition_keys = [], j_total_partitions = 0, j_completed_partitions = 0,
      j_failed_partitions = 0, j_skipped_partitions = 0, j_include_upstream = False,
      j_error_message = None, j_created_by = None, j_created_at = now c, j_started_at = None,
      j_completed_at = None, j_heartbeat_at = None, j_version = 1, j_paused_at = None,
      j_checkpoint_partition_key = None, j_estimated_completion_at = None,
      j_avg_partition_duration_ms = None, j_parent_job_id = Some (cp_parent_job_id p),
      j_max_upstream_depth = 0, j_upstream_job_count = 0, j_completed_upstream_jobs = 0,
      j_execution_order = cp_execution_order p, j_sla_deadline_at = None, j_priority = 0\<rparr>"

definition create_upstream_child_job :: "call \<Rightarrow> uuid \<Rightarrow> child_params \<Rightarrow> db \<Rightarrow> (uuid, db) outcome" where
  "create_upstream_child_job c fresh p =
     with_tenant_context c (tx_bind (insert_job c (child_job c fresh p)) (\<lambda>_. tx_return fresh))"

end
