(* ===== verification/Lifecycle.thy ===== *)
theory Lifecycle
  imports Prelude
begin

text \<open>
  The contract of a table whose rows go through a life cycle: the rows keep their identity, no
  operation deletes one, an operation changes the state of a row by at most one of the moves that
  this operation may make with this row, and every such move is one of the life cycle. The tables
  of executions, of backfill jobs and of backfill partitions are instances.
\<close>

locale lifecycle =
  fixes ok :: "'s \<Rightarrow> bool"
    and step :: "'s \<Rightarrow> 'op \<Rightarrow> 's"
    and rows :: "'s \<Rightarrow> 'r list"
    and key :: "'r \<Rightarrow> uuid"
    and state :: "'r \<Rightarrow> string"
    and moves_of :: "'op \<Rightarrow> 'r \<Rightarrow> (string \<times> string) list"
    and moves :: "(string \<times> string) list"
    and final :: "string set"
  assumes step_ok: "ok s \<Longrightarrow> ok (step s op)"
    and keys: "ok s \<Longrightarrow> distinct (map key (rows s))"
    and step_row: "ok s \<Longrightarrow> r \<in> set (rows s) \<Longrightarrow>
      \<exists>r'\<in>set (rows (step s op)). key r' = key r \<and>
        (state r' = state r \<or> (state r, state r') \<in> set (moves_of op r))"
    and moves_of: "set (moves_of op r) \<subseteq> set moves"
    and final_no_move: "f \<in> final \<Longrightarrow> (f, t) \<notin> set moves"
begin

text \<open>One step in the middle of a run.\<close>

lemma step_after:
  "ok s \<Longrightarrow> r \<in> set (rows (foldl step s before)) \<Longrightarrow>
   \<exists>r'\<in>set (rows (foldl step s (before @ [op]))). key r' = key r \<and>
     (state r' = state r \<or> (state r, state r') \<in> set (moves_of op r))"
proof -
  assume "ok s" "r \<in> set (rows (foldl step s before))"
  moreover have "ok (foldl step s before)" using \<open>ok s\<close> by (induction before arbitrary: s) (auto intro: step_ok)
  ultimately show ?thesis using step_row by simp
qed

lemma run_ok: "ok s \<Longrightarrow> ok (foldl step s ops)"
  by (induction ops arbitrary: s) (auto intro: step_ok)

lemma run_row:
  "ok s \<Longrightarrow> r \<in> set (rows s) \<Longrightarrow>
   \<exists>r'\<in>set (rows (foldl step s ops)). key r' = key r \<and> (state r, state r') \<in> (set moves)\<^sup>*"
proof (induction ops arbitrary: s r)
  case Nil
  then show ?case by auto
next
  case (Cons op ops)
  from step_row [OF Cons.prems, of op] obtain r1 where
    r1: "r1 \<in> set (rows (step s op))" "key r1 = key r" "(state r, state r1) \<in> (set moves)\<^sup>*"
    using moves_of by (metis r_into_rtrancl rtrancl.rtrancl_refl subsetD)
  from Cons.IH [OF step_ok [OF Cons.prems(1)] r1(1)] obtain r' where
    "r' \<in> set (rows (foldl step (step s op) ops))" "key r' = key r1" "(state r1, state r') \<in> (set moves)\<^sup>*"
    by auto
  with r1(2,3) show ?case by (auto intro: rtrancl_trans)
qed

lemma final_star: "(f, t) \<in> (set moves)\<^sup>* \<Longrightarrow> f \<in> final \<Longrightarrow> t = f"
  by (induction rule: converse_rtrancl_induct) (auto dest: final_no_move)

lemma row_unique: "ok s \<Longrightarrow> r \<in> set (rows s) \<Longrightarrow> r' \<in> set (rows s) \<Longrightarrow> key r = key r' \<Longrightarrow> r = r'"
  by (meson keys distinct_map_unique)

text \<open>Whatever happens to a row, the row now found under its key is reachable by the moves.\<close>

lemma run_moves:
  assumes "ok s" "r \<in> set (rows s)" "r' \<in> set (rows (foldl step s ops))" "key r' = key r"
  shows "(state r, state r') \<in> (set moves)\<^sup>*"
  using run_row [OF assms(1,2), of ops] row_unique [OF run_ok [OF assms(1)]] assms(3,4) by metis

lemma final_stays:
  assumes "ok s" "r \<in> set (rows s)" "state r \<in> final"
    and "r' \<in> set (rows (foldl step s ops))" "key r' = key r"
  shows "state r' = state r"
  using final_star [OF run_moves] assms by blast

lemma never_deleted:
  "ok s \<Longrightarrow> key ` set (rows s) \<subseteq> key ` set (rows (foldl step s ops))"
proof
  fix k
  assume s: "ok s" and "k \<in> key ` set (rows s)"
  then obtain r where "r \<in> set (rows s)" "k = key r" by blast
  with run_row [OF s, of r ops] show "k \<in> key ` set (rows (foldl step s ops))" by (metis image_eqI)
qed

end

end
