(* ===== verification/BackfillLife.thy ===== *)
theory BackfillLife
  imports BackfillStore Lifecycle
begin

text \<open>
  What the backfill operations keep. Every operation is a sequence of guarded statements; the
  constraints of the two tables, the isolation of the tenants and the life cycles of jobs and
  partitions are proved once for such sequences and then hold for every interleaving of calls.
\<close>

section \<open>Operations and runs\<close>

datatype backfill_op =
    Create_job job
  | Claim_job int
  | Claim_part uuid int
  | Create_part part
  | Create_parts "part list"
  | Complete_part uuid "uuid option" int
  | Fail_part uuid string int
  | Requeue_part uuid
  | Transition_job uuid string string "string option"
  | Cancel_job uuid "string option"
  | Pause_job uuid
  | Resume_job uuid
  | Heartbeat uuid
  | Progress uuid int int int
  | Progress_eta uuid progress_update
  | Incr_upstream uuid
  | Cancel_tree uuid string
  | Try_parent uuid
  | Fail_parent uuid uuid string
  | Set_upstream_count uuid int
  | Create_child uuid child_params
  | Overwrite_job job
  | Overwrite_part part
  | Transition_part uuid string string "string option"

fun backfill_step :: "call \<times> backfill_op \<Rightarrow> db \<Rightarrow> db" where
  "backfill_step (c, Create_job j) db = snd (create_backfill_job c j db)"
| "backfill_step (c, Claim_job s) db = snd (claim_pending_backfill_job c s db)"
| "backfill_step (c, Claim_part i n) db = snd (claim_pending_partition c i n db)"
| "backfill_step (c, Create_part p) db = snd (create_backfill_partition c p db)"
| "backfill_step (c, Create_parts ps) db = snd (create_backfill_partitions_batch c ps db)"
| "backfill_step (c, Complete_part i x d) db = snd (complete_backfill_partition c i x d db)"
| "backfill_step (c, Fail_part i e d) db = snd (fail_backfill_partition c i e d db)"
| "backfill_step (c, Requeue_part i) db = snd (requeue_backfill_partition c i db)"
| "backfill_step (c, Transition_job i s t e) db = snd (transition_backfill_job_state c i s t e db)"
| "backfill_step (c, Cancel_job i r) db = snd (cancel_backfill_job c i r db)"
| "backfill_step (c, Pause_job i) db = snd (pause_backfill_job c i db)"
| "backfill_step (c, Resume_job i) db = snd (resume_backfill_job c i db)"
| "backfill_step (c, Heartbeat i) db = snd (update_backfill_job_heartbeat c i db)"
| "backfill_step (c, Progress i a b d) db = snd (update_backfill_job_progress c i a b d db)"
| "backfill_step (c, Progress_eta i u) db = snd (update_backfill_job_progress_with_eta c i u db)"
| "backfill_step (c, Incr_upstream i) db = snd (increment_completed_upstream c i db)"
| "backfill_step (c, Cancel_tree i r) db = snd (cancel_job_tree c i r db)"
| "backfill_step (c, Try_parent i) db = snd (try_transition_parent_to_pending c i db)"
| "backfill_step (c, Fail_parent i k nm) db = snd (fail_parent_on_child_failure c i k nm db)"
| "backfill_step (c, Set_upstream_count i n) db = snd (update_backfill_upstream_count c i n db)"
| "backfill_step (c, Create_child i p) db = snd (create_upstream_child_job c i p db)"
| "backfill_step (c, Overwrite_job j) db = snd (update_backfill_job c j db)"
| "backfill_step (c, Overwrite_part p) db = snd (update_backfill_partition c p db)"
| "backfill_step (c, Transition_part i s t e) db =
     snd (transition_backfill_partition_state c i s t e db)"

text \<open>The writes that set a state without looking at the life cycle.\<close>

fun overwrite :: "backfill_op \<Rightarrow> bool" where
  "overwrite (Overwrite_job _) = True"
| "overwrite (Overwrite_part _) = True"
| "overwrite (Transition_part _ _ _ _) = True"
| "overwrite _ = False"

section \<open>Sequences of statements\<close>

definition same_job :: "job \<Rightarrow> job \<Rightarrow> bool" where
  "same_job j j' \<longleftrightarrow>
     j_id j' = j_id j \<and> j_tenant_id j' = j_tenant_id j \<and> j_idempotency_key j' = j_idempotency_key j \<and>
     j_asset_id j' = j_asset_id j \<and> j_parent_job_id j' = j_parent_job_id j"

definition same_part :: "part \<Rightarrow> part \<Rightarrow> bool" where
  "same_part p p' \<longleftrightarrow>
     bp_id p' = bp_id p \<and> bp_tenant_id p' = bp_tenant_id p \<and> bp_job_id p' = bp_job_id p \<and>
     bp_key p' = bp_key p"

inductive stmts :: "call \<Rightarrow> (job \<Rightarrow> job \<Rightarrow> bool) \<Rightarrow> (part \<Rightarrow> part \<Rightarrow> bool) \<Rightarrow>
    (part \<Rightarrow> bool) \<Rightarrow> db \<Rightarrow> db \<Rightarrow> bool"
  for c JC PC N where
  stmts_refl: "stmts c JC PC N db db"
| stmts_job: "stmts c JC PC N db db1 \<Longrightarrow> update_jobs c p f db1 = Inr (n, db2) \<Longrightarrow>
     (\<And>j. j \<in> set (t_jobs db1) \<Longrightarrow> p j \<Longrightarrow> same_job j (f j) \<and> JC j (f j)) \<Longrightarrow> stmts c JC PC N db db2"
| stmts_part: "stmts c JC PC N db db1 \<Longrightarrow> update_parts c q g db1 = Inr (n, db2) \<Longrightarrow>
     (\<And>p. p \<in> set (t_parts db1) \<Longrightarrow> q p \<Longrightarrow> same_part p (g p) \<and> PC p (g p)) \<Longrightarrow> stmts c JC PC N db db2"
| stmts_new_job: "stmts c JC PC N db db1 \<Longrightarrow> insert_job c j db1 = Inr (u, db2) \<Longrightarrow> stmts c JC PC N db db2"
| stmts_new_part: "stmts c JC PC N db db1 \<Longrightarrow> insert_part c p db1 = Inr (u, db2) \<Longrightarrow> N p \<Longrightarrow> stmts c JC PC N db db2"

lemma stmts_trans: "stmts c JC PC N db1 db2 \<Longrightarrow> stmts c JC PC N db db1 \<Longrightarrow> stmts c JC PC N db db2"
  by (induction rule: stmts.induct) (auto intro: stmts.intros)

lemmas stmts_job1 = stmts_job [OF stmts_refl]
lemmas stmts_part1 = stmts_part [OF stmts_refl]

section \<open>The constraints of the tables\<close>

definition jobs_ok :: "job list \<Rightarrow> bool" where
  "jobs_ok js \<longleftrightarrow>
     distinct (map j_id js) \<and> distinct (map (\<lambda>j. (j_tenant_id j, j_idempotency_key j)) js) \<and>
     (\<forall>j\<in>set js. job_check j = None)"

definition parts_ok :: "part list \<Rightarrow> bool" where
  "parts_ok ps \<longleftrightarrow>
     distinct (map bp_id ps) \<and> distinct (map (\<lambda>p. (bp_job_id p, bp_key p)) ps) \<and>
     (\<forall>p\<in>set ps. part_check p = None)"

definition backfill_ok :: "db \<Rightarrow> bool" where
  "backfill_ok db \<longleftrightarrow> jobs_ok (t_jobs db) \<and> parts_ok (t_parts db) \<and>
     bp_job_id ` set (t_parts db) \<subseteq> j_id ` set (t_jobs db)"

lemma update_jobs_Inr:
  "update_jobs c p f db = Inr (n, db') \<longleftrightarrow>
     (\<forall>j\<in>set (t_jobs db). j_tenant_id j = tenant c \<and> p j \<longrightarrow> job_check (f j) = None) \<and>
     n = hits (\<lambda>j. j_tenant_id j = tenant c \<and> p j) (t_jobs db) \<and>
     db' = db\<lparr>t_jobs := upd_where (\<lambda>j. j_tenant_id j = tenant c \<and> p j) f (t_jobs db)\<rparr>"
  unfolding update_jobs_def by (subst stmt_update_case) simp

lemma update_parts_Inr:
  "update_parts c p f db = Inr (n, db') \<longleftrightarrow>
     (\<forall>q\<in>set (t_parts db). bp_tenant_id q = tenant c \<and> p q \<longrightarrow>
        part_check (f q) = None \<and> part_execution_fk db (f q) = None) \<and>
     n = hits (\<lambda>q. bp_tenant_id q = tenant c \<and> p q) (t_parts db) \<and>
     db' = db\<lparr>t_parts := upd_where (\<lambda>q. bp_tenant_id q = tenant c \<and> p q) f (t_parts db)\<rparr>"
  unfolding update_parts_def by (subst stmt_update_case) (simp add: part_update_check_None)

lemma insert_job_Inr:
  "insert_job c j db = Inr (u, db') \<longleftrightarrow>
     j_tenant_id j = tenant c \<and> job_check j = None \<and> job_fk db j = None \<and>
     (\<forall>k\<in>set (t_jobs db). j_id j \<noteq> j_id k \<and>
        (j_tenant_id j, j_idempotency_key j) \<noteq> (j_tenant_id k, j_idempotency_key k)) \<and>
     db' = db\<lparr>t_jobs := t_jobs db @ [j]\<rparr>"
  unfolding insert_job_def
  by (subst stmt_insert_case)
     (auto simp: job_insert_check_def key_clash_None job_keys_def simp del: key_clash.simps)

lemma insert_part_Inr:
  "insert_part c p db = Inr (u, db') \<longleftrightarrow>
     bp_tenant_id p = tenant c \<and> part_check p = None \<and> part_fk db p = None \<and>
     (\<forall>q\<in>set (t_parts db). bp_id p \<noteq> bp_id q \<and> (bp_job_id p, bp_key p) \<noteq> (bp_job_id q, bp_key q)) \<and>
     db' = db\<lparr>t_parts := t_parts db @ [p]\<rparr>"
  unfolding insert_part_def
  by (subst stmt_insert_case)
     (auto simp: part_insert_check_def key_clash_None part_keys_def simp del: key_clash.simps)

lemma part_fk_job: "part_fk db p = None \<Longrightarrow> bp_job_id p \<in> j_id ` set (t_jobs db)"
  by (force simp: part_fk_def list_ex_iff split: if_splits)

lemma map_upd_same:
  "(\<And>r. r \<in> set rs \<Longrightarrow> p r \<Longrightarrow> g (f r) = g r) \<Longrightarrow> map g (upd_where p f rs) = map g rs"
  by (simp add: upd_where_def)

lemma jobs_ok_upd:
  assumes "jobs_ok js" "\<And>j. j \<in> set js \<Longrightarrow> p j \<Longrightarrow> same_job j (f j) \<and> job_check (f j) = None"
  shows "jobs_ok (upd_where p f js)" and "j_id ` set (upd_where p f js) = j_id ` set js"
proof -
  have eq: "map j_id (upd_where p f js) = map j_id js"
    "map (\<lambda>j. (j_tenant_id j, j_idempotency_key j)) (upd_where p f js) =
     map (\<lambda>j. (j_tenant_id j, j_idempotency_key j)) js"
    using assms(2) by (intro map_upd_same; simp add: same_job_def)+
  then show "j_id ` set (upd_where p f js) = j_id ` set js" by (metis list.set_map)
  show "jobs_ok (upd_where p f js)"
    using assms eq by (auto simp: jobs_ok_def set_upd_where)
qed

lemma parts_ok_upd:
  assumes "parts_ok ps" "\<And>p. p \<in> set ps \<Longrightarrow> q p \<Longrightarrow> same_part p (f p) \<and> part_check (f p) = None"
  shows "parts_ok (upd_where q f ps)" and "bp_job_id ` set (upd_where q f ps) = bp_job_id ` set ps"
proof -
  have eq: "map bp_id (upd_where q f ps) = map bp_id ps"
    "map (\<lambda>p. (bp_job_id p, bp_key p)) (upd_where q f ps) = map (\<lambda>p. (bp_job_id p, bp_key p)) ps"
    "map bp_job_id (upd_where q f ps) = map bp_job_id ps"
    using assms(2) by (intro map_upd_same; simp add: same_part_def)+
  then show "bp_job_id ` set (upd_where q f ps) = bp_job_id ` set ps" by (metis list.set_map)
  show "parts_ok (upd_where q f ps)"
    using assms eq by (auto simp: parts_ok_def set_upd_where)
qed

lemma stmts_ok: "stmts c JC PC N db db' \<Longrightarrow> backfill_ok db \<Longrightarrow> backfill_ok db'"
proof (induction rule: stmts.induct)
  case (stmts_job db db1 p f n db2)
  then show ?case
    using jobs_ok_upd [of "t_jobs db1" "\<lambda>j. j_tenant_id j = tenant c \<and> p j" f]
    by (auto simp: backfill_ok_def update_jobs_Inr)
next
  case (stmts_part db db1 q g n db2)
  then show ?case
    using parts_ok_upd [of "t_parts db1" "\<lambda>j. bp_tenant_id j = tenant c \<and> q j" g]
    by (auto simp: backfill_ok_def update_parts_Inr)
next
  case (stmts_new_job db db1 j u db2)
  then show ?case by (auto simp: backfill_ok_def insert_job_Inr jobs_ok_def)
next
  case (stmts_new_part db db1 p u db2)
  then show ?case
    using part_fk_job [of db1 p] by (auto simp: backfill_ok_def insert_part_Inr parts_ok_def)
qed auto

section \<open>Every operation is a sequence of allowed statements\<close>

definition part_transitions :: "(string \<times> string) list" where
  "part_transitions =
     [(''pending'', ''running''), (''failed'', ''running''), (''running'', ''completed''),
      (''running'', ''failed''), (''running'', ''pending''), (''pending'', ''skipped'')]"

text \<open>The life cycle of a job, and the one move each call may make with a given job.\<close>

definition job_life :: "(string \<times> string) list" where
  "job_life =
     [(''pending'', ''running''), (''pending'', ''waiting_upstream''), (''pending'', ''cancelled''),
      (''waiting_upstream'', ''pending''), (''waiting_upstream'', ''failed''),
      (''waiting_upstream'', ''cancelled''), (''running'', ''waiting_upstream''),
      (''running'', ''completed''), (''running'', ''failed''), (''running'', ''cancelled''),
      (''running'', ''paused''), (''paused'', ''resuming''), (''paused'', ''cancelled''),
      (''resuming'', ''running''), (''resuming'', ''cancelled'')]"

definition to_cancelled :: "(string \<times> string) list" where
  "to_cancelled =
     [(''pending'', ''cancelled''), (''waiting_upstream'', ''cancelled''), (''running'', ''cancelled''),
      (''paused'', ''cancelled''), (''resuming'', ''cancelled'')]"

fun job_moves :: "backfill_op \<Rightarrow> job \<Rightarrow> (string \<times> string) list" where
  "job_moves (Claim_job s) j = [(''pending'', ''running''), (''resuming'', ''running'')]"
| "job_moves (Pause_job i) j = (if j_id j = i then [(''running'', ''paused'')] else [])"
| "job_moves (Resume_job i) j = (if j_id j = i then [(''paused'', ''resuming'')] else [])"
| "job_moves (Cancel_job i r) j = (if j_id j = i then to_cancelled else [])"
| "job_moves (Cancel_tree i r) j =
     (if j_id j = i \<or> j_parent_job_id j = Some i then to_cancelled else [])"
| "job_moves (Try_parent i) j = (if j_id j = i then [(''waiting_upstream'', ''pending'')] else [])"
| "job_moves (Fail_parent i k nm) j = (if j_id j = i then [(''waiting_upstream'', ''failed'')] else [])"
| "job_moves (Transition_job i s t e) j = (if j_id j = i \<and> (s, t) \<in> set job_life then [(s, t)] else [])"
| "job_moves _ j = []"

definition job_step :: "backfill_op \<Rightarrow> job \<Rightarrow> job \<Rightarrow> bool" where
  "job_step op j j' \<longleftrightarrow> same_job j j' \<and>
     (j_state j' = j_state j \<or> (j_state j, j_state j') \<in> set (job_moves op j))"

text \<open>
  The one move each call may make with a given partition: only a claim retries a failed partition,
  below its limit, and only a requeue goes back to pending. A partition enters \<open>running\<close> exactly
  when its attempts are counted.
\<close>

fun part_moves :: "backfill_op \<Rightarrow> part \<Rightarrow> (string \<times> string) list" where
  "part_moves (Claim_part i n) p =
     (if bp_job_id p \<noteq> i then [] else if bp_attempt_count p < n
      then [(''pending'', ''running''), (''failed'', ''running'')] else [(''pending'', ''running'')])"
| "part_moves (Complete_part i x d) p = (if bp_id p = i then [(''running'', ''completed'')] else [])"
| "part_moves (Fail_part i e d) p = (if bp_id p = i then [(''running'', ''failed'')] else [])"
| "part_moves (Requeue_part i) p = (if bp_id p = i then [(''running'', ''pending'')] else [])"
| "part_moves (Cancel_job i r) p = (if bp_job_id p = i then [(''pending'', ''skipped'')] else [])"
| "part_moves (Cancel_tree i r) p = [(''pending'', ''skipped'')]"
| "part_moves _ p = []"

definition part_step :: "backfill_op \<Rightarrow> part \<Rightarrow> part \<Rightarrow> bool" where
  "part_step op p p' \<longleftrightarrow> same_part p p' \<and>
     (bp_state p' = bp_state p \<and> bp_attempt_count p' = bp_attempt_count p \<or>
      (bp_state p, bp_state p') \<in> set (part_moves op p) \<and>
      bp_attempt_count p' = bp_attempt_count p + (if bp_state p' = ''running'' then 1 else 0))"

lemma same_trans: "same_job j k \<Longrightarrow> same_job k l \<Longrightarrow> same_job j l"
  "same_part p q \<Longrightarrow> same_part q r \<Longrightarrow> same_part p r"
  by (auto simp: same_job_def same_part_def)

text \<open>No call can make a second move after its first.\<close>

lemma job_moves_once: "(s, t) \<in> set (job_moves op j) \<Longrightarrow> (t, u) \<in> set (job_moves op k) \<Longrightarrow> False"
  by (cases op) (auto simp: to_cancelled_def job_life_def split: if_splits)

lemma part_moves_once: "(s, t) \<in> set (part_moves op p) \<Longrightarrow> (t, u) \<in> set (part_moves op q) \<Longrightarrow> False"
  by (cases op) (auto split: if_splits)

lemma job_moves_same: "same_job j k \<Longrightarrow> job_moves op k = job_moves op j"
  by (cases op) (auto simp: same_job_def)

lemma part_moves_same:
  "same_part p q \<Longrightarrow> bp_attempt_count q = bp_attempt_count p \<Longrightarrow> part_moves op q = part_moves op p"
  by (cases op) (auto simp: same_part_def)

lemma job_step_trans: "job_step op j k \<Longrightarrow> job_step op k l \<Longrightarrow> job_step op j l"
proof -
  assume jk: "job_step op j k" and kl: "job_step op k l"
  have same: "same_job j k" "same_job j l" and moves: "job_moves op k = job_moves op j"
    using jk kl same_trans(1) [of j k l] job_moves_same [of j k op] by (simp_all add: job_step_def)
  show ?thesis
  proof (cases "j_state k = j_state j")
    case True
    with kl same moves show ?thesis by (simp add: job_step_def)
  next
    case False
    then have "(j_state j, j_state k) \<in> set (job_moves op j)" using jk by (simp add: job_step_def)
    then have "j_state l = j_state k" using kl job_moves_once [of "j_state j" "j_state k" op j] by (auto simp: job_step_def)
    with jk same show ?thesis by (simp add: job_step_def)
  qed
qed

lemma part_step_trans: "part_step op p q \<Longrightarrow> part_step op q r \<Longrightarrow> part_step op p r"
proof -
  assume pq: "part_step op p q" and qr: "part_step op q r"
  have same: "same_part p q" "same_part p r"
    using pq qr same_trans(2) [of p q r] by (simp_all add: part_step_def)
  show ?thesis
  proof (cases "(bp_state p, bp_state q) \<in> set (part_moves op p)")
    case False
    then have q: "bp_state q = bp_state p" "bp_attempt_count q = bp_attempt_count p"
      using pq by (simp_all add: part_step_def)
    with qr same part_moves_same [OF same(1) q(2), of op] show ?thesis by (simp add: part_step_def)
  next
    case True
    then have "bp_state r = bp_state q \<and> bp_attempt_count r = bp_attempt_count q"
      using qr part_moves_once [OF True, of "bp_state r" q] by (auto simp: part_step_def)
    with pq same show ?thesis by (simp add: part_step_def)
  qed
qed

lemma job_step_star: "(job_step op)\<^sup>*\<^sup>* j k \<Longrightarrow> job_step op j k"
  by (induction rule: rtranclp_induct) (auto intro: job_step_trans, simp add: job_step_def same_job_def)

lemma part_step_star: "(part_step op)\<^sup>*\<^sup>* p q \<Longrightarrow> part_step op p q"
  by (induction rule: rtranclp_induct) (auto intro: part_step_trans, simp add: part_step_def same_part_def)

lemma part_moves_life: "set (part_moves op p) \<subseteq> set part_transitions"
  by (cases op) (auto simp: part_transitions_def)

lemma job_moves_life: "set (job_moves op j) \<subseteq> set job_life"
  by (cases op) (auto simp: to_cancelled_def job_life_def)

lemma stmts_call:
  "(\<And>a db'. f db = Inr (a, db') \<Longrightarrow> stmts c JC PC N db db') \<Longrightarrow>
   stmts c JC PC N db (snd (with_tenant_context c f db))"
  by (auto simp: with_tenant_context_def stmts_refl split: option.splits sum.splits prod.splits)

lemma stmts_checked: "stmts c JC PC N db (snd (f db)) \<Longrightarrow> stmts c JC PC N db (snd (checked vs f db))"
  by (induction vs f db rule: checked.induct) (auto simp: stmts_refl split: sum.splits)

lemma must_hit_Inr: "must_hit f msg db = Inr (u, db') \<longleftrightarrow> (\<exists>n. f db = Inr (n, db') \<and> n \<noteq> 0)"
  by (auto simp: must_hit_def tx_bind_Inr)

lemma run_stmt_Inr: "run_stmt f db = Inr (u, db') \<longleftrightarrow> (\<exists>n. f db = Inr (n, db'))"
  by (auto simp: run_stmt_def tx_bind_Inr)

lemmas tx_Inr = tx_bind_Inr must_hit_Inr run_stmt_Inr

lemma job_unique: "backfill_ok db \<Longrightarrow> j \<in> set (t_jobs db) \<Longrightarrow> k \<in> set (t_jobs db) \<Longrightarrow> j_id j = j_id k \<Longrightarrow> j = k"
  unfolding backfill_ok_def jobs_ok_def by (blast dest: distinct_map_unique)

lemma part_unique: "backfill_ok db \<Longrightarrow> p \<in> set (t_parts db) \<Longrightarrow> q \<in> set (t_parts db) \<Longrightarrow> bp_id p = bp_id q \<Longrightarrow> p = q"
  unfolding backfill_ok_def parts_ok_def by (blast dest: distinct_map_unique)

lemma find_job_Some: "find_job c i db = Some j \<Longrightarrow> j \<in> set (t_jobs db) \<and> j_id j = i \<and> j_tenant_id j = tenant c"
  by (auto simp: find_job_def my_jobs_def dest: find_Some_in)

lemma with_job_Inr:
  "with_job c i f db = Inr (a, db') \<longleftrightarrow> (\<exists>j. find_job c i db = Some j \<and> f j db = Inr (a, db'))"
  by (auto simp: with_job_def split: option.splits)

lemma insert_parts_stmts: "\<forall>p\<in>set ps. N p \<Longrightarrow> insert_parts c ps db = Inr (u, db') \<Longrightarrow> stmts c JC PC N db db'"
proof (induction ps arbitrary: db)
  case Nil
  then show ?case by (simp add: stmts_refl)
next
  case (Cons p ps)
  then obtain db1 u1 where "insert_part c p db = Inr (u1, db1)" "insert_parts c ps db1 = Inr (u, db')"
    by (auto simp: tx_Inr)
  with Cons.IH [of db1] Cons.prems(1) stmts_trans [of c JC PC N db1 db' db]
    stmts_new_part [OF stmts_refl, of c p db u1 db1 N] show ?case by simp
qed

lemma claim_job_stmts:
  assumes "backfill_ok db"
  shows "stmts c (job_step (Claim_job s)) PC N db (snd (claim_pending_backfill_job c s db))"
  unfolding claim_pending_backfill_job_def
proof (rule stmts_call)
  fix a db'
  assume *: "(case first_min claim_order (\<lambda>j. claimable c s j \<and> j_id j \<notin> set (locked c)) (my_jobs c db) of
      None \<Rightarrow> Inr (None, db)
    | Some job \<Rightarrow> tx_bind (update_jobs c (\<lambda>j. j_id j = j_id job) (claim_job_row c job))
        (\<lambda>_ db'. case find_job c (j_id job) db' of None \<Rightarrow> Inl row_not_found
           | Some updated \<Rightarrow> Inr (Some updated, db')) db) = Inr (a, db')"
  show "stmts c (job_step (Claim_job s)) PC N db db'"
  proof (cases "first_min claim_order (\<lambda>j. claimable c s j \<and> j_id j \<notin> set (locked c)) (my_jobs c db)")
    case None
    with * show ?thesis by (simp add: stmts_refl)
  next
    case (Some job)
    with * obtain n where up: "update_jobs c (\<lambda>j. j_id j = j_id job) (claim_job_row c job) db = Inr (n, db')"
      by (auto simp: tx_Inr split: option.splits)
    have job: "job \<in> set (t_jobs db)" "claimable c s job"
      using first_min_in [OF Some] first_min_sat [OF Some] by (auto simp: my_jobs_def)
    have "same_job j (claim_job_row c job j) \<and> job_step (Claim_job s) j (claim_job_row c job j)"
      if "j \<in> set (t_jobs db)" "j_id j = j_id job" for j
    proof -
      have "j = job" using job_unique [OF assms that(1) job(1) that(2)] .
      then show ?thesis
        using job(2)
        by (auto simp: same_job_def claim_job_row_def job_step_def claimable_def)
    qed
    with up show ?thesis by (intro stmts_job1)
  qed
qed

lemma claim_part_stmts:
  assumes "backfill_ok db"
  shows "stmts c JC (part_step (Claim_part i n)) N db (snd (claim_pending_partition c i n db))"
  unfolding claim_pending_partition_def
proof (rule stmts_call)
  fix a db'
  assume *: "(case first_min part_claim_order (\<lambda>p. part_claimable i n p \<and> bp_id p \<notin> set (locked c)) (my_parts c db) of
      None \<Rightarrow> Inr (None, db)
    | Some p \<Rightarrow> tx_bind (update_parts c (\<lambda>q. bp_id q = bp_id p) (claim_part_row c))
        (\<lambda>_ db'. case find (\<lambda>q. bp_id q = bp_id p) (my_parts c db') of None \<Rightarrow> Inl row_not_found
           | Some updated \<Rightarrow> Inr (Some updated, db')) db) = Inr (a, db')"
  show "stmts c JC (part_step (Claim_part i n)) N db db'"
  proof (cases "first_min part_claim_order (\<lambda>p. part_claimable i n p \<and> bp_id p \<notin> set (locked c)) (my_parts c db)")
    case None
    with * show ?thesis by (simp add: stmts_refl)
  next
    case (Some p)
    with * obtain m where up: "update_parts c (\<lambda>q. bp_id q = bp_id p) (claim_part_row c) db = Inr (m, db')"
      by (auto simp: tx_Inr split: option.splits)
    have p: "p \<in> set (t_parts db)" "part_claimable i n p"
      using first_min_in [OF Some] first_min_sat [OF Some] by (auto simp: my_parts_def)
    have "same_part q (claim_part_row c q) \<and> part_step (Claim_part i n) q (claim_part_row c q)"
      if "q \<in> set (t_parts db)" "bp_id q = bp_id p" for q
    proof -
      have "q = p" using part_unique [OF assms that(1) p(1) that(2)] .
      then show ?thesis
        using p(2)
        by (auto simp: same_part_def claim_part_row_def part_step_def part_claimable_def)
    qed
    with up show ?thesis by (intro stmts_part1)
  qed
qed

lemmas move_defs =
  same_job_def same_part_def job_step_def part_step_def to_cancelled_def

text \<open>An operation that is one update statement on the jobs, or on the partitions.\<close>

lemma call_update_jobs:
  assumes "\<And>a db'. f db = Inr (a, db') \<Longrightarrow> \<exists>n. update_jobs c p g db = Inr (n, db')"
    and "\<And>j. p j \<Longrightarrow> same_job j (g j) \<and> JC j (g j)"
  shows "stmts c JC PC N db (snd (with_tenant_context c f db))"
proof (rule stmts_call)
  fix a db' assume "f db = Inr (a, db')"
  with assms(1) obtain n where "update_jobs c p g db = Inr (n, db')" by blast
  with assms(2) show "stmts c JC PC N db db'" by (intro stmts_job1)
qed

lemma call_update_parts:
  assumes "\<And>a db'. f db = Inr (a, db') \<Longrightarrow> \<exists>n. update_parts c p g db = Inr (n, db')"
    and "\<And>q. p q \<Longrightarrow> same_part q (g q) \<and> PC q (g q)"
  shows "stmts c JC PC N db (snd (with_tenant_context c f db))"
proof (rule stmts_call)
  fix a db' assume "f db = Inr (a, db')"
  with assms(1) obtain n where "update_parts c p g db = Inr (n, db')" by blast
  with assms(2) show "stmts c JC PC N db db'" by (intro stmts_part1)
qed

text \<open>
  An operation that reads the job under \<open>FOR UPDATE\<close> and then updates the row with its id.
\<close>

lemma with_job_update:
  assumes ok: "backfill_ok db" and f: "with_job c i f db = Inr (a, db')"
    and g: "\<And>job a db'. j_id job = i \<Longrightarrow> f job db = Inr (a, db') \<Longrightarrow>
        (\<exists>g n. update_jobs c (\<lambda>j. j_id j = i) g db = Inr (n, db') \<and> same_job job (g job) \<and> JC job (g job))"
  shows "stmts c JC PC N db db'"
proof -
  from f obtain job where job: "find_job c i db = Some job" "f job db = Inr (a, db')"
    by (auto simp: with_job_Inr)
  from g [OF _ job(2)] find_job_Some [OF job(1)] obtain g n where up: "update_jobs c (\<lambda>j. j_id j = i) g db = Inr (n, db')"
    and ch: "same_job job (g job) \<and> JC job (g job)" by blast
  have eq: "j = job" if "j \<in> set (t_jobs db)" "j_id j = i" for j
    using job_unique [OF ok] that find_job_Some [OF job(1)] by blast
  show ?thesis using up by (rule stmts_job1) (use ch eq in blast)
qed

lemma pause_stmts: "backfill_ok db \<Longrightarrow> stmts c (job_step (Pause_job i)) PC N db (snd (pause_backfill_job c i db))"
  unfolding pause_backfill_job_def
  by (rule stmts_call, erule with_job_update, assumption)
     (auto simp: tx_Inr move_defs split: if_splits)

lemma resume_stmts: "backfill_ok db \<Longrightarrow> stmts c (job_step (Resume_job i)) PC N db (snd (resume_backfill_job c i db))"
  unfolding resume_backfill_job_def
  by (rule stmts_call, erule with_job_update, assumption)
     (auto simp: tx_Inr move_defs split: if_splits)

lemma cancel_stmts:
  assumes ok: "backfill_ok db"
  shows "stmts c (job_step (Cancel_job i r)) (part_step (Cancel_job i r)) N db (snd (cancel_backfill_job c i r db))"
  unfolding cancel_backfill_job_def
proof (rule stmts_call)
  let ?f = "\<lambda>j. j\<lparr>j_state := ''cancelled'',
    j_error_message := Some (case r of None \<Rightarrow> ''Cancelled by user'' | Some r \<Rightarrow> r),
    j_completed_at := Some (now c), j_version := j_version j + 1\<rparr>"
  let ?g = "\<lambda>p. p\<lparr>bp_state := ''skipped'', bp_completed_at := Some (now c),
    bp_error_message := Some ''Job cancelled''\<rparr>"
  fix a db'
  assume "with_job c i (\<lambda>job.
       if j_state job \<notin> active_states
       then tx_fail (ValidationError (''Cannot cancel job in state '' @ quoted (j_state job) @
              ''. Only pending, waiting_upstream, running, paused, or resuming jobs can be cancelled.''))
       else tx_bind (run_stmt (update_jobs c (\<lambda>j. j_id j = i) ?f))
              (\<lambda>_. run_stmt (update_parts c (\<lambda>p. bp_job_id p = i \<and> bp_state p = ''pending'') ?g))) db =
     Inr (a, db')"
  then obtain job n db1 m where job: "find_job c i db = Some job" "j_state job \<in> active_states"
    and up: "update_jobs c (\<lambda>j. j_id j = i) ?f db = Inr (n, db1)"
    and pp: "update_parts c (\<lambda>p. bp_job_id p = i \<and> bp_state p = ''pending'') ?g db1 = Inr (m, db')"
    by (auto simp: with_job_Inr tx_Inr split: if_splits)
  have eq: "j = job" if "j \<in> set (t_jobs db)" "j_id j = i" for j
    using job_unique [OF ok] that find_job_Some [OF job(1)] by blast
  have "stmts c (job_step (Cancel_job i r)) (part_step (Cancel_job i r)) N db db1"
    using up by (rule stmts_job1) (use eq job(2) in \<open>auto simp: move_defs active_states_def\<close>)
  then show "stmts c (job_step (Cancel_job i r)) (part_step (Cancel_job i r)) N db db'"
    using pp by (rule stmts_part) (auto simp: move_defs)
qed

lemma cancel_tree_stmts: "stmts c (job_step (Cancel_tree i r)) (part_step (Cancel_tree i r)) N db (snd (cancel_job_tree c i r db))"
  unfolding cancel_job_tree_def
proof (rule stmts_call)
  let ?f = "\<lambda>j. j\<lparr>j_state := ''cancelled'', j_error_message := Some r, j_completed_at := Some (now c),
    j_version := j_version j + 1\<rparr>"
  let ?g = "\<lambda>p. p\<lparr>bp_state := ''skipped'', bp_completed_at := Some (now c),
    bp_error_message := Some ''Job tree cancelled''\<rparr>"
  let ?q = "\<lambda>db p. list_ex (\<lambda>j. j_id j = bp_job_id p \<and> (j_id j = i \<or> child_of i j)) (my_jobs c db) \<and>
    bp_state p = ''pending''"
  fix a db'
  assume "tx_bind
    (update_jobs c (\<lambda>j. (j_id j = i \<or> child_of i j) \<and> j_state j \<in> active_states) ?f)
    (\<lambda>n db. tx_bind (run_stmt (update_parts c (?q db) ?g)) (\<lambda>_. tx_return n) db) db = Inr (a, db')"
  then obtain n db1 m where
    up: "update_jobs c (\<lambda>j. (j_id j = i \<or> child_of i j) \<and> j_state j \<in> active_states) ?f db = Inr (n, db1)"
    and pp: "update_parts c (?q db1) ?g db1 = Inr (m, db')"
    by (auto simp: tx_Inr)
  have "stmts c (job_step (Cancel_tree i r)) (part_step (Cancel_tree i r)) N db db1"
    using up by (rule stmts_job1) (auto simp: move_defs child_of_def active_states_def)
  then show "stmts c (job_step (Cancel_tree i r)) (part_step (Cancel_tree i r)) N db db'"
    using pp by (rule stmts_part) (auto simp: move_defs)
qed

lemmas update_stmts = call_update_jobs call_update_parts

lemma transition_stmts: "stmts c (job_step (Transition_job i s t e)) PC N db (snd (transition_backfill_job_state c i s t e db))"
proof (cases "(s, t) \<in> set backfill_transitions")
  case True
  show ?thesis unfolding transition_backfill_job_state_def
    by (intro stmts_checked, rule call_update_jobs, simp add: tx_Inr, blast)
       (use True in \<open>auto simp: same_job_def job_step_def backfill_transitions_def job_life_def\<close>)
next
  case False
  then have "snd (transition_backfill_job_state c i s t e db) = db"
    by (simp add: transition_backfill_job_state_def validate_backfill_state_transition_def
        split: sum.split)
  then show ?thesis by (simp add: stmts_refl)
qed

text \<open>The partitions an operation creates.\<close>

fun creates :: "backfill_op \<Rightarrow> part \<Rightarrow> bool" where
  "creates (Create_part q) p = (p = q)"
| "creates (Create_parts qs) p = (p \<in> set qs)"
| "creates _ p = False"

lemma guarded_stmts:
  assumes "backfill_ok db" "\<not> overwrite op"
  shows "stmts c (job_step op) (part_step op) (creates op) db (backfill_step (c, op) db)"
proof (cases op)
  case (Create_job j)
  show ?thesis unfolding Create_job backfill_step.simps create_backfill_job_def
    by (intro stmts_checked stmts_call) (blast intro: stmts_new_job [OF stmts_refl])
next
  case (Create_part p)
  show ?thesis unfolding Create_part backfill_step.simps create_backfill_partition_def
    by (intro stmts_checked stmts_call) (auto intro: stmts_new_part [OF stmts_refl])
next
  case (Create_parts ps)
  show ?thesis
  proof (cases "ps = []")
    case False
    then show ?thesis unfolding Create_parts backfill_step.simps create_backfill_partitions_batch_def
      by (simp, intro stmts_checked stmts_call) (auto intro: insert_parts_stmts)
  qed (simp add: Create_parts create_backfill_partitions_batch_def stmts_refl)
next
  case (Create_child i p)
  show ?thesis unfolding Create_child backfill_step.simps create_upstream_child_job_def
    by (rule stmts_call) (auto simp: tx_Inr intro: stmts_new_job [OF stmts_refl])
next
  case (Claim_job s)
  then show ?thesis using claim_job_stmts [OF assms(1)] by simp
next
  case (Claim_part i n)
  then show ?thesis using claim_part_stmts [OF assms(1)] by simp
next
  case (Cancel_job i r)
  then show ?thesis using cancel_stmts [OF assms(1)] by simp
next
  case (Cancel_tree i r)
  then show ?thesis using cancel_tree_stmts by simp
next
  case (Pause_job i)
  then show ?thesis using pause_stmts [OF assms(1)] by simp
next
  case (Resume_job i)
  then show ?thesis using resume_stmts [OF assms(1)] by simp
next
  case (Transition_job i s t e)
  then show ?thesis using transition_stmts by simp
next
  case (Complete_part i x d)
  show ?thesis unfolding Complete_part backfill_step.simps complete_backfill_partition_def
    by (rule call_update_parts, simp add: tx_Inr, blast) (auto simp: move_defs)
next
  case (Fail_part i e d)
  show ?thesis unfolding Fail_part backfill_step.simps fail_backfill_partition_def
    by (rule call_update_parts, simp add: tx_Inr, blast) (auto simp: move_defs)
next
  case (Requeue_part i)
  show ?thesis unfolding Requeue_part backfill_step.simps requeue_backfill_partition_def
    by (rule call_update_parts, simp add: tx_Inr, blast) (auto simp: move_defs)
next
  case (Heartbeat i)
  show ?thesis unfolding Heartbeat backfill_step.simps update_backfill_job_heartbeat_def
    by (rule call_update_jobs, simp add: tx_Inr) (auto simp: move_defs)
next
  case (Progress i a b d)
  show ?thesis unfolding Progress backfill_step.simps update_backfill_job_progress_def
    by (rule call_update_jobs, simp add: tx_Inr) (auto simp: move_defs)
next
  case (Progress_eta i u)
  show ?thesis unfolding Progress_eta backfill_step.simps update_backfill_job_progress_with_eta_def
    by (rule call_update_jobs, simp add: tx_Inr) (auto simp: move_defs)
next
  case (Incr_upstream i)
  show ?thesis unfolding Incr_upstream backfill_step.simps increment_completed_upstream_def
    by (rule call_update_jobs, simp add: tx_Inr, blast) (auto simp: move_defs)
next
  case (Try_parent i)
  show ?thesis unfolding Try_parent backfill_step.simps try_transition_parent_to_pending_def
    by (rule call_update_jobs, simp add: tx_Inr, blast) (auto simp: move_defs)
next
  case (Fail_parent i k nm)
  show ?thesis unfolding Fail_parent backfill_step.simps fail_parent_on_child_failure_def
    by (rule call_update_jobs, simp add: tx_Inr, blast) (auto simp: move_defs)
next
  case (Set_upstream_count i n)
  show ?thesis unfolding Set_upstream_count backfill_step.simps update_backfill_upstream_count_def
    by (rule call_update_jobs, simp add: tx_Inr) (auto simp: move_defs)
qed (use assms(2) in simp_all)

lemma stmts_mono:
  assumes "stmts c JC PC N db db'" and mono: "\<And>j k. JC j k \<Longrightarrow> JC' j k" "\<And>p q. PC p q \<Longrightarrow> PC' p q"
    "\<And>p. N p \<Longrightarrow> N' p"
  shows "stmts c JC' PC' N' db db'"
  using assms(1)
proof (induction rule: stmts.induct)
  case (stmts_job db db1 p f n db2)
  show ?case by (rule stmts.stmts_job [OF stmts_job.IH stmts_job.hyps(2)]) (use stmts_job.hyps(3) mono in blast)
next
  case (stmts_part db db1 q g n db2)
  show ?case by (rule stmts.stmts_part [OF stmts_part.IH stmts_part.hyps(2)]) (use stmts_part.hyps(3) mono in blast)
qed (auto intro: stmts.stmts_refl stmts.stmts_new_job stmts.stmts_new_part mono)

lemma step_stmts:
  assumes "backfill_ok db"
  shows "stmts c (\<lambda>_ _. True) (\<lambda>_ _. True) (\<lambda>_. True) db (backfill_step (c, op) db)"
proof (cases "overwrite op")
  case False
  show ?thesis by (rule stmts_mono [OF guarded_stmts [OF assms False]]) simp_all
next
  case True
  then show ?thesis
  proof (cases op)
    case (Overwrite_job j)
    show ?thesis unfolding Overwrite_job backfill_step.simps update_backfill_job_def
      by (intro stmts_checked, rule call_update_jobs, simp add: tx_Inr, blast) (auto simp: move_defs)
  next
    case (Overwrite_part p)
    show ?thesis unfolding Overwrite_part backfill_step.simps update_backfill_partition_def
      by (intro stmts_checked, rule call_update_parts, simp add: tx_Inr, blast) (auto simp: move_defs)
  next
    case (Transition_part i s t e)
    show ?thesis unfolding Transition_part backfill_step.simps transition_backfill_partition_state_def
      by (rule call_update_parts, simp add: tx_Inr, blast) (auto simp: move_defs)
  qed simp_all
qed

lemma step_ok: "backfill_ok db \<Longrightarrow> backfill_ok (backfill_step cop db)"
  using stmts_ok [OF step_stmts] by (cases cop) auto

section \<open>Runs\<close>

abbreviation backfill_run :: "db \<Rightarrow> (call \<times> backfill_op) list \<Rightarrow> db" where
  "backfill_run \<equiv> foldl (\<lambda>db cop. backfill_step cop db)"

lemma run_backfill_ok: "backfill_ok db \<Longrightarrow> backfill_ok (backfill_run db ops)"
  by (induction ops arbitrary: db) (auto intro: step_ok)

subsection \<open>Isolation of tenants\<close>

lemma filter_upd_other: "(\<And>r. p r \<Longrightarrow> \<not> q r) \<Longrightarrow> (\<And>r. p r \<Longrightarrow> \<not> q (f r)) \<Longrightarrow>
   filter q (upd_where p f rs) = filter q rs"
  by (induction rs) (auto simp: upd_where_def)

lemma filter_upd_other':
  assumes "\<And>r. r \<in> set rs \<Longrightarrow> p r \<Longrightarrow> \<not> q r \<and> \<not> q (f r)"
  shows "filter q (upd_where p f rs) = filter q rs"
  using assms by (induction rs) (auto simp: upd_where_def)

definition tenant_view :: "tenant \<Rightarrow> db \<Rightarrow> job list \<times> part list" where
  "tenant_view t db =
     (filter (\<lambda>j. j_tenant_id j = t) (t_jobs db), filter (\<lambda>p. bp_tenant_id p = t) (t_parts db))"

lemma stmts_view: "stmts c JC PC N db db' \<Longrightarrow> t \<noteq> tenant c \<Longrightarrow> tenant_view t db' = tenant_view t db"
proof (induction rule: stmts.induct)
  case (stmts_job db db1 p f n db2)
  have "filter (\<lambda>j. j_tenant_id j = t) (t_jobs db2) = filter (\<lambda>j. j_tenant_id j = t) (t_jobs db1)"
    using stmts_job.hyps(2,3) stmts_job.prems
    by (auto simp: update_jobs_Inr same_job_def intro!: filter_upd_other')
  with stmts_job show ?case by (auto simp: tenant_view_def update_jobs_Inr)
next
  case (stmts_part db db1 q g n db2)
  have "filter (\<lambda>j. bp_tenant_id j = t) (t_parts db2) = filter (\<lambda>j. bp_tenant_id j = t) (t_parts db1)"
    using stmts_part.hyps(2,3) stmts_part.prems
    by (auto simp: update_parts_Inr same_part_def intro!: filter_upd_other')
  with stmts_part show ?case by (auto simp: tenant_view_def update_parts_Inr)
qed (auto simp: tenant_view_def insert_job_Inr insert_part_Inr)

text \<open>
  C13: tenants are isolated: calls made for other tenants, whatever identifiers they name and in
  whatever sequence, leave the jobs and the partitions of a tenant exactly as they were.
\<close>

theorem backfill_tenant_isolation:
  assumes "backfill_ok db" "list_all (\<lambda>(c, op). tenant c \<noteq> t) ops"
  shows "tenant_view t (backfill_run db ops) = tenant_view t db"
  using assms
proof (induction ops arbitrary: db)
  case Nil
  then show ?case by simp
next
  case (Cons cop ops)
  obtain c op where cop: "cop = (c, op)" by (cases cop)
  have "tenant_view t (backfill_step cop db) = tenant_view t db"
    using stmts_view [OF step_stmts [OF Cons.prems(1), of c op], of t] Cons.prems(2) cop by auto
  moreover have "tenant_view t (backfill_run (backfill_step cop db) ops) = tenant_view t (backfill_step cop db)"
    using Cons.IH [OF step_ok [OF Cons.prems(1)]] Cons.prems(2) by simp
  ultimately show ?case by simp
qed

subsection \<open>Life cycles\<close>

lemma stmts_rows:
  assumes "stmts c JC PC N db db'"
  shows "\<And>j. j \<in> set (t_jobs db) \<Longrightarrow> \<exists>j'\<in>set (t_jobs db'). same_job j j' \<and> JC\<^sup>*\<^sup>* j j'"
    and "\<And>p. p \<in> set (t_parts db) \<Longrightarrow> \<exists>p'\<in>set (t_parts db'). same_part p p' \<and> PC\<^sup>*\<^sup>* p p'"
proof -
  have J: "\<exists>j'\<in>set (t_jobs db'). same_job j j' \<and> JC\<^sup>*\<^sup>* j j'" if "j \<in> set (t_jobs db)" for j
    using assms that
  proof (induction rule: stmts.induct)
    case (stmts_job db db1 p f n db2)
    then obtain j1 where j1: "j1 \<in> set (t_jobs db1)" "same_job j j1" "JC\<^sup>*\<^sup>* j j1" by blast
    let ?p = "\<lambda>j. j_tenant_id j = tenant c \<and> p j"
    have "(if ?p j1 then f j1 else j1) \<in> set (t_jobs db2)"
      using stmts_job.hyps(2) j1(1) by (auto simp: update_jobs_Inr set_upd_where)
    moreover have "same_job j (if ?p j1 then f j1 else j1) \<and> JC\<^sup>*\<^sup>* j (if ?p j1 then f j1 else j1)"
      using stmts_job.hyps(3) [OF j1(1)] j1(2,3)
      by (auto simp: same_job_def intro: rtranclp.rtrancl_into_rtrancl)
    ultimately show ?case by blast
  next
    case (stmts_refl db)
    then show ?case by (auto simp: same_job_def)
  qed (auto simp: insert_job_Inr insert_part_Inr update_parts_Inr)
  have P: "\<exists>p'\<in>set (t_parts db'). same_part p p' \<and> PC\<^sup>*\<^sup>* p p'" if "p \<in> set (t_parts db)" for p
    using assms that
  proof (induction rule: stmts.induct)
    case (stmts_part db db1 q g n db2)
    then obtain p1 where p1: "p1 \<in> set (t_parts db1)" "same_part p p1" "PC\<^sup>*\<^sup>* p p1" by blast
    let ?q = "\<lambda>p. bp_tenant_id p = tenant c \<and> q p"
    have "(if ?q p1 then g p1 else p1) \<in> set (t_parts db2)"
      using stmts_part.hyps(2) p1(1) by (auto simp: update_parts_Inr set_upd_where)
    moreover have "same_part p (if ?q p1 then g p1 else p1) \<and> PC\<^sup>*\<^sup>* p (if ?q p1 then g p1 else p1)"
      using stmts_part.hyps(3) [OF p1(1)] p1(2,3)
      by (auto simp: same_part_def intro: rtranclp.rtrancl_into_rtrancl)
    ultimately show ?case by blast
  next
    case (stmts_refl db)
    then show ?case by (auto simp: same_part_def)
  qed (auto simp: insert_job_Inr insert_part_Inr update_jobs_Inr)
  show "\<And>j. j \<in> set (t_jobs db) \<Longrightarrow> \<exists>j'\<in>set (t_jobs db'). same_job j j' \<and> JC\<^sup>*\<^sup>* j j'" by (rule J)
  show "\<And>p. p \<in> set (t_parts db) \<Longrightarrow> \<exists>p'\<in>set (t_parts db'). same_part p p' \<and> PC\<^sup>*\<^sup>* p p'" by (rule P)
qed

definition life_step :: "db \<Rightarrow> call \<times> backfill_op \<Rightarrow> db" where
  "life_step db cop = (if overwrite (snd cop) then db else backfill_step cop db)"

lemma life_rows:
  assumes "backfill_ok db"
  shows "j \<in> set (t_jobs db) \<Longrightarrow> \<exists>j'\<in>set (t_jobs (life_step db cop)). job_step (snd cop) j j'"
    and "p \<in> set (t_parts db) \<Longrightarrow> \<exists>p'\<in>set (t_parts (life_step db cop)). part_step (snd cop) p p'"
proof -
  obtain c op where cop: "cop = (c, op)" by (cases cop)
  have st: "stmts c (job_step op) (part_step op) (creates op) db (life_step db cop)"
    using guarded_stmts [OF assms, of op c] cop by (auto simp: life_step_def stmts_refl)
  show "j \<in> set (t_jobs db) \<Longrightarrow> \<exists>j'\<in>set (t_jobs (life_step db cop)). job_step (snd cop) j j'"
    using stmts_rows(1) [OF st, of j] job_step_star cop by fastforce
  show "p \<in> set (t_parts db) \<Longrightarrow> \<exists>p'\<in>set (t_parts (life_step db cop)). part_step (snd cop) p p'"
    using stmts_rows(2) [OF st, of p] part_step_star cop by fastforce
qed

lemma backfill_ok_keys:
  "backfill_ok db \<Longrightarrow> distinct (map j_id (t_jobs db))" "backfill_ok db \<Longrightarrow> distinct (map bp_id (t_parts db))"
  by (simp_all add: backfill_ok_def jobs_ok_def parts_ok_def)

lemma life_ok: "backfill_ok db \<Longrightarrow> backfill_ok (life_step db cop)"
  by (simp add: life_step_def step_ok)

interpretation jobs: lifecycle backfill_ok life_step t_jobs j_id j_state "\<lambda>cop. job_moves (snd cop)"
  job_life terminal_states
proof unfold_locales
  show "\<exists>r'\<in>set (t_jobs (life_step s op)). j_id r' = j_id r \<and>
      (j_state r' = j_state r \<or> (j_state r, j_state r') \<in> set (job_moves (snd op) r))"
    if "backfill_ok s" "r \<in> set (t_jobs s)" for s op r
    using life_rows(1) [OF that, of op] unfolding job_step_def same_job_def by blast
qed (simp_all add: life_ok backfill_ok_keys job_moves_life, auto simp: terminal_states_def job_life_def)

interpretation parts: lifecycle backfill_ok life_step t_parts bp_id bp_state "\<lambda>cop. part_moves (snd cop)"
  part_transitions "{''completed'', ''skipped''}"
proof unfold_locales
  show "\<exists>r'\<in>set (t_parts (life_step s op)). bp_id r' = bp_id r \<and>
      (bp_state r' = bp_state r \<or> (bp_state r, bp_state r') \<in> set (part_moves (snd op) r))"
    if "backfill_ok s" "r \<in> set (t_parts s)" for s op r
    using life_rows(2) [OF that, of op] unfolding part_step_def same_part_def by blast
qed (simp_all add: life_ok backfill_ok_keys part_moves_life, auto simp: part_transitions_def)

lemma run_life: "list_all (\<lambda>(c, op). \<not> overwrite op) ops \<Longrightarrow> backfill_run db ops = foldl life_step db ops"
  by (induction ops arbitrary: db) (auto simp: life_step_def)

text \<open>
  C14: the life cycle of a backfill job, call by call. Take any run of calls that does not use the two
  unguarded overwrites, and any call in it. The call keeps every job, and changes the state of a job
  by at most one move, which must be a move of this very call with this very job
  (\<open>job_moves\<close>): a claim only starts a pending or resuming job, a pause only pauses
  the running job it names, a resume only resumes the paused one, a cancellation only cancels the job
  it names (or its children) out of an active state, the release of a parent only makes a waiting
  job pending, and an explicit transition moves its job only along the life cycle; all other calls
  move nothing. From there to the end of the run the job moves only along the life cycle, and a
  completed, failed or cancelled job keeps its state for ever. The moves are written out in
  the statement's tables and not taken from the table of the code's validator.
\<close>

theorem backfill_job_lifecycle:
  assumes "backfill_ok db" "list_all (\<lambda>(c, op). \<not> overwrite op) (before @ (c, op) # after)"
    and "j \<in> set (t_jobs (backfill_run db before))"
  shows "(\<exists>j'\<in>set (t_jobs (backfill_run db (before @ [(c, op)]))). j_id j' = j_id j \<and>
       (j_state j' = j_state j \<or> (j_state j, j_state j') \<in> set (job_moves op j))) \<and>
     (\<exists>j'\<in>set (t_jobs (backfill_run db (before @ (c, op) # after))). j_id j' = j_id j \<and>
       (j_state j, j_state j') \<in> (set job_life)\<^sup>* \<and>
       (j_state j \<in> terminal_states \<longrightarrow> j_state j' = j_state j))"
proof -
  have guarded: "list_all (\<lambda>(c, op). \<not> overwrite op) before" "list_all (\<lambda>(c, op). \<not> overwrite op) (before @ [(c, op)])"
    "list_all (\<lambda>(c, op). \<not> overwrite op) ((c, op) # after)"
    using assms(2) by simp_all
  have j: "j \<in> set (t_jobs (foldl life_step db before))" using assms(3) run_life [OF guarded(1)] by simp
  have whole: "backfill_run db (before @ (c, op) # after) = foldl life_step (foldl life_step db before) ((c, op) # after)"
    using run_life [OF assms(2)] by simp
  from jobs.run_row [OF jobs.run_ok [OF assms(1)] j, of "(c, op) # after"] jobs.final_star
  have "\<exists>j'\<in>set (t_jobs (backfill_run db (before @ (c, op) # after))). j_id j' = j_id j \<and>
       (j_state j, j_state j') \<in> (set job_life)\<^sup>* \<and> (j_state j \<in> terminal_states \<longrightarrow> j_state j' = j_state j)"
    unfolding whole by fastforce
  moreover from jobs.step_after [OF assms(1) j, of "(c, op)"]
  have "\<exists>j'\<in>set (t_jobs (backfill_run db (before @ [(c, op)]))). j_id j' = j_id j \<and>
       (j_state j' = j_state j \<or> (j_state j, j_state j') \<in> set (job_moves op j))"
    unfolding run_life [OF guarded(2)] by simp
  ultimately show ?thesis by blast
qed

text \<open>
  C15: the life cycle of a partition, call by call. Take any run of calls that does not use the
  unguarded overwrites, and any call in it. The call keeps every partition; either it leaves the
  state and the attempts of a partition alone, or it makes one move of this very call with this
  very partition (\<open>part_moves\<close>): a claim starts a pending partition of the job it names, or
  a failed one whose attempts are below the limit, and counts the attempt; a completion, failure and
  requeue move the running partition they name; a cancellation skips pending partitions; and all
  of these leave the attempts alone. From there to the end of the run a completed or skipped
  partition keeps its state.
\<close>

theorem backfill_partition_lifecycle:
  assumes "backfill_ok db" "list_all (\<lambda>(c, op). \<not> overwrite op) (before @ (c, op) # after)"
    and "p \<in> set (t_parts (backfill_run db before))"
  shows "(\<exists>p'\<in>set (t_parts (backfill_run db (before @ [(c, op)]))). bp_id p' = bp_id p \<and>
       (bp_state p' = bp_state p \<and> bp_attempt_count p' = bp_attempt_count p \<or>
        (bp_state p, bp_state p') \<in> set (part_moves op p) \<and>
        bp_attempt_count p' = bp_attempt_count p + (if bp_state p' = ''running'' then 1 else 0))) \<and>
     (bp_state p \<in> {''completed'', ''skipped''} \<longrightarrow>
       (\<exists>p'\<in>set (t_parts (backfill_run db (before @ (c, op) # after))). bp_id p' = bp_id p \<and>
         bp_state p' = bp_state p))"
proof -
  have guarded: "list_all (\<lambda>(c, op). \<not> overwrite op) before" "list_all (\<lambda>(c, op). \<not> overwrite op) (before @ [(c, op)])"
    using assms(2) by simp_all
  have p: "p \<in> set (t_parts (foldl life_step db before))" using assms(3) run_life [OF guarded(1)] by simp
  have whole: "backfill_run db (before @ (c, op) # after) = foldl life_step (foldl life_step db before) ((c, op) # after)"
    using run_life [OF assms(2)] by simp
  from parts.run_row [OF parts.run_ok [OF assms(1)] p, of "(c, op) # after"] parts.final_star
  have "bp_state p \<in> {''completed'', ''skipped''} \<longrightarrow>
       (\<exists>p'\<in>set (t_parts (backfill_run db (before @ (c, op) # after))). bp_id p' = bp_id p \<and> bp_state p' = bp_state p)"
    unfolding whole by metis
  moreover from life_rows(2) [OF parts.run_ok [OF assms(1)] p, of "(c, op)"]
  have "\<exists>p'\<in>set (t_parts (backfill_run db (before @ [(c, op)]))). bp_id p' = bp_id p \<and>
       (bp_state p' = bp_state p \<and> bp_attempt_count p' = bp_attempt_count p \<or>
        (bp_state p, bp_state p') \<in> set (part_moves op p) \<and>
        bp_attempt_count p' = bp_attempt_count p + (if bp_state p' = ''running'' then 1 else 0))"
    unfolding run_life [OF guarded(2)] by (auto simp: part_step_def same_part_def)
  ultimately show ?thesis by blast
qed

section \<open>A concrete database\<close>

definition sample_call :: call where
  "sample_call = call_of ''acme'' 1000"

definition sample_asset :: asset_row where
  "sample_asset =
     \<lparr>ar_id = ''a'', ar_name = ''orders'', ar_description = None, ar_asset_type = ''table'',
      ar_owner = None, ar_tags = [], ar_partition_config = None, ar_compute_fn_module = None,
      ar_compute_fn_function = None, ar_tenant_id = Some ''acme'', ar_created_at = 0, ar_updated_at = 0\<rparr>"

definition sample_job :: "uuid \<Rightarrow> string \<Rightarrow> job" where
  "sample_job i s =
     (child_job sample_call i \<lparr>cp_parent_job_id = ''root'', cp_asset_id = ''a'', cp_asset_name = ''orders'',
        cp_idempotency_key = i, cp_partition_start = None, cp_partition_end = None,
        cp_execution_order = 0\<rparr>)\<lparr>j_state := s, j_parent_job_id := None\<rparr>"

definition sample_part :: "uuid \<Rightarrow> string \<Rightarrow> string \<Rightarrow> int \<Rightarrow> part" where
  "sample_part i k s n =
     \<lparr>bp_id = i, bp_job_id = ''j'', bp_key = k, bp_state = s, bp_attempt_count = n,
      bp_execution_id = None, bp_error_message = None, bp_duration_ms = None, bp_started_at = None,
      bp_completed_at = None, bp_tenant_id = ''acme''\<rparr>"

definition sample_db :: "string \<Rightarrow> int \<Rightarrow> db" where
  "sample_db s n = empty_db\<lparr>t_assets := [sample_asset], t_jobs := [sample_job ''j'' s, sample_job ''k'' ''pending''],
     t_parts := [sample_part ''p'' ''2024-01-01'' ''pending'' n]\<rparr>"

lemmas sample_defs =
  sample_call_def sample_job_def sample_part_def sample_db_def empty_db_def child_job_def

lemma sample_ok: "s \<in> set backfill_states \<Longrightarrow> int4 n \<Longrightarrow> backfill_ok (sample_db s n)"
  by (auto simp: backfill_ok_def jobs_ok_def parts_ok_def job_check_None part_check_None int4_def
      backfill_states_def partition_states_def sample_defs)

lemmas run_defs =
  claim_pending_partition_def requeue_backfill_partition_def fail_backfill_partition_def sample_defs
  my_parts_def first_min_def part_claimable_def claim_part_row_def tx_bind_def update_parts_def
  must_hit_def part_update_check_def part_check_def violated_None part_execution_fk_def
  execution_exists_def int4_def partition_states_def

lemmas claim_defs =
  claim_pending_backfill_job_def claim_job_row_def claimable_def claim_order_def find_job_def my_jobs_def
  update_jobs_def job_check_def with_tenant_context_def backfill_states_def coalesce_def sample_defs
  first_min_def tx_bind_def int4_def

section \<open>The theorems at concrete inputs\<close>

theorem backfill_tenant_isolation_witness:
  "tenant_view ''acme'' (backfill_run (sample_db ''running'' 0) [(call_of ''other'' 0, Cancel_job ''j'' None)]) =
   tenant_view ''acme'' (sample_db ''running'' 0)"
  by (rule backfill_tenant_isolation) (simp_all add: sample_ok backfill_states_def int4_def)

theorem backfill_job_lifecycle_witness:
  "(\<exists>j'\<in>set (t_jobs (backfill_run (sample_db ''running'' 0) [(sample_call, Pause_job ''j'')])). j_id j' = ''j'' \<and>
     j_state j' \<in> {''running'', ''paused''}) \<and>
   (\<exists>j'\<in>set (t_jobs (backfill_run (sample_db ''completed'' 0) [(sample_call, Cancel_job ''j'' None),
       (sample_call, Claim_job 0)])). j_id j' = ''j'' \<and> j_state j' = ''completed'')"
proof -
  have ok: "backfill_ok (sample_db s 0)" if "s \<in> {''running'', ''completed''}" for s
    by (rule sample_ok) (use that in \<open>auto simp: backfill_states_def int4_def\<close>)
  have j: "sample_job ''j'' s \<in> set (t_jobs (backfill_run (sample_db s 0) []))" for s
    by (simp add: sample_db_def)
  from backfill_job_lifecycle [OF ok _ j, of "''running''" sample_call "Pause_job ''j''" "[]"]
    backfill_job_lifecycle [OF ok _ j, of "''completed''" sample_call "Cancel_job ''j'' None" "[(sample_call, Claim_job 0)]"]
  show ?thesis by (auto simp: sample_job_def child_job_def terminal_states_def)
qed

theorem backfill_partition_lifecycle_witness:
  "\<exists>p'\<in>set (t_parts (backfill_run (sample_db ''running'' 0) [(sample_call, Claim_part ''j'' 3)])).
     bp_id p' = ''p'' \<and> (bp_state p' = ''pending'' \<and> bp_attempt_count p' = 0 \<or>
     bp_state p' = ''running'' \<and> bp_attempt_count p' = 1)"
proof -
  let ?p = "sample_part ''p'' ''2024-01-01'' ''pending'' 0"
  have ok: "backfill_ok (sample_db ''running'' 0)"
    by (rule sample_ok) (simp_all add: backfill_states_def int4_def)
  have p: "?p \<in> set (t_parts (backfill_run (sample_db ''running'' 0) []))" by (simp add: sample_db_def)
  from backfill_partition_lifecycle [OF ok _ p, of sample_call "Claim_part ''j'' 3" "[]"]
  show ?thesis by (fastforce simp: sample_part_def)
qed

end
