(* ===== verification/MetaStore.thy ===== *)
theory MetaStore
  imports BackfillLife
begin

text \<open>
  The operations of \<open>servo-storage/src/postgres.rs\<close> on assets, workflows, executions and asset
  dependencies. A row without a tenant is visible to every tenant, as the policies of migration
  002 say; the referential actions of a delete (\<open>ON DELETE CASCADE\<close>, \<open>SET NULL\<close>) ignore the
  policies. The constraints are those of migrations 001, 003, 004, 005, 006, 007 and 010.
\<close>

section \<open>Visibility and constraints\<close>

definition visible :: "call \<Rightarrow> tenant option \<Rightarrow> bool" where
  "visible c t \<longleftrightarrow> (case t of None \<Rightarrow> True | Some u \<Rightarrow> u = tenant c)"

definition my_assets :: "call \<Rightarrow> db \<Rightarrow> asset_row list" where
  "my_assets c db = filter (\<lambda>a. visible c (ar_tenant_id a)) (t_assets db)"

definition my_workflows :: "call \<Rightarrow> db \<Rightarrow> workflow_row list" where
  "my_workflows c db = filter (\<lambda>w. visible c (wr_tenant_id w)) (t_workflows db)"

definition my_executions :: "call \<Rightarrow> db \<Rightarrow> execution_row list" where
  "my_executions c db = filter (\<lambda>x. visible c (x_tenant_id x)) (t_executions db)"

text \<open>A dependency is visible when both its assets are (policy \<open>asset_deps_access\<close>).\<close>

definition dep_access :: "call \<Rightarrow> db \<Rightarrow> dependency_row \<Rightarrow> bool" where
  "dep_access c db d \<longleftrightarrow>
     list_ex (\<lambda>a. ar_id a = dr_upstream_asset_id d) (my_assets c db) \<and>
     list_ex (\<lambda>a. ar_id a = dr_downstream_asset_id d) (my_assets c db)"

definition my_dependencies :: "call \<Rightarrow> db \<Rightarrow> dependency_row list" where
  "my_dependencies c db = filter (dep_access c db) (t_dependencies db)"

definition asset_check_row :: "asset_row \<Rightarrow> sqlx_error option" where
  "asset_check_row a = violated
     [(ar_updated_at a \<ge> ar_created_at a, check_violation ''assets_updated_after_created'')]"

definition same_asset_name :: "asset_row \<Rightarrow> asset_row \<Rightarrow> bool" where
  "same_asset_name a b \<longleftrightarrow>
     ar_name a = ar_name b \<and> ar_tenant_id a = ar_tenant_id b \<and> ar_tenant_id a \<noteq> None"

definition workflow_check_row :: "workflow_row \<Rightarrow> sqlx_error option" where
  "workflow_check_row w = violated
     [(wr_updated_at w \<ge> wr_created_at w, check_violation ''workflows_updated_after_created''),
      (wr_version w > 0, check_violation ''workflows_version_positive'')]"

definition same_workflow_name :: "workflow_row \<Rightarrow> workflow_row \<Rightarrow> bool" where
  "same_workflow_name v w \<longleftrightarrow>
     wr_name v = wr_name w \<and> wr_tenant_id v = wr_tenant_id w \<and> wr_tenant_id v \<noteq> None \<and>
     wr_version v = wr_version w"

definition execution_check_row :: "execution_row \<Rightarrow> sqlx_error option" where
  "execution_check_row x = violated
     [(x_state x \<in> set execution_states, check_violation ''executions_state_check''),
      (x_updated_at x \<ge> x_created_at x, check_violation ''executions_updated_after_created''),
      (case (x_completed_at x, x_started_at x) of (Some e, Some s) \<Rightarrow> e \<ge> s | _ \<Rightarrow> True,
         check_violation ''executions_completed_after_started''),
      (case x_idempotency_key x of None \<Rightarrow> True | Some k \<Rightarrow> 1 \<le> length k \<and> length k \<le> 512,
         check_violation ''executions_idempotency_key_length'')]"

definition same_execution_key :: "execution_row \<Rightarrow> execution_row \<Rightarrow> bool" where
  "same_execution_key x y \<longleftrightarrow>
     x_idempotency_key x \<noteq> None \<and> x_idempotency_key x = x_idempotency_key y \<and>
     x_tenant_id x \<noteq> None \<and> x_tenant_id x = x_tenant_id y \<and> x_workflow_id x = x_workflow_id y"

definition execution_fk :: "db \<Rightarrow> execution_row \<Rightarrow> sqlx_error option" where
  "execution_fk db x = violated
     [(list_ex (\<lambda>w. wr_id w = x_workflow_id x) (t_workflows db),
         fk_violation ''executions_workflow_id_fkey'')]"

text \<open>
  The policy of a new row, here always of the tenant of the transaction, which the operations
  below write into it.
\<close>

definition policy :: "call \<Rightarrow> string \<Rightarrow> tenant option \<Rightarrow> sqlx_error option \<Rightarrow> sqlx_error option" where
  "policy c table t rest = (if visible c t then rest else Some (rls_violation table))"

section \<open>Assets\<close>

definition create_asset :: "call \<Rightarrow> asset_row \<Rightarrow> db \<Rightarrow> (unit, db) outcome" where
  "create_asset c a =
     checked [validate_non_empty_string (ar_name a) ''Asset name'',
              validate_non_empty_string (ar_asset_type a) ''Asset type'']
       (with_tenant_context c (\<lambda>db.
          case stmt_insert (\<lambda>r. policy c ''assets'' (ar_tenant_id r) (asset_check_row r))
                 [(''assets_pkey'', \<lambda>r s. ar_id r = ar_id s),
                  (''assets_name_tenant_id_key'', same_asset_name)] (\<lambda>_. None)
                 (a\<lparr>ar_tenant_id := Some (tenant c)\<rparr>) (t_assets db) of
            Inl e \<Rightarrow> Inl e
          | Inr rows \<Rightarrow> Inr ((), db\<lparr>t_assets := rows\<rparr>)))"

definition get_asset :: "call \<Rightarrow> uuid \<Rightarrow> db \<Rightarrow> (asset_row, db) outcome" where
  "get_asset c i =
     with_tenant_context c (\<lambda>db. case find (\<lambda>a. ar_id a = i) (my_assets c db) of
        None \<Rightarrow> Inl (NotFound (''Asset '' @ i))
      | Some a \<Rightarrow> Inr (a, db))"

definition get_asset_partition_config :: "call \<Rightarrow> uuid \<Rightarrow> db \<Rightarrow> (string option, db) outcome" where
  "get_asset_partition_config c i =
     with_tenant_context c (\<lambda>db. case find (\<lambda>a. ar_id a = i) (my_assets c db) of
        Some a \<Rightarrow> Inr (ar_partition_config a, db)
      | None \<Rightarrow> Inl (NotFound (''Asset '' @ i)))"

definition update_asset :: "call \<Rightarrow> asset_row \<Rightarrow> db \<Rightarrow> (unit, db) outcome" where
  "update_asset c a =
     checked [validate_non_empty_string (ar_name a) ''Asset name'',
              validate_non_empty_string (ar_asset_type a) ''Asset type'']
       (with_tenant_context c
          (must_hit (\<lambda>db.
             case stmt_update (\<lambda>r. visible c (ar_tenant_id r) \<and> ar_id r = ar_id a)
                    (\<lambda>r. r\<lparr>ar_name := ar_name a, ar_description := ar_description a,
                           ar_asset_type := ar_asset_type a, ar_owner := ar_owner a, ar_tags := ar_tags a,
                           ar_partition_config := ar_partition_config a,
                           ar_compute_fn_module := ar_compute_fn_module a,
                           ar_compute_fn_function := ar_compute_fn_function a,
                           ar_updated_at := ar_updated_at a\<rparr>)
                    (\<lambda>r. case asset_check_row r of Some e \<Rightarrow> Some e
                         | None \<Rightarrow> key_clash [(''assets_name_tenant_id_key'',
                                     \<lambda>r s. ar_id r \<noteq> ar_id s \<and> same_asset_name r s)] r (t_assets db))
                    (t_assets db) of
               Inl e \<Rightarrow> Inl e
             | Inr (n, rows) \<Rightarrow> Inr (n, db\<lparr>t_assets := rows\<rparr>))
             (''Asset '' @ ar_id a)))"

text \<open>
  The rows that go with a deleted asset: its dependencies, its backfill jobs, their child jobs to
  any depth, and the partitions of all of them.
\<close>

fun dead_jobs :: "nat \<Rightarrow> job list \<Rightarrow> uuid list \<Rightarrow> uuid list" where
  "dead_jobs 0 js dead = dead"
| "dead_jobs (Suc n) js dead =
     dead_jobs n js (dead @ map j_id (filter (\<lambda>j. j_id j \<notin> set dead \<and>
        (case j_parent_job_id j of None \<Rightarrow> False | Some p \<Rightarrow> p \<in> set dead)) js))"

definition delete_jobs :: "(job \<Rightarrow> bool) \<Rightarrow> db \<Rightarrow> db" where
  "delete_jobs p db =
     (let dead = dead_jobs (length (t_jobs db)) (t_jobs db) (map j_id (filter p (t_jobs db))) in
      db\<lparr>t_jobs := filter (\<lambda>j. j_id j \<notin> set dead) (t_jobs db),
         t_parts := filter (\<lambda>q. bp_job_id q \<notin> set dead) (t_parts db)\<rparr>)"

text \<open>Its checks with their results, its own results, and its places in workflows go as well.\<close>

definition drop_asset_rows :: "uuid \<Rightarrow> db \<Rightarrow> db" where
  "drop_asset_rows i db =
     (let dead = map ck_id (filter (\<lambda>k. ck_asset_id k = i) (t_checks db)) in
      db\<lparr>t_checks := filter (\<lambda>k. ck_asset_id k \<noteq> i) (t_checks db),
         t_check_results := filter (\<lambda>r. cr_asset_id r \<noteq> i \<and> cr_check_id r \<notin> set dead) (t_check_results db),
         t_workflow_assets := filter (\<lambda>w. wa_asset_id w \<noteq> i) (t_workflow_assets db)\<rparr>)"

definition delete_asset :: "call \<Rightarrow> uuid \<Rightarrow> db \<Rightarrow> (unit, db) outcome" where
  "delete_asset c i =
     with_tenant_context c (\<lambda>db.
       if hits (\<lambda>a. ar_id a = i) (my_assets c db) = 0 then Inl (NotFound (''Asset '' @ i))
       else Inr ((), delete_jobs (\<lambda>j. j_asset_id j = i) (drop_asset_rows i
              (db\<lparr>t_assets := filter (\<lambda>a. \<not> (visible c (ar_tenant_id a) \<and> ar_id a = i)) (t_assets db),
                  t_dependencies := filter (\<lambda>d. dr_upstream_asset_id d \<noteq> i \<and> dr_downstream_asset_id d \<noteq> i)
                                      (t_dependencies db)\<rparr>))))"

text \<open>\<open>ORDER BY created_at DESC, id DESC\<close>: the reverse of the ascending order.\<close>

definition newest_first :: "('r \<Rightarrow> time) \<Rightarrow> ('r \<Rightarrow> uuid) \<Rightarrow> 'r list \<Rightarrow> 'r list" where
  "newest_first created ident rs = rev (sort_key (\<lambda>r. (created r, ident r)) rs)"

definition list_assets_page :: "call \<Rightarrow> int \<Rightarrow> int \<Rightarrow> db \<Rightarrow> (asset_row list, db) outcome" where
  "list_assets_page c limit offset =
     checked [validate_pagination_params limit offset]
       (with_tenant_context c (\<lambda>db.
          Inr (page limit offset (newest_first ar_created_at ar_id (my_assets c db)), db)))"

definition get_asset_by_name :: "call \<Rightarrow> string \<Rightarrow> db \<Rightarrow> (asset_row, db) outcome" where
  "get_asset_by_name c nm =
     with_tenant_context c (\<lambda>db. case find (\<lambda>a. ar_name a = nm) (my_assets c db) of
        None \<Rightarrow> Inl (NotFound (''Asset '' @ quoted nm))
      | Some a \<Rightarrow> Inr (a, db))"

definition count_assets :: "call \<Rightarrow> db \<Rightarrow> (nat, db) outcome" where
  "count_assets c = with_tenant_context c (\<lambda>db. Inr (length (my_assets c db), db))"

text \<open>The join is over the assets the tenant can see; positions are unique within a workflow.\<close>

definition get_workflow_assets :: "call \<Rightarrow> uuid \<Rightarrow> db \<Rightarrow> (asset_row list, db) outcome" where
  "get_workflow_assets c w =
     with_tenant_context c (\<lambda>db.
       Inr (concat (map (\<lambda>wa. filter (\<lambda>a. ar_id a = wa_asset_id wa) (my_assets c db))
              (sort_key wa_position (filter (\<lambda>wa. wa_workflow_id wa = w) (t_workflow_assets db)))), db))"

section \<open>Workflows\<close>

definition create_workflow :: "call \<Rightarrow> workflow_row \<Rightarrow> db \<Rightarrow> (unit, db) outcome" where
  "create_workflow c w =
     checked [validate_non_empty_string (wr_name w) ''Workflow name'']
       (with_tenant_context c (\<lambda>db.
          case stmt_insert (\<lambda>r. policy c ''workflows'' (wr_tenant_id r) (workflow_check_row r))
                 [(''workflows_pkey'', \<lambda>r s. wr_id r = wr_id s),
                  (''workflows_name_tenant_id_version_key'', same_workflow_name)] (\<lambda>_. None)
                 (w\<lparr>wr_tenant_id := Some (tenant c)\<rparr>) (t_workflows db) of
            Inl e \<Rightarrow> Inl e
          | Inr rows \<Rightarrow> Inr ((), db\<lparr>t_workflows := rows\<rparr>)))"

definition update_workflow :: "call \<Rightarrow> workflow_row \<Rightarrow> db \<Rightarrow> (unit, db) outcome" where
  "update_workflow c w =
     checked [validate_non_empty_string (wr_name w) ''Workflow name'']
       (with_tenant_context c
          (must_hit (\<lambda>db.
             case stmt_update (\<lambda>r. visible c (wr_tenant_id r) \<and> wr_id r = wr_id w)
                    (\<lambda>r. r\<lparr>wr_name := wr_name w, wr_description := wr_description w, wr_owner := wr_owner w,
                           wr_tags := wr_tags w, wr_version := wr_version w,
                           wr_schedule_cron := wr_schedule_cron w,
                           wr_schedule_timezone := wr_schedule_timezone w,
                           wr_schedule_enabled := wr_schedule_enabled w,
                           wr_scheduler_job_name := wr_scheduler_job_name w,
                           wr_last_scheduled_run := wr_last_scheduled_run w,
                           wr_next_scheduled_run := wr_next_scheduled_run w,
                           wr_updated_at := wr_updated_at w\<rparr>)
                    (\<lambda>r. case workflow_check_row r of Some e \<Rightarrow> Some e
                         | None \<Rightarrow> key_clash [(''workflows_name_tenant_id_version_key'',
                                     \<lambda>r s. wr_id r \<noteq> wr_id s \<and> same_workflow_name r s)] r (t_workflows db))
                    (t_workflows db) of
               Inl e \<Rightarrow> Inl e
             | Inr (n, rows) \<Rightarrow> Inr (n, db\<lparr>t_workflows := rows\<rparr>))
             (''Workflow '' @ wr_id w)))"

text \<open>
  Deleting executions clears the references of the partitions to them, and takes their check
  results along.
\<close>

definition delete_executions :: "(execution_row \<Rightarrow> bool) \<Rightarrow> db \<Rightarrow> db" where
  "delete_executions p db =
     (let dead = map x_id (filter p (t_executions db)) in
      db\<lparr>t_executions := filter (\<lambda>x. \<not> p x) (t_executions db),
         t_parts := map (\<lambda>q. case bp_execution_id q of
                            Some x \<Rightarrow> if x \<in> set dead then q\<lparr>bp_execution_id := None\<rparr> else q
                          | None \<Rightarrow> q) (t_parts db),
         t_check_results := filter (\<lambda>r. cr_execution_id r \<notin> set dead) (t_check_results db)\<rparr>)"

definition delete_workflow :: "call \<Rightarrow> uuid \<Rightarrow> db \<Rightarrow> (unit, db) outcome" where
  "delete_workflow c i =
     with_tenant_context c (\<lambda>db.
       if hits (\<lambda>w. wr_id w = i) (my_workflows c db) = 0 then Inl (NotFound (''Workflow '' @ i))
       else Inr ((), delete_executions (\<lambda>x. x_workflow_id x = i)
              (db\<lparr>t_workflows := filter (\<lambda>w. \<not> (visible c (wr_tenant_id w) \<and> wr_id w = i)) (t_workflows db),
                  t_workflow_assets := filter (\<lambda>w. wa_workflow_id w \<noteq> i) (t_workflow_assets db)\<rparr>)))"

definition get_workflow :: "call \<Rightarrow> uuid \<Rightarrow> db \<Rightarrow> (workflow_row, db) outcome" where
  "get_workflow c i =
     with_tenant_context c (\<lambda>db. case find (\<lambda>w. wr_id w = i) (my_workflows c db) of
        None \<Rightarrow> Inl (NotFound (''Workflow '' @ i))
      | Some w \<Rightarrow> Inr (w, db))"

definition list_workflows :: "call \<Rightarrow> int \<Rightarrow> int \<Rightarrow> db \<Rightarrow> (workflow_row list, db) outcome" where
  "list_workflows c limit offset =
     checked [validate_pagination_params limit offset]
       (with_tenant_context c (\<lambda>db.
          Inr (page limit offset (newest_first wr_created_at wr_id (my_workflows c db)), db)))"

definition count_workflows :: "call \<Rightarrow> db \<Rightarrow> (nat, db) outcome" where
  "count_workflows c = with_tenant_context c (\<lambda>db. Inr (length (my_workflows c db), db))"

section \<open>Executions\<close>

definition execution_pkey :: "string \<times> (execution_row \<Rightarrow> execution_row \<Rightarrow> bool)" where
  "execution_pkey = (''executions_pkey'', \<lambda>x y. x_id x = x_id y)"

definition execution_keys :: "(string \<times> (execution_row \<Rightarrow> execution_row \<Rightarrow> bool)) list" where
  "execution_keys =
     [execution_pkey, (''executions_tenant_workflow_idempotency_key'', same_execution_key)]"

definition insert_execution ::
  "call \<Rightarrow> (string \<times> (execution_row \<Rightarrow> execution_row \<Rightarrow> bool)) list \<Rightarrow> execution_row \<Rightarrow> (unit, db) tx" where
  "insert_execution c ks x db =
     (case stmt_insert (\<lambda>r. policy c ''executions'' (x_tenant_id r) (execution_check_row r)) ks
             (execution_fk db) x (t_executions db) of
        Inl e \<Rightarrow> Inl e
      | Inr rows \<Rightarrow> Inr ((), db\<lparr>t_executions := rows\<rparr>))"

definition create_execution :: "call \<Rightarrow> execution_row \<Rightarrow> db \<Rightarrow> (unit, db) outcome" where
  "create_execution c x =
     checked [validate_execution_state (x_state x)]
       (with_tenant_context c
          (insert_execution c execution_keys (x\<lparr>x_tenant_id := Some (tenant c)\<rparr>)))"

text \<open>
  \<open>INSERT .. ON CONFLICT (tenant_id, workflow_id, idempotency_key) DO NOTHING\<close>: the constraints of
  the row come first, then the arbiter index decides whether anything is inserted; on a conflict the
  existing row is fetched by workflow and key. A conflict needs a key, so the \<open>expect\<close> on it cannot
  fail.
\<close>

definition create_execution_or_get_existing ::
  "call \<Rightarrow> execution_row \<Rightarrow> db \<Rightarrow> (uuid \<times> bool, db) outcome" where
  "create_execution_or_get_existing c x =
     checked [validate_execution_state (x_state x)]
       (with_tenant_context c (\<lambda>db.
          let r = x\<lparr>x_tenant_id := Some (tenant c)\<rparr> in
          case policy c ''executions'' (x_tenant_id r) (execution_check_row r) of
            Some e \<Rightarrow> Inl (map_db_error e)
          | None \<Rightarrow>
              if list_ex (same_execution_key r) (t_executions db) then
                (case find (\<lambda>y. x_workflow_id y = x_workflow_id x \<and> x_idempotency_key y = x_idempotency_key x)
                        (my_executions c db) of
                   None \<Rightarrow> Inl row_not_found
                 | Some y \<Rightarrow> Inr ((x_id y, False), db))
              else tx_bind (insert_execution c [execution_pkey] r) (\<lambda>_. tx_return (x_id x, True)) db))"

definition update_execution :: "call \<Rightarrow> execution_row \<Rightarrow> db \<Rightarrow> (unit, db) outcome" where
  "update_execution c x =
     checked [validate_execution_state (x_state x)]
       (with_tenant_context c
          (must_hit (\<lambda>db.
             case stmt_update (\<lambda>r. visible c (x_tenant_id r) \<and> x_id r = x_id x)
                    (\<lambda>r. r\<lparr>x_state := x_state x, x_started_at := x_started_at x,
                           x_completed_at := x_completed_at x, x_error_message := x_error_message x,
                           x_updated_at := x_updated_at x\<rparr>)
                    execution_check_row (t_executions db) of
               Inl e \<Rightarrow> Inl e
             | Inr (n, rows) \<Rightarrow> Inr (n, db\<lparr>t_executions := rows\<rparr>))
             (''Execution '' @ x_id x)))"

definition delete_execution :: "call \<Rightarrow> uuid \<Rightarrow> db \<Rightarrow> (unit, db) outcome" where
  "delete_execution c i =
     with_tenant_context c (\<lambda>db.
       if hits (\<lambda>x. x_id x = i) (my_executions c db) = 0 then Inl (NotFound (''Execution '' @ i))
       else Inr ((), delete_executions (\<lambda>x. visible c (x_tenant_id x) \<and> x_id x = i) db))"

definition get_execution :: "call \<Rightarrow> uuid \<Rightarrow> db \<Rightarrow> (execution_row, db) outcome" where
  "get_execution c i =
     with_tenant_context c (\<lambda>db. case find (\<lambda>x. x_id x = i) (my_executions c db) of
        None \<Rightarrow> Inl (NotFound (''Execution '' @ i))
      | Some x \<Rightarrow> Inr (x, db))"

definition list_executions :: "call \<Rightarrow> int \<Rightarrow> int \<Rightarrow> db \<Rightarrow> (execution_row list, db) outcome" where
  "list_executions c limit offset =
     checked [validate_pagination_params limit offset]
       (with_tenant_context c (\<lambda>db.
          Inr (page limit offset (newest_first x_created_at x_id (my_executions c db)), db)))"

definition list_workflow_executions ::
  "call \<Rightarrow> uuid \<Rightarrow> int \<Rightarrow> int \<Rightarrow> db \<Rightarrow> (execution_row list, db) outcome" where
  "list_workflow_executions c w limit offset =
     checked [validate_pagination_params limit offset]
       (with_tenant_context c (\<lambda>db.
          Inr (page limit offset (newest_first x_created_at x_id
                 (filter (\<lambda>x. x_workflow_id x = w) (my_executions c db))), db)))"

definition find_execution_by_idempotency_key ::
  "call \<Rightarrow> uuid \<Rightarrow> string \<Rightarrow> db \<Rightarrow> (execution_row option, db) outcome" where
  "find_execution_by_idempotency_key c w key =
     with_tenant_context c (\<lambda>db.
       Inr (find (\<lambda>x. x_workflow_id x = w \<and> x_idempotency_key x = Some key) (my_executions c db), db))"

definition count_executions :: "call \<Rightarrow> db \<Rightarrow> (nat, db) outcome" where
  "count_executions c = with_tenant_context c (\<lambda>db. Inr (length (my_executions c db), db))"

section \<open>Dependencies\<close>

definition dependency_check :: "call \<Rightarrow> db \<Rightarrow> dependency_row \<Rightarrow> sqlx_error option" where
  "dependency_check c db d =
     (if dep_access c db d then
        violated
          [(dr_upstream_asset_id d \<noteq> dr_downstream_asset_id d,
              check_violation ''asset_dependencies_no_self_ref''),
           (dr_dependency_type d \<in> {''data'', ''metadata'', ''control''},
              check_violation ''asset_dependencies_type_check'')]
      else Some (rls_violation ''asset_dependencies''))"

definition create_asset_dependency ::
  "call \<Rightarrow> uuid \<Rightarrow> uuid \<Rightarrow> uuid \<Rightarrow> string \<Rightarrow> db \<Rightarrow> (uuid, db) outcome" where
  "create_asset_dependency c fresh up down ty =
     checked [if up = down then Inl (ValidationError ''Cannot create self-referential dependency'') else Inr (),
              validate_dependency_type ty]
       (with_tenant_context c (\<lambda>db.
          case stmt_insert (dependency_check c db)
                 [(''asset_dependencies_pkey'', \<lambda>d e. dr_id d = dr_id e),
                  (''asset_dependencies_upstream_downstream_type_key'',
                   \<lambda>d e. dr_upstream_asset_id d = dr_upstream_asset_id e \<and>
                         dr_downstream_asset_id d = dr_downstream_asset_id e \<and>
                         dr_dependency_type d = dr_dependency_type e)]
                 (\<lambda>_. None)
                 \<lparr>dr_id = fresh, dr_upstream_asset_id = up, dr_downstream_asset_id = down,
                  dr_dependency_type = ty, dr_created_at = now c\<rparr> (t_dependencies db) of
            Inl e \<Rightarrow> Inl e
          | Inr rows \<Rightarrow> Inr (fresh, db\<lparr>t_dependencies := rows\<rparr>)))"

definition upstream_rows :: "call \<Rightarrow> db \<Rightarrow> uuid \<Rightarrow> dependency_row list" where
  "upstream_rows c db i = filter (\<lambda>d. dr_downstream_asset_id d = i) (my_dependencies c db)"

definition downstream_rows :: "call \<Rightarrow> db \<Rightarrow> uuid \<Rightarrow> dependency_row list" where
  "downstream_rows c db i = filter (\<lambda>d. dr_upstream_asset_id d = i) (my_dependencies c db)"

definition get_asset_dependencies ::
  "call \<Rightarrow> uuid \<Rightarrow> db \<Rightarrow> (dependency_row list \<times> dependency_row list, db) outcome" where
  "get_asset_dependencies c i =
     with_tenant_context c (\<lambda>db. Inr ((upstream_rows c db i, downstream_rows c db i), db))"

definition get_upstream_dependencies :: "call \<Rightarrow> uuid \<Rightarrow> db \<Rightarrow> (dependency_row list, db) outcome" where
  "get_upstream_dependencies c i = with_tenant_context c (\<lambda>db. Inr (upstream_rows c db i, db))"

definition get_downstream_dependencies :: "call \<Rightarrow> uuid \<Rightarrow> db \<Rightarrow> (dependency_row list, db) outcome" where
  "get_downstream_dependencies c i = with_tenant_context c (\<lambda>db. Inr (downstream_rows c db i, db))"

text \<open>The two deletes look at the row count after the transaction has committed.\<close>

definition delete_asset_dependencies_where ::
  "call \<Rightarrow> (dependency_row \<Rightarrow> bool) \<Rightarrow> db \<Rightarrow> (nat, db) outcome" where
  "delete_asset_dependencies_where c p =
     with_tenant_context c (\<lambda>db.
       Inr (hits p (my_dependencies c db),
            db\<lparr>t_dependencies := filter (\<lambda>d. \<not> (dep_access c db d \<and> p d)) (t_dependencies db)\<rparr>))"

definition delete_asset_dependency :: "call \<Rightarrow> uuid \<Rightarrow> db \<Rightarrow> (unit, db) outcome" where
  "delete_asset_dependency c i db =
     (case delete_asset_dependencies_where c (\<lambda>d. dr_id d = i) db of
        (Inl e, db') \<Rightarrow> (Inl e, db')
      | (Inr n, db') \<Rightarrow>
          (if n = 0 then (Inl (NotFound (''AssetDependency '' @ i)), db') else (Inr (), db')))"

definition delete_asset_dependencies_for_asset :: "call \<Rightarrow> uuid \<Rightarrow> db \<Rightarrow> (nat, db) outcome" where
  "delete_asset_dependencies_for_asset c i =
     delete_asset_dependencies_where c (\<lambda>d. dr_upstream_asset_id d = i \<or> dr_downstream_asset_id d = i)"

section \<open>Runs\<close>

text \<open>The writes to the four tables, as steps that can be interleaved.\<close>

datatype meta_op =
    Create_asset asset_row
  | Update_asset asset_row
  | Delete_asset uuid
  | Create_workflow workflow_row
  | Update_workflow workflow_row
  | Delete_workflow uuid
  | Create_execution execution_row
  | Create_execution_once execution_row
  | Update_execution execution_row
  | Delete_execution uuid
  | Create_dependency uuid uuid uuid string
  | Delete_dependency uuid
  | Delete_dependencies_of uuid

fun meta_step :: "call \<times> meta_op \<Rightarrow> db \<Rightarrow> db" where
  "meta_step (c, Create_asset a) db = snd (create_asset c a db)"
| "meta_step (c, Update_asset a) db = snd (update_asset c a db)"
| "meta_step (c, Delete_asset i) db = snd (delete_asset c i db)"
| "meta_step (c, Create_workflow w) db = snd (create_workflow c w db)"
| "meta_step (c, Update_workflow w) db = snd (update_workflow c w db)"
| "meta_step (c, Delete_workflow i) db = snd (delete_workflow c i db)"
| "meta_step (c, Create_execution x) db = snd (create_execution c x db)"
| "meta_step (c, Create_execution_once x) db = snd (create_execution_or_get_existing c x db)"
| "meta_step (c, Update_execution x) db = snd (update_execution c x db)"
| "meta_step (c, Delete_execution i) db = snd (delete_execution c i db)"
| "meta_step (c, Create_dependency i u d t) db = snd (create_asset_dependency c i u d t db)"
| "meta_step (c, Delete_dependency i) db = snd (delete_asset_dependency c i db)"
| "meta_step (c, Delete_dependencies_of i) db = snd (delete_asset_dependencies_for_asset c i db)"

abbreviation meta_run :: "db \<Rightarrow> (call \<times> meta_op) list \<Rightarrow> db" where
  "meta_run \<equiv> foldl (\<lambda>db cop. meta_step cop db)"

end
