(* ===== verification/Retry.thy ===== *)
theory Retry
  imports Storage
begin

text \<open>
  The errors of the runtime (\<open>servo-runtime/src/lib.rs\<close>), how the orchestrator maps storage errors
  to them (\<open>orchestrator.rs\<close>), and the retry loop (\<open>retry.rs\<close>). The delays of the policy are
  computed in floating point and with random jitter; they only decide how long the loop sleeps, so
  the loop takes the elapsed times that it measures as an argument and the delays are not modelled.
\<close>

section \<open>Errors and their classification\<close>

datatype runtime_error =
    Execution string
  | NotFoundR string
  | InvalidState string
  | TenantViolationR string
  | Timeout string
  | RetryExhausted string
  | ConcurrencyLimitExceeded string
  | InternalR string

fun is_retryable :: "runtime_error \<Rightarrow> bool" where
  "is_retryable (InternalR msg) =
     (let m = to_lowercase msg in
      str_contains ''connection'' m \<or> str_contains ''timeout'' m \<or> str_contains ''pool'' m \<or>
      str_contains ''transient'' m)"
| "is_retryable (Timeout _) = True"
| "is_retryable (Execution _) = False"
| "is_retryable (NotFoundR _) = False"
| "is_retryable (InvalidState _) = False"
| "is_retryable (TenantViolationR _) = False"
| "is_retryable (RetryExhausted _) = False"
| "is_retryable (ConcurrencyLimitExceeded _) = False"

text \<open>
  The text of a storage error (\<open>#[error(..)]\<close> in \<open>servo-storage/src/lib.rs\<close>); the text of an
  error of the database driver is an argument.
\<close>

fun show_storage_error :: "(sqlx_error \<Rightarrow> string) \<Rightarrow> storage_error \<Rightarrow> string" where
  "show_storage_error sx (Database e) = ''Database error: '' @ sx e"
| "show_storage_error sx (NotFound m) = ''Not found: '' @ m"
| "show_storage_error sx (AlreadyExists m) = ''Already exists: '' @ m"
| "show_storage_error sx (TenantViolation m) = ''Tenant isolation violation: '' @ m"
| "show_storage_error sx (Migration m) = ''Migration error: '' @ m"
| "show_storage_error sx (Internal m) = ''Internal error: '' @ m"
| "show_storage_error sx (ValidationError m) = ''Validation error: '' @ m"
| "show_storage_error sx (PoolExhausted m) = ''Connection pool exhausted: '' @ m"
| "show_storage_error sx (ConnectionFailed m) = ''Connection failed: '' @ m"
| "show_storage_error sx CircuitOpen = ''Circuit breaker is open, rejecting database operation''"

fun show_error :: "runtime_error \<Rightarrow> string" where
  "show_error (Execution m) = ''Execution error: '' @ m"
| "show_error (NotFoundR m) = ''Not found: '' @ m"
| "show_error (InvalidState m) = ''Invalid state: '' @ m"
| "show_error (TenantViolationR m) = ''Tenant violation: '' @ m"
| "show_error (Timeout m) = ''Timeout error: '' @ m"
| "show_error (RetryExhausted m) = ''Retry exhausted: '' @ m"
| "show_error (ConcurrencyLimitExceeded m) = ''Concurrency limit exceeded: '' @ m"
| "show_error (InternalR m) = ''Internal error: '' @ m"

fun map_storage_error :: "(sqlx_error \<Rightarrow> string) \<Rightarrow> string \<Rightarrow> storage_error \<Rightarrow> runtime_error" where
  "map_storage_error sx ctx (NotFound m) = NotFoundR m"
| "map_storage_error sx ctx (TenantViolation m) = TenantViolationR m"
| "map_storage_error sx ctx (ValidationError m) = Execution m"
| "map_storage_error sx ctx (AlreadyExists m) = Execution m"
| "map_storage_error sx ctx e = InternalR (ctx @ '': '' @ show_storage_error sx e)"

lemma to_lowercase_append: "to_lowercase (a @ b) = to_lowercase a @ to_lowercase b"
  by (simp add: to_lowercase_def)

lemma contains_mid: "str_contains p m \<Longrightarrow> str_contains p (a @ m)" "str_contains p m \<Longrightarrow> str_contains p (m @ b)"
  using str_contains_append [of p m a "[]"] str_contains_append [of p m "[]" b] by simp_all

text \<open>
  The mapping of storage errors preserves whether a retry makes sense, whatever the context
  text: an exhausted pool and a failed connection are retried; a missing row, a tenant violation, a
  failed validation and a duplicate key are not. An open circuit breaker is not retried either, when
  the context itself does not name a connection, a pool or a timeout.
\<close>

theorem storage_errors_classified:
  "is_retryable (map_storage_error sx ctx (PoolExhausted m)) \<and>
   is_retryable (map_storage_error sx ctx (ConnectionFailed m)) \<and>
   \<not> is_retryable (map_storage_error sx ctx (NotFound m)) \<and>
   \<not> is_retryable (map_storage_error sx ctx (TenantViolation m)) \<and>
   \<not> is_retryable (map_storage_error sx ctx (ValidationError m)) \<and>
   \<not> is_retryable (map_storage_error sx ctx (AlreadyExists m)) \<and>
   \<not> is_retryable (map_storage_error sx ''Failed to create execution'' CircuitOpen)"
proof -
  have "str_contains ''connection'' (to_lowercase ''Connection pool exhausted: '')" by code_simp
  moreover have "str_contains ''connection'' (to_lowercase ''Connection failed: '')" by code_simp
  ultimately have 1: "is_retryable (map_storage_error sx ctx (PoolExhausted m))"
    "is_retryable (map_storage_error sx ctx (ConnectionFailed m))"
    by (simp_all only: is_retryable.simps map_storage_error.simps show_storage_error.simps
        to_lowercase_append Let_def contains_mid simp_thms)
  have "\<not> is_retryable (map_storage_error sx ''Failed to create execution'' CircuitOpen)"
    by code_simp
  with 1 show ?thesis by simp
qed

section \<open>The retry loop\<close>

record retry_policy =
  max_attempts :: nat
  max_elapsed :: time

definition should_retry :: "retry_policy \<Rightarrow> nat \<Rightarrow> bool" where
  "should_retry pol attempt \<longleftrightarrow> attempt < max_attempts pol"

definition is_elapsed_exceeded :: "retry_policy \<Rightarrow> time \<Rightarrow> bool" where
  "is_elapsed_exceeded pol elapsed \<longleftrightarrow> elapsed \<ge> max_elapsed pol"

text \<open>
  \<open>f n\<close> is the result of call number \<open>n\<close> (from 0) and \<open>elapsed n\<close> the time measured after \<open>n\<close>
  failures. The loop returns the result, the number of calls made and the numbers of the retries it
  slept before, which are the arguments of \<open>calculate_delay\<close>.
\<close>

function retry_loop ::
  "retry_policy \<Rightarrow> (nat \<Rightarrow> runtime_error + 'a) \<Rightarrow> (nat \<Rightarrow> time) \<Rightarrow> nat \<Rightarrow> nat list \<Rightarrow>
   (runtime_error + 'a) \<times> nat \<times> nat list" where
  "retry_loop pol f elapsed attempt slept =
     (case f attempt of
        Inr a \<Rightarrow> (Inr a, attempt + 1, slept)
      | Inl e \<Rightarrow>
          (let attempt' = attempt + 1 in
           if \<not> is_retryable e then (Inl e, attempt', slept)
           else if attempt' \<ge> max_attempts pol then (Inl e, attempt', slept)
           else if is_elapsed_exceeded pol (elapsed attempt') then (Inl e, attempt', slept)
           else retry_loop pol f elapsed attempt' (slept @ [attempt' - 1])))"
  by pat_completeness auto
termination
  by (relation "measure (\<lambda>(pol, f, elapsed, attempt, slept). max_attempts pol - attempt)") auto

declare retry_loop.simps [simp del]

definition execute_with_retry ::
  "retry_policy \<Rightarrow> (nat \<Rightarrow> runtime_error + 'a) \<Rightarrow> (nat \<Rightarrow> time) \<Rightarrow>
   (runtime_error + 'a) \<times> nat \<times> nat list" where
  "execute_with_retry pol f elapsed = retry_loop pol f elapsed 0 []"

text \<open>The reasons to stop after call number \<open>n\<close>.\<close>

definition stops :: "retry_policy \<Rightarrow> (nat \<Rightarrow> runtime_error + 'a) \<Rightarrow> (nat \<Rightarrow> time) \<Rightarrow> nat \<Rightarrow> bool" where
  "stops pol f elapsed n \<longleftrightarrow>
     (case f n of Inr _ \<Rightarrow> True | Inl e \<Rightarrow> \<not> is_retryable e) \<or>
     n + 1 \<ge> max_attempts pol \<or> is_elapsed_exceeded pol (elapsed (n + 1))"

lemma retry_loop_step:
  "retry_loop pol f elapsed n slept =
     (if stops pol f elapsed n then (f n, n + 1, slept)
      else retry_loop pol f elapsed (n + 1) (slept @ [n]))"
  by (subst retry_loop.simps) (auto simp: stops_def Let_def split: sum.splits)

lemma retry_loop_result:
  assumes "n \<le> k" "stops pol f elapsed k" "\<And>i. n \<le> i \<Longrightarrow> i < k \<Longrightarrow> \<not> stops pol f elapsed i"
  shows "retry_loop pol f elapsed n slept = (f k, k + 1, slept @ [n..<k])"
  using assms
proof (induction "k - n" arbitrary: n slept)
  case 0
  then show ?case by (simp add: retry_loop_step)
next
  case (Suc d)
  then have "n < k" by simp
  with Suc have "\<not> stops pol f elapsed n" by simp
  with Suc \<open>n < k\<close> have "retry_loop pol f elapsed n slept = (f k, k + 1, (slept @ [n]) @ [n + 1..<k])"
    by (subst retry_loop_step) simp
  with \<open>n < k\<close> show ?case by (simp add: upt_conv_Cons)
qed

text \<open>
  C35: what the retry loop computes. The operation is called until the first call that succeeds,
  fails permanently, is number \<open>max_attempts\<close> (the first call is always made), or ends after the
  elapsed limit; the result is the result of that call, and the loop slept exactly once between two
  consecutive calls. So the loop ends, and the operation is called at most \<open>max 1 max_attempts\<close>
  times.
\<close>

theorem execute_with_retry_correct:
  "\<exists>k. execute_with_retry pol f elapsed = (f k, k + 1, [0..<k]) \<and> k + 1 \<le> max 1 (max_attempts pol) \<and>
     stops pol f elapsed k \<and> (\<forall>i<k. \<not> stops pol f elapsed i)"
proof -
  have ex: "stops pol f elapsed (max_attempts pol)" by (simp add: stops_def)
  define k where "k = (LEAST k. stops pol f elapsed k)"
  have k: "stops pol f elapsed k" "\<forall>i<k. \<not> stops pol f elapsed i"
    unfolding k_def using ex by (auto intro: LeastI dest: not_less_Least)
  have "k + 1 \<le> max 1 (max_attempts pol)"
  proof (rule ccontr)
    assume "\<not> ?thesis"
    then have "0 < k" "max_attempts pol \<le> k" by auto
    then have "stops pol f elapsed (k - 1)" by (simp add: stops_def)
    with k(2) \<open>0 < k\<close> show False by simp
  qed
  with k retry_loop_result [of 0 k pol f elapsed "[]"] show ?thesis
    by (auto simp: execute_with_retry_def)
qed

theorem execute_with_retry_correct_witness:
  "execute_with_retry \<lparr>max_attempts = 3, max_elapsed = 100\<rparr>
     (\<lambda>n. if n = 0 then Inl (Timeout ''t'') else Inr n) (\<lambda>_. 0) = (Inr 1, 2, [0])"
proof -
  let ?pol = "\<lparr>max_attempts = 3, max_elapsed = 100\<rparr>"
  let ?f = "\<lambda>n. if n = 0 then Inl (Timeout ''t'') else Inr n"
  have "stops ?pol ?f (\<lambda>_. 0) 1" "\<not> stops ?pol ?f (\<lambda>_. 0) 0"
    by (simp_all add: stops_def is_elapsed_exceeded_def)
  moreover from execute_with_retry_correct [of ?pol ?f "\<lambda>_. 0"] obtain k where
    k: "execute_with_retry ?pol ?f (\<lambda>_. 0) = (?f k, k + 1, [0..<k])"
    "stops ?pol ?f (\<lambda>_. 0) k" "\<forall>i<k. \<not> stops ?pol ?f (\<lambda>_. 0) i" by blast
  ultimately have "k \<noteq> 0" "\<not> 1 < k" by (metis, blast)
  then have "k = 1" by simp
  with k(1) show ?thesis by simp
qed

text \<open>
  The limit counts calls, not retries. An operation that always fails with a retryable error is
  called \<open>max_attempts\<close> times, that is retried \<open>max_attempts - 1\<close> times, while \<open>should_retry\<close> and
  the comment on the field ("maximum number of retry attempts") admit one retry more.
\<close>

theorem retries_one_less_than_documented:
  assumes "0 < max_attempts pol" "\<And>n. \<exists>e. f n = Inl e \<and> is_retryable e"
    and "\<And>n. \<not> is_elapsed_exceeded pol (elapsed n)"
  shows "fst (snd (execute_with_retry pol f elapsed)) = max_attempts pol \<and>
     length (snd (snd (execute_with_retry pol f elapsed))) = max_attempts pol - 1 \<and>
     should_retry pol (max_attempts pol - 1)"
proof -
  have "stops pol f elapsed n \<longleftrightarrow> max_attempts pol \<le> n + 1" for n
    using assms(2) [of n] assms(3) by (auto simp: stops_def)
  then have "retry_loop pol f elapsed 0 [] =
      (f (max_attempts pol - 1), max_attempts pol - 1 + 1, [] @ [0..<max_attempts pol - 1])"
    using assms(1) by (intro retry_loop_result) auto
  with assms(1) show ?thesis by (simp add: execute_with_retry_def should_retry_def)
qed

theorem retries_one_less_than_documented_witness:
  "fst (snd (execute_with_retry \<lparr>max_attempts = 3, max_elapsed = 100\<rparr>
      (\<lambda>n. Inl (Timeout ''t'') :: runtime_error + nat) (\<lambda>n. 0))) = 3"
  using retries_one_less_than_documented
    [of "\<lparr>max_attempts = 3, max_elapsed = 100\<rparr>" "\<lambda>n. Inl (Timeout ''t'') :: runtime_error + nat" "\<lambda>n. 0"]
  by (simp add: is_elapsed_exceeded_def)

end
