(* ===== verification/Contexts.thy ===== *)
theory Contexts
  imports Text
begin

text \<open>
  The runtime context of a partition (\<open>servo-core/src/partition_context.rs\<close>): the record that travels
  from the backfill executor to the worker, and its builders.
\<close>

section \<open>The context of an execution\<close>

record partition_context =
  pc_key :: string
  pc_type :: "string option"
  pc_timezone :: "string option"
  pc_format :: "string option"
  pc_dimensions :: "string \<rightharpoonup> string"
  pc_upstream :: "string \<rightharpoonup> string list"

definition context_new :: "string \<Rightarrow> partition_context" where
  "context_new key =
     \<lparr>pc_key = key, pc_type = None, pc_timezone = None, pc_format = None,
      pc_dimensions = Map.empty, pc_upstream = Map.empty\<rparr>"

definition with_partition_type where
  "with_partition_type t ctx = ctx\<lparr>pc_type := Some t\<rparr>"

definition with_timezone where
  "with_timezone t ctx = ctx\<lparr>pc_timezone := Some t\<rparr>"

definition with_format where
  "with_format f ctx = ctx\<lparr>pc_format := Some f\<rparr>"

definition with_dimension where
  "with_dimension n v ctx = ctx\<lparr>pc_dimensions := (pc_dimensions ctx)(n \<mapsto> v)\<rparr>"

definition with_upstream_partition where
  "with_upstream_partition n ks ctx = ctx\<lparr>pc_upstream := (pc_upstream ctx)(n \<mapsto> ks)\<rparr>"

definition is_multi_dimensional :: "partition_context \<Rightarrow> bool" where
  "is_multi_dimensional ctx \<longleftrightarrow> pc_dimensions ctx \<noteq> Map.empty"

definition get_dimension where
  "get_dimension ctx n = pc_dimensions ctx n"

definition get_upstream_partitions where
  "get_upstream_partitions ctx n = pc_upstream ctx n"

end
