(* ===== verification/Orchestrator.thy ===== *)
theory Orchestrator
  imports MetaStore Retry Contexts
begin

text \<open>
  The execution orchestrator (\<open>servo-runtime/src/orchestrator.rs\<close>), the execution states and the
  in-memory state machine (\<open>state_machine.rs\<close>, \<open>converters.rs\<close>). An operation of the
  orchestrator makes several storage calls, each a transaction of its own; what other processes do
  to the database between two of them is an argument (\<open>between\<close>). The task queue is an argument
  too: it answers each task with an error or accepts it.
\<close>

section \<open>States\<close>

datatype execution_state = Pending | Running | Succeeded | Failed | Cancelled | TimedOut

fun state_string :: "execution_state \<Rightarrow> string" where
  "state_string Pending = ''pending''"
| "state_string Running = ''running''"
| "state_string Succeeded = ''succeeded''"
| "state_string Failed = ''failed''"
| "state_string Cancelled = ''cancelled''"
| "state_string TimedOut = ''timeout''"

definition parse_state :: "string \<Rightarrow> runtime_error + execution_state" where
  "parse_state s =
     (if s = ''pending'' then Inr Pending
      else if s = ''running'' then Inr Running
      else if s = ''succeeded'' then Inr Succeeded
      else if s = ''failed'' then Inr Failed
      else if s = ''cancelled'' then Inr Cancelled
      else if s = ''timeout'' then Inr TimedOut
      else Inl (InvalidState (''Unknown execution state: '' @ s)))"

fun debug_state :: "execution_state \<Rightarrow> string" where
  "debug_state Pending = ''Pending''"
| "debug_state Running = ''Running''"
| "debug_state Succeeded = ''Succeeded''"
| "debug_state Failed = ''Failed''"
| "debug_state Cancelled = ''Cancelled''"
| "debug_state TimedOut = ''Timeout''"

lemma parse_state_string [simp]: "parse_state (state_string s) = Inr s"
  by (cases s) (simp_all add: parse_state_def)

lemma parse_state_Inr: "parse_state s = Inr st \<longleftrightarrow> s = state_string st"
  by (cases st) (auto simp: parse_state_def split: if_splits)

subsection \<open>The in-memory state machine\<close>

record state_machine =
  current_state :: execution_state
  state_history :: "(execution_state \<times> time) list"

definition sm_new :: "time \<Rightarrow> state_machine" where
  "sm_new t = \<lparr>current_state = Pending, state_history = [(Pending, t)]\<rparr>"

definition sm_is_valid_transition :: "execution_state \<Rightarrow> execution_state \<Rightarrow> bool" where
  "sm_is_valid_transition s t \<longleftrightarrow>
     (s = Pending \<and> t = Running) \<or> (s = Running \<and> t \<in> {Succeeded, Failed, Cancelled, TimedOut})"

definition sm_transition :: "time \<Rightarrow> execution_state \<Rightarrow> state_machine \<Rightarrow> string + state_machine" where
  "sm_transition t new m =
     (if \<not> sm_is_valid_transition (current_state m) new
      then Inl (''Invalid transition from '' @ debug_state (current_state m) @ '' to '' @ debug_state new)
      else Inr (m\<lparr>current_state := new, state_history := state_history m @ [(new, t)]\<rparr>))"

fun sm_run :: "state_machine \<Rightarrow> (time \<times> execution_state) list \<Rightarrow> state_machine" where
  "sm_run m [] = m"
| "sm_run m ((t, s) # xs) = sm_run (case sm_transition t s m of Inl _ \<Rightarrow> m | Inr m' \<Rightarrow> m') xs"

definition sm_ok :: "state_machine \<Rightarrow> bool" where
  "sm_ok m \<longleftrightarrow> map fst (state_history m) \<in>
     {[Pending]} \<union> {[Pending, Running]} \<union> (\<lambda>s. [Pending, Running, s]) ` {Succeeded, Failed, Cancelled, TimedOut} \<and>
     current_state m = fst (last (state_history m))"

lemma sm_ok_step: "sm_ok m \<Longrightarrow> sm_transition t s m = Inr m' \<Longrightarrow> sm_ok m'"
proof -
  assume ok: "sm_ok m" and tr: "sm_transition t s m = Inr m'"
  then have m': "m' = m\<lparr>current_state := s, state_history := state_history m @ [(s, t)]\<rparr>"
    and valid: "sm_is_valid_transition (current_state m) s"
    by (auto simp: sm_transition_def split: if_splits)
  have ne: "state_history m \<noteq> []" using ok by (auto simp: sm_ok_def)
  have cur: "current_state m = last (map fst (state_history m))"
    using ok ne by (simp add: sm_ok_def last_map)
  have new: "map fst (state_history m') = map fst (state_history m) @ [s]" "current_state m' = s"
    "current_state m' = fst (last (state_history m'))" by (simp_all add: m')
  from ok consider "map fst (state_history m) = [Pending]" | "map fst (state_history m) = [Pending, Running]"
    | f where "map fst (state_history m) = [Pending, Running, f]" "f \<in> {Succeeded, Failed, Cancelled, TimedOut}"
    unfolding sm_ok_def by (elim conjE UnE imageE singletonE) simp_all
  then show "sm_ok m'"
  proof cases
    case 1
    with valid cur have "s = Running" by (simp add: sm_is_valid_transition_def)
    with 1 new show ?thesis by (simp add: sm_ok_def)
  next
    case 2
    with valid cur have "s \<in> {Succeeded, Failed, Cancelled, TimedOut}" by (simp add: sm_is_valid_transition_def)
    with 2 new show ?thesis by (simp add: sm_ok_def)
  next
    case 3
    with valid cur show ?thesis by (auto simp: sm_is_valid_transition_def)
  qed
qed

text \<open>
  The in-memory state machine. Through any sequence of attempted transitions the history is a
  path pending, running, one final state; the current state is its last entry; a final state is
  never left.
\<close>

theorem state_machine_history:
  "sm_ok (sm_run (sm_new t0) xs)"
proof -
  have "sm_ok (sm_run m xs)" if "sm_ok m" for m
    using that by (induction m xs rule: sm_run.induct) (auto split: sum.splits dest: sm_ok_step)
  then show ?thesis by (simp add: sm_new_def sm_ok_def)
qed

section \<open>Starting an execution\<close>

record task =
  task_execution_id :: uuid
  task_workflow_id :: uuid
  task_tenant :: tenant
  task_idempotency_key :: "string option"
  task_plan :: "uuid list"
  task_partition :: "partition_context option"

text \<open>
  \<open>queue\<close> is the task enqueuer, if one is configured: None accepts the task, Some is the text of
  its error. The result carries the tasks that were handed to the queue and accepted.
\<close>

definition new_execution :: "uuid \<Rightarrow> call \<Rightarrow> uuid \<Rightarrow> string option \<Rightarrow> execution_row" where
  "new_execution fresh c w key =
     \<lparr>x_id = fresh, x_workflow_id = w, x_state = state_string Pending, x_tenant_id = Some (tenant c),
      x_idempotency_key = key, x_started_at = None, x_completed_at = None, x_error_message = None,
      x_created_at = now c, x_updated_at = now c\<rparr>"

definition start_execution_with ::
  "(sqlx_error \<Rightarrow> string) \<Rightarrow> (task \<Rightarrow> string option) option \<Rightarrow> uuid \<Rightarrow> call \<Rightarrow> uuid \<Rightarrow> string option \<Rightarrow>
   partition_context option \<Rightarrow> db \<Rightarrow> (runtime_error + uuid) \<times> task list \<times> db" where
  "start_execution_with sx queue fresh c w key part db =
     (let x = new_execution fresh c w key;
          (created, db') =
            (case key of
               Some _ \<Rightarrow> create_execution_or_get_existing c x db
             | None \<Rightarrow> (case create_execution c x db of
                          (Inl e, db') \<Rightarrow> (Inl e, db')
                        | (Inr _, db') \<Rightarrow> (Inr (x_id x, True), db'))) in
      case created of
        Inl e \<Rightarrow> (Inl (map_storage_error sx ''Failed to create execution'' e), [], db')
      | Inr (i, was_created) \<Rightarrow>
          (if \<not> was_created then (Inr i, [], db')
           else case queue of
             None \<Rightarrow> (Inr i, [], db')
           | Some enqueue \<Rightarrow>
               (let tsk = \<lparr>task_execution_id = i, task_workflow_id = w, task_tenant = tenant c,
                           task_idempotency_key = key, task_plan = [], task_partition = part\<rparr> in
                case enqueue tsk of
                  Some err \<Rightarrow> (Inl (InternalR (''Failed to enqueue task: '' @ err)), [], db')
                | None \<Rightarrow> (Inr i, [tsk], db'))))"

definition start_execution where
  "start_execution sx queue fresh c w key = start_execution_with sx queue fresh c w key None"

definition start_execution_with_partition where
  "start_execution_with_partition sx queue fresh c w key ctx =
     start_execution_with sx queue fresh c w key (Some ctx)"

section \<open>State transitions\<close>

definition is_valid_transition :: "execution_state \<Rightarrow> execution_state \<Rightarrow> bool" where
  "is_valid_transition s t \<longleftrightarrow>
     (s = Pending \<and> t = Running) \<or>
     (s = Running \<and> t \<in> {Succeeded, Failed, TimedOut, Cancelled}) \<or>
     (s = Failed \<and> t = Running)"

definition or_else :: "'a option \<Rightarrow> 'a \<Rightarrow> 'a option" where
  "or_else x d = (case x of None \<Rightarrow> Some d | Some v \<Rightarrow> Some v)"

text \<open>
  The read and the write of a transition are two transactions; \<open>c1\<close> and \<open>c2\<close> are their calls, and
  the clock is read for the update at \<open>now c2\<close>.
\<close>

definition transition_state ::
  "(sqlx_error \<Rightarrow> string) \<Rightarrow> call \<Rightarrow> (db \<Rightarrow> db) \<Rightarrow> call \<Rightarrow> uuid \<Rightarrow> execution_state \<Rightarrow> execution_state \<Rightarrow>
   db \<Rightarrow> (runtime_error + unit) \<times> db" where
  "transition_state sx c1 between c2 i from to db =
     (if \<not> is_valid_transition from to
      then (Inl (Execution (''Invalid state transition from '' @ debug_state from @ '' to '' @ debug_state to)), db)
      else case get_execution c1 i db of
        (Inl e, db1) \<Rightarrow> (Inl (map_storage_error sx ''Failed to get execution'' e), db1)
      | (Inr x, db1) \<Rightarrow>
          (case parse_state (x_state x) of
             Inl e \<Rightarrow> (Inl e, db1)
           | Inr cur \<Rightarrow>
               if cur \<noteq> from
               then (Inl (Execution (''State mismatch: expected '' @ debug_state from @ '', got '' @ debug_state cur)), db1)
               else
                 (let y = x\<lparr>x_state := state_string to, x_updated_at := now c2,
                            x_started_at := (if to = Running then or_else (x_started_at x) (now c2)
                                             else x_started_at x),
                            x_completed_at := (if to \<in> {Succeeded, Failed, TimedOut, Cancelled}
                                               then or_else (x_completed_at x) (now c2)
                                               else x_completed_at x)\<rparr> in
                  case update_execution c2 y (between db1) of
                    (Inl e, db2) \<Rightarrow> (Inl (map_storage_error sx ''Failed to update execution'' e), db2)
                  | (Inr _, db2) \<Rightarrow> (Inr (), db2))))"

definition record_failure ::
  "(sqlx_error \<Rightarrow> string) \<Rightarrow> call \<Rightarrow> (db \<Rightarrow> db) \<Rightarrow> call \<Rightarrow> uuid \<Rightarrow> string \<Rightarrow> db \<Rightarrow> (runtime_error + unit) \<times> db"
where
  "record_failure sx c1 between c2 i err db =
     (case get_execution c1 i db of
        (Inl e, db1) \<Rightarrow> (Inl (map_storage_error sx ''Failed to get execution'' e), db1)
      | (Inr x, db1) \<Rightarrow>
          (case parse_state (x_state x) of
             Inl e \<Rightarrow> (Inl e, db1)
           | Inr cur \<Rightarrow>
               if \<not> is_valid_transition cur Failed
               then (Inl (Execution (''Cannot transition to Failed from state '' @ debug_state cur)), db1)
               else
                 (case update_execution c2
                         (x\<lparr>x_state := state_string Failed, x_error_message := Some err,
                            x_completed_at := Some (now c2), x_updated_at := now c2\<rparr>) (between db1) of
                    (Inl e, db2) \<Rightarrow> (Inl (map_storage_error sx ''Failed to record failure'' e), db2)
                  | (Inr _, db2) \<Rightarrow> (Inr (), db2))))"

end
