(* ===== verification/ExecutionLife.thy ===== *)
theory ExecutionLife
  imports Orchestrator
begin

text \<open>
  What the orchestrator guarantees about executions: starting with an idempotency key creates one
  execution, executions move only along the legal transitions when the calls of the orchestrator do
  not overlap, and how both guarantees end: a failed hand-over to the queue is never repeated, and
  overlapping transitions overwrite each other.
\<close>

section \<open>The table of executions\<close>

definition executions_ok :: "db \<Rightarrow> bool" where
  "executions_ok db \<longleftrightarrow>
     distinct (map x_id (t_executions db)) \<and>
     (\<forall>x\<in>set (t_executions db). execution_check_row x = None) \<and>
     (\<forall>x\<in>set (t_executions db). \<forall>y\<in>set (t_executions db). same_execution_key x y \<longrightarrow> x = y)"

lemma execution_check_None: "execution_check_row x = None \<longleftrightarrow>
    x_state x \<in> set execution_states \<and> x_updated_at x \<ge> x_created_at x \<and>
    (\<forall>e s. x_completed_at x = Some e \<longrightarrow> x_started_at x = Some s \<longrightarrow> e \<ge> s) \<and>
    (\<forall>k. x_idempotency_key x = Some k \<longrightarrow> 1 \<le> length k \<and> length k \<le> 512)"
  by (auto simp: execution_check_row_def violated_None split: option.splits)

lemma execution_unique:
  "executions_ok db \<Longrightarrow> x \<in> set (t_executions db) \<Longrightarrow> y \<in> set (t_executions db) \<Longrightarrow> x_id x = x_id y \<Longrightarrow> x = y"
  unfolding executions_ok_def by (blast dest: distinct_map_unique)

lemma in_my_executions: "x \<in> set (my_executions c db) \<longleftrightarrow> x \<in> set (t_executions db) \<and> visible c (x_tenant_id x)"
  by (simp add: my_executions_def)

lemma find_execution:
  assumes "executions_ok db"
  shows "find (\<lambda>x. x_id x = i) (my_executions c db) = Some x \<longleftrightarrow> x \<in> set (my_executions c db) \<and> x_id x = i"
proof
  assume x: "x \<in> set (my_executions c db) \<and> x_id x = i"
  then have "find (\<lambda>x. x_id x = i) (my_executions c db) \<noteq> None" by (auto simp: find_None_iff)
  then obtain y where y: "find (\<lambda>x. x_id x = i) (my_executions c db) = Some y" by blast
  then have "y = x" using find_Some_in [OF y] x execution_unique [OF assms, of y x] by (simp add: in_my_executions)
  with y show "find (\<lambda>x. x_id x = i) (my_executions c db) = Some x" by simp
qed (auto dest: find_Some_in)

lemma get_execution_Inr:
  "get_execution c i db = (Inr x, db') \<longleftrightarrow>
     begin_fault c = None \<and> commit_fault c = None \<and> db' = db \<and>
     find (\<lambda>x. x_id x = i) (my_executions c db) = Some x"
  by (auto simp: get_execution_def with_tenant_context_Inr split: option.splits)

lemma get_execution_db: "get_execution c i db = (r, db') \<Longrightarrow> db' = db"
  unfolding get_execution_def by (drule with_tenant_context_db) (auto split: option.splits)

text \<open>What an update writes into the row.\<close>

definition put_execution :: "execution_row \<Rightarrow> execution_row \<Rightarrow> execution_row" where
  "put_execution y r =
     r\<lparr>x_state := x_state y, x_started_at := x_started_at y, x_completed_at := x_completed_at y,
       x_error_message := x_error_message y, x_updated_at := x_updated_at y\<rparr>"

lemma update_execution_Inr:
  assumes ok: "executions_ok db" and x: "x \<in> set (my_executions c db)" "x_id x = x_id y"
  shows "update_execution c y db = (Inr (), db') \<longleftrightarrow>
     begin_fault c = None \<and> commit_fault c = None \<and> x_state y \<in> set execution_states \<and>
     execution_check_row (put_execution y x) = None \<and>
     db' = db\<lparr>t_executions := map (\<lambda>r. if r = x then put_execution y x else r) (t_executions db)\<rparr>"
proof -
  have hit: "visible c (x_tenant_id r) \<and> x_id r = x_id y \<longleftrightarrow> r = x" if "r \<in> set (t_executions db)" for r
    using that x execution_unique [OF ok that, of x] by (auto simp: in_my_executions)
  have one: "0 < hits (\<lambda>r. visible c (x_tenant_id r) \<and> x_id r = x_id y) (t_executions db)"
    using x by (auto simp: hits_pos in_my_executions)
  have upd: "upd_where (\<lambda>r. visible c (x_tenant_id r) \<and> x_id r = x_id y) (put_execution y) (t_executions db) =
      map (\<lambda>r. if r = x then put_execution y x else r) (t_executions db)"
    unfolding upd_where_def by (rule map_cong [OF refl]) (use hit in auto)
  have check: "(\<forall>r\<in>set (t_executions db). visible c (x_tenant_id r) \<and> x_id r = x_id y \<longrightarrow>
        execution_check_row (put_execution y r) = None) \<longleftrightarrow> execution_check_row (put_execution y x) = None"
    using hit x(1) by (auto simp: in_my_executions)
  show ?thesis
    unfolding update_execution_def put_execution_def [symmetric] checked_Inr with_tenant_context_Inr must_hit_Inr
    by (subst stmt_update_case)
       (use one upd check in \<open>auto simp: validate_execution_state_def split: if_splits\<close>)
qed

lemma update_execution_Inl: "update_execution c y db = (Inl e, db') \<Longrightarrow> db' = db"
  unfolding update_execution_def by (drule checked_Inl) (auto dest: with_tenant_context_Inl)

lemma update_execution_hits:
  assumes "update_execution c y db = (Inr (), db')"
  shows "\<exists>x\<in>set (my_executions c db). x_id x = x_id y"
proof -
  from assms have "0 < hits (\<lambda>r. visible c (x_tenant_id r) \<and> x_id r = x_id y) (t_executions db)"
    unfolding update_execution_def checked_Inr with_tenant_context_Inr must_hit_Inr
    by (subst (asm) stmt_update_case) auto
  then show ?thesis by (auto simp: hits_pos in_my_executions)
qed

lemma put_ok:
  assumes ok: "executions_ok db" and x: "x \<in> set (t_executions db)"
    and check: "execution_check_row (put_execution y x) = None"
  shows "executions_ok (db\<lparr>t_executions := map (\<lambda>r. if r = x then put_execution y x else r) (t_executions db)\<rparr>)"
proof -
  have ids: "map x_id (map (\<lambda>r. if r = x then put_execution y x else r) (t_executions db)) =
      map x_id (t_executions db)"
    by (simp add: put_execution_def)
  have same: "same_execution_key (put_execution y x) s = same_execution_key x s"
    "same_execution_key s (put_execution y x) = same_execution_key s x" for s
    by (simp_all add: same_execution_key_def put_execution_def)
  show ?thesis
    using ok ids check x unfolding executions_ok_def
    by (auto simp add: same simp del: map_map)
qed

section \<open>Life cycle\<close>

text \<open>The operations of the orchestrator, each running without interference.\<close>

datatype orchestrator_op =
    Start "(task \<Rightarrow> string option) option" uuid call uuid "string option" "partition_context option"
  | Transition call call uuid execution_state execution_state
  | Record_failure call call uuid string

fun orchestrator_step :: "(sqlx_error \<Rightarrow> string) \<Rightarrow> db \<Rightarrow> orchestrator_op \<Rightarrow> db" where
  "orchestrator_step sx db (Start queue fresh c w key part) =
     snd (snd (start_execution_with sx queue fresh c w key part db))"
| "orchestrator_step sx db (Transition c1 c2 i s t) = snd (transition_state sx c1 id c2 i s t db)"
| "orchestrator_step sx db (Record_failure c1 c2 i err) = snd (record_failure sx c1 id c2 i err db)"

definition execution_moves :: "(string \<times> string) list" where
  "execution_moves =
     [(''pending'', ''running''), (''running'', ''succeeded''), (''running'', ''failed''),
      (''running'', ''timeout''), (''running'', ''cancelled''), (''failed'', ''running'')]"

text \<open>The one move each call may make with a given execution.\<close>

fun orchestrator_moves :: "orchestrator_op \<Rightarrow> execution_row \<Rightarrow> (string \<times> string) list" where
  "orchestrator_moves (Start queue fresh c w key part) x = []"
| "orchestrator_moves (Transition c1 c2 i s t) x =
     (if x_id x = i \<and> (state_string s, state_string t) \<in> set execution_moves
      then [(state_string s, state_string t)] else [])"
| "orchestrator_moves (Record_failure c1 c2 i err) x = (if x_id x = i then [(''running'', ''failed'')] else [])"

lemma valid_moves: "is_valid_transition s t \<Longrightarrow> (state_string s, state_string t) \<in> set execution_moves"
  by (cases s; cases t) (simp_all add: is_valid_transition_def execution_moves_def)

definition steps_rows :: "orchestrator_op \<Rightarrow> db \<Rightarrow> db \<Rightarrow> bool" where
  "steps_rows op db db' \<longleftrightarrow> executions_ok db' \<and>
     (\<forall>r\<in>set (t_executions db). \<exists>r'\<in>set (t_executions db'). x_id r' = x_id r \<and>
        (x_state r' = x_state r \<or> (x_state r, x_state r') \<in> set (orchestrator_moves op r))) \<and>
     (\<forall>r'\<in>set (t_executions db'). x_id r' \<notin> x_id ` set (t_executions db) \<longrightarrow>
        x_state r' = ''pending'' \<and> (\<exists>queue fresh c w key part. op = Start queue fresh c w key part))"

lemma steps_rows_refl: "executions_ok db \<Longrightarrow> steps_rows op db db"
  by (auto simp: steps_rows_def)

text \<open>A read followed, without interference, by the write of the changed row.\<close>

lemma read_write:
  assumes ok: "executions_ok db" and get: "get_execution c1 i db = (Inr x, db1)"
    and upd: "update_execution c2 y db1 = (r, db2)" and id: "x_id y = x_id x"
    and move: "x_id x = i \<Longrightarrow> (x_state x, x_state y) \<in> set (orchestrator_moves op x)"
  shows "steps_rows op db db2"
proof (cases r)
  case (Inl e)
  with upd have "db2 = db1" by (auto dest: update_execution_Inl)
  moreover have "db1 = db" using get by (auto dest: get_execution_db)
  ultimately show ?thesis using ok by (simp add: steps_rows_refl)
next
  case (Inr u)
  have db1: "db1 = db" using get by (auto dest: get_execution_db)
  with get ok have x: "x \<in> set (my_executions c1 db)" "x_id x = i"
    by (auto simp: get_execution_Inr find_execution)
  from upd Inr update_execution_hits [of c2 y db1 db2] obtain x2 where
    x2: "x2 \<in> set (my_executions c2 db)" "x_id x2 = x_id y" unfolding db1 by auto
  have "x2 = x" using execution_unique [OF ok, of x2 x] x x2 id by (simp add: in_my_executions)
  with x2 have x': "x \<in> set (my_executions c2 db)" "x_id x = x_id y" by auto
  with upd Inr have w: "execution_check_row (put_execution y x) = None"
    "db2 = db\<lparr>t_executions := map (\<lambda>r. if r = x then put_execution y x else r) (t_executions db)\<rparr>"
    unfolding db1 using update_execution_Inr [OF ok x', of db2] by auto
  have "\<exists>r'\<in>set (t_executions db2). x_id r' = x_id r \<and>
      (x_state r' = x_state r \<or> (x_state r, x_state r') \<in> set (orchestrator_moves op r))"
    if "r \<in> set (t_executions db)" for r
  proof (intro bexI [of _ "if r = x then put_execution y x else r"] conjI)
    show "x_state (if r = x then put_execution y x else r) = x_state r \<or>
        (x_state r, x_state (if r = x then put_execution y x else r)) \<in> set (orchestrator_moves op r)"
      using move [OF x(2)] by (auto simp: put_execution_def)
  qed (use that w in \<open>auto simp: put_execution_def\<close>)
  moreover have ids: "map x_id (t_executions db2) = map x_id (t_executions db)"
    by (simp add: w(2) put_execution_def)
  moreover from ids have "x_id ` set (t_executions db2) = x_id ` set (t_executions db)"
    by (metis list.set_map)
  moreover have "executions_ok db2" using put_ok [OF ok _ w(1)] x'(1) w(2) by (simp add: in_my_executions)
  ultimately show ?thesis unfolding steps_rows_def by blast
qed

lemma transition_rows:
  assumes ok: "executions_ok db"
  shows "steps_rows (Transition c1 c2 i s t) db (snd (transition_state sx c1 id c2 i s t db))"
proof (cases "is_valid_transition s t")
  case False
  then show ?thesis using ok by (simp add: transition_state_def steps_rows_refl)
next
  case valid: True
  obtain r1 db1 where get: "get_execution c1 i db = (r1, db1)" by fastforce
  then have db1: "db1 = db" by (rule get_execution_db)
  show ?thesis
  proof (cases "\<exists>x. r1 = Inr x \<and> parse_state (x_state x) = Inr s")
    case False
    then show ?thesis
      using valid get db1 ok by (auto simp: transition_state_def steps_rows_refl split: sum.splits)
  next
    case True
    then obtain x where x: "r1 = Inr x" "x_state x = state_string s" by (auto simp: parse_state_Inr)
    let ?y = "x\<lparr>x_state := state_string t, x_updated_at := now c2,
        x_started_at := (if t = Running then or_else (x_started_at x) (now c2) else x_started_at x),
        x_completed_at := (if t \<in> {Succeeded, Failed, TimedOut, Cancelled}
          then or_else (x_completed_at x) (now c2) else x_completed_at x)\<rparr>"
    obtain r2 db2 where upd: "update_execution c2 ?y db1 = (r2, db2)" by fastforce
    have "steps_rows (Transition c1 c2 i s t) db db2"
      by (rule read_write [OF ok get [unfolded x(1)] upd]) (use x(2) valid_moves [OF valid] in simp_all)
    moreover have "snd (transition_state sx c1 id c2 i s t db) = db2"
      using valid get x upd by (simp add: transition_state_def split: sum.splits)
    ultimately show ?thesis by simp
  qed
qed

lemma failure_rows:
  assumes ok: "executions_ok db"
  shows "steps_rows (Record_failure c1 c2 i err) db (snd (record_failure sx c1 id c2 i err db))"
proof -
  obtain r1 db1 where get: "get_execution c1 i db = (r1, db1)" by fastforce
  then have db1: "db1 = db" by (rule get_execution_db)
  show ?thesis
  proof (cases "\<exists>x s. r1 = Inr x \<and> parse_state (x_state x) = Inr s \<and> is_valid_transition s Failed")
    case False
    then show ?thesis
      using get db1 ok by (auto simp: record_failure_def steps_rows_refl split: sum.splits)
  next
    case True
    then obtain x s where x: "r1 = Inr x" "x_state x = state_string s" "is_valid_transition s Failed"
      by (auto simp: parse_state_Inr)
    let ?y = "x\<lparr>x_state := state_string Failed, x_error_message := Some err,
        x_completed_at := Some (now c2), x_updated_at := now c2\<rparr>"
    obtain r2 db2 where upd: "update_execution c2 ?y db1 = (r2, db2)" by fastforce
    have "s = Running" using x(3) by (cases s) (simp_all add: is_valid_transition_def)
    then have "steps_rows (Record_failure c1 c2 i err) db db2"
      by (intro read_write [OF ok get [unfolded x(1)] upd]) (use x(2) in simp_all)
    moreover have "snd (record_failure sx c1 id c2 i err db) = db2"
      using get x upd by (simp add: record_failure_def split: sum.splits)
    ultimately show ?thesis by simp
  qed
qed

lemma insert_execution_Inr:
  "insert_execution c ks x db = Inr (u, db') \<longleftrightarrow>
     visible c (x_tenant_id x) \<and> execution_check_row x = None \<and> key_clash ks x (t_executions db) = None \<and>
     execution_fk db x = None \<and> db' = db\<lparr>t_executions := t_executions db @ [x]\<rparr>"
  unfolding insert_execution_def by (subst stmt_insert_case) (auto simp: policy_def)

lemma same_key_sym: "same_execution_key x y \<longleftrightarrow> same_execution_key y x"
  by (auto simp: same_execution_key_def)

lemma insert_ok:
  assumes "executions_ok db" "execution_check_row x = None"
    and "\<forall>y\<in>set (t_executions db). x_id x \<noteq> x_id y \<and> \<not> same_execution_key x y"
  shows "executions_ok (db\<lparr>t_executions := t_executions db @ [x]\<rparr>)"
  using assms same_key_sym by (auto simp: executions_ok_def)

lemma append_rows: "executions_ok (db\<lparr>t_executions := t_executions db @ [x]\<rparr>) \<Longrightarrow> x_state x = ''pending'' \<Longrightarrow>
    steps_rows (Start queue fresh c w key part) db (db\<lparr>t_executions := t_executions db @ [x]\<rparr>)"
  by (auto simp: steps_rows_def)

lemma create_once_result:
  assumes "create_execution_or_get_existing c x db = (r, db')"
  shows "(db' = db \<and> (\<forall>i. r = Inr (i, True) \<longrightarrow> False)) \<or>
    (r = Inr (x_id x, True) \<and> execution_check_row (x\<lparr>x_tenant_id := Some (tenant c)\<rparr>) = None \<and>
     (\<forall>y\<in>set (t_executions db). x_id x \<noteq> x_id y \<and>
        \<not> same_execution_key (x\<lparr>x_tenant_id := Some (tenant c)\<rparr>) y) \<and>
     db' = db\<lparr>t_executions := t_executions db @ [x\<lparr>x_tenant_id := Some (tenant c)\<rparr>]\<rparr>)"
proof (cases r)
  case (Inl e)
  then show ?thesis
    using checked_Inl [OF assms [unfolded create_execution_or_get_existing_def Inl]] by (auto dest: with_tenant_context_Inl)
next
  case (Inr p)
  then show ?thesis
    using assms unfolding create_execution_or_get_existing_def
    by (auto simp: checked_Inr with_tenant_context_Inr Let_def tx_Inr insert_execution_Inr key_clash_None
          execution_pkey_def list_ex_iff simp del: checked.simps key_clash.simps split: option.splits if_splits)
qed

lemma create_result:
  assumes "create_execution c x db = (r, db')"
  shows "(db' = db \<and> r \<noteq> Inr ()) \<or>
    (r = Inr () \<and> execution_check_row (x\<lparr>x_tenant_id := Some (tenant c)\<rparr>) = None \<and>
     (\<forall>y\<in>set (t_executions db). x_id x \<noteq> x_id y \<and>
        \<not> same_execution_key (x\<lparr>x_tenant_id := Some (tenant c)\<rparr>) y) \<and>
     db' = db\<lparr>t_executions := t_executions db @ [x\<lparr>x_tenant_id := Some (tenant c)\<rparr>]\<rparr>)"
proof (cases r)
  case (Inl e)
  then show ?thesis
    using checked_Inl [OF assms [unfolded create_execution_def Inl]] by (auto dest: with_tenant_context_Inl)
next
  case (Inr p)
  then show ?thesis
    using assms unfolding create_execution_def
    by (auto simp: checked_Inr with_tenant_context_Inr insert_execution_Inr key_clash_None
          execution_keys_def execution_pkey_def simp del: checked.simps key_clash.simps)
qed

lemma start_db:
  assumes "start_execution_with sx queue fresh c w key part db = (r, ts, db')"
  shows "(db' = db \<and> ts = []) \<or>
    (execution_check_row (new_execution fresh c w key) = None \<and>
     (\<forall>y\<in>set (t_executions db). fresh \<noteq> x_id y \<and> \<not> same_execution_key (new_execution fresh c w key) y) \<and>
     db' = db\<lparr>t_executions := t_executions db @ [new_execution fresh c w key]\<rparr>)"
proof -
  let ?x = "new_execution fresh c w key"
  have x: "x_id ?x = fresh" "?x\<lparr>x_tenant_id := Some (tenant c)\<rparr> = ?x" by (simp_all add: new_execution_def)
  show ?thesis
  proof (cases key)
    case None
    obtain r1 db1 where cr: "create_execution c ?x db = (r1, db1)" by fastforce
    from create_result [OF cr] show ?thesis
      using assms cr x by (cases r1) (auto simp: start_execution_with_def None Let_def split: option.splits)
  next
    case (Some k)
    obtain r1 db1 where cr: "create_execution_or_get_existing c ?x db = (r1, db1)" by fastforce
    from create_once_result [OF cr] show ?thesis
      using assms cr x by (cases r1) (auto simp: start_execution_with_def Some Let_def split: option.splits if_splits)
  qed
qed

lemma start_rows:
  assumes "executions_ok db"
  shows "steps_rows (Start queue fresh c w key part) db (snd (snd (start_execution_with sx queue fresh c w key part db)))"
proof -
  obtain r ts db' where st: "start_execution_with sx queue fresh c w key part db = (r, ts, db')"
    by (metis prod_cases3)
  from start_db [OF st] show ?thesis
    using assms st insert_ok [OF assms, of "new_execution fresh c w key"]
    by (auto simp: steps_rows_refl new_execution_def intro!: append_rows)
qed

lemma orchestrator_rows: "executions_ok db \<Longrightarrow> steps_rows op db (orchestrator_step sx db op)"
  by (cases op) (simp_all add: start_rows transition_rows failure_rows)

interpretation executions: lifecycle executions_ok "orchestrator_step sx" t_executions x_id x_state
  orchestrator_moves execution_moves "{''succeeded'', ''cancelled'', ''timeout''}" for sx
proof unfold_locales
  show "executions_ok (orchestrator_step sx s op)" if "executions_ok s" for s op
    using orchestrator_rows [OF that] by (simp add: steps_rows_def)
  show "\<exists>r'\<in>set (t_executions (orchestrator_step sx s op)). x_id r' = x_id r \<and>
      (x_state r' = x_state r \<or> (x_state r, x_state r') \<in> set (orchestrator_moves op r))"
    if "executions_ok s" "r \<in> set (t_executions s)" for s op r
    using orchestrator_rows [OF that(1), of op sx] that(2) unfolding steps_rows_def by blast
  show "set (orchestrator_moves op r) \<subseteq> set execution_moves" for op r
    by (cases op) (auto simp: execution_moves_def)
qed (auto simp: executions_ok_def execution_moves_def)

text \<open>
  C12: the life cycle of an execution, call by call. Take any sequence of orchestrator calls that run
  one after the other (starts, transitions with any arguments, recorded failures, with any
  connection faults) and any call in it. An execution that is there before the call is there
  after it, in the same state, or moved by the one move of this very call: a transition moves the
  execution it names from its source to its target, if that is one of the six moves
  written out in \<open>execution_moves\<close>, a recorded failure moves the execution it names from
  running to failed, and a start moves nothing. An execution that appears is pending and was
  appended by a start. From there to the end of the sequence the execution moves only along the six
  moves, and once succeeded, cancelled or timed out keeps its state.
\<close>

theorem execution_lifecycle:
  assumes "executions_ok db"
  shows "(\<forall>x\<in>set (t_executions (foldl (orchestrator_step sx) db before)).
       (\<exists>x'\<in>set (t_executions (foldl (orchestrator_step sx) db (before @ [op]))). x_id x' = x_id x \<and>
         (x_state x' = x_state x \<or> (x_state x, x_state x') \<in> set (orchestrator_moves op x))) \<and>
       (\<exists>x'\<in>set (t_executions (foldl (orchestrator_step sx) db (before @ op # after))). x_id x' = x_id x \<and>
         (x_state x, x_state x') \<in> (set execution_moves)\<^sup>* \<and>
         (x_state x \<in> {''succeeded'', ''cancelled'', ''timeout''} \<longrightarrow> x_state x' = x_state x))) \<and>
     (\<forall>x'\<in>set (t_executions (foldl (orchestrator_step sx) db (before @ [op]))).
       x_id x' \<notin> x_id ` set (t_executions (foldl (orchestrator_step sx) db before)) \<longrightarrow>
       x_state x' = ''pending'' \<and> (\<exists>queue fresh c w key part. op = Start queue fresh c w key part))"
proof -
  let ?db = "foldl (orchestrator_step sx) db before"
  have ok: "executions_ok ?db" by (rule executions.run_ok [OF assms])
  have "\<exists>x'\<in>set (t_executions (foldl (orchestrator_step sx) db (before @ op # after))). x_id x' = x_id x \<and>
         (x_state x, x_state x') \<in> (set execution_moves)\<^sup>* \<and>
         (x_state x \<in> {''succeeded'', ''cancelled'', ''timeout''} \<longrightarrow> x_state x' = x_state x)"
    if "x \<in> set (t_executions ?db)" for x
  proof -
    from executions.run_row [OF ok that, of sx "op # after"] obtain x' where
      x': "x' \<in> set (t_executions (foldl (orchestrator_step sx) ?db (op # after)))" "x_id x' = x_id x"
        "(x_state x, x_state x') \<in> (set execution_moves)\<^sup>*" by blast
    with executions.final_star [OF x'(3)] show ?thesis by auto
  qed
  moreover have "\<forall>x\<in>set (t_executions ?db).
       \<exists>x'\<in>set (t_executions (foldl (orchestrator_step sx) db (before @ [op]))). x_id x' = x_id x \<and>
         (x_state x' = x_state x \<or> (x_state x, x_state x') \<in> set (orchestrator_moves op x))"
    using executions.step_after [OF assms] by blast
  moreover have "\<forall>x'\<in>set (t_executions (foldl (orchestrator_step sx) db (before @ [op]))).
       x_id x' \<notin> x_id ` set (t_executions ?db) \<longrightarrow>
       x_state x' = ''pending'' \<and> (\<exists>queue fresh c w key part. op = Start queue fresh c w key part)"
    using orchestrator_rows [OF ok, of op sx] unfolding steps_rows_def by simp
  ultimately show ?thesis by blast
qed

section \<open>Idempotent start\<close>

text \<open>The execution of a tenant and workflow under a key, if no row without tenant competes.\<close>

definition keyed :: "call \<Rightarrow> uuid \<Rightarrow> string \<Rightarrow> execution_row \<Rightarrow> db \<Rightarrow> bool" where
  "keyed c w k x db \<longleftrightarrow> executions_ok db \<and> x \<in> set (t_executions db) \<and> x_tenant_id x = Some (tenant c) \<and>
     x_workflow_id x = w \<and> x_idempotency_key x = Some k \<and>
     (\<forall>y\<in>set (t_executions db). x_tenant_id y \<noteq> None)"

lemma start_again:
  assumes x: "keyed c w k x db" and calm: "begin_fault c = None" "commit_fault c = None"
  shows "start_execution_with sx queue fresh c w (Some k) part db = (Inr (x_id x), [], db)"
proof -
  let ?n = "new_execution fresh c w (Some k)"
  have key: "same_execution_key ?n x"
    using x by (simp add: keyed_def same_execution_key_def new_execution_def)
  have only: "y = x" if "y \<in> set (my_executions c db)" "x_workflow_id y = w" "x_idempotency_key y = Some k" for y
  proof -
    have "x_tenant_id y = Some (tenant c)"
      using that(1) x by (auto simp: in_my_executions visible_def keyed_def split: option.splits)
    then have "same_execution_key x y" using that x by (simp add: keyed_def same_execution_key_def)
    with that(1) x show ?thesis by (auto simp: keyed_def executions_ok_def in_my_executions)
  qed
  have x_in: "x \<in> set (my_executions c db)" using x by (simp add: keyed_def in_my_executions visible_def)
  then have "find (\<lambda>y. x_workflow_id y = w \<and> x_idempotency_key y = Some k) (my_executions c db) \<noteq> None"
    using x by (auto simp: find_None_iff keyed_def)
  then obtain y where y: "find (\<lambda>y. x_workflow_id y = w \<and> x_idempotency_key y = Some k) (my_executions c db) = Some y"
    by blast
  with find_Some_in [OF y] only have found:
    "find (\<lambda>y. x_workflow_id y = w \<and> x_idempotency_key y = Some k) (my_executions c db) = Some x" by blast
  have "execution_check_row x = None" using x by (auto simp: keyed_def executions_ok_def)
  then have len: "1 \<le> length k \<and> length k \<le> 512" using x by (simp add: keyed_def execution_check_None)
  have same: "?n\<lparr>x_tenant_id := Some (tenant c)\<rparr> = ?n" by (simp add: new_execution_def)
  have check: "execution_check_row ?n = None"
    using len by (simp add: execution_check_None new_execution_def execution_states_def)
  have "list_ex (same_execution_key ?n) (t_executions db)"
    using key x by (auto simp: list_ex_iff keyed_def)
  then have "create_execution_or_get_existing c ?n db = (Inr (x_id x, False), db)"
    using calm check found same
    by (simp add: create_execution_or_get_existing_def with_tenant_context_def policy_def visible_def
        validate_execution_state_def execution_states_def new_execution_def Let_def)
  then show ?thesis by (simp add: start_execution_with_def Let_def)
qed

text \<open>
  C28: starting with an idempotency key is idempotent. When a start with a key succeeded, a second
  start of the same tenant and workflow with the same key, with other fresh identifiers, clocks and
  partitions, returns the same execution, enqueues nothing and writes nothing. The executions satisfy
  their constraints and all name a tenant, nothing is written between the two starts, and the second
  transaction begins and commits.
\<close>

theorem start_execution_idempotent:
  assumes ok: "executions_ok db" "\<forall>y\<in>set (t_executions db). x_tenant_id y \<noteq> None"
    and first: "start_execution_with sx queue fresh c w (Some k) part db = (Inr i, ts, db')"
    and calm: "tenant c2 = tenant c" "begin_fault c2 = None" "commit_fault c2 = None"
  shows "start_execution_with sx queue2 fresh2 c2 w (Some k) part2 db' = (Inr i, [], db')"
proof -
  obtain r1 db1 where cr: "create_execution_or_get_existing c (new_execution fresh c w (Some k)) db = (r1, db1)"
    by fastforce
  with first obtain b where r1: "r1 = Inr (i, b)" and db': "db' = db1"
    by (auto simp: start_execution_with_def Let_def split: sum.splits if_splits option.splits)
  let ?n = "new_execution fresh c w (Some k)"
  have n: "?n\<lparr>x_tenant_id := Some (tenant c)\<rparr> = ?n" "x_id ?n = fresh" by (simp_all add: new_execution_def)
  have "\<exists>x. keyed c w k x db' \<and> x_id x = i"
  proof (cases b)
    case True
    with create_once_result [OF cr] r1 n have new: "i = fresh" "execution_check_row ?n = None"
      "\<forall>y\<in>set (t_executions db). fresh \<noteq> x_id y \<and> \<not> same_execution_key ?n y"
      "db1 = db\<lparr>t_executions := t_executions db @ [?n]\<rparr>" by auto
    have "executions_ok db1" unfolding new(4) by (rule insert_ok [OF ok(1) new(2)]) (use new(3) n in simp)
    with new ok(2) show ?thesis unfolding db'
      by (intro exI [of _ ?n]) (simp add: keyed_def new_execution_def)
  next
    case False
    with create_once_result [OF cr] r1 have db1: "db1 = db" by auto
    from cr r1 False obtain y where y: "y \<in> set (my_executions c db)" "x_workflow_id y = w"
      "x_idempotency_key y = Some k" "x_id y = i"
      unfolding create_execution_or_get_existing_def
      by (auto simp: checked_Inr with_tenant_context_Inr Let_def tx_Inr new_execution_def
          simp del: checked.simps split: option.splits if_splits dest!: find_Some_in)
    then have "x_tenant_id y = Some (tenant c)"
      using ok(2) by (auto simp: in_my_executions visible_def split: option.splits)
    with y ok show ?thesis unfolding db' db1 by (auto simp: keyed_def in_my_executions)
  qed
  then obtain x where x: "keyed c w k x db'" "x_id x = i" by blast
  then have "keyed c2 w k x db'" using calm(1) by (simp add: keyed_def)
  from start_again [OF this calm(2,3)] x(2) show ?thesis by simp
qed

text \<open>
  An execution whose task could not be enqueued is stranded. When a start with a key has created
  the execution but the queue refused the task, the caller gets an error; every retry with the same
  key, whatever the queue would now say, returns the stored execution as a success and hands nothing
  to the queue, so the execution stays pending.
\<close>

theorem enqueue_failure_strands:
  assumes ok: "executions_ok db" "\<forall>y\<in>set (t_executions db). x_tenant_id y \<noteq> None"
    and first: "start_execution_with sx (Some (\<lambda>_. Some err)) fresh c w (Some k) part db = (r, ts, db')"
      "db' \<noteq> db"
    and calm: "tenant c2 = tenant c" "begin_fault c2 = None" "commit_fault c2 = None"
  shows "r = Inl (InternalR (''Failed to enqueue task: '' @ err)) \<and> ts = [] \<and>
     start_execution_with sx queue2 fresh2 c2 w (Some k) part2 db' = (Inr fresh, [], db') \<and>
     (\<exists>x\<in>set (t_executions db'). x_id x = fresh \<and> x_state x = ''pending'')"
proof -
  let ?n = "new_execution fresh c w (Some k)"
  obtain r1 db1 where cr: "create_execution_or_get_existing c ?n db = (r1, db1)" by fastforce
  with first have db': "db' = db1"
    by (auto simp: start_execution_with_def Let_def split: sum.splits if_splits)
  have n: "?n\<lparr>x_tenant_id := Some (tenant c)\<rparr> = ?n" "x_id ?n = fresh" by (simp_all add: new_execution_def)
  with create_once_result [OF cr] first(2) db' have new: "r1 = Inr (fresh, True)" "execution_check_row ?n = None"
    "\<forall>y\<in>set (t_executions db). fresh \<noteq> x_id y \<and> \<not> same_execution_key ?n y"
    "db1 = db\<lparr>t_executions := t_executions db @ [?n]\<rparr>" by auto
  have "executions_ok db1" unfolding new(4) by (rule insert_ok [OF ok(1) new(2)]) (use new(3) n in simp)
  with new ok(2) calm(1) have "keyed c2 w k ?n db1"
    by (simp add: keyed_def new_execution_def)
  from start_again [OF this calm(2,3)] n(2) have
    "start_execution_with sx queue2 fresh2 c2 w (Some k) part2 db1 = (Inr fresh, [], db1)" by simp
  moreover have "r = Inl (InternalR (''Failed to enqueue task: '' @ err)) \<and> ts = []"
    using first(1) cr new(1) by (simp add: start_execution_with_def Let_def)
  moreover have "?n \<in> set (t_executions db1)" "x_state ?n = ''pending''"
    using new(4) by (simp_all add: new_execution_def)
  ultimately show ?thesis using n(2) unfolding db' by blast
qed

section \<open>Overlapping transitions\<close>

text \<open>A transition without interference on a row in the expected state, and its effect.\<close>

definition moved :: "execution_state \<Rightarrow> time \<Rightarrow> execution_row \<Rightarrow> execution_row" where
  "moved s t x = x\<lparr>x_state := state_string s, x_updated_at := t,
     x_started_at := (if s = Running then or_else (x_started_at x) t else x_started_at x),
     x_completed_at := (if s \<in> {Succeeded, Failed, TimedOut, Cancelled}
                        then or_else (x_completed_at x) t else x_completed_at x)\<rparr>"

lemma moved_simps [simp]:
  "x_id (moved s t x) = x_id x" "x_state (moved s t x) = state_string s"
  "x_tenant_id (moved s t x) = x_tenant_id x"
  by (simp_all add: moved_def)

lemma put_moved: "put_execution y (moved s t x) = put_execution y x"
  by (simp add: put_execution_def moved_def)

lemma transition_moved:
  assumes "is_valid_transition from to" "get_execution c1 i db = (Inr x, db1)"
    "parse_state (x_state x) = Inr from"
    "update_execution c2 (moved to (now c2) x) (between db1) = (Inr (), db2)"
  shows "transition_state sx c1 between c2 i from to db = (Inr (), db2)"
  using assms by (simp add: transition_state_def moved_def)

lemma finish_check:
  assumes "execution_check_row x = None" "x_completed_at x = None"
    and "\<forall>s. x_started_at x = Some s \<longrightarrow> s \<le> t" "x_created_at x \<le> t"
  shows "execution_check_row (put_execution (moved s t x) x) = None"
  using assms by (cases s)
    (auto simp: execution_check_None put_execution_def moved_def or_else_def execution_states_def)

definition succeed :: "(sqlx_error \<Rightarrow> string) \<Rightarrow> tenant \<Rightarrow> time \<Rightarrow> uuid \<Rightarrow> db \<Rightarrow> (runtime_error + unit) \<times> db" where
  "succeed sx t n i db = transition_state sx (call_of t n) id (call_of t n) i Running Succeeded db"

text \<open>
  A lost update. The read and the write of a transition are two transactions and the write is not
  conditional on the state, so two overlapping transitions of a running execution, one to succeeded
  and one to cancelled, are both reported as done; the execution was succeeded in between and ends
  cancelled, although succeeded is a final state.
\<close>

theorem overlapping_transitions:
  assumes ok: "executions_ok db" and x: "x \<in> set (t_executions db)" "x_tenant_id x = Some t"
    and state: "x_state x = ''running''" "x_completed_at x = None"
    and times: "\<forall>s. x_started_at x = Some s \<longrightarrow> s \<le> n" "x_created_at x \<le> n" "n \<le> n'"
  shows "fst (succeed sx t n (x_id x) db) = Inr () \<and>
     (\<exists>y\<in>set (t_executions (snd (succeed sx t n (x_id x) db))). x_id y = x_id x \<and> x_state y = ''succeeded'') \<and>
     (\<exists>db'. transition_state sx (call_of t n) (\<lambda>db. snd (succeed sx t n (x_id x) db)) (call_of t n') (x_id x) Running Cancelled db =
        (Inr (), db') \<and> (\<exists>y\<in>set (t_executions db'). x_id y = x_id x \<and> x_state y = ''cancelled''))"
proof -
  let ?i = "x_id x"
  have parse: "parse_state (x_state x) = Inr Running" using state by (simp add: parse_state_def)
  have mine: "x \<in> set (my_executions (call_of t m) db)" for m
    using x by (simp add: in_my_executions visible_def)
  have get: "get_execution (call_of t n) ?i db = (Inr x, db)"
    using find_execution [OF ok, of ?i "call_of t n" x] mine by (simp add: get_execution_Inr)
  have chk: "execution_check_row x = None" using ok x(1) by (simp add: executions_ok_def)
  have put: "put_execution (moved s m x) x = moved s m x" for s m
    by (simp add: put_execution_def moved_def)
  let ?db1 = "db\<lparr>t_executions := map (\<lambda>r. if r = x then moved Succeeded n x else r) (t_executions db)\<rparr>"
  have c1: "execution_check_row (put_execution (moved Succeeded n x) x) = None"
    using finish_check [OF chk state(2) times(1,2)] .
  have upd1: "update_execution (call_of t n) (moved Succeeded n x) db = (Inr (), ?db1)"
    using update_execution_Inr [OF ok mine, of "moved Succeeded n x" n ?db1] c1 unfolding put
    by (simp add: execution_states_def)
  have other: "succeed sx t n ?i db = (Inr (), ?db1)"
    unfolding succeed_def
    by (rule transition_moved [OF _ get parse]) (use upd1 in \<open>simp_all add: is_valid_transition_def\<close>)
  have ok1: "executions_ok ?db1" using put_ok [OF ok x(1) c1] unfolding put .
  have in1: "moved Succeeded n x \<in> set (my_executions (call_of t n') ?db1)"
    using x by (auto simp: in_my_executions visible_def image_iff)
  have ids: "x_id (moved Succeeded n x) = x_id (moved Cancelled n' x)" by simp
  have c2: "execution_check_row (put_execution (moved Cancelled n' x) (moved Succeeded n x)) = None"
    unfolding put_moved
  proof (rule finish_check [OF chk state(2)])
    show "\<forall>s. x_started_at x = Some s \<longrightarrow> s \<le> n'" using times(1,3) by force
    show "x_created_at x \<le> n'" using times(2,3) by simp
  qed
  let ?db2 = "?db1\<lparr>t_executions := map (\<lambda>r. if r = moved Succeeded n x
    then put_execution (moved Cancelled n' x) (moved Succeeded n x) else r) (t_executions ?db1)\<rparr>"
  have upd2: "update_execution (call_of t n') (moved Cancelled n' x) ?db1 = (Inr (), ?db2)"
    using update_execution_Inr [OF ok1 in1 ids, of ?db2] c2 by (simp add: execution_states_def)
  have "transition_state sx (call_of t n) (\<lambda>db. snd (succeed sx t n ?i db)) (call_of t n') ?i
      Running Cancelled db = (Inr (), ?db2)"
    by (rule transition_moved [OF _ get parse]) (use upd2 other in \<open>simp_all add: is_valid_transition_def\<close>)
  moreover have y1: "moved Succeeded n x \<in> set (t_executions ?db1)" using x(1) by force
  then have "put_execution (moved Cancelled n' x) (moved Succeeded n x) \<in> set (t_executions ?db2)"
    by (simp add: image_iff) blast
  then have "\<exists>y\<in>set (t_executions ?db2). x_id y = ?i \<and> x_state y = ''cancelled''"
    by (rule bexI [rotated]) (simp add: put_execution_def)
  moreover from y1 have "\<exists>y\<in>set (t_executions ?db1). x_id y = ?i \<and> x_state y = ''succeeded''"
    by (rule bexI [rotated]) simp
  ultimately show ?thesis using other by simp
qed

section \<open>The theorems at concrete inputs\<close>

definition sample_workflow_row :: workflow_row where
  "sample_workflow_row =
     \<lparr>wr_id = ''w'', wr_name = ''orders'', wr_description = None, wr_owner = None, wr_tags = [],
      wr_tenant_id = Some ''acme'', wr_version = 1, wr_schedule_cron = None, wr_schedule_timezone = None,
      wr_schedule_enabled = None, wr_scheduler_job_name = None, wr_last_scheduled_run = None,
      wr_next_scheduled_run = None, wr_created_at = 0, wr_updated_at = 0\<rparr>"

definition execution_db :: "string list \<Rightarrow> db" where
  "execution_db states = empty_db\<lparr>t_workflows := [sample_workflow_row],
     t_executions := map (\<lambda>s. (new_execution ''e'' sample_call ''w'' (Some ''key''))\<lparr>x_state := s\<rparr>) states\<rparr>"

lemma execution_db_ok: "s \<in> set execution_states \<Longrightarrow> executions_ok (execution_db [s])" "executions_ok (execution_db [])"
  by (auto simp: executions_ok_def execution_db_def execution_check_None new_execution_def empty_db_def)

theorem execution_lifecycle_witness:
  "(\<exists>x'\<in>set (t_executions (foldl (orchestrator_step (\<lambda>_. ''''))
       (execution_db [''running'']) [Transition sample_call sample_call ''e'' Running Cancelled])).
     x_id x' = ''e'' \<and> x_state x' \<in> {''running'', ''cancelled''}) \<and>
   (\<exists>x'\<in>set (t_executions (foldl (orchestrator_step (\<lambda>_. ''''))
       (execution_db [''succeeded'']) [Record_failure sample_call sample_call ''e'' ''late''])).
     x_id x' = ''e'' \<and> x_state x' = ''succeeded'')"
proof -
  have ok: "executions_ok (execution_db [s])" if "s \<in> {''running'', ''succeeded''}" for s
    by (rule execution_db_ok(1)) (use that in \<open>auto simp: execution_states_def\<close>)
  have x: "(new_execution ''e'' sample_call ''w'' (Some ''key''))\<lparr>x_state := s\<rparr> \<in>
      set (t_executions (foldl (orchestrator_step (\<lambda>_. '''')) (execution_db [s]) []))" for s
    by (simp add: execution_db_def)
  from execution_lifecycle [OF ok, of "''running''" "\<lambda>_. ''''" "[]" "Transition sample_call sample_call ''e'' Running Cancelled" "[]",
      THEN conjunct1, THEN bspec, OF _ x]
    execution_lifecycle [OF ok, of "''succeeded''" "\<lambda>_. ''''" "[]" "Record_failure sample_call sample_call ''e'' ''late''" "[]",
      THEN conjunct1, THEN bspec, OF _ x]
  show ?thesis by (auto simp: new_execution_def execution_moves_def)
qed

lemma sample_create:
  "create_execution_or_get_existing sample_call (new_execution ''e'' sample_call ''w'' (Some ''key''))
     (execution_db []) = (Inr (''e'', True), execution_db [''pending''])"
  by code_simp

lemma sample_start:
  "start_execution_with (\<lambda>_. '''') q ''e'' sample_call ''w'' (Some ''key'') None (execution_db []) =
     (case q of None \<Rightarrow> (Inr ''e'', [], execution_db [''pending''])
      | Some f \<Rightarrow>
          (let t = \<lparr>task_execution_id = ''e'', task_workflow_id = ''w'', task_tenant = ''acme'',
                    task_idempotency_key = Some ''key'', task_plan = [], task_partition = None\<rparr> in
           case f t of
             Some err \<Rightarrow> (Inl (InternalR (''Failed to enqueue task: '' @ err)), [], execution_db [''pending''])
           | None \<Rightarrow> (Inr ''e'', [t], execution_db [''pending''])))"
  using sample_create by (simp add: start_execution_with_def Let_def sample_call_def split: option.split)

theorem start_execution_idempotent_witness:
  "start_execution_with (\<lambda>_. '''') None ''other'' (call_of ''acme'' 5000) ''w'' (Some ''key'') None
     (execution_db [''pending'']) = (Inr ''e'', [], execution_db [''pending''])"
  by (rule start_execution_idempotent [OF execution_db_ok(2) _ sample_start [of None, simplified]])
     (simp_all add: execution_db_def empty_db_def sample_call_def)

theorem enqueue_failure_strands_witness:
  "\<exists>x\<in>set (t_executions (execution_db [''pending''])). x_id x = ''e'' \<and> x_state x = ''pending''"
  using enqueue_failure_strands [OF execution_db_ok(2) _ sample_start [of "Some (\<lambda>_. Some ''down'')", simplified],
      of sample_call]
  by (simp add: execution_db_def empty_db_def sample_call_def new_execution_def)

theorem overlapping_transitions_witness:
  "fst (succeed (\<lambda>_. '''') ''acme'' 2000 ''e'' (execution_db [''running''])) = Inr ()"
proof -
  have ok: "executions_ok (execution_db [''running''])"
    by (rule execution_db_ok(1)) (simp add: execution_states_def)
  have x: "(new_execution ''e'' sample_call ''w'' (Some ''key''))\<lparr>x_state := ''running''\<rparr> \<in>
      set (t_executions (execution_db [''running'']))"
    by (simp add: execution_db_def)
  from overlapping_transitions [OF ok x, of "''acme''" 2000 3000 "\<lambda>_. ''''"] show ?thesis
    by (simp add: new_execution_def sample_call_def)
qed

end
