(* ===== verification/BackfillClaims.thy ===== *)
theory BackfillClaims
  imports BackfillLife
begin

text \<open>
  The functional behaviour of single backfill operations: what a claim returns and that no two
  executors get one job, what cancelling leaves behind, the round trip of pause, resume and claim,
  and the bound on the attempts of a partition.
\<close>

section \<open>Rows found by identifier\<close>

lemma find_job_unique:
  "backfill_ok db \<Longrightarrow> find_job c i db = Some j \<longleftrightarrow> j \<in> set (t_jobs db) \<and> j_id j = i \<and> j_tenant_id j = tenant c"
proof
  assume ok: "backfill_ok db" and j: "j \<in> set (t_jobs db) \<and> j_id j = i \<and> j_tenant_id j = tenant c"
  then have "find_job c i db \<noteq> None"
    by (auto simp: find_job_def my_jobs_def find_None_iff)
  then obtain k where k: "find_job c i db = Some k" by blast
  then have "k = j" using find_job_Some [OF k] job_unique [OF ok, of k j] j by simp
  with k show "find_job c i db = Some j" by simp
qed (auto dest: find_job_Some)

lemma upd_one:
  assumes "backfill_ok db" "j \<in> set (t_jobs db)" "j_tenant_id j = tenant c"
  shows "upd_where (\<lambda>k. j_tenant_id k = tenant c \<and> j_id k = j_id j) f (t_jobs db) =
     map (\<lambda>k. if k = j then f j else k) (t_jobs db)"
  using assms job_unique [OF assms(1) _ assms(2)] by (auto simp: upd_where_def)

section \<open>Claims of jobs\<close>

text \<open>The row \<open>old\<close> that a claim selected and what it made of it.\<close>

definition claimed :: "call \<Rightarrow> int \<Rightarrow> db \<Rightarrow> job \<Rightarrow> job \<Rightarrow> db \<Rightarrow> bool" where
  "claimed c s db old j db' \<longleftrightarrow>
     old \<in> set (my_jobs c db) \<and> claimable c s old \<and> j_id old \<notin> set (locked c) \<and>
     (\<forall>k\<in>set (my_jobs c db). claimable c s k \<and> j_id k \<notin> set (locked c) \<longrightarrow>
        claim_order old \<le> claim_order k) \<and>
     j = claim_job_row c old old \<and>
     db' = db\<lparr>t_jobs := map (\<lambda>k. if k = old then j else k) (t_jobs db)\<rparr>"

lemma claimedD:
  assumes "claimed c s db old j db'"
  shows "old \<in> set (t_jobs db)" "claimable c s old" "j = claim_job_row c old old"
    "t_jobs db' = map (\<lambda>k. if k = old then j else k) (t_jobs db)"
    "j_id j = j_id old" "j_state j = ''running''" "j_heartbeat_at j = Some (now c)"
  using assms by (auto simp: claimed_def my_jobs_def claim_job_row_def claimable_def)

lemma claim_job_result:
  assumes ok: "backfill_ok db" and claim: "claim_pending_backfill_job c s db = (Inr (Some j), db')"
  shows "\<exists>old. claimed c s db old j db'"
proof -
  let ?p = "\<lambda>j. claimable c s j \<and> j_id j \<notin> set (locked c)"
  let ?up = "\<lambda>old. update_jobs c (\<lambda>j. j_id j = j_id old) (claim_job_row c old) db"
  from claim obtain old n where old: "first_min claim_order ?p (my_jobs c db) = Some old"
    and up: "?up old = Inr (n, db')" and found: "find_job c (j_id old) db' = Some j"
    by (auto simp: claim_pending_backfill_job_def with_tenant_context_Inr tx_Inr split: option.splits)
  have o: "old \<in> set (t_jobs db)" "j_tenant_id old = tenant c" "?p old"
    using first_min_in [OF old] first_min_sat [OF old] by (auto simp: my_jobs_def)
  have db': "db' = db\<lparr>t_jobs := map (\<lambda>k. if k = old then claim_job_row c old old else k) (t_jobs db)\<rparr>"
    using up upd_one [OF ok o(1,2)] by (simp add: update_jobs_Inr)
  have "j \<in> set (t_jobs db')" "j_id j = j_id old" using find_job_Some [OF found] by auto
  then have j: "j = claim_job_row c old old"
    using db' job_unique [OF ok _ o(1)] by (auto split: if_splits)
  have "claimed c s db old j db'"
    unfolding claimed_def using o j db' first_min_least [OF old] by (simp add: my_jobs_def)
  then show ?thesis ..
qed

text \<open>
  C6: a successful claim returns a job of the caller's tenant that was claimable (pending,
  resuming, or running with a heartbeat older than the threshold) and not locked by another
  transaction; no claimable unlocked job comes before it in the order of state, priority,
  execution order and age; the returned row is running with a fresh heartbeat, and it is the only
  row that changed.
\<close>

theorem claim_job_correct:
  assumes "backfill_ok db" "claim_pending_backfill_job c s db = (Inr (Some j), db')"
  shows "\<exists>old\<in>set (my_jobs c db). claimable c s old \<and> j_id old = j_id j \<and> j_id j \<notin> set (locked c) \<and>
     (\<forall>k\<in>set (my_jobs c db). claimable c s k \<and> j_id k \<notin> set (locked c) \<longrightarrow>
        claim_order old \<le> claim_order k) \<and>
     j_state j = ''running'' \<and> j_heartbeat_at j = Some (now c) \<and> j_version j = j_version old + 1 \<and>
     t_jobs db' = map (\<lambda>k. if k = old then j else k) (t_jobs db) \<and> t_parts db' = t_parts db"
proof -
  from claim_job_result [OF assms] obtain old where old: "claimed c s db old j db'" ..
  then have "j_version j = j_version old + 1" by (simp add: claimed_def claim_job_row_def)
  with old claimedD [OF old] show ?thesis
    by (intro bexI [of _ old]) (simp_all add: claimed_def)
qed

theorem claim_job_correct_witness:
  "\<exists>j db'. claim_pending_backfill_job sample_call 60 (sample_db ''running'' 0) = (Inr (Some j), db') \<and>
     j_id j = ''k'' \<and> j_state j = ''running''"
proof -
  have ok: "backfill_ok (sample_db ''running'' 0)"
    by (rule sample_ok) (simp_all add: backfill_states_def int4_def)
  obtain j db' where claim:
    "claim_pending_backfill_job sample_call 60 (sample_db ''running'' 0) = (Inr (Some j), db')" "j_id j = ''k''"
    by (simp add: claim_defs)
  with claim_job_correct [OF ok claim(1)] show ?thesis by blast
qed

lemma claim_job_none:
  assumes "claim_pending_backfill_job c s db = (r, db')" "\<nexists>j. r = Inr (Some j)"
  shows "db' = db"
  using with_tenant_context_db [OF assms(1) [unfolded claim_pending_backfill_job_def]] assms(2)
  by (auto simp: tx_Inr split: option.splits)

text \<open>The jobs that a series of claims by several executors returns.\<close>

fun claim_series :: "int \<Rightarrow> call list \<Rightarrow> db \<Rightarrow> uuid list" where
  "claim_series s [] db = []"
| "claim_series s (c # cs) db =
     (case claim_pending_backfill_job c s db of
        (Inr (Some j), db') \<Rightarrow> j_id j # claim_series s cs db'
      | (_, db') \<Rightarrow> claim_series s cs db')"

definition held :: "call list \<Rightarrow> int \<Rightarrow> job \<Rightarrow> bool" where
  "held cs s j \<longleftrightarrow> j_state j = ''running'' \<and>
     (\<exists>h. j_heartbeat_at j = Some h \<and> (\<forall>c\<in>set cs. now c - s * 1000 \<le> h))"

lemma held_not_claimable: "held cs s j \<Longrightarrow> c \<in> set cs \<Longrightarrow> \<not> claimable c s j"
  by (fastforce simp: held_def claimable_def)

lemma claim_series_held:
  assumes "backfill_ok db" "j \<in> set (t_jobs db)" "held cs s j"
  shows "j_id j \<notin> set (claim_series s cs db)"
  using assms
proof (induction cs arbitrary: db)
  case Nil
  then show ?case by simp
next
  case (Cons c cs)
  obtain r db' where call: "claim_pending_backfill_job c s db = (r, db')" by fastforce
  have held: "held cs s j" using Cons.prems(3) by (auto simp: held_def)
  have ok': "backfill_ok db'"
    using step_ok [OF Cons.prems(1), of "(c, Claim_job s)"] call by simp
  show ?case
  proof (cases "\<exists>k. r = Inr (Some k)")
    case True
    then obtain k where r: "r = Inr (Some k)" by blast
    from claim_job_result [OF Cons.prems(1) call [unfolded r]] obtain old where
      cl: "claimed c s db old k db'" ..
    note old = claimedD [OF cl]
    have ne: "j \<noteq> old" using held_not_claimable [OF Cons.prems(3), of c] old(2) by auto
    then have "j \<in> set (t_jobs db')" using Cons.prems(2) old(4) by auto
    moreover have "j_id j \<noteq> j_id k"
      using ne job_unique [OF Cons.prems(1,2) old(1)] old(5) by auto
    ultimately show ?thesis using Cons.IH [OF ok' _ held] call r by simp
  next
    case False
    with call have "db' = db" by (rule claim_job_none)
    with Cons.IH [OF ok' _ held] Cons.prems(2) call False show ?thesis
      by (auto split: sum.splits option.splits)
  qed
qed

text \<open>
  C7: mutual exclusion of executors. In any series of claims, by any tenants and executors, that
  all happen within the heartbeat threshold of each other, no job is handed out twice.
\<close>

theorem claim_exclusive:
  assumes "backfill_ok db" "\<forall>c\<in>set cs. \<forall>d\<in>set cs. now c - s * 1000 \<le> now d"
  shows "distinct (claim_series s cs db)"
  using assms
proof (induction cs arbitrary: db)
  case Nil
  then show ?case by simp
next
  case (Cons c cs)
  obtain r db' where call: "claim_pending_backfill_job c s db = (r, db')" by fastforce
  have ok': "backfill_ok db'"
    using step_ok [OF Cons.prems(1), of "(c, Claim_job s)"] call by simp
  have IH: "distinct (claim_series s cs db')" using Cons.IH [OF ok'] Cons.prems(2) by simp
  show ?case
  proof (cases "\<exists>k. r = Inr (Some k)")
    case True
    then obtain k where r: "r = Inr (Some k)" by blast
    from claim_job_result [OF Cons.prems(1) call [unfolded r]] obtain old where
      cl: "claimed c s db old k db'" ..
    note old = claimedD [OF cl]
    have "k \<in> set (t_jobs db')" using old(1,4) by auto
    moreover have "held cs s k" using old(6,7) Cons.prems(2) by (auto simp: held_def)
    ultimately have "j_id k \<notin> set (claim_series s cs db')" by (rule claim_series_held [OF ok'])
    with IH call r show ?thesis by simp
  next
    case False
    with IH call show ?thesis by (auto split: sum.splits option.splits)
  qed
qed

theorem claim_exclusive_witness:
  "distinct (claim_series 60 [sample_call, sample_call, call_of ''acme'' 2000] (sample_db ''pending'' 0)) \<and>
   claim_series 60 [sample_call, sample_call, call_of ''acme'' 2000] (sample_db ''pending'' 0) = [''j'', ''k'']"
proof -
  have ok: "backfill_ok (sample_db ''pending'' 0)"
    by (rule sample_ok) (simp_all add: backfill_states_def int4_def)
  have "distinct (claim_series 60 [sample_call, sample_call, call_of ''acme'' 2000] (sample_db ''pending'' 0))"
    by (rule claim_exclusive [OF ok]) (simp add: sample_call_def)
  moreover have "claim_series 60 [sample_call, sample_call, call_of ''acme'' 2000] (sample_db ''pending'' 0) =
      [''j'', ''k'']"
    by (simp add: claim_defs)
  ultimately show ?thesis by simp
qed

section \<open>Cancelling\<close>

text \<open>
  Cancelling succeeds only on a job that is not finished; it leaves the job cancelled, no
  partition of the job pending, the partitions of the job that were not pending (in particular the
  one an executor is working on) as they were, and every other job and partition untouched.
\<close>

theorem cancel_backfill_correct:
  assumes ok: "backfill_ok db" and cancel: "cancel_backfill_job c i reason db = (Inr (), db')"
  shows "\<exists>job job'. find_job c i db = Some job \<and> j_state job \<in> active_states \<and>
     find_job c i db' = Some job' \<and> j_state job' = ''cancelled'' \<and>
     t_jobs db' = map (\<lambda>k. if k = job then job' else k) (t_jobs db) \<and>
     (\<forall>p\<in>set (my_parts c db'). bp_job_id p = i \<longrightarrow> bp_state p \<noteq> ''pending'') \<and>
     (\<forall>p\<in>set (t_parts db). bp_job_id p \<noteq> i \<or> bp_state p \<noteq> ''pending'' \<longrightarrow> p \<in> set (t_parts db'))"
proof -
  let ?f = "\<lambda>j. j\<lparr>j_state := ''cancelled'',
    j_error_message := Some (case reason of None \<Rightarrow> ''Cancelled by user'' | Some r \<Rightarrow> r),
    j_completed_at := Some (now c), j_version := j_version j + 1\<rparr>"
  let ?g = "\<lambda>p. p\<lparr>bp_state := ''skipped'', bp_completed_at := Some (now c),
    bp_error_message := Some ''Job cancelled''\<rparr>"
  let ?q = "\<lambda>p. bp_job_id p = i \<and> bp_state p = ''pending''"
  from cancel obtain job n db1 m where job: "find_job c i db = Some job" "j_state job \<in> active_states"
    and up: "update_jobs c (\<lambda>j. j_id j = i) ?f db = Inr (n, db1)"
    and pp: "update_parts c ?q ?g db1 = Inr (m, db')"
    by (auto simp: cancel_backfill_job_def with_tenant_context_Inr with_job_Inr tx_Inr split: if_splits)
  have j: "job \<in> set (t_jobs db)" "j_id job = i" "j_tenant_id job = tenant c"
    using find_job_Some [OF job(1)] by auto
  have js: "t_jobs db' = map (\<lambda>k. if k = job then ?f job else k) (t_jobs db)"
    using up pp upd_one [OF ok j(1,3), of ?f] j(2) by (simp add: update_jobs_Inr update_parts_Inr)
  have ps: "t_parts db' = upd_where (\<lambda>p. bp_tenant_id p = tenant c \<and> ?q p) ?g (t_parts db)"
    using up pp by (simp add: update_jobs_Inr update_parts_Inr)
  have "backfill_ok db'"
    using step_ok [OF ok, of "(c, Cancel_job i reason)"] cancel by simp
  moreover have "?f job \<in> set (t_jobs db')" using js j(1) by (auto simp: image_iff)
  ultimately have "find_job c i db' = Some (?f job)"
    using j(2,3) by (simp add: find_job_unique)
  moreover have "bp_state p \<noteq> ''pending''" if p: "p \<in> set (my_parts c db')" "bp_job_id p = i" for p
  proof -
    from p(1) have "p \<in> set (upd_where (\<lambda>p. bp_tenant_id p = tenant c \<and> ?q p) ?g (t_parts db))"
      and t: "bp_tenant_id p = tenant c" by (simp_all add: my_parts_def ps)
    then show ?thesis by (cases rule: upd_whereE) (use t p(2) in simp_all)
  qed
  moreover have "p \<in> set (t_parts db')"
    if "p \<in> set (t_parts db)" "bp_job_id p \<noteq> i \<or> bp_state p \<noteq> ''pending''" for p
    unfolding ps set_upd_where by (rule image_eqI [of _ _ p]) (use that in auto)
  ultimately show ?thesis using job js
    by (intro exI [of _ job] exI [of _ "?f job"] conjI ballI impI) simp_all
qed

theorem cancel_backfill_correct_witness:
  "\<exists>db' job. cancel_backfill_job sample_call ''j'' None (sample_db ''running'' 0) = (Inr (), db') \<and>
     find_job sample_call ''j'' db' = Some job \<and> j_state job = ''cancelled''"
proof -
  have ok: "backfill_ok (sample_db ''running'' 0)"
    by (rule sample_ok) (simp_all add: backfill_states_def int4_def)
  obtain db' where cancel:
    "cancel_backfill_job sample_call ''j'' None (sample_db ''running'' 0) = (Inr (), db')"
    by (simp add: cancel_backfill_job_def with_job_def run_stmt_def active_states_def claim_defs run_defs)
  with cancel_backfill_correct [OF ok cancel] show ?thesis by blast
qed

section \<open>Pause, resume, claim\<close>

lemma single_update:
  assumes ok: "backfill_ok db" and j: "find_job c i db = Some j"
    and up: "update_jobs c (\<lambda>j. j_id j = i) f db = Inr (n, db')"
    and same: "same_job j (f j)" and ok': "backfill_ok db'"
  shows "find_job c i db' = Some (f j)" and "t_parts db' = t_parts db"
proof -
  have m: "j \<in> set (t_jobs db)" "j_id j = i" "j_tenant_id j = tenant c"
    using find_job_Some [OF j] by auto
  have "f j \<in> set (t_jobs db')"
    using up upd_one [OF ok m(1,3), of f] m(1,2) by (auto simp: update_jobs_Inr image_iff)
  then show "find_job c i db' = Some (f j)"
    using same m(2,3) ok' by (simp add: find_job_unique same_job_def)
  show "t_parts db' = t_parts db" using up by (simp add: update_jobs_Inr)
qed

lemma pause_result:
  assumes ok: "backfill_ok db" and "pause_backfill_job c i db = (Inr (), db')"
  shows "\<exists>j. find_job c i db = Some j \<and> j_state j = ''running'' \<and> t_parts db' = t_parts db \<and>
     find_job c i db' = Some (j\<lparr>j_state := ''paused'', j_paused_at := Some (now c),
       j_checkpoint_partition_key := coalesce (last_completed c i db) (j_checkpoint_partition_key j),
       j_heartbeat_at := Some (now c), j_version := j_version j + 1\<rparr>)"
proof -
  let ?f = "\<lambda>j. j\<lparr>j_state := ''paused'', j_paused_at := Some (now c),
     j_checkpoint_partition_key := coalesce (last_completed c i db) (j_checkpoint_partition_key j),
     j_heartbeat_at := Some (now c), j_version := j_version j + 1\<rparr>"
  from assms(2) obtain j n where j: "find_job c i db = Some j" "j_state j = ''running''"
    "update_jobs c (\<lambda>j. j_id j = i) ?f db = Inr (n, db')"
    by (auto simp: pause_backfill_job_def with_tenant_context_Inr with_job_Inr tx_Inr split: if_splits)
  have "backfill_ok db'" using step_ok [OF ok, of "(c, Pause_job i)"] assms(2) by simp
  with single_update [OF ok j(1,3)] j(1,2) show ?thesis by (simp add: same_job_def)
qed

lemma resume_result:
  assumes ok: "backfill_ok db" and "resume_backfill_job c i db = (Inr (), db')"
  shows "\<exists>j. find_job c i db = Some j \<and> j_state j = ''paused'' \<and> t_parts db' = t_parts db \<and>
     find_job c i db' = Some (j\<lparr>j_state := ''resuming'', j_heartbeat_at := Some (now c),
       j_version := j_version j + 1\<rparr>)"
proof -
  let ?f = "\<lambda>j. j\<lparr>j_state := ''resuming'', j_heartbeat_at := Some (now c), j_version := j_version j + 1\<rparr>"
  from assms(2) obtain j n where j: "find_job c i db = Some j" "j_state j = ''paused''"
    "update_jobs c (\<lambda>j. j_id j = i) ?f db = Inr (n, db')"
    by (auto simp: resume_backfill_job_def with_tenant_context_Inr with_job_Inr tx_Inr split: if_splits)
  have "backfill_ok db'" using step_ok [OF ok, of "(c, Resume_job i)"] assms(2) by simp
  with single_update [OF ok j(1,3)] j(1,2) show ?thesis by (simp add: same_job_def)
qed

text \<open>
  C32: the round trip of pause, resume and claim. When a running job is paused and resumed, and the
  next claim hands it out, it is running again with the checkpoint taken at the pause (the key of
  the partition completed last, or the earlier checkpoint if there is none), with no pause time,
  the original start time and progress counters, and no partition was changed on the way.
\<close>

theorem pause_resume_claim:
  assumes ok: "backfill_ok db" and tenants: "tenant c2 = tenant c1" "tenant c3 = tenant c1"
    and pause: "pause_backfill_job c1 i db = (Inr (), db1)"
    and resume: "resume_backfill_job c2 i db1 = (Inr (), db2)"
    and claim: "claim_pending_backfill_job c3 s db2 = (Inr (Some j), db3)" "j_id j = i"
  shows "\<exists>j0. find_job c1 i db = Some j0 \<and> j_state j0 = ''running'' \<and> t_parts db3 = t_parts db \<and>
     j = j0\<lparr>j_paused_at := None,
            j_checkpoint_partition_key := coalesce (last_completed c1 i db) (j_checkpoint_partition_key j0),
            j_heartbeat_at := Some (now c3), j_version := j_version j0 + 3\<rparr>"
proof -
  have find_tenant: "find_job c2 i = find_job c1 i" "find_job c3 i = find_job c1 i"
    using tenants by (auto simp: find_job_def my_jobs_def fun_eq_iff)
  have ok1: "backfill_ok db1" using step_ok [OF ok, of "(c1, Pause_job i)"] pause by simp
  have ok2: "backfill_ok db2" using step_ok [OF ok1, of "(c2, Resume_job i)"] resume by simp
  from pause_result [OF ok pause] obtain j0 where
    j0: "find_job c1 i db = Some j0" "j_state j0 = ''running''" "t_parts db1 = t_parts db"
      "find_job c1 i db1 = Some (j0\<lparr>j_state := ''paused'', j_paused_at := Some (now c1),
       j_checkpoint_partition_key := coalesce (last_completed c1 i db) (j_checkpoint_partition_key j0),
       j_heartbeat_at := Some (now c1), j_version := j_version j0 + 1\<rparr>)" by blast
  from resume_result [OF ok1 resume] obtain j1 where
    j1: "find_job c1 i db1 = Some j1" "t_parts db2 = t_parts db1"
      "find_job c1 i db2 = Some (j1\<lparr>j_state := ''resuming'', j_heartbeat_at := Some (now c2),
       j_version := j_version j1 + 1\<rparr>)" unfolding find_tenant by blast
  from claim_job_result [OF ok2 claim(1)] obtain old where cl: "claimed c3 s db2 old j db3" ..
  then have old: "old \<in> set (t_jobs db2)" "j_id old = i" "j_tenant_id old = tenant c1"
    "j = claim_job_row c3 old old" "t_parts db3 = t_parts db2"
    using claimedD [OF cl] claim(2) tenants by (auto simp: claimed_def my_jobs_def)
  have "find_job c1 i db2 = Some old" using old(1-3) ok2 by (simp add: find_job_unique)
  then have "old = j1\<lparr>j_state := ''resuming'', j_heartbeat_at := Some (now c2),
      j_version := j_version j1 + 1\<rparr>" using j1(3) by simp
  moreover have "j1 = j0\<lparr>j_state := ''paused'', j_paused_at := Some (now c1),
       j_checkpoint_partition_key := coalesce (last_completed c1 i db) (j_checkpoint_partition_key j0),
       j_heartbeat_at := Some (now c1), j_version := j_version j0 + 1\<rparr>" using j1(1) j0(4) by simp
  ultimately have "old = j0\<lparr>j_state := ''resuming'', j_paused_at := Some (now c1),
      j_checkpoint_partition_key := coalesce (last_completed c1 i db) (j_checkpoint_partition_key j0),
      j_heartbeat_at := Some (now c2), j_version := j_version j0 + 1 + 1\<rparr>" by simp
  then have "j = j0\<lparr>j_paused_at := None,
      j_checkpoint_partition_key := coalesce (last_completed c1 i db) (j_checkpoint_partition_key j0),
      j_heartbeat_at := Some (now c3), j_version := j_version j0 + 3\<rparr>"
    unfolding old(4) claim_job_row_def using j0(2)
    by (cases "j_started_at j0") (simp_all add: job.equality)
  with j0 j1 old(5) show ?thesis by simp
qed

theorem pause_resume_claim_witness:
  "\<exists>db1 db2 db3 j. pause_backfill_job sample_call ''j'' (sample_db ''running'' 0) = (Inr (), db1) \<and>
     resume_backfill_job sample_call ''j'' db1 = (Inr (), db2) \<and>
     claim_pending_backfill_job (sample_call\<lparr>locked := [''k'']\<rparr>) 60 db2 = (Inr (Some j), db3) \<and>
     j_state j = ''running'' \<and> j_version j = 4"
proof -
  have ok: "backfill_ok (sample_db ''running'' 0)"
    by (rule sample_ok) (simp_all add: backfill_states_def int4_def)
  obtain db1 db2 db3 j where run:
    "pause_backfill_job sample_call ''j'' (sample_db ''running'' 0) = (Inr (), db1)"
    "resume_backfill_job sample_call ''j'' db1 = (Inr (), db2)"
    "claim_pending_backfill_job (sample_call\<lparr>locked := [''k'']\<rparr>) 60 db2 = (Inr (Some j), db3)" "j_id j = ''j''"
    by (simp add: pause_backfill_job_def resume_backfill_job_def with_job_def run_stmt_def
        last_completed_def claim_defs run_defs)
  have "find_job sample_call ''j'' (sample_db ''running'' 0) = Some (sample_job ''j'' ''running'')"
    by (simp add: claim_defs)
  with pause_resume_claim [OF ok _ _ run] run show ?thesis by (auto simp: sample_defs)
qed

section \<open>Attempts\<close>

definition fresh_part :: "part \<Rightarrow> bool" where
  "fresh_part p \<longleftrightarrow> bp_state p = ''pending'' \<and> bp_attempt_count p = 0"

definition attempts_ok :: "int \<Rightarrow> part \<Rightarrow> bool" where
  "attempts_ok n p \<longleftrightarrow> (bp_state p = ''pending'' \<longrightarrow> bp_attempt_count p = 0) \<and> bp_attempt_count p \<le> max 1 n"

text \<open>Operations other than a requeue, with fresh partitions and a retry limit of at most \<open>n\<close>.\<close>

fun within_limit :: "int \<Rightarrow> backfill_op \<Rightarrow> bool" where
  "within_limit n (Requeue_part i) = False"
| "within_limit n (Claim_part i m) = (m \<le> n)"
| "within_limit n (Create_part p) = fresh_part p"
| "within_limit n (Create_parts ps) = list_all fresh_part ps"
| "within_limit n op = (\<not> overwrite op)"

lemma within_limitD:
  shows within_guarded: "within_limit n op \<Longrightarrow> \<not> overwrite op"
    and within_fresh: "within_limit n op \<Longrightarrow> creates op p \<Longrightarrow> fresh_part p"
    and within_claim: "within_limit n (Claim_part i m) \<Longrightarrow> m \<le> n"
    and within_requeue: "\<not> within_limit n (Requeue_part i)"
proof -
  show "within_limit n op \<Longrightarrow> \<not> overwrite op" by (cases op) simp_all
  show "within_limit n op \<Longrightarrow> creates op p \<Longrightarrow> fresh_part p" by (cases op) (simp_all add: list_all_iff)
qed simp_all

lemma attempts_step:
  assumes "part_step op p p'" "within_limit n op" "attempts_ok n p"
  shows "attempts_ok n p'"
  using assms by (cases op) (auto simp: part_step_def attempts_ok_def split: if_splits)

lemma attempts_stmts:
  assumes "stmts c (job_step op) (part_step op) (creates op) db db'" "within_limit n op"
    and "\<forall>p\<in>set (t_parts db). attempts_ok n p"
  shows "\<forall>p\<in>set (t_parts db'). attempts_ok n p"
  using assms
proof (induction rule: stmts.induct)
  case (stmts_part db db1 q g m db2)
  then have IH: "\<forall>p\<in>set (t_parts db1). attempts_ok n p" by blast
  have "attempts_ok n (g p)" if "p \<in> set (t_parts db1)" "q p" for p
    using attempts_step [of op p "g p"] stmts_part.hyps(3) [OF that] stmts_part.prems(1) IH that by blast
  with IH stmts_part.hyps(2) show ?case by (auto simp: update_parts_Inr set_upd_where)
next
  case (stmts_new_part db db1 p u db2)
  have "fresh_part p" by (rule within_fresh [OF stmts_new_part.prems(1) stmts_new_part.hyps(3)])
  then have "attempts_ok n p" by (simp add: fresh_part_def attempts_ok_def)
  with stmts_new_part show ?case by (auto simp: insert_part_Inr)
qed (auto simp: update_jobs_Inr insert_job_Inr)

text \<open>
  The retry limit. When all partitions are fresh to begin with, no partition is requeued and
  every claim uses a limit of at most \<open>n\<close>, no partition is ever started more than \<open>max 1 n\<close>
  times, however the claims, completions and failures follow each other.
\<close>

theorem attempts_bounded:
  assumes "backfill_ok db" "list_all fresh_part (t_parts db)" "list_all (\<lambda>(c, op). within_limit n op) ops"
    and "p \<in> set (t_parts (backfill_run db ops))"
  shows "bp_attempt_count p \<le> max 1 n"
proof -
  have "\<forall>p\<in>set (t_parts (backfill_run db ops)). attempts_ok n p"
    if "backfill_ok db" "list_all (\<lambda>(c, op). within_limit n op) ops" "\<forall>p\<in>set (t_parts db). attempts_ok n p"
    for db ops
    using that
  proof (induction ops arbitrary: db)
    case (Cons cop ops)
    obtain c op where cop: "cop = (c, op)" by (cases cop)
    with Cons.prems have "within_limit n op" by simp
    from attempts_stmts [OF guarded_stmts [OF Cons.prems(1) within_guarded [OF this]] this Cons.prems(3)]
    have "\<forall>p\<in>set (t_parts (backfill_step cop db)). attempts_ok n p" by (simp add: cop)
    with Cons.IH [OF step_ok [OF Cons.prems(1)]] Cons.prems(2) show ?case by simp
  qed simp
  moreover have "\<forall>p\<in>set (t_parts db). attempts_ok n p"
    using assms(2) by (simp add: list_all_iff fresh_part_def attempts_ok_def le_max_iff_disj)
  ultimately have "attempts_ok n p" using assms(1,3,4) by blast
  then show ?thesis by (simp add: attempts_ok_def)
qed

theorem attempts_bounded_witness:
  "bp_attempt_count (claim_part_row sample_call (sample_part ''p'' ''2024-01-01'' ''pending'' 0)) \<le> max 1 3"
proof -
  have ok: "backfill_ok (sample_db ''running'' 0)"
    by (rule sample_ok) (simp_all add: backfill_states_def int4_def)
  have p: "claim_part_row sample_call (sample_part ''p'' ''2024-01-01'' ''pending'' 0) \<in>
      set (t_parts (backfill_run (sample_db ''running'' 0) [(sample_call, Claim_part ''j'' 3)]))"
    by (simp add: run_defs upd_where_def)
  have fresh: "list_all fresh_part (t_parts (sample_db ''running'' 0))"
    by (simp add: sample_defs fresh_part_def)
  show ?thesis by (rule attempts_bounded [OF ok fresh _ p]) simp
qed

section \<open>Requeued partitions\<close>

text \<open>
  A requeue gives the attempt back to nobody: the claim counts an attempt and the requeue of a
  partition whose upstream is not ready leaves the count, so after \<open>k\<close> rounds of waiting the
  partition has used \<open>k\<close> attempts without having run; from the third round on, the first real
  failure is final although the limit is three retries.
\<close>

theorem requeue_consumes_attempts:
  assumes "k < 2 ^ 31 - 1"
  shows "backfill_run (sample_db ''running'' 0)
       (concat (replicate k [(sample_call, Claim_part ''j'' 3), (sample_call, Requeue_part ''p'')])) =
       sample_db ''running'' (int k) \<and>
     (3 \<le> k \<longrightarrow> fst (claim_pending_partition sample_call ''j'' 3
        (backfill_run (sample_db ''running'' (int k))
           [(sample_call, Claim_part ''j'' 3), (sample_call, Fail_part ''p'' err d)])) = Inr None)"
proof -
  have round: "backfill_run (sample_db ''running'' (int i))
      [(sample_call, Claim_part ''j'' 3), (sample_call, Requeue_part ''p'')] = sample_db ''running'' (int i + 1)"
    if "i < 2 ^ 31 - 1" for i
    using that by (simp add: run_defs)
  have last: "fst (claim_pending_partition sample_call ''j'' 3
        (backfill_run (sample_db ''running'' (int k))
           [(sample_call, Claim_part ''j'' 3), (sample_call, Fail_part ''p'' err d)])) = Inr None" if "3 \<le> k"
    using that assms by (simp add: run_defs)
  have "\<And>i. i + k < 2 ^ 31 \<Longrightarrow> backfill_run (sample_db ''running'' (int i))
     (concat (replicate k [(sample_call, Claim_part ''j'' 3), (sample_call, Requeue_part ''p'')])) =
     sample_db ''running'' (int (i + k))"
  proof (induction k)
    case (Suc k)
    have "backfill_run (sample_db ''running'' (int i))
        [(sample_call, Claim_part ''j'' 3), (sample_call, Requeue_part ''p'')] = sample_db ''running'' (int (Suc i))"
      using round [of i] Suc.prems by (simp add: add.commute)
    with Suc.IH [of "Suc i"] Suc.prems show ?case by simp
  qed simp
  from this [of 0] assms last show ?thesis by simp
qed

theorem requeue_consumes_attempts_witness:
  "fst (claim_pending_partition sample_call ''j'' 3
     (backfill_run (sample_db ''running'' (int 3))
        [(sample_call, Claim_part ''j'' 3), (sample_call, Fail_part ''p'' ''boom'' 5)])) = Inr None"
  using requeue_consumes_attempts [of 3] by simp

end
