(* ===== verification/CheckStore.thy ===== *)
theory CheckStore
  imports MetaStore
begin

text \<open>
  The operations of \<open>servo-storage/src/postgres.rs\<close> on data quality checks and their results, with
  the constraints and the policies of migration 006. A row without a tenant is visible to every
  tenant; the foreign keys are checked against all rows, whatever their tenant.
\<close>

section \<open>Constraints\<close>

definition validate_check_severity :: "string \<Rightarrow> storage_error + unit" where
  "validate_check_severity s =
     (if s \<in> {''info'', ''warning'', ''error''} then Inr ()
      else Inl (ValidationError (''Invalid check severity: '' @ s)))"

definition validate_check_outcome :: "string \<Rightarrow> storage_error + unit" where
  "validate_check_outcome s =
     (if s \<in> {''passed'', ''failed'', ''skipped'', ''error''} then Inr ()
      else Inl (ValidationError (''Invalid check outcome: '' @ s)))"

definition my_checks :: "call \<Rightarrow> db \<Rightarrow> check_row list" where
  "my_checks c db = filter (\<lambda>k. visible c (ck_tenant_id k)) (t_checks db)"

definition my_check_results :: "call \<Rightarrow> db \<Rightarrow> check_result_row list" where
  "my_check_results c db = filter (\<lambda>r. visible c (cr_tenant_id r)) (t_check_results db)"

definition check_row_check :: "check_row \<Rightarrow> sqlx_error option" where
  "check_row_check k = violated
     [(ck_severity k \<in> {''info'', ''warning'', ''error''}, check_violation ''valid_check_severity'')]"

definition same_check_name :: "check_row \<Rightarrow> check_row \<Rightarrow> bool" where
  "same_check_name k l \<longleftrightarrow> ck_asset_id k = ck_asset_id l \<and> ck_name k = ck_name l"

definition check_fk :: "db \<Rightarrow> check_row \<Rightarrow> sqlx_error option" where
  "check_fk db k = violated
     [(list_ex (\<lambda>a. ar_id a = ck_asset_id k) (t_assets db), fk_violation ''asset_checks_asset_id_fkey'')]"

definition result_row_check :: "check_result_row \<Rightarrow> sqlx_error option" where
  "result_row_check r = violated
     [(cr_outcome r \<in> {''passed'', ''failed'', ''skipped'', ''error''}, check_violation ''valid_check_outcome'')]"

definition result_fk :: "db \<Rightarrow> check_result_row \<Rightarrow> sqlx_error option" where
  "result_fk db r = violated
     [(list_ex (\<lambda>k. ck_id k = cr_check_id r) (t_checks db), fk_violation ''check_results_check_id_fkey''),
      (list_ex (\<lambda>x. x_id x = cr_execution_id r) (t_executions db), fk_violation ''check_results_execution_id_fkey''),
      (list_ex (\<lambda>a. ar_id a = cr_asset_id r) (t_assets db), fk_violation ''check_results_asset_id_fkey'')]"

section \<open>Checks\<close>

definition create_asset_check :: "call \<Rightarrow> check_row \<Rightarrow> db \<Rightarrow> (unit, db) outcome" where
  "create_asset_check c k =
     checked [validate_non_empty_string (ck_name k) ''Check name'', validate_check_severity (ck_severity k)]
       (with_tenant_context c (\<lambda>db.
          case stmt_insert (\<lambda>r. policy c ''asset_checks'' (ck_tenant_id r) (check_row_check r))
                 [(''asset_checks_pkey'', \<lambda>r s. ck_id r = ck_id s),
                  (''asset_checks_asset_id_name_key'', same_check_name)] (check_fk db)
                 (k\<lparr>ck_tenant_id := Some (tenant c)\<rparr>) (t_checks db) of
            Inl e \<Rightarrow> Inl e
          | Inr rows \<Rightarrow> Inr ((), db\<lparr>t_checks := rows\<rparr>)))"

definition get_asset_check :: "call \<Rightarrow> uuid \<Rightarrow> db \<Rightarrow> (check_row, db) outcome" where
  "get_asset_check c i =
     with_tenant_context c (\<lambda>db. case find (\<lambda>k. ck_id k = i) (my_checks c db) of
        None \<Rightarrow> Inl (NotFound (''Asset check '' @ i))
      | Some k \<Rightarrow> Inr (k, db))"

definition list_asset_checks :: "call \<Rightarrow> uuid \<Rightarrow> bool \<Rightarrow> db \<Rightarrow> (check_row list, db) outcome" where
  "list_asset_checks c a enabled_only =
     with_tenant_context c (\<lambda>db.
       Inr (if enabled_only
            then stmt_select ck_created_at (\<lambda>k. ck_asset_id k = a \<and> ck_enabled k) (my_checks c db)
            else stmt_select ck_created_at (\<lambda>k. ck_asset_id k = a) (my_checks c db), db))"

definition update_asset_check :: "call \<Rightarrow> check_row \<Rightarrow> db \<Rightarrow> (unit, db) outcome" where
  "update_asset_check c k =
     checked [validate_non_empty_string (ck_name k) ''Check name'', validate_check_severity (ck_severity k)]
       (with_tenant_context c
          (must_hit (\<lambda>db.
             case stmt_update (\<lambda>r. visible c (ck_tenant_id r) \<and> ck_id r = ck_id k)
                    (\<lambda>r. r\<lparr>ck_name := ck_name k, ck_description := ck_description k,
                           ck_check_type := ck_check_type k, ck_severity := ck_severity k,
                           ck_blocking := ck_blocking k, ck_enabled := ck_enabled k, ck_tags := ck_tags k,
                           ck_owner := ck_owner k, ck_updated_at := ck_updated_at k\<rparr>)
                    (\<lambda>r. case check_row_check r of Some e \<Rightarrow> Some e
                         | None \<Rightarrow> key_clash [(''asset_checks_asset_id_name_key'',
                                     \<lambda>r s. ck_id r \<noteq> ck_id s \<and> same_check_name r s)] r (t_checks db))
                    (t_checks db) of
               Inl e \<Rightarrow> Inl e
             | Inr (n, rows) \<Rightarrow> Inr (n, db\<lparr>t_checks := rows\<rparr>))
             (''Asset check '' @ ck_id k)))"

definition delete_asset_check :: "call \<Rightarrow> uuid \<Rightarrow> db \<Rightarrow> (unit, db) outcome" where
  "delete_asset_check c i =
     with_tenant_context c (\<lambda>db.
       if hits (\<lambda>k. ck_id k = i) (my_checks c db) = 0 then Inl (NotFound (''Asset check '' @ i))
       else Inr ((), db\<lparr>t_checks := filter (\<lambda>k. \<not> (visible c (ck_tenant_id k) \<and> ck_id k = i)) (t_checks db),
                        t_check_results := filter (\<lambda>r. cr_check_id r \<noteq> i) (t_check_results db)\<rparr>))"

section \<open>Results\<close>

definition insert_check_result :: "call \<Rightarrow> check_result_row \<Rightarrow> (unit, db) tx" where
  "insert_check_result c r db =
     (case stmt_insert (\<lambda>r. policy c ''check_results'' (cr_tenant_id r) (result_row_check r))
             [(''check_results_pkey'', \<lambda>r s. cr_id r = cr_id s)] (result_fk db)
             (r\<lparr>cr_tenant_id := Some (tenant c)\<rparr>) (t_check_results db) of
        Inl e \<Rightarrow> Inl e
      | Inr rows \<Rightarrow> Inr ((), db\<lparr>t_check_results := rows\<rparr>))"

definition create_check_result :: "call \<Rightarrow> check_result_row \<Rightarrow> db \<Rightarrow> (unit, db) outcome" where
  "create_check_result c r =
     checked [validate_check_outcome (cr_outcome r), validate_check_severity (cr_severity r)]
       (with_tenant_context c (insert_check_result c r))"

fun insert_check_results :: "call \<Rightarrow> check_result_row list \<Rightarrow> (unit, db) tx" where
  "insert_check_results c [] = tx_return ()"
| "insert_check_results c (r # rs) = tx_bind (insert_check_result c r) (\<lambda>_. insert_check_results c rs)"

definition create_check_results_batch :: "call \<Rightarrow> check_result_row list \<Rightarrow> db \<Rightarrow> (unit, db) outcome" where
  "create_check_results_batch c rs =
     (if rs = [] then (\<lambda>db. (Inr (), db))
      else checked (concat (map (\<lambda>r. [validate_check_outcome (cr_outcome r), validate_check_severity (cr_severity r)]) rs))
             (with_tenant_context c (insert_check_results c rs)))"

definition list_check_results_for_execution :: "call \<Rightarrow> uuid \<Rightarrow> db \<Rightarrow> (check_result_row list, db) outcome" where
  "list_check_results_for_execution c x =
     with_tenant_context c (\<lambda>db.
       Inr (stmt_select cr_executed_at (\<lambda>r. cr_execution_id r = x) (my_check_results c db), db))"

definition get_blocking_check_failures :: "call \<Rightarrow> uuid \<Rightarrow> db \<Rightarrow> (check_result_row list, db) outcome" where
  "get_blocking_check_failures c x =
     with_tenant_context c (\<lambda>db.
       Inr (stmt_select cr_executed_at
              (\<lambda>r. cr_execution_id r = x \<and> cr_blocking r \<and> cr_outcome r \<in> {''failed'', ''error''}
                   \<and> cr_severity r = ''error'') (my_check_results c db), db))"

text \<open>\<open>ORDER BY executed_at DESC LIMIT\<close>.\<close>

definition list_recent_check_results_for_asset ::
  "call \<Rightarrow> uuid \<Rightarrow> int \<Rightarrow> db \<Rightarrow> (check_result_row list, db) outcome" where
  "list_recent_check_results_for_asset c a limit =
     checked [validate_pagination_params limit 0]
       (with_tenant_context c (\<lambda>db.
          Inr (take (nat limit) (rev (stmt_select cr_executed_at (\<lambda>r. cr_asset_id r = a) (my_check_results c db))), db)))"

section \<open>The writes\<close>

datatype check_op =
    Create_check check_row
  | Update_check check_row
  | Delete_check uuid
  | Create_result check_result_row
  | Create_results "check_result_row list"

fun check_step :: "call \<times> check_op \<Rightarrow> db \<Rightarrow> db" where
  "check_step (c, Create_check k) db = snd (create_asset_check c k db)"
| "check_step (c, Update_check k) db = snd (update_asset_check c k db)"
| "check_step (c, Delete_check i) db = snd (delete_asset_check c i db)"
| "check_step (c, Create_result r) db = snd (create_check_result c r db)"
| "check_step (c, Create_results rs) db = snd (create_check_results_batch c rs db)"

section \<open>Invariants of calls and of updates\<close>

lemma upd_same: "(\<And>r. r \<in> set rs \<Longrightarrow> p r \<Longrightarrow> g (f r) = g r) \<Longrightarrow> g ` set (upd_where p f rs) = g ` set rs"
  by (metis map_upd_same list.set_map)

lemma distinct_map_filter': "distinct (map f xs) \<Longrightarrow> distinct (map f (filter p xs))"
  by (induction xs) auto

lemma call_inv: "I db \<Longrightarrow> (\<And>a db'. f db = Inr (a, db') \<Longrightarrow> I db') \<Longrightarrow> I (snd (with_tenant_context c f db))"
  by (auto simp: with_tenant_context_def split: option.splits sum.splits prod.splits)

lemma checked_inv: "I db \<Longrightarrow> I (snd (f db)) \<Longrightarrow> I (snd (checked vs f db))"
  by (induction vs f db rule: checked.induct) (auto split: sum.splits)

text \<open>Rows that are updated in place and keep their key.\<close>

lemma distinct_upd: "(\<And>r. r \<in> set rs \<Longrightarrow> p r \<Longrightarrow> key (f r) = key r) \<Longrightarrow>
    distinct (map key rs) \<Longrightarrow> distinct (map key (upd_where p f rs))"
  by (simp add: map_upd_same)

lemma upd_pairwise:
  assumes old: "\<And>r s. r \<in> set rs \<Longrightarrow> s \<in> set rs \<Longrightarrow> same r s \<Longrightarrow> r = s"
    and sym: "\<And>r s. same r s = same s r"
    and key: "distinct (map key rs)" "\<And>r. p r \<Longrightarrow> key (f r) = key r"
    and one: "\<And>r s. p r \<Longrightarrow> p s \<Longrightarrow> key r = key s"
    and new: "\<And>r s. r \<in> set rs \<Longrightarrow> p r \<Longrightarrow> s \<in> set rs \<Longrightarrow> key s \<noteq> key r \<Longrightarrow> \<not> same (f r) s"
    and r: "r \<in> set (upd_where p f rs)" "s \<in> set (upd_where p f rs)" "same r s"
  shows "r = s"
proof -
  obtain r0 s0 where r0: "r0 \<in> set rs" "r = (if p r0 then f r0 else r0)"
    and s0: "s0 \<in> set rs" "s = (if p s0 then f s0 else s0)"
    using r(1,2) by (auto simp: set_upd_where)
  have inj: "r0 = s0" if "key r0 = key s0"
    using distinct_map_unique [OF key(1) r0(1) s0(1) that] .
  show ?thesis
  proof (cases "p r0"; cases "p s0")
    assume "p r0" "p s0"
    with one inj have "r0 = s0" by blast
    with r0 s0 show ?thesis by simp
  next
    assume a: "p r0" "\<not> p s0"
    with new [OF r0(1) _ s0(1)] r0 s0 r(3) have "key s0 = key r0" by auto
    with inj [OF this [symmetric]] a show ?thesis by blast
  next
    assume a: "\<not> p r0" "p s0"
    with new [OF s0(1) _ r0(1)] sym r0 s0 r(3) have "key r0 = key s0" by auto
    with inj a show ?thesis by blast
  next
    assume "\<not> p r0" "\<not> p s0"
    with old r0 s0 r(3) show ?thesis by auto
  qed
qed

section \<open>The invariant of the two tables\<close>

definition checks_ok :: "db \<Rightarrow> bool" where
  "checks_ok db \<longleftrightarrow>
     distinct (map ck_id (t_checks db)) \<and>
     (\<forall>k\<in>set (t_checks db). \<forall>l\<in>set (t_checks db). same_check_name k l \<longrightarrow> k = l) \<and>
     (\<forall>k\<in>set (t_checks db). check_row_check k = None) \<and>
     ck_asset_id ` set (t_checks db) \<subseteq> ar_id ` set (t_assets db) \<and>
     distinct (map cr_id (t_check_results db)) \<and>
     (\<forall>r\<in>set (t_check_results db). result_row_check r = None) \<and>
     cr_check_id ` set (t_check_results db) \<subseteq> ck_id ` set (t_checks db) \<and>
     cr_execution_id ` set (t_check_results db) \<subseteq> x_id ` set (t_executions db) \<and>
     cr_asset_id ` set (t_check_results db) \<subseteq> ar_id ` set (t_assets db)"

lemma result_fk_None: "result_fk db r = None \<longleftrightarrow> cr_check_id r \<in> ck_id ` set (t_checks db) \<and>
    cr_execution_id r \<in> x_id ` set (t_executions db) \<and> cr_asset_id r \<in> ar_id ` set (t_assets db)"
  by (auto simp: result_fk_def violated_None list_ex_iff intro: rev_image_eqI)

lemma check_fk_None: "check_fk db k = None \<longleftrightarrow> ck_asset_id k \<in> ar_id ` set (t_assets db)"
  by (auto simp: check_fk_def violated_None list_ex_iff intro: rev_image_eqI)

lemma check_constraints [simp]:
  "result_row_check (r\<lparr>cr_tenant_id := t\<rparr>) = result_row_check r"
  "check_row_check (k\<lparr>ck_tenant_id := t\<rparr>) = check_row_check k"
  "result_fk db (r\<lparr>cr_tenant_id := t\<rparr>) = result_fk db r"
  "check_fk db (k\<lparr>ck_tenant_id := t\<rparr>) = check_fk db k"
  by (simp_all add: result_row_check_def check_row_check_def result_fk_def check_fk_def)

lemma insert_check_result_Inr:
  "insert_check_result c r db = Inr (u, db') \<longleftrightarrow>
     result_row_check r = None \<and> (\<forall>s\<in>set (t_check_results db). cr_id r \<noteq> cr_id s) \<and> result_fk db r = None \<and>
     db' = db\<lparr>t_check_results := t_check_results db @ [r\<lparr>cr_tenant_id := Some (tenant c)\<rparr>]\<rparr>"
  by (subst insert_check_result_def, subst stmt_insert_case)
     (auto simp: policy_def visible_def key_clash_None simp del: key_clash.simps)

lemma insert_check_result_ok: "checks_ok db \<Longrightarrow> insert_check_result c r db = Inr (u, db') \<Longrightarrow> checks_ok db'"
  by (auto simp: insert_check_result_Inr checks_ok_def result_fk_None)

lemma insert_check_results_ok:
  "checks_ok db \<Longrightarrow> insert_check_results c rs db = Inr (u, db') \<Longrightarrow> checks_ok db'"
  by (induction rs arbitrary: db) (auto simp: tx_bind_Inr intro: insert_check_result_ok)

text \<open>A write to the tables of the checks changes no other table.\<close>

definition only_checks :: "db \<Rightarrow> db \<Rightarrow> bool" where
  "only_checks db db' \<longleftrightarrow> t_assets db' = t_assets db \<and> t_workflows db' = t_workflows db \<and>
     t_executions db' = t_executions db \<and> t_dependencies db' = t_dependencies db \<and>
     t_jobs db' = t_jobs db \<and> t_parts db' = t_parts db \<and> t_workflow_assets db' = t_workflow_assets db"

lemma only_checks_simps [simp]:
  "only_checks db db" "only_checks db (db\<lparr>t_checks := K\<rparr>)" "only_checks db (db\<lparr>t_check_results := R\<rparr>)"
  "only_checks db (db\<lparr>t_checks := K, t_check_results := R\<rparr>)"
  by (simp_all add: only_checks_def)

lemma insert_check_results_only: "insert_check_results c rs db = Inr (u, db') \<Longrightarrow> only_checks db db'"
  by (induction rs arbitrary: db) (auto simp: tx_bind_Inr insert_check_result_Inr only_checks_def)

definition check_inv :: "db \<Rightarrow> db \<Rightarrow> bool" where
  "check_inv db db' \<longleftrightarrow> checks_ok db' \<and> only_checks db db'"

lemma create_asset_check_ok:
  assumes ok: "checks_ok db"
  shows "check_inv db (snd (create_asset_check c k db))"
  unfolding create_asset_check_def
proof (intro checked_inv [where I = "check_inv db"] call_inv [where I = "check_inv db"])
  show "check_inv db db" "check_inv db db" using ok by (simp_all add: check_inv_def)
  let ?k = "k\<lparr>ck_tenant_id := Some (tenant c)\<rparr>"
  fix u db'
  assume "(case stmt_insert (\<lambda>r. policy c ''asset_checks'' (ck_tenant_id r) (check_row_check r))
       [(''asset_checks_pkey'', \<lambda>r s. ck_id r = ck_id s), (''asset_checks_asset_id_name_key'', same_check_name)]
       (check_fk db) ?k (t_checks db) of Inl e \<Rightarrow> Inl e | Inr rows \<Rightarrow> Inr ((), db\<lparr>t_checks := rows\<rparr>)) = Inr (u, db')"
  then have new: "check_row_check ?k = None" "\<forall>s\<in>set (t_checks db). ck_id ?k \<noteq> ck_id s \<and> \<not> same_check_name ?k s"
      "ck_asset_id ?k \<in> ar_id ` set (t_assets db)"
    and db': "db' = db\<lparr>t_checks := t_checks db @ [?k]\<rparr>"
    unfolding stmt_insert_case
    by (simp_all add: policy_def visible_def key_clash_None check_fk_None del: key_clash.simps)
  have sym: "same_check_name r s = same_check_name s r" for r s by (auto simp: same_check_name_def)
  have "checks_ok db'"
    using ok new sym by (auto simp: checks_ok_def db' simp del: check_constraints)
  then show "check_inv db db'" by (simp add: check_inv_def db')
qed

lemma create_check_result_ok:
  "checks_ok db \<Longrightarrow> check_inv db (snd (create_check_result c r db))"
  unfolding create_check_result_def
  by (intro checked_inv [where I = "check_inv db"] call_inv [where I = "check_inv db"])
     (auto simp: check_inv_def intro: insert_check_result_ok simp: insert_check_result_Inr only_checks_def
        dest: insert_check_result_ok)

lemma create_check_results_ok:
  "checks_ok db \<Longrightarrow> check_inv db (snd (create_check_results_batch c rs db))"
  unfolding create_check_results_batch_def
  by (cases "rs = []", simp add: check_inv_def, simp only: if_False,
      intro checked_inv [where I = "check_inv db"] call_inv [where I = "check_inv db"])
     (auto simp: check_inv_def intro: insert_check_results_ok insert_check_results_only)

lemma delete_asset_check_ok:
  assumes ok: "checks_ok db"
  shows "check_inv db (snd (delete_asset_check c i db))"
  unfolding delete_asset_check_def
proof (rule call_inv [where I = "check_inv db"])
  show "check_inv db db" using ok by (simp add: check_inv_def)
  fix u db'
  let ?db = "db\<lparr>t_checks := filter (\<lambda>k. \<not> (visible c (ck_tenant_id k) \<and> ck_id k = i)) (t_checks db),
    t_check_results := filter (\<lambda>r. cr_check_id r \<noteq> i) (t_check_results db)\<rparr>"
  assume "(if hits (\<lambda>k. ck_id k = i) (my_checks c db) = 0 then Inl (NotFound (''Asset check '' @ i))
    else Inr ((), ?db)) = Inr (u, db')"
  then have db': "db' = ?db" by (simp split: if_splits)
  have "checks_ok ?db"
    using ok unfolding checks_ok_def by (simp add: distinct_map_filter') (auto simp: image_iff subset_iff)
  then show "check_inv db db'" by (simp add: check_inv_def db')
qed

lemma update_asset_check_ok:
  assumes ok: "checks_ok db"
  shows "check_inv db (snd (update_asset_check c k db))"
  unfolding update_asset_check_def
proof (intro checked_inv [where I = "check_inv db"] call_inv [where I = "check_inv db"])
  show refl: "check_inv db db" "check_inv db db" using ok by (simp_all add: check_inv_def)
  let ?f = "\<lambda>r. r\<lparr>ck_name := ck_name k, ck_description := ck_description k,
    ck_check_type := ck_check_type k, ck_severity := ck_severity k, ck_blocking := ck_blocking k,
    ck_enabled := ck_enabled k, ck_tags := ck_tags k, ck_owner := ck_owner k, ck_updated_at := ck_updated_at k\<rparr>"
  let ?p = "\<lambda>r. visible c (ck_tenant_id r) \<and> ck_id r = ck_id k"
  let ?ck = "\<lambda>db r. case check_row_check r of Some e \<Rightarrow> Some e
    | None \<Rightarrow> key_clash [(''asset_checks_asset_id_name_key'', \<lambda>r s. ck_id r \<noteq> ck_id s \<and> same_check_name r s)] r (t_checks db)"
  fix u db'
  assume "must_hit (\<lambda>db. case stmt_update ?p ?f (?ck db) (t_checks db) of Inl e \<Rightarrow> Inl e
     | Inr (n, rows) \<Rightarrow> Inr (n, db\<lparr>t_checks := rows\<rparr>)) (''Asset check '' @ ck_id k) db = Inr (u, db')"
  then have ck: "\<And>r. r \<in> set (t_checks db) \<Longrightarrow> ?p r \<Longrightarrow> ?ck db (?f r) = None"
    and db': "db' = db\<lparr>t_checks := upd_where ?p ?f (t_checks db)\<rparr>"
    unfolding must_hit_Inr by (subst (asm) stmt_update_case, blast)+
  have row: "check_row_check (?f r) = None" if "r \<in> set (t_checks db)" "?p r" for r
    using ck [OF that] by (simp split: option.splits)
  have new: "\<not> same_check_name (?f r) s" if "r \<in> set (t_checks db)" "?p r" "s \<in> set (t_checks db)" "ck_id s \<noteq> ck_id r" for r s
    using ck [OF that(1,2)] that(3,4) by (auto split: option.splits if_splits simp: list_ex_iff)
  have "r = s" if "r \<in> set (t_checks db')" "s \<in> set (t_checks db')" "same_check_name r s" for r s
    by (rule upd_pairwise [of "t_checks db" same_check_name ck_id ?p ?f])
       (use ok that new in \<open>auto simp: db' checks_ok_def same_check_name_def\<close>)
  moreover have "distinct (map ck_id (upd_where ?p ?f (t_checks db)))"
    by (rule distinct_upd) (use ok in \<open>auto simp: checks_ok_def\<close>)
  moreover have "ck_id ` set (upd_where ?p ?f (t_checks db)) = ck_id ` set (t_checks db)"
    "ck_asset_id ` set (upd_where ?p ?f (t_checks db)) = ck_asset_id ` set (t_checks db)"
    by (rule upd_same; simp)+
  moreover have "check_row_check r = None" if "r \<in> set (upd_where ?p ?f (t_checks db))" for r
    using that ok row by (auto simp: set_upd_where checks_ok_def)
  ultimately show "check_inv db db'" using ok by (simp add: check_inv_def checks_ok_def db')
qed

lemma check_step_ok: "checks_ok db \<Longrightarrow> check_inv db (check_step (c, op) db)"
  by (cases op) (simp_all add: create_asset_check_ok update_asset_check_ok delete_asset_check_ok
      create_check_result_ok create_check_results_ok)

end
