(* ===== verification/Database.thy ===== *)
theory Database
  imports ExecutionLife BackfillClaims CheckStore
begin

text \<open>
  The whole metadata database: all writing operations of \<open>servo-storage/src/postgres.rs\<close> on its nine
  tables, interleaved in any order, keep the keys, the checks and the references of the schema; in
  particular the deletes with their cascades leave no dangling reference.
\<close>

section \<open>The invariant\<close>

definition dependency_key :: "dependency_row \<Rightarrow> uuid \<times> uuid \<times> string" where
  "dependency_key d = (dr_upstream_asset_id d, dr_downstream_asset_id d, dr_dependency_type d)"

definition metas_ok :: "db \<Rightarrow> bool" where
  "metas_ok db \<longleftrightarrow>
     distinct (map ar_id (t_assets db)) \<and>
     (\<forall>a\<in>set (t_assets db). \<forall>b\<in>set (t_assets db). same_asset_name a b \<longrightarrow> a = b) \<and>
     distinct (map wr_id (t_workflows db)) \<and>
     (\<forall>v\<in>set (t_workflows db). \<forall>w\<in>set (t_workflows db). same_workflow_name v w \<longrightarrow> v = w) \<and>
     distinct (map dr_id (t_dependencies db)) \<and>
     distinct (map dependency_key (t_dependencies db)) \<and>
     (\<forall>a\<in>set (t_assets db). asset_check_row a = None) \<and>
     (\<forall>w\<in>set (t_workflows db). workflow_check_row w = None) \<and>
     (\<forall>d\<in>set (t_dependencies db). dr_dependency_type d \<in> {''data'', ''metadata'', ''control''})"

text \<open>The places of assets in workflows (migration 005): two unique keys and two references.\<close>

definition members_ok :: "db \<Rightarrow> bool" where
  "members_ok db \<longleftrightarrow>
     distinct (map (\<lambda>m. (wa_workflow_id m, wa_asset_id m)) (t_workflow_assets db)) \<and>
     distinct (map (\<lambda>m. (wa_workflow_id m, wa_position m)) (t_workflow_assets db)) \<and>
     wa_workflow_id ` set (t_workflow_assets db) \<subseteq> wr_id ` set (t_workflows db) \<and>
     wa_asset_id ` set (t_workflow_assets db) \<subseteq> ar_id ` set (t_assets db)"

text \<open>A nullable foreign key: \<open>f\<close> of every row of \<open>S\<close> is null or in \<open>T\<close>.\<close>

definition refer :: "('r \<Rightarrow> uuid option) \<Rightarrow> 'r set \<Rightarrow> uuid set \<Rightarrow> bool" where
  "refer f S T \<longleftrightarrow> (\<forall>r\<in>S. \<forall>x. f r = Some x \<longrightarrow> x \<in> T)"

lemma refer_image: "f ` S = f ` S' \<Longrightarrow> refer f S T = refer f S' T"
  unfolding refer_def by (metis (no_types, lifting) imageE imageI)

definition refs_ok :: "db \<Rightarrow> bool" where
  "refs_ok db \<longleftrightarrow>
     j_asset_id ` set (t_jobs db) \<subseteq> ar_id ` set (t_assets db) \<and>
     refer j_parent_job_id (set (t_jobs db)) (j_id ` set (t_jobs db)) \<and>
     refer bp_execution_id (set (t_parts db)) (x_id ` set (t_executions db)) \<and>
     x_workflow_id ` set (t_executions db) \<subseteq> wr_id ` set (t_workflows db) \<and>
     (\<forall>d\<in>set (t_dependencies db). dr_upstream_asset_id d \<in> ar_id ` set (t_assets db) \<and>
        dr_downstream_asset_id d \<in> ar_id ` set (t_assets db) \<and>
        dr_upstream_asset_id d \<noteq> dr_downstream_asset_id d)"

definition db_ok :: "db \<Rightarrow> bool" where
  "db_ok db \<longleftrightarrow> backfill_ok db \<and> executions_ok db \<and> metas_ok db \<and> members_ok db \<and>
     refs_ok db \<and> checks_ok db"

lemma db_okD: "db_ok db \<Longrightarrow> backfill_ok db" "db_ok db \<Longrightarrow> executions_ok db"
  "db_ok db \<Longrightarrow> metas_ok db" "db_ok db \<Longrightarrow> refs_ok db" "db_ok db \<Longrightarrow> checks_ok db"
  "db_ok db \<Longrightarrow> members_ok db"
  by (simp_all add: db_ok_def)

text \<open>The parts of the invariant depend only on the tables they speak of.\<close>

lemma executions_ok_cong [simp]:
  "executions_ok (db\<lparr>t_assets := A\<rparr>) = executions_ok db"
  "executions_ok (db\<lparr>t_workflows := W\<rparr>) = executions_ok db"
  "executions_ok (db\<lparr>t_dependencies := D\<rparr>) = executions_ok db"
  "executions_ok (db\<lparr>t_jobs := J\<rparr>) = executions_ok db"
  "executions_ok (db\<lparr>t_parts := P\<rparr>) = executions_ok db"
  by (simp_all add: executions_ok_def)

lemma backfill_ok_cong [simp]:
  "backfill_ok (db\<lparr>t_assets := A\<rparr>) = backfill_ok db"
  "backfill_ok (db\<lparr>t_workflows := W\<rparr>) = backfill_ok db"
  "backfill_ok (db\<lparr>t_dependencies := D\<rparr>) = backfill_ok db"
  "backfill_ok (db\<lparr>t_executions := X\<rparr>) = backfill_ok db"
  by (simp_all add: backfill_ok_def)

lemma metas_ok_cong [simp]:
  "metas_ok (db\<lparr>t_executions := X\<rparr>) = metas_ok db"
  "metas_ok (db\<lparr>t_jobs := J\<rparr>) = metas_ok db"
  "metas_ok (db\<lparr>t_parts := P\<rparr>) = metas_ok db"
  by (simp_all add: metas_ok_def)

lemma members_ok_cong [simp]:
  "members_ok (db\<lparr>t_executions := X\<rparr>) = members_ok db"
  "members_ok (db\<lparr>t_jobs := J\<rparr>) = members_ok db"
  "members_ok (db\<lparr>t_parts := P\<rparr>) = members_ok db"
  "members_ok (db\<lparr>t_dependencies := D\<rparr>) = members_ok db"
  by (simp_all add: members_ok_def)

text \<open>More assets and more workflows do no harm to the places in workflows.\<close>

lemma members_ok_more:
  "members_ok db \<Longrightarrow> ar_id ` set (t_assets db) \<subseteq> ar_id ` set A \<Longrightarrow> members_ok (db\<lparr>t_assets := A\<rparr>)"
  "members_ok db \<Longrightarrow> wr_id ` set (t_workflows db) \<subseteq> wr_id ` set W \<Longrightarrow> members_ok (db\<lparr>t_workflows := W\<rparr>)"
  unfolding members_ok_def by (simp, blast intro: order_trans)+

lemma members_ok_add [simp]:
  "members_ok db \<Longrightarrow> members_ok (db\<lparr>t_assets := t_assets db @ A\<rparr>)"
  "members_ok db \<Longrightarrow> members_ok (db\<lparr>t_workflows := t_workflows db @ W\<rparr>)"
  by (rule members_ok_more, assumption, simp add: image_Un)+

text \<open>More assets and more executions do no harm to the checks.\<close>

lemma checks_ok_mono:
  assumes ok: "checks_ok db" and same: "t_checks db' = t_checks db" "t_check_results db' = t_check_results db"
    and more: "ar_id ` set (t_assets db) \<subseteq> ar_id ` set (t_assets db')"
      "x_id ` set (t_executions db) \<subseteq> x_id ` set (t_executions db')"
  shows "checks_ok db'"
proof -
  note refs = ok [unfolded checks_ok_def, THEN conjunct2, THEN conjunct2, THEN conjunct2]
  have "ck_asset_id ` set (t_checks db) \<subseteq> ar_id ` set (t_assets db')"
    by (rule order_trans [OF refs [THEN conjunct1] more(1)])
  moreover have "cr_execution_id ` set (t_check_results db) \<subseteq> x_id ` set (t_executions db')"
    by (rule order_trans [OF _ more(2)]) (use refs in simp)
  moreover have "cr_asset_id ` set (t_check_results db) \<subseteq> ar_id ` set (t_assets db')"
    by (rule order_trans [OF _ more(1)]) (use refs in simp)
  ultimately show ?thesis using ok unfolding checks_ok_def same by simp
qed

lemma checks_ok_more:
  "checks_ok db \<Longrightarrow> ar_id ` set (t_assets db) \<subseteq> ar_id ` set A \<Longrightarrow> checks_ok (db\<lparr>t_assets := A\<rparr>)"
  "checks_ok db \<Longrightarrow> x_id ` set (t_executions db) \<subseteq> x_id ` set X \<Longrightarrow> checks_ok (db\<lparr>t_executions := X\<rparr>)"
  by (erule checks_ok_mono; simp)+

lemma checks_ok_add [simp]:
  "checks_ok db \<Longrightarrow> checks_ok (db\<lparr>t_assets := t_assets db @ A\<rparr>)"
  "checks_ok db \<Longrightarrow> checks_ok (db\<lparr>t_executions := t_executions db @ X\<rparr>)"
  by (rule checks_ok_more, assumption, simp add: image_Un)+

lemma checks_ok_cong [simp]:
  "checks_ok (db\<lparr>t_workflows := W\<rparr>) = checks_ok db" "checks_ok (db\<lparr>t_dependencies := D\<rparr>) = checks_ok db"
  "checks_ok (db\<lparr>t_jobs := J\<rparr>) = checks_ok db" "checks_ok (db\<lparr>t_parts := P\<rparr>) = checks_ok db"
  "checks_ok (db\<lparr>t_workflow_assets := WA\<rparr>) = checks_ok db"
  by (simp_all add: checks_ok_def)

lemma only_checks_ok: "only_checks db db' \<Longrightarrow> checks_ok db' \<Longrightarrow> db_ok db \<Longrightarrow> db_ok db'"
  by (simp add: db_ok_def only_checks_def backfill_ok_def executions_ok_def metas_ok_def
      members_ok_def refs_ok_def)

section \<open>Statements on the backfill tables\<close>

lemma same_job_refs: "same_job j (f j) \<Longrightarrow> j_asset_id (f j) = j_asset_id j \<and>
    j_parent_job_id (f j) = j_parent_job_id j \<and> j_id (f j) = j_id j"
  by (simp add: same_job_def)

lemma stmts_tables:
  "stmts c JC PC N db db' \<Longrightarrow> t_assets db' = t_assets db \<and> t_workflows db' = t_workflows db \<and>
     t_executions db' = t_executions db \<and> t_dependencies db' = t_dependencies db \<and>
     t_checks db' = t_checks db \<and> t_check_results db' = t_check_results db \<and>
     t_workflow_assets db' = t_workflow_assets db"
  by (induction rule: stmts.induct)
     (auto simp: update_jobs_Inr update_parts_Inr insert_job_Inr insert_part_Inr)

lemma part_execution_fk_None: "part_execution_fk db p = None \<longleftrightarrow>
    (\<forall>x. bp_execution_id p = Some x \<longrightarrow> x \<in> x_id ` set (t_executions db))"
  by (auto simp: part_execution_fk_def execution_exists_def list_ex_iff split: option.splits)

lemma part_fk_None: "part_fk db p = None \<Longrightarrow> part_execution_fk db p = None"
  by (simp add: part_fk_def split: if_splits)

lemma job_fk_None: "job_fk db j = None \<longleftrightarrow> j_asset_id j \<in> ar_id ` set (t_assets db) \<and>
    (\<forall>p. j_parent_job_id j = Some p \<longrightarrow> p \<in> insert (j_id j) (j_id ` set (t_jobs db)))"
  by (auto simp: job_fk_def violated_None list_ex_iff split: option.splits intro: rev_image_eqI)

lemma stmts_refs: "stmts c JC PC N db db' \<Longrightarrow> refs_ok db \<Longrightarrow> refs_ok db'"
proof (induction rule: stmts.induct)
  case (stmts_job db db1 p f n db2)
  let ?p = "\<lambda>j. j_tenant_id j = tenant c \<and> p j"
  have same: "j_asset_id (f j) = j_asset_id j \<and> j_parent_job_id (f j) = j_parent_job_id j \<and> j_id (f j) = j_id j"
    if "j \<in> set (t_jobs db1)" "?p j" for j
    by (rule same_job_refs) (use stmts_job.hyps(3) that in blast)
  have db2: "db2 = db1\<lparr>t_jobs := upd_where ?p f (t_jobs db1)\<rparr>"
    using stmts_job.hyps(2) by (simp add: update_jobs_Inr)
  have "j_asset_id ` set (upd_where ?p f (t_jobs db1)) = j_asset_id ` set (t_jobs db1)"
    "j_id ` set (upd_where ?p f (t_jobs db1)) = j_id ` set (t_jobs db1)"
    "j_parent_job_id ` set (upd_where ?p f (t_jobs db1)) = j_parent_job_id ` set (t_jobs db1)"
    using same by (intro upd_same; blast)+
  with stmts_job.IH [OF stmts_job.prems] refer_image [OF this(3)] show ?case
    by (simp add: db2 refs_ok_def)
next
  case (stmts_part db db1 q g n db2)
  then show ?case
    by (auto simp: update_parts_Inr refs_ok_def set_upd_where refer_def part_execution_fk_None split: if_splits)
next
  case (stmts_new_job db db1 j u db2)
  then show ?case
    by (auto simp: insert_job_Inr refs_ok_def refer_def job_fk_None)
next
  case (stmts_new_part db db1 p u db2)
  then show ?case
    using part_fk_None [of db1 p]
    by (auto simp: insert_part_Inr refs_ok_def refer_def part_execution_fk_None)
qed auto


lemma backfill_db_ok:
  assumes "db_ok db"
  shows "db_ok (backfill_step (c, op) db)"
proof -
  have st: "stmts c (\<lambda>_ _. True) (\<lambda>_ _. True) (\<lambda>_. True) db (backfill_step (c, op) db)"
    by (rule step_stmts [OF db_okD(1) [OF assms]])
  have "metas_ok (backfill_step (c, op) db) = metas_ok db"
    "executions_ok (backfill_step (c, op) db) = executions_ok db"
    "checks_ok (backfill_step (c, op) db) = checks_ok db"
    "members_ok (backfill_step (c, op) db) = members_ok db"
    using stmts_tables [OF st] by (simp_all add: metas_ok_def executions_ok_def checks_ok_def members_ok_def)
  with stmts_refs [OF st] stmts_ok [OF st] assms show ?thesis by (simp add: db_ok_def)
qed

section \<open>Deletes and their cascades\<close>

text \<open>A set of jobs that contains the child jobs of its members.\<close>

definition closed_jobs :: "job list \<Rightarrow> uuid list \<Rightarrow> bool" where
  "closed_jobs js dead \<longleftrightarrow> (\<forall>j\<in>set js. \<forall>p. j_parent_job_id j = Some p \<longrightarrow> p \<in> set dead \<longrightarrow> j_id j \<in> set dead)"

definition orphans :: "job list \<Rightarrow> uuid list \<Rightarrow> uuid list" where
  "orphans js dead = map j_id (filter (\<lambda>j. j_id j \<notin> set dead \<and>
     (case j_parent_job_id j of None \<Rightarrow> False | Some p \<Rightarrow> p \<in> set dead)) js)"

lemma dead_jobs_Suc: "dead_jobs (Suc n) js dead = dead_jobs n js (dead @ orphans js dead)"
  by (simp add: orphans_def)

lemma orphans_closed: "closed_jobs js dead \<longleftrightarrow> orphans js dead = []"
  by (auto simp: closed_jobs_def orphans_def filter_empty_conv split: option.splits)

lemma dead_jobs_closed_stays: "closed_jobs js dead \<Longrightarrow> dead_jobs n js dead = dead"
  by (induction n) (simp_all add: dead_jobs_Suc orphans_closed del: dead_jobs.simps(2))

lemma dead_jobs_grows: "set dead \<subseteq> set (dead_jobs n js dead)"
proof (induction n arbitrary: dead)
  case (Suc n)
  from Suc.IH [of "dead @ orphans js dead"] show ?case by (simp add: orphans_def)
qed simp

lemma dead_jobs_closed: "card (j_id ` set js - set dead) \<le> n \<Longrightarrow> closed_jobs js (dead_jobs n js dead)"
proof (induction n arbitrary: dead)
  case 0
  then have "j_id ` set js \<subseteq> set dead" by simp
  then show ?case by (auto simp: closed_jobs_def)
next
  case (Suc n)
  show ?case
  proof (cases "closed_jobs js dead")
    case True
    then show ?thesis by (simp add: dead_jobs_closed_stays del: dead_jobs.simps)
  next
    case False
    then have "orphans js dead \<noteq> []" by (simp add: orphans_closed)
    then have "hd (orphans js dead) \<in> set (orphans js dead)" by simp
    then have "j_id ` set js - set (dead @ orphans js dead) \<subset> j_id ` set js - set dead"
      by (auto simp: orphans_def)
    from psubset_card_mono [OF _ this] Suc.prems
    have "card (j_id ` set js - set (dead @ orphans js dead)) \<le> n" by simp
    from Suc.IH [OF this] show ?thesis by (simp add: dead_jobs_Suc del: dead_jobs.simps)
  qed
qed

lemma dead_jobs_ok: "closed_jobs js (dead_jobs (length js) js dead)"
proof (rule dead_jobs_closed)
  have "card (j_id ` set js - set dead) \<le> card (j_id ` set js)" by (intro card_mono) auto
  also have "\<dots> \<le> length js" by (metis card_length length_map list.set_map)
  finally show "card (j_id ` set js - set dead) \<le> length js" .
qed

lemma backfill_ok_delete: "backfill_ok db \<Longrightarrow> backfill_ok (db\<lparr>t_jobs := filter (\<lambda>j. j_id j \<notin> D) (t_jobs db),
    t_parts := filter (\<lambda>q. bp_job_id q \<notin> D) (t_parts db)\<rparr>)"
  by (auto simp: backfill_ok_def jobs_ok_def parts_ok_def distinct_map_filter')

lemma delete_jobs_tables [simp]:
  "t_assets (delete_jobs p db) = t_assets db" "t_workflows (delete_jobs p db) = t_workflows db"
  "t_executions (delete_jobs p db) = t_executions db" "t_dependencies (delete_jobs p db) = t_dependencies db"
  by (simp_all add: delete_jobs_def Let_def)

lemma delete_jobs_ok: "backfill_ok db \<Longrightarrow> backfill_ok (delete_jobs p db)"
  unfolding delete_jobs_def Let_def by (rule backfill_ok_delete)

lemma delete_jobs_rows:
  assumes "refer j_parent_job_id (set (t_jobs db)) (j_id ` set (t_jobs db))"
  shows "refer j_parent_job_id (set (t_jobs (delete_jobs p db))) (j_id ` set (t_jobs (delete_jobs p db)))"
    and "j \<in> set (t_jobs (delete_jobs p db)) \<Longrightarrow> j \<in> set (t_jobs db) \<and> \<not> p j"
    and "set (t_parts (delete_jobs p db)) \<subseteq> set (t_parts db)"
proof -
  let ?start = "map j_id (filter p (t_jobs db))"
  let ?d = "dead_jobs (length (t_jobs db)) (t_jobs db) ?start"
  have J: "t_jobs (delete_jobs p db) = filter (\<lambda>j. j_id j \<notin> set ?d) (t_jobs db)"
    by (simp add: delete_jobs_def Let_def)
  show "refer j_parent_job_id (set (t_jobs (delete_jobs p db))) (j_id ` set (t_jobs (delete_jobs p db)))"
    unfolding refer_def
  proof (intro ballI allI impI)
    fix k x
    assume k: "k \<in> set (t_jobs (delete_jobs p db))" "j_parent_job_id k = Some x"
    have "x \<in> j_id ` set (t_jobs db)" using assms k by (auto simp: refer_def J)
    moreover have "closed_jobs (t_jobs db) ?d" by (rule dead_jobs_ok)
    then have "x \<notin> set ?d" using k unfolding closed_jobs_def by (auto simp: J)
    ultimately show "x \<in> j_id ` set (t_jobs (delete_jobs p db))" by (auto simp: J)
  qed
  show "j \<in> set (t_jobs db) \<and> \<not> p j" if "j \<in> set (t_jobs (delete_jobs p db))"
    using that dead_jobs_grows [of ?start "length (t_jobs db)" "t_jobs db"] unfolding J by auto
  show "set (t_parts (delete_jobs p db)) \<subseteq> set (t_parts db)" by (auto simp: delete_jobs_def Let_def)
qed

text \<open>\<open>ON DELETE SET NULL\<close>.\<close>

lemma delete_executions_tables [simp]:
  "t_assets (delete_executions p db) = t_assets db" "t_workflows (delete_executions p db) = t_workflows db"
  "t_jobs (delete_executions p db) = t_jobs db" "t_dependencies (delete_executions p db) = t_dependencies db"
  "t_executions (delete_executions p db) = filter (\<lambda>x. \<not> p x) (t_executions db)"
  by (simp_all add: delete_executions_def Let_def)

definition unlink :: "uuid set \<Rightarrow> part \<Rightarrow> part" where
  "unlink D q = (case bp_execution_id q of
     Some x \<Rightarrow> if x \<in> D then q\<lparr>bp_execution_id := None\<rparr> else q | None \<Rightarrow> q)"

lemma delete_executions_parts:
  "t_parts (delete_executions p db) = map (unlink (set (map x_id (filter p (t_executions db))))) (t_parts db)"
  by (simp add: delete_executions_def Let_def unlink_def cong: option.case_cong)

lemma unlink_same [simp]:
  "bp_id (unlink D q) = bp_id q" "bp_job_id (unlink D q) = bp_job_id q" "bp_key (unlink D q) = bp_key q"
  "part_check (unlink D q) = part_check q"
  by (simp_all add: unlink_def part_check_def split: option.split)

lemma unlink_execution: "bp_execution_id (unlink D q) = Some x \<longleftrightarrow> bp_execution_id q = Some x \<and> x \<notin> D"
  by (auto simp: unlink_def split: option.splits if_splits)

lemma delete_executions_ok:
  "backfill_ok db \<Longrightarrow> backfill_ok (delete_executions p db)"
  "executions_ok db \<Longrightarrow> executions_ok (delete_executions p db)"
proof -
  show "backfill_ok (delete_executions p db)" if "backfill_ok db"
    using that unfolding backfill_ok_def parts_ok_def delete_executions_parts delete_executions_tables map_map o_def
      unlink_same by (simp add: image_image)
  show "executions_ok (delete_executions p db)" if "executions_ok db"
    using that by (simp add: executions_ok_def distinct_map_filter')
qed

lemma delete_executions_checks:
  assumes ok: "checks_ok db"
  shows "checks_ok (delete_executions p db)"
proof -
  have "cr_execution_id r \<in> x_id ` set (filter (\<lambda>x. \<not> p x) (t_executions db))"
    if r: "r \<in> set (t_check_results db)" "cr_execution_id r \<notin> x_id ` set (filter p (t_executions db))" for r
  proof -
    have "cr_execution_id r \<in> x_id ` set (t_executions db)" using ok r(1) by (auto simp: checks_ok_def)
    then obtain x where "x \<in> set (t_executions db)" "x_id x = cr_execution_id r" by auto
    with r(2) show ?thesis by force
  qed
  then have "cr_execution_id ` set (t_check_results (delete_executions p db)) \<subseteq> x_id ` set (t_executions (delete_executions p db))"
    by (auto simp: delete_executions_def Let_def)
  moreover have "set (t_check_results (delete_executions p db)) \<subseteq> set (t_check_results db)"
    "distinct (map cr_id (t_check_results (delete_executions p db)))" "t_checks (delete_executions p db) = t_checks db"
    using ok by (auto simp: delete_executions_def Let_def checks_ok_def distinct_map_filter')
  ultimately show ?thesis using ok unfolding checks_ok_def image_subset_iff
    by (simp add: subset_iff)
qed

lemma delete_executions_refs:
  assumes "executions_ok db" "refer bp_execution_id (set (t_parts db)) (x_id ` set (t_executions db))"
  shows "refer bp_execution_id (set (t_parts (delete_executions p db)))
           (x_id ` set (t_executions (delete_executions p db)))"
  using assms(2) unfolding delete_executions_parts
  by (fastforce simp: refer_def unlink_execution)

section \<open>The operations on assets, workflows, executions and dependencies\<close>

lemma name_sym: "same_asset_name a b = same_asset_name b a" "same_workflow_name v w = same_workflow_name w v"
  unfolding same_asset_name_def same_workflow_name_def by metis+

lemma create_asset_ok:
  assumes "db_ok db"
  shows "db_ok (snd (create_asset c a db))"
  unfolding create_asset_def
  by (intro checked_inv [where I = db_ok] call_inv [where I = db_ok] assms, subst (asm) stmt_insert_case)
     (use assms name_sym in \<open>auto simp: db_ok_def metas_ok_def refs_ok_def key_clash_None policy_def visible_def
        simp del: key_clash.simps\<close>)

lemma create_workflow_ok:
  assumes "db_ok db"
  shows "db_ok (snd (create_workflow c w db))"
  unfolding create_workflow_def
  by (intro checked_inv [where I = db_ok] call_inv [where I = db_ok] assms, subst (asm) stmt_insert_case)
     (use assms name_sym in \<open>auto simp: db_ok_def metas_ok_def refs_ok_def key_clash_None policy_def visible_def
        simp del: key_clash.simps\<close>)

lemma create_dependency_ok:
  assumes "db_ok db"
  shows "db_ok (snd (create_asset_dependency c i u d t db))"
  unfolding create_asset_dependency_def
  by (intro checked_inv [where I = db_ok] call_inv [where I = db_ok] assms, subst (asm) stmt_insert_case)
     (use assms in \<open>auto simp: db_ok_def metas_ok_def refs_ok_def dependency_key_def key_clash_None dependency_check_def dep_access_def
        my_assets_def list_ex_iff violated_None intro: rev_image_eqI simp del: key_clash.simps split: if_splits\<close>)

lemma delete_dependencies_ok:
  assumes "db_ok db"
  shows "db_ok (snd (delete_asset_dependencies_where c p db))"
  unfolding delete_asset_dependencies_where_def
  by (intro call_inv [where I = db_ok] assms)
     (use assms in \<open>auto simp: db_ok_def metas_ok_def refs_ok_def distinct_map_filter'\<close>)

lemma delete_dependency_ok: "db_ok db \<Longrightarrow> db_ok (snd (delete_asset_dependency c i db))"
  using delete_dependencies_ok [of db c "\<lambda>d. dr_id d = i"]
  by (auto simp: delete_asset_dependency_def split: prod.splits sum.splits if_splits)

lemma upd_where_all:
  assumes "r \<in> set (upd_where p f rs)" "\<And>r. r \<in> set rs \<Longrightarrow> p r \<Longrightarrow> P (f r)" "\<And>r. r \<in> set rs \<Longrightarrow> P r"
  shows "P r"
  using assms by (auto simp: set_upd_where)

lemma update_asset_ok:
  assumes "db_ok db"
  shows "db_ok (snd (update_asset c a db))"
  unfolding update_asset_def
proof (intro checked_inv [where I = db_ok] call_inv [where I = db_ok] assms)
  let ?f = "\<lambda>r. r\<lparr>ar_name := ar_name a, ar_description := ar_description a, ar_asset_type := ar_asset_type a,
    ar_owner := ar_owner a, ar_tags := ar_tags a, ar_partition_config := ar_partition_config a,
    ar_compute_fn_module := ar_compute_fn_module a, ar_compute_fn_function := ar_compute_fn_function a,
    ar_updated_at := ar_updated_at a\<rparr>"
  let ?p = "\<lambda>r. visible c (ar_tenant_id r) \<and> ar_id r = ar_id a"
  let ?ck = "\<lambda>db r. case asset_check_row r of Some e \<Rightarrow> Some e
    | None \<Rightarrow> key_clash [(''assets_name_tenant_id_key'', \<lambda>r s. ar_id r \<noteq> ar_id s \<and> same_asset_name r s)] r (t_assets db)"
  fix u db'
  assume "must_hit (\<lambda>db. case stmt_update ?p ?f (?ck db) (t_assets db) of Inl e \<Rightarrow> Inl e
     | Inr (n, rows) \<Rightarrow> Inr (n, db\<lparr>t_assets := rows\<rparr>)) (''Asset '' @ ar_id a) db = Inr (u, db')"
  then have ck: "\<And>r. r \<in> set (t_assets db) \<Longrightarrow> ?p r \<Longrightarrow> ?ck db (?f r) = None"
    and db': "db' = db\<lparr>t_assets := upd_where ?p ?f (t_assets db)\<rparr>"
    unfolding must_hit_Inr by (subst (asm) stmt_update_case, blast)+
  have row: "asset_check_row (?f r) = None" if "r \<in> set (t_assets db)" "?p r" for r
    using ck [OF that] by (simp split: option.splits)
  have new: "\<not> same_asset_name (?f r) s"
    if "r \<in> set (t_assets db)" "?p r" "s \<in> set (t_assets db)" "ar_id s \<noteq> ar_id r" for r s
    using ck [OF that(1,2)] that(3,4) by (auto split: option.splits if_splits simp: list_ex_iff)
  have "r = s" if "r \<in> set (t_assets db')" "s \<in> set (t_assets db')" "same_asset_name r s" for r s
    by (rule upd_pairwise [of "t_assets db" same_asset_name ar_id ?p ?f])
       (use assms that new in \<open>auto simp: db' db_ok_def metas_ok_def name_sym\<close>)
  moreover have "distinct (map ar_id (upd_where ?p ?f (t_assets db)))"
    by (rule distinct_upd) (use assms in \<open>auto simp: db_ok_def metas_ok_def\<close>)
  moreover have "ar_id ` set (upd_where ?p ?f (t_assets db)) = ar_id ` set (t_assets db)"
    by (rule upd_same) simp
  moreover have "asset_check_row r = None" if "r \<in> set (upd_where ?p ?f (t_assets db))" for r
    by (rule upd_where_all [where P = "\<lambda>r. asset_check_row r = None", OF that row]) (use assms in \<open>simp_all add: db_ok_def metas_ok_def\<close>)
  ultimately show "db_ok db'"
    using assms by (simp add: db_ok_def metas_ok_def refs_ok_def checks_ok_more members_ok_more db')
qed

lemma update_workflow_ok:
  assumes "db_ok db"
  shows "db_ok (snd (update_workflow c w db))"
  unfolding update_workflow_def
proof (intro checked_inv [where I = db_ok] call_inv [where I = db_ok] assms)
  let ?f = "\<lambda>r. r\<lparr>wr_name := wr_name w, wr_description := wr_description w, wr_owner := wr_owner w,
    wr_tags := wr_tags w, wr_version := wr_version w, wr_schedule_cron := wr_schedule_cron w,
    wr_schedule_timezone := wr_schedule_timezone w, wr_schedule_enabled := wr_schedule_enabled w,
    wr_scheduler_job_name := wr_scheduler_job_name w, wr_last_scheduled_run := wr_last_scheduled_run w,
    wr_next_scheduled_run := wr_next_scheduled_run w, wr_updated_at := wr_updated_at w\<rparr>"
  let ?p = "\<lambda>r. visible c (wr_tenant_id r) \<and> wr_id r = wr_id w"
  let ?ck = "\<lambda>db r. case workflow_check_row r of Some e \<Rightarrow> Some e
    | None \<Rightarrow> key_clash [(''workflows_name_tenant_id_version_key'',
        \<lambda>r s. wr_id r \<noteq> wr_id s \<and> same_workflow_name r s)] r (t_workflows db)"
  fix u db'
  assume "must_hit (\<lambda>db. case stmt_update ?p ?f (?ck db) (t_workflows db) of Inl e \<Rightarrow> Inl e
     | Inr (n, rows) \<Rightarrow> Inr (n, db\<lparr>t_workflows := rows\<rparr>)) (''Workflow '' @ wr_id w) db = Inr (u, db')"
  then have ck: "\<And>r. r \<in> set (t_workflows db) \<Longrightarrow> ?p r \<Longrightarrow> ?ck db (?f r) = None"
    and db': "db' = db\<lparr>t_workflows := upd_where ?p ?f (t_workflows db)\<rparr>"
    unfolding must_hit_Inr by (subst (asm) stmt_update_case, blast)+
  have row: "workflow_check_row (?f r) = None" if "r \<in> set (t_workflows db)" "?p r" for r
    using ck [OF that] by (simp split: option.splits)
  have new: "\<not> same_workflow_name (?f r) s"
    if "r \<in> set (t_workflows db)" "?p r" "s \<in> set (t_workflows db)" "wr_id s \<noteq> wr_id r" for r s
    using ck [OF that(1,2)] that(3,4) by (auto split: option.splits if_splits simp: list_ex_iff)
  have "r = s" if "r \<in> set (t_workflows db')" "s \<in> set (t_workflows db')" "same_workflow_name r s" for r s
    by (rule upd_pairwise [of "t_workflows db" same_workflow_name wr_id ?p ?f])
       (use assms that new in \<open>auto simp: db' db_ok_def metas_ok_def name_sym\<close>)
  moreover have "distinct (map wr_id (upd_where ?p ?f (t_workflows db)))"
    by (rule distinct_upd) (use assms in \<open>auto simp: db_ok_def metas_ok_def\<close>)
  moreover have "wr_id ` set (upd_where ?p ?f (t_workflows db)) = wr_id ` set (t_workflows db)"
    by (rule upd_same) simp
  moreover have "workflow_check_row r = None" if "r \<in> set (upd_where ?p ?f (t_workflows db))" for r
    by (rule upd_where_all [where P = "\<lambda>r. workflow_check_row r = None", OF that row]) (use assms in \<open>simp_all add: db_ok_def metas_ok_def\<close>)
  ultimately show "db_ok db'"
    using assms by (simp add: db_ok_def metas_ok_def refs_ok_def members_ok_more db')
qed

lemma drop_asset_rows_tables [simp]:
  "t_assets (drop_asset_rows i db) = t_assets db" "t_workflows (drop_asset_rows i db) = t_workflows db"
  "t_executions (drop_asset_rows i db) = t_executions db" "t_dependencies (drop_asset_rows i db) = t_dependencies db"
  "t_jobs (drop_asset_rows i db) = t_jobs db" "t_parts (drop_asset_rows i db) = t_parts db"
  by (simp_all add: drop_asset_rows_def Let_def)

lemma delete_jobs_checks [simp]: "checks_ok (delete_jobs p db) = checks_ok db"
  by (simp add: delete_jobs_def Let_def checks_ok_def)

lemma drop_asset_checks:
  assumes ok: "checks_ok db" and same: "t_checks db' = t_checks db" "t_check_results db' = t_check_results db"
      "t_executions db' = t_executions db"
    and kept: "\<And>x. x \<in> ar_id ` set (t_assets db) \<Longrightarrow> x \<noteq> i \<Longrightarrow> x \<in> ar_id ` set (t_assets db')"
  shows "checks_ok (drop_asset_rows i db')"
proof -
  have ck: "ck_asset_id k \<in> ar_id ` set (t_assets db')" if "k \<in> set (t_checks db)" "ck_asset_id k \<noteq> i" for k
    using ok that by (intro kept) (auto simp: checks_ok_def)
  have cr: "cr_asset_id r \<in> ar_id ` set (t_assets db')" if "r \<in> set (t_check_results db)" "cr_asset_id r \<noteq> i" for r
    using ok that by (intro kept) (auto simp: checks_ok_def)
  have "cr_check_id r \<in> ck_id ` {k \<in> set (t_checks db). ck_asset_id k \<noteq> i}"
    if r: "r \<in> set (t_check_results db)" "cr_check_id r \<notin> ck_id ` {k \<in> set (t_checks db). ck_asset_id k = i}" for r
  proof -
    have "cr_check_id r \<in> ck_id ` set (t_checks db)" using ok r(1) by (auto simp: checks_ok_def)
    with r(2) show ?thesis by force
  qed
  with ok ck cr show ?thesis
    by (simp add: checks_ok_def drop_asset_rows_def Let_def same distinct_map_filter' image_subset_iff)
qed

lemma delete_asset_ok:
  assumes ok: "db_ok db"
  shows "db_ok (snd (delete_asset c i db))"
  unfolding delete_asset_def
proof (rule call_inv [where I = db_ok, OF ok])
  let ?db = "db\<lparr>t_assets := filter (\<lambda>a. \<not> (visible c (ar_tenant_id a) \<and> ar_id a = i)) (t_assets db),
    t_dependencies := filter (\<lambda>d. dr_upstream_asset_id d \<noteq> i \<and> dr_downstream_asset_id d \<noteq> i) (t_dependencies db)\<rparr>"
  fix u db'
  assume "(if hits (\<lambda>a. ar_id a = i) (my_assets c db) = 0 then Inl (NotFound (''Asset '' @ i))
      else Inr ((), delete_jobs (\<lambda>j. j_asset_id j = i) (drop_asset_rows i ?db))) = Inr (u, db')"
  then have db': "db' = delete_jobs (\<lambda>j. j_asset_id j = i) (drop_asset_rows i ?db)" by (simp split: if_splits)
  have refs: "refs_ok db" and metas: "metas_ok db" using ok by (simp_all add: db_ok_def)
  then have fk: "refer j_parent_job_id (set (t_jobs (drop_asset_rows i ?db))) (j_id ` set (t_jobs (drop_asset_rows i ?db)))"
    by (simp add: refs_ok_def)
  have "backfill_ok db'" unfolding db' by (rule delete_jobs_ok) (use ok in \<open>simp add: db_ok_def backfill_ok_def\<close>)
  moreover have "executions_ok db'" using ok by (simp add: db' db_ok_def executions_ok_def)
  moreover have "metas_ok db'" using metas by (auto simp: db' metas_ok_def distinct_map_filter')
  moreover have "refs_ok db'"
  proof -
    note rows = delete_jobs_rows [OF fk, where p = "\<lambda>j. j_asset_id j = i"]
    have "j_asset_id ` set (t_jobs db') \<subseteq> ar_id ` set (t_assets db')"
    proof
      fix x assume "x \<in> j_asset_id ` set (t_jobs db')"
      then obtain j where "x = j_asset_id j" "j \<in> set (t_jobs db)" "j_asset_id j \<noteq> i"
        using rows(2) by (auto simp: db')
      with refs show "x \<in> ar_id ` set (t_assets db')" by (auto simp: refs_ok_def db')
    qed
    moreover have "refer bp_execution_id (set (t_parts db')) (x_id ` set (t_executions db'))"
      using refs rows(3) by (auto simp: refs_ok_def refer_def db')
    moreover have "\<forall>d\<in>set (t_dependencies db'). dr_upstream_asset_id d \<in> ar_id ` set (t_assets db') \<and>
        dr_downstream_asset_id d \<in> ar_id ` set (t_assets db') \<and>
        dr_upstream_asset_id d \<noteq> dr_downstream_asset_id d"
      using refs by (auto simp: refs_ok_def db')
    ultimately show ?thesis using refs rows(1) by (simp add: refs_ok_def db')
  qed
  moreover have "checks_ok db'"
    unfolding db' delete_jobs_checks by (rule drop_asset_checks [OF db_okD(5) [OF ok]]) auto
  moreover have "members_ok db'"
    using db_okD(6) [OF ok]
    by (auto simp: db' members_ok_def delete_jobs_def drop_asset_rows_def Let_def distinct_map_filter')
  ultimately show "db_ok db'" by (simp add: db_ok_def)
qed

lemma deleted_executions_ok:
  assumes "db_ok db" "db' = delete_executions p (db\<lparr>t_workflows := W, t_workflow_assets := WA\<rparr>)"
    and "metas_ok (db\<lparr>t_workflows := W\<rparr>)" "members_ok (db\<lparr>t_workflows := W, t_workflow_assets := WA\<rparr>)"
    and "x_workflow_id ` set (filter (\<lambda>x. \<not> p x) (t_executions db)) \<subseteq> wr_id ` set W"
  shows "db_ok db'"
proof -
  let ?db = "db\<lparr>t_workflows := W, t_workflow_assets := WA\<rparr>"
  have "backfill_ok db'" "executions_ok db'" "checks_ok db'"
    unfolding assms(2)
    by (rule delete_executions_ok delete_executions_checks;
        use assms(1) in \<open>simp add: db_ok_def backfill_ok_def executions_ok_def\<close>)+
  moreover have "metas_ok db'" using assms(3) by (simp add: assms(2) metas_ok_def)
  moreover have "refs_ok db'"
    using delete_executions_refs [of ?db p] assms(1,5)
    by (simp add: refs_ok_def db_ok_def assms(2) executions_ok_def)
  moreover have "members_ok db'" using assms(4) by (simp add: assms(2) members_ok_def delete_executions_def Let_def)
  ultimately show ?thesis by (simp add: db_ok_def)
qed

lemma delete_workflow_ok:
  assumes ok: "db_ok db"
  shows "db_ok (snd (delete_workflow c i db))"
  unfolding delete_workflow_def
proof (rule call_inv [where I = db_ok, OF ok])
  let ?W = "filter (\<lambda>w. \<not> (visible c (wr_tenant_id w) \<and> wr_id w = i)) (t_workflows db)"
  let ?WA = "filter (\<lambda>w. wa_workflow_id w \<noteq> i) (t_workflow_assets db)"
  fix u db'
  assume "(if hits (\<lambda>w. wr_id w = i) (my_workflows c db) = 0 then Inl (NotFound (''Workflow '' @ i))
      else Inr ((), delete_executions (\<lambda>x. x_workflow_id x = i)
        (db\<lparr>t_workflows := ?W, t_workflow_assets := ?WA\<rparr>))) = Inr (u, db')"
  then have db': "db' = delete_executions (\<lambda>x. x_workflow_id x = i) (db\<lparr>t_workflows := ?W, t_workflow_assets := ?WA\<rparr>)"
    by (simp split: if_splits)
  show "db_ok db'"
  proof (rule deleted_executions_ok [OF ok db'])
    show "metas_ok (db\<lparr>t_workflows := ?W\<rparr>)"
      using ok by (auto simp: db_ok_def metas_ok_def distinct_map_filter')
    show "members_ok (db\<lparr>t_workflows := ?W, t_workflow_assets := ?WA\<rparr>)"
      using db_okD(6) [OF ok] by (auto simp: members_ok_def distinct_map_filter')
    show "x_workflow_id ` set (filter (\<lambda>x. x_workflow_id x \<noteq> i) (t_executions db)) \<subseteq> wr_id ` set ?W"
      using ok by (auto simp: db_ok_def refs_ok_def)
  qed
qed

lemma delete_execution_ok:
  assumes ok: "db_ok db"
  shows "db_ok (snd (delete_execution c i db))"
  unfolding delete_execution_def
proof (rule call_inv [where I = db_ok, OF ok])
  fix u db'
  assume "(if hits (\<lambda>x. x_id x = i) (my_executions c db) = 0 then Inl (NotFound (''Execution '' @ i))
      else Inr ((), delete_executions (\<lambda>x. visible c (x_tenant_id x) \<and> x_id x = i) db)) = Inr (u, db')"
  then have db': "db' = delete_executions (\<lambda>x. visible c (x_tenant_id x) \<and> x_id x = i)
      (db\<lparr>t_workflows := t_workflows db, t_workflow_assets := t_workflow_assets db\<rparr>)"
    by (simp split: if_splits)
  show "db_ok db'"
    by (rule deleted_executions_ok [OF ok db']) (use ok in \<open>auto simp: db_ok_def refs_ok_def metas_ok_def members_ok_def\<close>)
qed

lemma new_execution_ok:
  assumes ok: "db_ok db" and ins: "insert_execution c ks x db = Inr (u, db')"
    and keys: "\<forall>y\<in>set (t_executions db). x_id x \<noteq> x_id y \<and> \<not> same_execution_key x y"
  shows "db_ok db'"
proof -
  from ins have x: "execution_check_row x = None" "x_workflow_id x \<in> wr_id ` set (t_workflows db)"
    and db': "db' = db\<lparr>t_executions := t_executions db @ [x]\<rparr>"
    by (auto simp: insert_execution_Inr execution_fk_def violated_None list_ex_iff intro: rev_image_eqI
        simp del: violated.simps)
  have "executions_ok db'" unfolding db' by (rule insert_ok [OF db_okD(2) [OF ok] x(1) keys])
  moreover have "refs_ok db'" using ok x(2) by (auto simp: db' db_ok_def refs_ok_def refer_def)
  ultimately show ?thesis using ok by (simp add: db' db_ok_def)
qed

lemma create_execution_ok:
  assumes "db_ok db"
  shows "db_ok (snd (create_execution c x db))"
  unfolding create_execution_def
proof (intro checked_inv [where I = db_ok] call_inv [where I = db_ok] assms)
  fix u db'
  assume ins: "insert_execution c execution_keys (x\<lparr>x_tenant_id := Some (tenant c)\<rparr>) db = Inr (u, db')"
  show "db_ok db'"
    by (rule new_execution_ok [OF assms ins])
       (use ins in \<open>auto simp: insert_execution_Inr key_clash_None execution_keys_def execution_pkey_def
          simp del: key_clash.simps\<close>)
qed

lemma create_execution_once_ok:
  assumes "db_ok db"
  shows "db_ok (snd (create_execution_or_get_existing c x db))"
  unfolding create_execution_or_get_existing_def
proof (intro checked_inv [where I = db_ok] call_inv [where I = db_ok] assms)
  let ?r = "x\<lparr>x_tenant_id := Some (tenant c)\<rparr>"
  fix u db'
  assume "(let r = ?r in case policy c ''executions'' (x_tenant_id r) (execution_check_row r) of
      Some e \<Rightarrow> Inl (map_db_error e)
    | None \<Rightarrow> if list_ex (same_execution_key r) (t_executions db)
        then (case find (\<lambda>y. x_workflow_id y = x_workflow_id x \<and> x_idempotency_key y = x_idempotency_key x)
                (my_executions c db) of None \<Rightarrow> Inl row_not_found | Some y \<Rightarrow> Inr ((x_id y, False), db))
        else tx_bind (insert_execution c [execution_pkey] r) (\<lambda>_. tx_return (x_id x, True)) db) = Inr (u, db')"
  then consider "db' = db"
    | v where "insert_execution c [execution_pkey] ?r db = Inr (v, db')"
        "\<not> list_ex (same_execution_key ?r) (t_executions db)"
    by (auto simp: Let_def tx_bind_Inr split: option.splits if_splits)
  then show "db_ok db'"
  proof cases
    case 1
    with assms show ?thesis by simp
  next
    case 2
    show ?thesis
      by (rule new_execution_ok [OF assms 2(1)])
         (use 2 in \<open>auto simp: insert_execution_Inr key_clash_None execution_pkey_def list_ex_iff
            simp del: key_clash.simps\<close>)
  qed
qed

lemma update_execution_ok:
  assumes ok: "db_ok db"
  shows "db_ok (snd (update_execution c y db))"
proof (cases "update_execution c y db")
  case (Pair r db')
  show ?thesis
  proof (cases r)
    case (Inl e)
    with update_execution_Inl [OF Pair [unfolded Inl]] Pair ok show ?thesis by simp
  next
    case (Inr u)
    with Pair have upd: "update_execution c y db = (Inr (), db')" by simp
    from update_execution_hits [OF upd] obtain x where x: "x \<in> set (my_executions c db)" "x_id x = x_id y" ..
    from upd update_execution_Inr [OF db_okD(2) [OF ok] x]
    have check: "execution_check_row (put_execution y x) = None"
      and db': "db' = db\<lparr>t_executions := map (\<lambda>r. if r = x then put_execution y x else r) (t_executions db)\<rparr>"
      by simp_all
    have "map x_id (t_executions db') = map x_id (t_executions db)"
      "map x_workflow_id (t_executions db') = map x_workflow_id (t_executions db)"
      by (simp_all add: db' put_execution_def)
    then have "x_id ` set (t_executions db') = x_id ` set (t_executions db)"
      "x_workflow_id ` set (t_executions db') = x_workflow_id ` set (t_executions db)"
      by (metis list.set_map)+
    moreover have "executions_ok db'"
      unfolding db' by (rule put_ok [OF db_okD(2) [OF ok] _ check]) (use x(1) in \<open>simp add: in_my_executions\<close>)
    moreover have "checks_ok db'"
      using calculation(1) by (intro checks_ok_mono [OF db_okD(5) [OF ok]]) (simp_all add: db')
    moreover have "t_workflows db' = t_workflows db" "t_assets db' = t_assets db" "t_jobs db' = t_jobs db"
      "t_dependencies db' = t_dependencies db" "t_parts db' = t_parts db" "t_workflow_assets db' = t_workflow_assets db"
      by (simp_all add: db')
    ultimately show ?thesis
      using ok by (simp add: Pair db_ok_def refs_ok_def backfill_ok_def metas_ok_def members_ok_def)
  qed
qed

lemma meta_db_ok: "db_ok db \<Longrightarrow> db_ok (meta_step (c, op) db)"
  by (cases op)
     (simp_all add: create_asset_ok update_asset_ok delete_asset_ok create_workflow_ok update_workflow_ok
        delete_workflow_ok create_execution_ok create_execution_once_ok update_execution_ok delete_execution_ok
        create_dependency_ok delete_dependency_ok delete_asset_dependencies_for_asset_def delete_dependencies_ok)

section \<open>All writes, in any order\<close>

datatype db_op = Meta call meta_op | Backfill call backfill_op | Check call check_op

fun db_step :: "db \<Rightarrow> db_op \<Rightarrow> db" where
  "db_step db (Meta c op) = meta_step (c, op) db"
| "db_step db (Backfill c op) = backfill_step (c, op) db"
| "db_step db (Check c op) = check_step (c, op) db"

lemma check_db_ok: "db_ok db \<Longrightarrow> db_ok (check_step (c, op) db)"
  using check_step_ok [OF db_okD(5), of db c op] only_checks_ok [of db "check_step (c, op) db"]
  by (simp add: check_inv_def)

lemma db_step_ok: "db_ok db \<Longrightarrow> db_ok (db_step db op)"
  by (cases op) (simp_all add: meta_db_ok backfill_db_ok check_db_ok)

lemma empty_db_ok: "db_ok empty_db"
  by (simp add: db_ok_def backfill_ok_def jobs_ok_def parts_ok_def executions_ok_def metas_ok_def refs_ok_def
      members_ok_def refer_def checks_ok_def empty_db_def)

lemma steps_db_ok: "db_ok db \<Longrightarrow> db_ok (foldl db_step db ops)"
  by (induction ops arbitrary: db) (auto intro: db_step_ok)

lemma db_steps_ok: "db_ok (foldl db_step empty_db ops)"
  by (rule steps_db_ok [OF empty_db_ok])

text \<open>
  C2: the integrity of the metadata database. From the empty database, and from any database that
  satisfies the constraints, whatever sequence of writes is made to its nine tables, by any tenants
  and with any failures of the connection, all constraints of the migrations stay satisfied: the
  identifiers stay unique and so do the unique keys (names of assets, of workflow versions and of the
  checks of an asset, idempotency keys of executions and jobs, partition keys of a job, dependencies
  by their two assets and type, assets and positions in a workflow); every row passes
  the checks of its table (known states, severities, outcomes and dependency types, times in order,
  positive versions, the completed upstream jobs of a job between zero and their number); and no
  reference dangles: jobs, dependencies, checks, results and workflow places point to existing
  assets, child jobs to existing parents, partitions to existing jobs and executions, results to
  existing checks and executions, executions to existing workflows, also after deletes with their
  cascades through the tree of jobs. Lengths of texts and widths of the other numbers are not part of it.
\<close>

theorem database_integrity:
  "db_ok empty_db \<and> (db_ok db \<longrightarrow> db_ok (foldl db_step db ops))"
  using empty_db_ok steps_db_ok by blast

end
