(* ===== verification/Schedule.thy ===== *)
theory Schedule
  imports Database
begin

text \<open>
  Functions that make several storage calls. Each call is its own transaction, so other tasks may
  write between two of them: a \<open>tick\<close> is one storage call together with the writes that other tasks
  commit just before it, and a function runs against a schedule of ticks. A run that needs more
  calls than the schedule has is \<open>None\<close>, which also stands for a run that never ends.
\<close>

record tick =
  tk_call :: call
  tk_ops :: "db_op list"

type_synonym ('t, 's, 'a) action = "'t \<Rightarrow> 's \<Rightarrow> ('a \<times> 't \<times> 's) option"
type_synonym 'a run = "(tick list, db, 'a) action"

definition perform :: "(call \<Rightarrow> db \<Rightarrow> 'a \<times> db) \<Rightarrow> 'a run" where
  "perform f ts db =
     (case ts of
        [] \<Rightarrow> None
      | t # ts' \<Rightarrow> (case f (tk_call t) (foldl db_step db (tk_ops t)) of (r, db') \<Rightarrow> Some (r, ts', db')))"

definition run_return :: "'a \<Rightarrow> ('t, 's, 'a) action" where
  "run_return a ts db = Some (a, ts, db)"

definition run_bind :: "('t, 's, 'a) action \<Rightarrow> ('a \<Rightarrow> ('t, 's, 'b) action) \<Rightarrow> ('t, 's, 'b) action" where
  "run_bind f g ts db = Option.bind (f ts db) (\<lambda>(a, ts', db'). g a ts' db')"

text \<open>The \<open>?\<close> operator: an error ends the function.\<close>

definition run_ok ::
  "('t, 's, 'e + 'a) action \<Rightarrow> ('a \<Rightarrow> ('t, 's, 'e + 'b) action) \<Rightarrow> ('t, 's, 'e + 'b) action" where
  "run_ok f g = run_bind f (\<lambda>r. case r of Inl e \<Rightarrow> run_return (Inl e) | Inr a \<Rightarrow> g a)"

text \<open>\<open>map_err\<close>, and a panic.\<close>

definition run_map_error :: "('e \<Rightarrow> 'd) \<Rightarrow> ('t, 's, 'e + 'a) action \<Rightarrow> ('t, 's, 'd + 'a) action" where
  "run_map_error h f = run_bind f (\<lambda>r. run_return (map_sum h id r))"

definition run_panic :: "('t, 's, 'a) action" where
  "run_panic ts db = None"

lemmas run_defs_basic = run_bind_def run_ok_def run_return_def perform_def

lemma run_bind_Some: "run_bind f g ts db = Some (b, ts'', db'') \<longleftrightarrow>
    (\<exists>a ts' db'. f ts db = Some (a, ts', db') \<and> g a ts' db' = Some (b, ts'', db''))"
  by (auto simp: run_bind_def bind_eq_Some_conv)

lemma perform_Some: "perform f ts db = Some (r, ts', db') \<longleftrightarrow>
    (\<exists>t. ts = t # ts' \<and> f (tk_call t) (foldl db_step db (tk_ops t)) = (r, db'))"
  by (auto simp: perform_def split: list.splits prod.splits)

lemma run_return_Some [simp]: "run_return a ts db = Some (b, ts', db') \<longleftrightarrow> a = b \<and> ts = ts' \<and> db = db'"
  by (simp add: run_return_def)

lemma perform_returns: "ts \<noteq> [] \<Longrightarrow> \<exists>r db'. perform f ts db = Some (r, tl ts, db')"
  by (cases ts) (auto simp: perform_def split: prod.splits)

lemma run_ok_Some: "run_ok f g ts db = Some (r, ts'', db'') \<longleftrightarrow>
    (\<exists>e. f ts db = Some (Inl e, ts'', db'') \<and> r = Inl e) \<or>
    (\<exists>a ts' db'. f ts db = Some (Inr a, ts', db') \<and> g a ts' db' = Some (r, ts'', db''))"
proof
  assume "run_ok f g ts db = Some (r, ts'', db'')"
  then obtain x ts' db' where "f ts db = Some (x, ts', db')"
    "(case x of Inl e \<Rightarrow> run_return (Inl e) | Inr a \<Rightarrow> g a) ts' db' = Some (r, ts'', db'')"
    by (auto simp: run_ok_def run_bind_Some)
  then show "(\<exists>e. f ts db = Some (Inl e, ts'', db'') \<and> r = Inl e) \<or>
    (\<exists>a ts' db'. f ts db = Some (Inr a, ts', db') \<and> g a ts' db' = Some (r, ts'', db''))"
    by (cases x) auto
qed (auto simp: run_ok_def run_bind_def)

text \<open>A schedule on which a tenant works alone and without failures of the connection.\<close>

definition calm :: "tenant \<Rightarrow> tick \<Rightarrow> bool" where
  "calm u t \<longleftrightarrow> tk_ops t = [] \<and> tenant (tk_call t) = u \<and> begin_fault (tk_call t) = None \<and>
     commit_fault (tk_call t) = None \<and> rollback_fault (tk_call t) = None"

lemma perform_calm:
  "list_all (calm u) ts \<Longrightarrow> ts \<noteq> [] \<Longrightarrow>
   perform f ts db = (case f (tk_call (hd ts)) db of (r, db') \<Rightarrow> Some (r, tl ts, db'))"
  by (cases ts) (simp_all add: perform_def calm_def)

text \<open>What a run does to the database is a sequence of writes, its own and those of others.\<close>

definition quiet_tick :: "call \<Rightarrow> tick" where
  "quiet_tick c = \<lparr>tk_call = c, tk_ops = []\<rparr>"

lemma calm_quiet: "calm u (quiet_tick c) \<longleftrightarrow> tenant c = u \<and> begin_fault c = None \<and>
    commit_fault c = None \<and> rollback_fault c = None"
  by (simp add: calm_def quiet_tick_def)

section \<open>What a run writes\<close>

text \<open>
  A run that returns has taken ticks from the front of the schedule and has changed the database by a
  sequence of writes, its own and those of others.
\<close>

named_theorems run_intros
  \<comment> \<open>rules that follow the structure of a run\<close>

definition writes :: "'a run \<Rightarrow> bool" where
  "writes r \<longleftrightarrow> (\<forall>ts db a ts' db'. r ts db = Some (a, ts', db') \<longrightarrow>
     length ts' \<le> length ts \<and> (\<exists>ops. db' = foldl db_step db ops))"

definition step_op :: "(call \<Rightarrow> db \<Rightarrow> 'a \<times> db) \<Rightarrow> bool" where
  "step_op f \<longleftrightarrow> (\<forall>c db. \<exists>ops. snd (f c db) = foldl db_step db ops)"

definition uses_tick :: "'a run \<Rightarrow> bool" where
  "uses_tick r \<longleftrightarrow> (\<forall>ts db a ts' db'. r ts db = Some (a, ts', db') \<longrightarrow> length ts' < length ts)"

lemma writesD: "writes r \<Longrightarrow> r ts db = Some (a, ts', db') \<Longrightarrow>
    length ts' \<le> length ts \<and> (\<exists>ops. db' = foldl db_step db ops)"
  by (simp add: writes_def)

lemma writes_return [run_intros]: "writes (run_return a)"
  by (auto simp: writes_def intro: exI [of _ "[]"])

lemma writes_none [run_intros]: "writes (\<lambda>ts db. None)"
  by (simp add: writes_def)

lemma writes_bind [run_intros]:
  assumes "writes f" "\<And>a. writes (g a)"
  shows "writes (run_bind f g)"
  unfolding writes_def
proof (intro allI impI)
  fix ts db b ts'' db'' assume "run_bind f g ts db = Some (b, ts'', db'')"
  then obtain a ts' db' where "f ts db = Some (a, ts', db')" "g a ts' db' = Some (b, ts'', db'')"
    by (auto simp: run_bind_Some)
  from writesD [OF assms(1) this(1)] writesD [OF assms(2) this(2)] obtain ops ops' where
    "length ts'' \<le> length ts" "db'' = foldl db_step db (ops @ ops')" by auto
  then show "length ts'' \<le> length ts \<and> (\<exists>ops. db'' = foldl db_step db ops)" by blast
qed

lemma writes_ok [run_intros]: "writes f \<Longrightarrow> (\<And>a. writes (g a)) \<Longrightarrow> writes (run_ok f g)"
  unfolding run_ok_def by (intro writes_bind) (auto split: sum.split intro: writes_return)

lemma writes_perform [run_intros]:
  assumes "step_op f"
  shows "writes (perform f)"
  unfolding writes_def
proof (intro allI impI)
  fix ts db a ts' db' assume "perform f ts db = Some (a, ts', db')"
  then obtain t where t: "ts = t # ts'" "f (tk_call t) (foldl db_step db (tk_ops t)) = (a, db')"
    by (auto simp: perform_Some)
  obtain ops where "snd (f (tk_call t) (foldl db_step db (tk_ops t))) = foldl db_step (foldl db_step db (tk_ops t)) ops"
    using assms unfolding step_op_def by blast
  with t(2) have "db' = foldl db_step db (tk_ops t @ ops)" by simp
  then have "\<exists>ops. db' = foldl db_step db ops" by blast
  then show "length ts' \<le> length ts \<and> (\<exists>ops. db' = foldl db_step db ops)" using t(1) by simp
qed

lemma writes_if [run_intros]: "writes f \<Longrightarrow> writes g \<Longrightarrow> writes (if b then f else g)"
  by simp

lemma writes_sum [run_intros]: "(\<And>e. writes (f e)) \<Longrightarrow> (\<And>a. writes (g a)) \<Longrightarrow> writes (case r of Inl e \<Rightarrow> f e | Inr a \<Rightarrow> g a)"
  by (cases r) auto

lemma writes_option [run_intros]: "writes f \<Longrightarrow> (\<And>a. writes (g a)) \<Longrightarrow> writes (case r of None \<Rightarrow> f | Some a \<Rightarrow> g a)"
  by (cases r) auto

lemma writes_pair [run_intros]: "(\<And>a b. writes (f a b)) \<Longrightarrow> writes (case p of (a, b) \<Rightarrow> f a b)"
  by (cases p) auto

lemma step_read: "(\<And>c db. snd (f c db) = db) \<Longrightarrow> step_op f"
  unfolding step_op_def by (auto intro: exI [of _ "[]"])

lemma step_write: "(\<And>c db. snd (f c db) = db_step db (op c)) \<Longrightarrow> step_op f"
  unfolding step_op_def by (metis foldl_Cons foldl_Nil)

lemma step_backfill: "(\<And>c db. snd (f c db) = backfill_step (c, op) db) \<Longrightarrow> step_op f"
  by (rule step_write [of _ "\<lambda>c. Backfill c op"]) simp

lemma read_only:
  "(\<And>a db'. f db = Inr (a, db') \<Longrightarrow> db' = db) \<Longrightarrow> snd (with_tenant_context c f db) = db"
  using with_tenant_context_db [of c f db] by (metis prod.collapse)

lemma uses_tick_perform: "uses_tick (perform f)"
  by (auto simp: uses_tick_def perform_Some)

lemma uses_tickD: "uses_tick r \<Longrightarrow> r ts db = Some (a, ts', db') \<Longrightarrow> length ts' < length ts"
  unfolding uses_tick_def by blast

lemma writes_at: "(\<And>p. writes (f p)) \<Longrightarrow> writes (\<lambda>ts. f ts ts)"
  unfolding writes_def by blast

lemma uses_tick_bind: "uses_tick f \<Longrightarrow> (\<And>a. writes (g a)) \<Longrightarrow> uses_tick (run_bind f g)"
  unfolding uses_tick_def run_bind_Some by (metis writesD order_less_le_trans order_le_less_trans)

lemma uses_tick_ok: "uses_tick f \<Longrightarrow> (\<And>a. writes (g a)) \<Longrightarrow> uses_tick (run_ok f g)"
  unfolding run_ok_def by (intro uses_tick_bind run_intros)

section \<open>One storage call\<close>

text \<open>A call whose errors are mapped, and the place of a run in its schedule.\<close>

definition try_db ::
  "(storage_error \<Rightarrow> 'e) \<Rightarrow> (call \<Rightarrow> db \<Rightarrow> ('a, db) outcome) \<Rightarrow> ('e + 'a) run" where
  "try_db h f = run_bind (perform f) (\<lambda>r. run_return (case r of Inl e \<Rightarrow> Inl (h e) | Inr a \<Rightarrow> Inr a))"

definition run_point :: "tick list run" where
  "run_point ts db = Some (ts, ts, db)"

lemma uses_tick_try [run_intros]: "uses_tick (try_db h f)"
  unfolding try_db_def by (intro uses_tick_bind uses_tick_perform run_intros)

lemma try_shorter: "try_db h f ts db = Some (r, ts', db') \<Longrightarrow> length ts' < length ts"
  by (rule uses_tickD [OF uses_tick_try])

lemma try_Inr: "try_db h f ts db = Some (Inr a, ts', db') \<longleftrightarrow>
    (\<exists>t. ts = t # ts' \<and> f (tk_call t) (foldl db_step db (tk_ops t)) = (Inr a, db'))"
proof (cases ts)
  case (Cons t rest)
  obtain r db1 where "f (tk_call t) (foldl db_step db (tk_ops t)) = (r, db1)" by fastforce
  with Cons show ?thesis by (cases r) (auto simp: try_db_def run_bind_def perform_def)
qed (simp add: try_db_def run_bind_def perform_def)

lemma try_Inl: "try_db h f ts db = Some (Inl e, ts', db') \<longleftrightarrow>
    (\<exists>t d. ts = t # ts' \<and> f (tk_call t) (foldl db_step db (tk_ops t)) = (Inl d, db') \<and> e = h d)"
proof (cases ts)
  case (Cons t rest)
  obtain r db1 where "f (tk_call t) (foldl db_step db (tk_ops t)) = (r, db1)" by fastforce
  with Cons show ?thesis by (cases r) (auto simp: try_db_def run_bind_def perform_def)
qed (simp add: try_db_def run_bind_def perform_def)

lemma writes_try [run_intros]: "step_op f \<Longrightarrow> writes (try_db h f)"
  unfolding try_db_def by (intro run_intros)

lemma writes_point [run_intros]: "writes run_point"
  by (auto simp: writes_def run_point_def intro: exI [of _ "[]"])

lemma try_calm:
  "calm u t \<Longrightarrow> f (tk_call t) db = (r, db') \<Longrightarrow>
   try_db h f (t # ts) db = Some (case r of Inl e \<Rightarrow> Inl (h e) | Inr a \<Rightarrow> Inr a, ts, db')"
  by (simp add: try_db_def run_bind_def perform_def calm_def run_return_def)

lemma calm_commit: "calm u t \<Longrightarrow> with_tenant_context (tk_call t) f db =
    (case f db of Inl e \<Rightarrow> (Inl e, db) | Inr (a, db') \<Rightarrow> (Inr a, db'))"
  by (simp add: calm_def with_tenant_context_def split: sum.splits prod.splits)

text \<open>The storage calls of the runs.\<close>

lemma step_reads [run_intros]:
  "step_op (\<lambda>c. get_asset c i)" "step_op (\<lambda>c. get_asset_partition_config c i)"
  "step_op (\<lambda>c. get_upstream_dependencies c i)" "step_op (\<lambda>c. get_asset_dependencies c i)"
  "step_op (\<lambda>c. get_execution c i)" "step_op (\<lambda>c. is_partition_completed c i k)"
  "step_op (\<lambda>c. is_backfill_job_cancelled c i)" "step_op (\<lambda>c. is_backfill_job_paused c i)"
  by (rule step_read; (simp only: get_asset_def get_asset_partition_config_def get_upstream_dependencies_def
        get_asset_dependencies_def get_execution_def is_partition_completed_def is_backfill_job_cancelled_def
        is_backfill_job_paused_def, rule read_only, auto split: option.splits))+

lemma checked_read: "(\<And>db. snd (f db) = db) \<Longrightarrow> snd (checked vs f db) = db"
  by (induction vs) (auto split: sum.splits)

lemma step_lists [run_intros]:
  "step_op (\<lambda>c. list_assets_page c l off)" "step_op (\<lambda>c. list_workflows c l off)"
  by (rule step_read; (simp only: list_assets_page_def list_workflows_def,
        intro checked_read read_only, auto))+

lemma step_checks [run_intros]:
  "step_op (\<lambda>c. get_asset_check c i)" "step_op (\<lambda>c. list_asset_checks c i b)" "step_op (\<lambda>c. get_workflow c i)"
  "step_op (\<lambda>c. get_workflow_assets c i)"
  by (rule step_read; (simp only: get_asset_check_def list_asset_checks_def get_workflow_def get_workflow_assets_def,
        rule read_only, auto split: option.splits))+

lemma step_batch [run_intros]: "step_op (\<lambda>c. create_check_results_batch c rs)"
  by (rule step_write [of _ "\<lambda>c. Check c (Create_results rs)"]) simp

lemma step_writes [run_intros]:
  "step_op (\<lambda>c. claim_pending_backfill_job c s)" "step_op (\<lambda>c. claim_pending_partition c i n)"
  "step_op (\<lambda>c. complete_backfill_partition c i x d)" "step_op (\<lambda>c. fail_backfill_partition c i e d)"
  "step_op (\<lambda>c. requeue_backfill_partition c i)" "step_op (\<lambda>c. transition_backfill_job_state c i a b m)"
  "step_op (\<lambda>c. update_backfill_job_heartbeat c i)" "step_op (\<lambda>c. update_backfill_job_progress_with_eta c i u)"
  "step_op (\<lambda>c. increment_completed_upstream c i)" "step_op (\<lambda>c. try_transition_parent_to_pending c i)"
  "step_op (\<lambda>c. fail_parent_on_child_failure c i k nm)" "step_op (\<lambda>c. update_backfill_upstream_count c i m')"
  "step_op (\<lambda>c. create_upstream_child_job c i p)"
  by (rule step_backfill, rule backfill_step.simps [symmetric])+

end
