(* ===== verification/Json.thy ===== *)
theory Json
  imports Text
begin

text \<open>
  The documents the worker handles (\<open>serde_json::Value\<close>) and what it asks of the library about
  them. The numbers are a parameter of the type: the representation of \<open>serde_json::Number\<close> is
  private to that library. Objects keep their members in the order of their names, as the library's
  map does.
\<close>

section \<open>Documents\<close>

datatype 'n json =
    JNull
  | JBool bool
  | JNumber 'n
  | JString string
  | JArray "'n json list"
  | JObject "(string \<times> 'n json) list"

fun is_null :: "'n json \<Rightarrow> bool" where
  "is_null JNull = True"
| "is_null _ = False"

text \<open>\<open>Map::insert\<close>, and an object written out member by member (\<open>json!\<close>).\<close>

fun obj_insert :: "string \<Rightarrow> 'n json \<Rightarrow> (string \<times> 'n json) list \<Rightarrow> (string \<times> 'n json) list" where
  "obj_insert k v [] = [(k, v)]"
| "obj_insert k v ((l, w) # ms) =
     (if k = l then (k, v) # ms else if k < l then (k, v) # (l, w) # ms else (l, w) # obj_insert k v ms)"

definition json_object :: "(string \<times> 'n json) list \<Rightarrow> 'n json" where
  "json_object kvs = JObject (fold (\<lambda>(k, v) ms. obj_insert k v ms) kvs [])"

lemma obj_insert_map_of: "map_of (obj_insert k v ms) = (map_of ms)(k \<mapsto> v)"
  by (induction k v ms rule: obj_insert.induct) (auto simp: fun_eq_iff)

text \<open>
  What the library and the standard library compute on numbers, texts and patterns.
  \<open>json_text\<close> is \<open>Value::to_string\<close>, \<open>json_usize\<close> and \<open>json_f64\<close> are \<open>json!\<close> on these types (the
  latter is null for a value that is not finite), \<open>float_less\<close> the comparison of IEEE 754,
  \<open>float_debug\<close> its text, and \<open>regex_new\<close> and \<open>regex_match\<close> belong to the library regex.
\<close>

record ('n, 'f, 're) json_ops =
  json_text :: "'n json \<Rightarrow> string"
  json_usize :: "nat \<Rightarrow> 'n"
  json_f64 :: "'f \<Rightarrow> 'n json"
  as_f64 :: "'n \<Rightarrow> 'f option"
  float_less :: "'f \<Rightarrow> 'f \<Rightarrow> bool"
  float_debug :: "'f \<Rightarrow> string"
  regex_new :: "string \<Rightarrow> string + 're"
  regex_match :: "'re \<Rightarrow> string \<Rightarrow> bool"

text \<open>
  The compact text of a document is a sentence of the grammar of JSON, in which a bar occurs only
  between quotes: what stands before a bar that follows a text determines the document.
\<close>

definition bar_delimited :: "('v \<Rightarrow> string) \<Rightarrow> bool" where
  "bar_delimited tx \<longleftrightarrow> (\<forall>v w x y. tx v @ CHR ''|'' # x = tx w @ CHR ''|'' # y \<longrightarrow> v = w)"

text \<open>Texts joined by bars, and texts each followed by one.\<close>

definition end_bar :: "string list \<Rightarrow> string" where
  "end_bar ts = concat (map (\<lambda>s. s @ [CHR ''|'']) ts)"

lemma end_bar_simps [simp]: "end_bar [] = []" "end_bar (s # ts) = s @ CHR ''|'' # end_bar ts"
  by (simp_all add: end_bar_def)

lemma join_bar_end: "ts \<noteq> [] \<Longrightarrow> join_with ''|'' ts @ [CHR ''|''] = end_bar ts"
  by (induction "''|''" ts rule: join_with.induct) auto

lemma end_bar_inj:
  "bar_delimited tx \<Longrightarrow> length vs = length ws \<Longrightarrow> end_bar (map tx vs) = end_bar (map tx ws) \<Longrightarrow> vs = ws"
proof (induction vs arbitrary: ws)
  case Nil
  then show ?case by simp
next
  case (Cons v vs)
  then obtain w ws' where ws: "ws = w # ws'" by (cases ws) auto
  have "v = w"
    using Cons.prems(1,3) unfolding bar_delimited_def ws by simp blast
  with Cons ws show ?case by simp
qed

lemma join_bar_inj:
  "bar_delimited tx \<Longrightarrow> length vs = length ws
     \<Longrightarrow> join_with ''|'' (map tx vs) = join_with ''|'' (map tx ws) \<longleftrightarrow> vs = ws"
  by (metis end_bar_inj join_bar_end length_0_conv list.map_disc_iff)

section \<open>A text that satisfies it\<close>

text \<open>
  The compact text of a document whose numbers are natural, with the quotes and the backslashes of
  strings escaped.
\<close>

definition quote_char :: "char \<Rightarrow> string" where
  "quote_char c = (if c = CHR 0x22 \<or> c = CHR 0x5C then [CHR 0x5C, c] else [c])"

definition quote_text :: "string \<Rightarrow> string" where
  "quote_text s = CHR 0x22 # concat (map quote_char s) @ [CHR 0x22]"

fun compact_text :: "nat json \<Rightarrow> string" where
  "compact_text JNull = ''null''"
| "compact_text (JBool b) = (if b then ''true'' else ''false'')"
| "compact_text (JNumber n) = show_nat n"
| "compact_text (JString s) = quote_text s"
| "compact_text (JArray vs) = ''['' @ concat (map (\<lambda>v. compact_text v @ '','') vs) @ '']''"
| "compact_text (JObject ms) = ''{'' @ concat (map (\<lambda>(k, v). quote_text k @ '':'' @ compact_text v @ '','') ms) @ ''}''"

definition no_digit :: "string \<Rightarrow> bool" where
  "no_digit x \<longleftrightarrow> (case x of [] \<Rightarrow> True | c # _ \<Rightarrow> \<not> is_digit c)"

lemma show_nat_prefix:
  assumes "show_nat m @ x = show_nat n @ y" "no_digit x" "no_digit y"
  shows "m = n \<and> x = y"
proof -
  have t: "takeWhile is_digit (show_nat k @ z) = show_nat k" "dropWhile is_digit (show_nat k @ z) = z"
    if "no_digit z" for k z
  proof -
    have "\<forall>c \<in> set (show_nat k). is_digit c"
      using show_nat_digits [of k] by (simp add: list_all_iff)
    with that show "takeWhile is_digit (show_nat k @ z) = show_nat k" "dropWhile is_digit (show_nat k @ z) = z"
      by (simp_all add: takeWhile_append2 dropWhile_append2 no_digit_def split: list.splits)
  qed
  then have "show_nat m = show_nat n" and xy: "x = y"
    using assms by metis+
  then show ?thesis
    using show_nat_digits by metis
qed

lemma quote_chars_prefix:
  "concat (map quote_char s) @ CHR 0x22 # x = concat (map quote_char t) @ CHR 0x22 # y \<Longrightarrow> s = t \<and> x = y"
proof (induction s arbitrary: t)
  case Nil
  then show ?case by (cases t) (auto simp: quote_char_def split: if_splits)
next
  case (Cons c s)
  then obtain d t' where t: "t = d # t'"
    by (cases t) (auto simp: quote_char_def split: if_splits)
  with Cons show ?case by (auto simp: quote_char_def split: if_splits)
qed

lemma quote_text_prefix: "quote_text s @ x = quote_text t @ y \<Longrightarrow> s = t \<and> x = y"
  using quote_chars_prefix [of s x t y] by (simp add: quote_text_def)

lemma compact_text_head:
  "\<exists>c r. compact_text v = c # r \<and> c \<noteq> CHR '']'' \<and> c \<noteq> CHR ''}''"
proof (cases v)
  case (JNumber n)
  then show ?thesis
    using show_nat_head [of n] by (auto simp: is_digit_def)
qed (simp_all add: quote_text_def)

definition readable :: "nat json \<Rightarrow> bool" where
  "readable v \<longleftrightarrow> (\<forall>w x y. compact_text v @ CHR '','' # x = compact_text w @ CHR '','' # y \<longrightarrow> v = w \<and> x = y)"

lemma elements_prefix:
  "\<forall>v \<in> set vs. readable v \<Longrightarrow>
     concat (map (\<lambda>v. compact_text v @ '','') vs) @ CHR '']'' # x
       = concat (map (\<lambda>v. compact_text v @ '','') ws) @ CHR '']'' # y \<Longrightarrow> vs = ws \<and> x = y"
proof (induction vs arbitrary: ws)
  case Nil
  then show ?case
    using compact_text_head [of "hd ws"] by (cases ws) auto
next
  case (Cons v vs)
  then obtain w ws' where ws: "ws = w # ws'"
    using compact_text_head [of v] by (cases ws) auto
  have r: "readable v" using Cons.prems(1) by simp
  have "v = w \<and> concat (map (\<lambda>v. compact_text v @ '','') vs) @ CHR '']'' # x
         = concat (map (\<lambda>v. compact_text v @ '','') ws') @ CHR '']'' # y"
    using r [unfolded readable_def, rule_format] Cons.prems(2) unfolding ws by simp
  then show ?case
    using Cons.IH [of ws'] Cons.prems(1) unfolding ws by simp
qed

lemma members_prefix:
  "\<forall>(k, v) \<in> set ms. readable v \<Longrightarrow>
     concat (map (\<lambda>(k, v). quote_text k @ '':'' @ compact_text v @ '','') ms) @ CHR ''}'' # x
       = concat (map (\<lambda>(k, v). quote_text k @ '':'' @ compact_text v @ '','') ns) @ CHR ''}'' # y
     \<Longrightarrow> ms = ns \<and> x = y"
proof (induction ms arbitrary: ns)
  case Nil
  then show ?case by (cases ns) (auto simp: quote_text_def)
next
  case (Cons m ms)
  obtain k v where m: "m = (k, v)" by (cases m)
  obtain l w ns' where ns: "ns = (l, w) # ns'"
    using Cons.prems(2) by (cases ns) (auto simp: m quote_text_def)
  have r: "readable v" using Cons.prems(1) m by simp
  let ?r = "\<lambda>ms z. concat (map (\<lambda>(k, v). quote_text k @ '':'' @ compact_text v @ '','') ms) @ CHR ''}'' # z"
  have "k = l \<and> CHR '':'' # compact_text v @ CHR '','' # ?r ms x = CHR '':'' # compact_text w @ CHR '','' # ?r ns' y"
    by (rule quote_text_prefix) (use Cons.prems(2) in \<open>simp add: m ns\<close>)
  then have k: "k = l" and e: "compact_text v @ CHR '','' # ?r ms x = compact_text w @ CHR '','' # ?r ns' y"
    by simp_all
  have vw: "v = w \<and> ?r ms x = ?r ns' y"
    by (rule r [unfolded readable_def, rule_format]) (rule e)
  have "ms = ns' \<and> x = y"
    by (rule Cons.IH) (use Cons.prems(1) vw in simp_all)
  with k vw show ?case by (simp add: m ns)
qed

lemma compact_text_prefix:
  "compact_text v @ x = compact_text w @ y \<Longrightarrow> no_digit x \<Longrightarrow> no_digit y \<Longrightarrow> v = w \<and> x = y"
proof (induction v arbitrary: w x y)
  case (JNumber n)
  then show ?case
    using show_nat_head [of n] show_nat_prefix [of n x _ y]
    by (cases w) (auto simp: is_digit_def quote_text_def split: if_splits)
next
  case (JString s)
  then show ?case
  proof (cases w)
    case (JNumber m)
    then show ?thesis
      using JString.prems show_nat_head [of m] by (auto simp: quote_text_def is_digit_def)
  qed (use quote_text_prefix [of s x _ y] JString.prems in \<open>auto simp: quote_text_def split: if_splits\<close>)
next
  case (JArray vs)
  have e: "\<forall>v \<in> set vs. readable v"
    using JArray.IH by (fastforce simp: readable_def no_digit_def is_digit_def)
  show ?case
  proof (cases w)
    case (JNumber m)
    then show ?thesis
      using JArray.prems show_nat_head [of m] by (auto simp: is_digit_def)
  qed (use elements_prefix [OF e, of x _ y] JArray.prems in \<open>auto simp: quote_text_def split: if_splits\<close>)
next
  case (JObject ms)
  have e: "\<forall>(k, v) \<in> set ms. readable v"
    using JObject.IH by (fastforce simp: readable_def no_digit_def is_digit_def)
  show ?case
  proof (cases w)
    case (JNumber m)
    then show ?thesis
      using JObject.prems show_nat_head [of m] by (auto simp: is_digit_def)
  qed (use members_prefix [OF e, of x _ y] JObject.prems in \<open>auto simp: quote_text_def split: if_splits\<close>)
next
  case JNull
  show ?case
  proof (cases w)
    case (JNumber m)
    then show ?thesis
      using JNull.prems show_nat_head [of m] by (auto simp: is_digit_def)
  qed (use JNull.prems in \<open>auto simp: quote_text_def split: if_splits\<close>)
next
  case (JBool b)
  show ?case
  proof (cases w)
    case (JNumber m)
    then show ?thesis
      using JBool.prems show_nat_head [of m] by (auto simp: is_digit_def split: if_splits)
  qed (use JBool.prems in \<open>auto simp: quote_text_def split: if_splits\<close>)
qed

lemma bar_delimited_compact_text: "bar_delimited compact_text"
proof -
  have "no_digit (CHR ''|'' # z)" for z
    by (simp add: no_digit_def is_digit_def)
  then show ?thesis
    unfolding bar_delimited_def using compact_text_prefix by blast
qed

end
