(* ===== verification/Checks.thy ===== *)
theory Checks
  imports Json "HOL-Library.Multiset"
begin

text \<open>
  The data quality checks the worker runs on the output of an asset
  (\<open>servo-worker/src/check_validator.rs\<close>). An output is a table by columns; a panic of the code,
  which indexes columns by row number, is the result \<open>None\<close>. The order in which a hash map or a
  hash set of column names is walked is the parameter \<open>ord\<close>, and the order of the columns of an
  output is that of its list.
\<close>

section \<open>Texts of the standard library\<close>

text \<open>\<open>{:?}\<close> of a string and of a list of strings, for characters that are printed as themselves from 128 on.\<close>

definition hex_digit :: "nat \<Rightarrow> char" where
  "hex_digit n = (if n < 10 then char_of (48 + n) else char_of (87 + n))"

definition debug_char :: "char \<Rightarrow> string" where
  "debug_char c =
     (let n = (of_char c :: nat) in
      if n = 0 then [CHR 0x5C, CHR ''0'']
      else if n = 9 then [CHR 0x5C, CHR ''t'']
      else if n = 10 then [CHR 0x5C, CHR ''n'']
      else if n = 13 then [CHR 0x5C, CHR ''r'']
      else if n = 34 \<or> n = 92 then [CHR 0x5C, c]
      else if n < 32 \<or> n = 127
      then [CHR 0x5C] @ ''u{'' @ (if n < 16 then [hex_digit n] else [hex_digit (n div 16), hex_digit (n mod 16)]) @ ''}''
      else [c])"

definition debug_str :: "string \<Rightarrow> string" where
  "debug_str s = [CHR 0x22] @ concat (map debug_char s) @ [CHR 0x22]"

definition debug_strings :: "string list \<Rightarrow> string" where
  "debug_strings ss = ''['' @ join_with '', '' (map debug_str ss) @ '']''"

definition debug_bound :: "('n, 'f, 're) json_ops \<Rightarrow> 'f option \<Rightarrow> string" where
  "debug_bound jo b = (case b of None \<Rightarrow> ''None'' | Some x \<Rightarrow> ''Some('' @ float_debug jo x @ '')'')"

text \<open>\<open>n as i64\<close> for a \<open>usize\<close>.\<close>

definition as_i64 :: "nat \<Rightarrow> int" where
  "as_i64 n = (if n < 2 ^ 63 then int n else int n - 2 ^ 64)"

lemma as_i64_code [code]: "as_i64 n = (if int n < 9223372036854775808 then int n else int n - 18446744073709551616)"
  by (simp add: as_i64_def)

lemma as_i64_small [simp]: "n < 2 ^ 63 \<Longrightarrow> as_i64 n = int n"
  by (simp add: as_i64_def)

section \<open>The output of an asset\<close>

record 'n asset_output =
  out_columns :: "(string \<times> 'n json list) list"
  out_rows :: nat

definition output_empty :: "'n asset_output" where
  "output_empty = \<lparr>out_columns = [], out_rows = 0\<rparr>"

definition get_column :: "'n asset_output \<Rightarrow> string \<Rightarrow> 'n json list option" where
  "get_column out c = map_of (out_columns out) c"

definition has_column :: "'n asset_output \<Rightarrow> string \<Rightarrow> bool" where
  "has_column out c \<longleftrightarrow> map_of (out_columns out) c \<noteq> None"

definition row_keys :: "'n json \<Rightarrow> string list" where
  "row_keys row = (case row of JObject ms \<Rightarrow> map fst ms | _ \<Rightarrow> [])"

definition cell :: "string \<Rightarrow> 'n json \<Rightarrow> 'n json" where
  "cell c row =
     (case row of
        JObject ms \<Rightarrow> (case map_of ms c of Some v \<Rightarrow> v | None \<Rightarrow> JNull)
      | _ \<Rightarrow> JNull)"

text \<open>\<open>columns.get_mut(name).unwrap().push(v)\<close>.\<close>

definition push_cell :: "string \<Rightarrow> 'n json \<Rightarrow> (string \<times> 'n json list) list \<Rightarrow> (string \<times> 'n json list) list option" where
  "push_cell c v cols =
     (if c \<in> set (map fst cols)
      then Some (map (\<lambda>(k, vs). if k = c then (k, vs @ [v]) else (k, vs)) cols) else None)"

fun push_row :: "string list \<Rightarrow> 'n json \<Rightarrow> (string \<times> 'n json list) list \<Rightarrow> (string \<times> 'n json list) list option" where
  "push_row [] row cols = Some cols"
| "push_row (c # cs) row cols =
     (case push_cell c (cell c row) cols of None \<Rightarrow> None | Some cols' \<Rightarrow> push_row cs row cols')"

fun push_rows :: "string list \<Rightarrow> 'n json list \<Rightarrow> (string \<times> 'n json list) list \<Rightarrow> (string \<times> 'n json list) list option" where
  "push_rows names [] cols = Some cols"
| "push_rows names (row # rows) cols =
     (case push_row names row cols of None \<Rightarrow> None | Some cols' \<Rightarrow> push_rows names rows cols')"

definition all_keys :: "'n json list \<Rightarrow> string list" where
  "all_keys rows = remdups (concat (map row_keys rows))"

definition from_rows :: "(string list \<Rightarrow> string list) \<Rightarrow> 'n json list \<Rightarrow> 'n asset_output option" where
  "from_rows ord rows =
     (if rows = [] then Some output_empty
      else (let names = ord (all_keys rows) in
            case push_rows names rows (map (\<lambda>c. (c, [])) names) of
              None \<Rightarrow> None
            | Some cols \<Rightarrow> Some \<lparr>out_columns = cols, out_rows = length rows\<rparr>))"

section \<open>Results and checks\<close>

record 'n validation =
  vr_passed :: bool
  vr_failed_count :: "int option"
  vr_total_count :: "int option"
  vr_message :: "string option"
  vr_samples :: "'n json option"

definition vr_pass :: "int \<Rightarrow> 'n validation" where
  "vr_pass tot = \<lparr>vr_passed = True, vr_failed_count = Some 0, vr_total_count = Some tot,
     vr_message = None, vr_samples = None\<rparr>"

definition vr_failed :: "int \<Rightarrow> int \<Rightarrow> string \<Rightarrow> 'n validation" where
  "vr_failed failed tot message = \<lparr>vr_passed = False, vr_failed_count = Some failed,
     vr_total_count = Some tot, vr_message = Some message, vr_samples = None\<rparr>"

definition vr_failed_with_samples :: "int \<Rightarrow> int \<Rightarrow> string \<Rightarrow> 'n json \<Rightarrow> 'n validation" where
  "vr_failed_with_samples failed tot message samples = \<lparr>vr_passed = False, vr_failed_count = Some failed,
     vr_total_count = Some tot, vr_message = Some message, vr_samples = Some samples\<rparr>"

definition vr_error :: "string \<Rightarrow> 'n validation" where
  "vr_error message = \<lparr>vr_passed = False, vr_failed_count = None, vr_total_count = None,
     vr_message = Some message, vr_samples = None\<rparr>"

datatype ('n, 'f) check_type =
    NotNull "string list"
  | Unique "string list"
  | InRange string "'f option" "'f option"
  | Regex string string
  | RowCount "int option" "int option"
  | AcceptedValues string "'n json list"
  | NoDuplicateRows "string list option"
  | Freshness string int
  | ReferentialIntegrity string string string
  | SchemaMatch "string list" bool
  | Custom "string option" "string option"

definition max_failed_samples :: nat where
  "max_failed_samples = 10"

definition column_not_found :: "string \<Rightarrow> 'n validation" where
  "column_not_found c = vr_error (''Column '' @ quoted c @ '' not found in data'')"

text \<open>
  The loop of the checks by value: a value that fails is counted, and the first ten are described.
\<close>

definition count_failure :: "'n json \<Rightarrow> int \<times> 'n json list \<Rightarrow> int \<times> 'n json list" where
  "count_failure s acc = (fst acc + 1, if length (snd acc) < max_failed_samples then snd acc @ [s] else snd acc)"

fun scan :: "(nat \<Rightarrow> 'v \<Rightarrow> 'n json option) \<Rightarrow> (nat \<times> 'v) list \<Rightarrow> int \<times> 'n json list \<Rightarrow> int \<times> 'n json list" where
  "scan bad [] acc = acc"
| "scan bad ((i, v) # ivs) acc =
     scan bad ivs (case bad i v of None \<Rightarrow> acc | Some s \<Rightarrow> count_failure s acc)"

text \<open>The end of every such check: pass, or fail with the count and the samples.\<close>

definition conclude :: "int \<Rightarrow> (int \<Rightarrow> string) \<Rightarrow> int \<times> 'n json list \<Rightarrow> 'n validation" where
  "conclude tot message acc =
     (if fst acc = 0 then vr_pass tot
      else vr_failed_with_samples (fst acc) tot (message (fst acc)) (JArray (snd acc)))"

section \<open>The checks\<close>

definition null_sample :: "('n, 'f, 're) json_ops \<Rightarrow> string \<Rightarrow> nat \<Rightarrow> 'n json \<Rightarrow> 'n json option" where
  "null_sample jo c i v =
     (if is_null v
      then Some (json_object [(''row'', JNumber (json_usize jo i)), (''column'', JString c),
                              (''reason'', JString ''null value'')])
      else None)"

fun not_null_columns ::
  "('n, 'f, 're) json_ops \<Rightarrow> 'n asset_output \<Rightarrow> string list \<Rightarrow> int \<times> 'n json list \<Rightarrow> string + int \<times> 'n json list" where
  "not_null_columns jo out [] acc = Inr acc"
| "not_null_columns jo out (c # cs) acc =
     (case get_column out c of
        Some vs \<Rightarrow> not_null_columns jo out cs (scan (null_sample jo c) (enumerate 0 vs) acc)
      | None \<Rightarrow> Inl c)"

definition validate_not_null :: "('n, 'f, 're) json_ops \<Rightarrow> string list \<Rightarrow> 'n asset_output \<Rightarrow> 'n validation" where
  "validate_not_null jo cs out =
     (case not_null_columns jo out cs (0, []) of
        Inl c \<Rightarrow> column_not_found c
      | Inr acc \<Rightarrow> conclude (as_i64 (out_rows out))
          (\<lambda>n. show_int n @ '' null values found in columns '' @ debug_strings cs) acc)"

text \<open>The key of a row, its missing column, or the panic of an index out of bounds.\<close>

fun key_parts :: "('n, 'f, 're) json_ops \<Rightarrow> 'n asset_output \<Rightarrow> nat \<Rightarrow> string list \<Rightarrow> (string + string list) option" where
  "key_parts jo out i [] = Some (Inr [])"
| "key_parts jo out i (c # cs) =
     (case get_column out c of
        None \<Rightarrow> Some (Inl c)
      | Some vs \<Rightarrow>
          if i < length vs
          then (case key_parts jo out i cs of
                  Some (Inr ks) \<Rightarrow> Some (Inr (json_text jo (vs ! i) # ks))
                | r \<Rightarrow> r)
          else None)"

definition duplicate_sample :: "('n, 'f, 're) json_ops \<Rightarrow> string list \<Rightarrow> nat \<Rightarrow> string \<Rightarrow> 'n json" where
  "duplicate_sample jo cs i key =
     json_object [(''row'', JNumber (json_usize jo i)), (''columns'', JArray (map JString cs)),
                  (''duplicate_key'', JString key)]"

fun unique_loop ::
  "('n, 'f, 're) json_ops \<Rightarrow> 'n asset_output \<Rightarrow> string list \<Rightarrow> nat list \<Rightarrow> string list \<Rightarrow> int \<times> 'n json list
     \<Rightarrow> (string + int \<times> 'n json list) option" where
  "unique_loop jo out cs [] seen acc = Some (Inr acc)"
| "unique_loop jo out cs (i # is) seen acc =
     (case key_parts jo out i cs of
        None \<Rightarrow> None
      | Some (Inl c) \<Rightarrow> Some (Inl c)
      | Some (Inr parts) \<Rightarrow>
          let key = join_with ''|'' parts in
          if key \<in> set seen
          then unique_loop jo out cs is seen (count_failure (duplicate_sample jo cs i key) acc)
          else unique_loop jo out cs is (key # seen) acc)"

definition validate_unique :: "('n, 'f, 're) json_ops \<Rightarrow> string list \<Rightarrow> 'n asset_output \<Rightarrow> 'n validation option" where
  "validate_unique jo cs out =
     (if cs = [] then Some (vr_error ''Unique check requires at least one column'')
      else (case unique_loop jo out cs [0..<out_rows out] [] (0, []) of
              None \<Rightarrow> None
            | Some (Inl c) \<Rightarrow> Some (column_not_found c)
            | Some (Inr acc) \<Rightarrow> Some (conclude (as_i64 (out_rows out))
                (\<lambda>n. show_int n @ '' duplicate values found in columns '' @ debug_strings cs) acc)))"

definition below_bound :: "('n, 'f, 're) json_ops \<Rightarrow> 'f \<Rightarrow> 'f option \<Rightarrow> bool" where
  "below_bound jo x lo = (case lo of Some b \<Rightarrow> float_less jo x b | None \<Rightarrow> False)"

definition above_bound :: "('n, 'f, 're) json_ops \<Rightarrow> 'f \<Rightarrow> 'f option \<Rightarrow> bool" where
  "above_bound jo x hi = (case hi of Some b \<Rightarrow> float_less jo b x | None \<Rightarrow> False)"

definition json_bound :: "('n, 'f, 're) json_ops \<Rightarrow> 'f option \<Rightarrow> 'n json" where
  "json_bound jo b = (case b of None \<Rightarrow> JNull | Some x \<Rightarrow> json_f64 jo x)"

definition range_sample ::
  "('n, 'f, 're) json_ops \<Rightarrow> string \<Rightarrow> 'f option \<Rightarrow> 'f option \<Rightarrow> nat \<Rightarrow> 'n json \<Rightarrow> 'n json option" where
  "range_sample jo c lo hi i v =
     (case v of
        JNumber n \<Rightarrow>
          (case as_f64 jo n of
             None \<Rightarrow> None
           | Some x \<Rightarrow>
               if below_bound jo x lo \<or> above_bound jo x hi
               then Some (json_object [(''row'', JNumber (json_usize jo i)), (''column'', JString c),
                      (''value'', json_f64 jo x), (''min'', json_bound jo lo), (''max'', json_bound jo hi),
                      (''reason'', JString (if below_bound jo x lo then ''below minimum'' else ''above maximum''))])
               else None)
      | JNull \<Rightarrow> None
      | _ \<Rightarrow> Some (json_object [(''row'', JNumber (json_usize jo i)), (''column'', JString c),
               (''value'', v), (''reason'', JString ''non-numeric value'')]))"

definition validate_in_range ::
  "('n, 'f, 're) json_ops \<Rightarrow> string \<Rightarrow> 'f option \<Rightarrow> 'f option \<Rightarrow> 'n asset_output \<Rightarrow> 'n validation" where
  "validate_in_range jo c lo hi out =
     (case get_column out c of
        None \<Rightarrow> column_not_found c
      | Some vs \<Rightarrow> conclude (as_i64 (out_rows out))
          (\<lambda>n. show_int n @ '' values in column '' @ quoted c @ '' outside range ['' @ debug_bound jo lo
               @ '', '' @ debug_bound jo hi @ '']'')
          (scan (range_sample jo c lo hi) (enumerate 0 vs) (0, [])))"

definition regex_sample ::
  "('n, 'f, 're) json_ops \<Rightarrow> string \<Rightarrow> string \<Rightarrow> 're \<Rightarrow> nat \<Rightarrow> 'n json \<Rightarrow> 'n json option" where
  "regex_sample jo c pattern re i v =
     (case v of
        JString s \<Rightarrow>
          if regex_match jo re s then None
          else Some (json_object [(''row'', JNumber (json_usize jo i)), (''column'', JString c),
                 (''value'', JString s), (''pattern'', JString pattern),
                 (''reason'', JString ''does not match pattern'')])
      | JNull \<Rightarrow> None
      | _ \<Rightarrow> Some (json_object [(''row'', JNumber (json_usize jo i)), (''column'', JString c),
               (''value'', v), (''reason'', JString ''non-string value'')]))"

definition validate_regex ::
  "('n, 'f, 're) json_ops \<Rightarrow> string \<Rightarrow> string \<Rightarrow> 'n asset_output \<Rightarrow> 'n validation" where
  "validate_regex jo c pattern out =
     (case regex_new jo pattern of
        Inl e \<Rightarrow> vr_error (''Invalid regex pattern '' @ quoted pattern @ '': '' @ e)
      | Inr re \<Rightarrow>
          (case get_column out c of
             None \<Rightarrow> column_not_found c
           | Some vs \<Rightarrow> conclude (as_i64 (out_rows out))
               (\<lambda>n. show_int n @ '' values in column '' @ quoted c @ '' do not match pattern '' @ quoted pattern)
               (scan (regex_sample jo c pattern re) (enumerate 0 vs) (0, []))))"

definition validate_row_count :: "int option \<Rightarrow> int option \<Rightarrow> 'n asset_output \<Rightarrow> 'n validation" where
  "validate_row_count lo hi out =
     (let count = as_i64 (out_rows out) in
      if (case lo of Some m \<Rightarrow> count < m | None \<Rightarrow> False)
      then vr_failed 0 count (''Row count '' @ show_int count @ '' is below minimum ''
             @ show_int (case lo of Some m \<Rightarrow> m | None \<Rightarrow> 0))
      else if (case hi of Some m \<Rightarrow> m < count | None \<Rightarrow> False)
      then vr_failed 0 count (''Row count '' @ show_int count @ '' exceeds maximum ''
             @ show_int (case hi of Some m \<Rightarrow> m | None \<Rightarrow> 0))
      else vr_pass count)"

definition accepted_sample ::
  "('n, 'f, 're) json_ops \<Rightarrow> string \<Rightarrow> 'n json list \<Rightarrow> nat \<Rightarrow> 'n json \<Rightarrow> 'n json option" where
  "accepted_sample jo c accepted i v =
     (if is_null v then None
      else if json_text jo v \<in> set (map (json_text jo) accepted) then None
      else Some (json_object [(''row'', JNumber (json_usize jo i)), (''column'', JString c), (''value'', v),
             (''accepted_values'', JArray accepted)]))"

definition validate_accepted_values ::
  "('n, 'f, 're) json_ops \<Rightarrow> string \<Rightarrow> 'n json list \<Rightarrow> 'n asset_output \<Rightarrow> 'n validation" where
  "validate_accepted_values jo c accepted out =
     (case get_column out c of
        None \<Rightarrow> column_not_found c
      | Some vs \<Rightarrow> conclude (as_i64 (out_rows out))
          (\<lambda>n. show_int n @ '' values in column '' @ quoted c @ '' not in accepted set'')
          (scan (accepted_sample jo c accepted) (enumerate 0 vs) (0, [])))"

text \<open>A row as text, over the columns that exist, each followed by a bar.\<close>

fun row_key :: "('n, 'f, 're) json_ops \<Rightarrow> 'n asset_output \<Rightarrow> nat \<Rightarrow> string list \<Rightarrow> string option" where
  "row_key jo out i [] = Some []"
| "row_key jo out i (c # cs) =
     (case get_column out c of
        None \<Rightarrow> row_key jo out i cs
      | Some vs \<Rightarrow>
          if i < length vs
          then map_option (\<lambda>k. json_text jo (vs ! i) @ ''|'' @ k) (row_key jo out i cs)
          else None)"

definition duplicate_row_sample :: "('n, 'f, 're) json_ops \<Rightarrow> nat \<Rightarrow> 'n json" where
  "duplicate_row_sample jo i =
     json_object [(''row'', JNumber (json_usize jo i)), (''reason'', JString ''duplicate row'')]"

fun duplicate_loop ::
  "('n, 'f, 're) json_ops \<Rightarrow> 'n asset_output \<Rightarrow> string list \<Rightarrow> nat list \<Rightarrow> string list \<Rightarrow> int \<times> 'n json list
     \<Rightarrow> (int \<times> 'n json list) option" where
  "duplicate_loop jo out cs [] seen acc = Some acc"
| "duplicate_loop jo out cs (i # is) seen acc =
     (case row_key jo out i cs of
        None \<Rightarrow> None
      | Some key \<Rightarrow>
          if key \<in> set seen
          then duplicate_loop jo out cs is seen (count_failure (duplicate_row_sample jo i) acc)
          else duplicate_loop jo out cs is (key # seen) acc)"

definition validate_no_duplicate_rows ::
  "('n, 'f, 're) json_ops \<Rightarrow> string list option \<Rightarrow> 'n asset_output \<Rightarrow> 'n validation option" where
  "validate_no_duplicate_rows jo cols out =
     (let cs = (case cols of Some cs \<Rightarrow> cs | None \<Rightarrow> map fst (out_columns out)) in
      if cs = [] then Some (vr_pass (as_i64 (out_rows out)))
      else map_option (conclude (as_i64 (out_rows out)) (\<lambda>n. show_int n @ '' duplicate rows found''))
             (duplicate_loop jo out cs [0..<out_rows out] [] (0, [])))"

definition ref_column :: "string \<Rightarrow> string \<Rightarrow> string" where
  "ref_column tbl c = ''__ref__'' @ tbl @ ''__'' @ c"

definition orphan_sample ::
  "('n, 'f, 're) json_ops \<Rightarrow> string \<Rightarrow> string \<Rightarrow> string \<Rightarrow> string list \<Rightarrow> nat \<Rightarrow> 'n json \<Rightarrow> 'n json option" where
  "orphan_sample jo c tbl rc refs i v =
     (if is_null v then None
      else if json_text jo v \<in> set refs then None
      else Some (json_object [(''row'', JNumber (json_usize jo i)), (''column'', JString c), (''value'', v),
             (''reference_table'', JString tbl), (''reference_column'', JString rc),
             (''reason'', JString ''orphan reference'')]))"

definition validate_referential_integrity ::
  "('n, 'f, 're) json_ops \<Rightarrow> string \<Rightarrow> string \<Rightarrow> string \<Rightarrow> 'n asset_output \<Rightarrow> 'n validation" where
  "validate_referential_integrity jo c tbl rc out =
     (case get_column out c of
        None \<Rightarrow> column_not_found c
      | Some vs \<Rightarrow>
          (case get_column out (ref_column tbl rc) of
             Some refs \<Rightarrow> conclude (as_i64 (out_rows out))
               (\<lambda>n. show_int n @ '' values in column '' @ quoted c @ '' have no matching reference in ''
                    @ quoted (tbl @ ''.'' @ rc))
               (scan (orphan_sample jo c tbl rc (map (json_text jo) (filter (\<lambda>v. \<not> is_null v) refs)))
                  (enumerate 0 vs) (0, []))
           | None \<Rightarrow>
               \<lparr>vr_passed = True, vr_failed_count = Some 0, vr_total_count = Some (as_i64 (out_rows out)),
                vr_message = Some (''Referential integrity check registered for '' @ quoted (c @ ''.'' @ tbl)
                  @ '' -> '' @ quoted (tbl @ ''.'' @ rc)
                  @ ''. Reference data must be provided by orchestrator for validation.''),
                vr_samples = None\<rparr>))"

definition validate_schema_match ::
  "(string list \<Rightarrow> string list) \<Rightarrow> string list \<Rightarrow> bool \<Rightarrow> 'n asset_output \<Rightarrow> 'n validation" where
  "validate_schema_match ord expected allow_extra out =
     (let actual = map fst (out_columns out);
          missing = filter (\<lambda>c. c \<notin> set actual) (ord (remdups expected));
          extra = filter (\<lambda>c. c \<notin> set expected) (ord actual);
          errors = (if missing \<noteq> [] then [''Missing columns: '' @ debug_strings missing] else [])
                 @ (if \<not> allow_extra \<and> extra \<noteq> [] then [''Unexpected columns: '' @ debug_strings extra] else []) in
      if errors = [] then vr_pass (as_i64 (out_rows out))
      else vr_failed (as_i64 (length errors)) (as_i64 (out_rows out)) (join_with ''; '' errors))"

definition execute_check ::
  "('n, 'f, 're) json_ops \<Rightarrow> (string list \<Rightarrow> string list) \<Rightarrow> ('n, 'f) check_type \<Rightarrow> 'n asset_output
     \<Rightarrow> 'n validation option" where
  "execute_check jo ord ct out =
     (case ct of
        NotNull cs \<Rightarrow> Some (validate_not_null jo cs out)
      | Unique cs \<Rightarrow> validate_unique jo cs out
      | InRange c lo hi \<Rightarrow> Some (validate_in_range jo c lo hi out)
      | Regex c pattern \<Rightarrow> Some (validate_regex jo c pattern out)
      | RowCount lo hi \<Rightarrow> Some (validate_row_count lo hi out)
      | AcceptedValues c vs \<Rightarrow> Some (validate_accepted_values jo c vs out)
      | NoDuplicateRows cs \<Rightarrow> validate_no_duplicate_rows jo cs out
      | Freshness c age \<Rightarrow> Some (vr_error ''Freshness check not yet implemented in worker'')
      | ReferentialIntegrity c tbl rc \<Rightarrow> Some (validate_referential_integrity jo c tbl rc out)
      | SchemaMatch expected allow \<Rightarrow> Some (validate_schema_match ord expected allow out)
      | Custom nm _ \<Rightarrow> Some (vr_error (''Custom check '' @ quoted (case nm of Some n \<Rightarrow> n | None \<Rightarrow> ''unnamed'')
          @ '' requires user-defined validation'')))"

text \<open>The parser of a check is derived by the library serde, and is the parameter \<open>parse\<close>.\<close>

definition validate_check ::
  "('n, 'f, 're) json_ops \<Rightarrow> (string list \<Rightarrow> string list) \<Rightarrow> ('n json \<Rightarrow> string + ('n, 'f) check_type)
     \<Rightarrow> 'n json \<Rightarrow> 'n asset_output \<Rightarrow> 'n validation option" where
  "validate_check jo ord parse doc out =
     (case parse doc of
        Inr ct \<Rightarrow> execute_check jo ord ct out
      | Inl e \<Rightarrow> Some (vr_error (''Invalid check type definition: '' @ e)))"

section \<open>What the loops compute\<close>

lemma scan_failures:
  "scan bad ivs (n, ss) =
     (n + int (length (List.map_filter (\<lambda>(i, v). bad i v) ivs)),
      ss @ take (max_failed_samples - length ss) (List.map_filter (\<lambda>(i, v). bad i v) ivs))"
proof (induction bad ivs "(n, ss)" arbitrary: n ss rule: scan.induct)
  case (1 bad)
  then show ?case by (simp add: map_filter_simps)
next
  case (2 bad i v ivs)
  show ?case
  proof (cases "bad i v")
    case None
    with 2 show ?thesis by (simp add: map_filter_simps)
  next
    case (Some s)
    then show ?thesis
      using 2 [of "n + 1" "if length ss < max_failed_samples then ss @ [s] else ss"]
      by (auto simp: count_failure_def map_filter_simps take_Cons' Suc_diff_Suc)
  qed
qed

text \<open>The rows whose key an earlier row has.\<close>

fun repeats :: "(nat \<Rightarrow> 'k) \<Rightarrow> 'k set \<Rightarrow> nat list \<Rightarrow> nat list" where
  "repeats f S [] = []"
| "repeats f S (i # is) = (if f i \<in> S then i # repeats f S is else repeats f (insert (f i) S) is)"

lemma repeats_count:
  "length (repeats f S is) + card (f ` set is - S) = length is"
proof (induction f S "is" rule: repeats.induct)
  case (2 f S i "is")
  show ?case
  proof (cases "f i \<in> S")
    case True
    with 2 show ?thesis by (simp add: insert_Diff_if)
  next
    case False
    then have "f ` set (i # is) - S = insert (f i) (f ` set is - insert (f i) S)" by auto
    moreover have "card (insert (f i) (f ` set is - insert (f i) S)) = Suc (card (f ` set is - insert (f i) S))"
      by (rule card_insert_disjoint) auto
    ultimately show ?thesis using 2 False by simp
  qed
qed simp

lemma repeats_filter:
  "sorted_wrt (<) is \<Longrightarrow>
     repeats f S is = filter (\<lambda>i. f i \<in> S \<or> (\<exists>j \<in> set is. j < i \<and> f j = f i)) is"
proof (induction "is" arbitrary: S)
  case Nil
  then show ?case by simp
next
  case (Cons i "is")
  have lt: "i < k" if "k \<in> set is" for k using Cons.prems that by simp
  have "repeats f S is = filter (\<lambda>k. f k \<in> S \<or> (\<exists>j \<in> set (i # is). j < k \<and> f j = f k)) is" if "f i \<in> S"
    using Cons.IH [of S] Cons.prems that lt by (auto intro!: filter_cong)
  moreover have "repeats f (insert (f i) S) is = filter (\<lambda>k. f k \<in> S \<or> (\<exists>j \<in> set (i # is). j < k \<and> f j = f k)) is"
    using Cons.IH [of "insert (f i) S"] Cons.prems lt by (auto intro!: filter_cong)
  moreover have "\<not> (\<exists>j \<in> set (i # is). j < i \<and> f j = f i)" using lt by fastforce
  ultimately show ?case by simp
qed

lemma repeats_upt: "repeats f {} [0..<n] = filter (\<lambda>i. \<exists>j < i. f j = f i) [0..<n]"
  by (subst repeats_filter) (auto intro!: filter_cong sorted_wrt_upt)

lemma repeats_inj: "(\<And>i j. f i = f j \<longleftrightarrow> g i = g j) \<Longrightarrow> repeats f {} [0..<n] = repeats g {} [0..<n]"
  unfolding repeats_upt by simp

lemma repeats_distinct: "repeats f {} [0..<n] = [] \<longleftrightarrow> inj_on f {..<n}"
proof -
  have "length (repeats f {} [0..<n]) + card (f ` {..<n}) = n"
    using repeats_count [of f "{}" "[0..<n]"] by (simp add: lessThan_atLeast0)
  then have "repeats f {} [0..<n] = [] \<longleftrightarrow> card (f ` {..<n}) = card {..<n}" by (auto simp flip: length_0_conv)
  then show ?thesis by (metis card_image eq_card_imp_inj_on finite_lessThan)
qed

definition take_samples :: "'n json list \<Rightarrow> 'n json list \<Rightarrow> 'n json list" where
  "take_samples ss xs = ss @ take (max_failed_samples - length ss) xs"

lemma take_samples_simps [simp]:
  "take_samples ss [] = ss"
  "length ss < max_failed_samples \<Longrightarrow> take_samples (ss @ [x]) xs = take_samples ss (x # xs)"
  "\<not> length ss < max_failed_samples \<Longrightarrow> take_samples ss xs = ss"
  by (auto simp: take_samples_def take_Cons' Suc_diff_Suc)

text \<open>\<open>keys\<close> gives the key of every row of an output whose columns all exist.\<close>

definition row_parts :: "('n, 'f, 're) json_ops \<Rightarrow> 'n asset_output \<Rightarrow> string list \<Rightarrow> nat \<Rightarrow> 'n json list" where
  "row_parts jo out cs i = map (\<lambda>c. the (get_column out c) ! i) cs"

definition rectangular :: "'n asset_output \<Rightarrow> bool" where
  "rectangular out \<longleftrightarrow> (\<forall>(c, vs) \<in> set (out_columns out). length vs = out_rows out)"

lemma rectangular_column: "rectangular out \<Longrightarrow> get_column out c = Some vs \<Longrightarrow> length vs = out_rows out"
  unfolding rectangular_def get_column_def by (drule map_of_SomeD) auto

lemma key_parts_rectangular:
  assumes "rectangular out" "i < out_rows out" "\<forall>c \<in> set cs. get_column out c \<noteq> None"
  shows "key_parts jo out i cs = Some (Inr (map (json_text jo) (row_parts jo out cs i)))"
  using assms by (induction cs) (auto simp: row_parts_def rectangular_column)

lemma key_parts_total: "rectangular out \<Longrightarrow> i < out_rows out \<Longrightarrow> key_parts jo out i cs \<noteq> None"
  by (induction cs) (auto simp: rectangular_column split: option.splits sum.splits)

lemma row_key_total: "rectangular out \<Longrightarrow> i < out_rows out \<Longrightarrow> row_key jo out i cs \<noteq> None"
  by (induction cs) (auto simp: rectangular_column split: option.splits)

lemma unique_loop_repeats:
  assumes "rectangular out" "\<forall>c \<in> set cs. get_column out c \<noteq> None" "\<forall>i \<in> set is. i < out_rows out"
    and "\<And>i. key i = join_with ''|'' (map (json_text jo) (row_parts jo out cs i))"
  shows "unique_loop jo out cs is seen (n, ss) =
     Some (Inr (n + int (length (repeats key (set seen) is)),
                take_samples ss (map (\<lambda>i. duplicate_sample jo cs i (key i)) (repeats key (set seen) is))))"
  using assms(3)
proof (induction "is" arbitrary: seen n ss)
  case Nil
  then show ?case by simp
next
  case (Cons i "is")
  then have k: "key_parts jo out i cs = Some (Inr (map (json_text jo) (row_parts jo out cs i)))"
    by (intro key_parts_rectangular assms(1,2)) simp
  show ?case
    using Cons by (simp add: k Let_def count_failure_def flip: assms(4))
qed

lemma duplicate_loop_repeats:
  assumes "\<forall>i \<in> set is. row_key jo out i cs = Some (key i)"
  shows "duplicate_loop jo out cs is seen (n, ss) =
     Some (n + int (length (repeats key (set seen) is)),
           take_samples ss (map (duplicate_row_sample jo) (repeats key (set seen) is)))"
  using assms
proof (induction "is" arbitrary: seen n ss)
  case Nil
  then show ?case by simp
next
  case (Cons i "is")
  then show ?case by (simp add: count_failure_def)
qed

section \<open>Outputs made from rows\<close>

text \<open>Walking a hash set yields each of its elements once.\<close>

definition walks :: "(string list \<Rightarrow> string list) \<Rightarrow> bool" where
  "walks ord \<longleftrightarrow> (\<forall>ks. distinct ks \<longrightarrow> mset (ord ks) = mset ks)"

lemma walks_set: "walks ord \<Longrightarrow> distinct ks \<Longrightarrow> set (ord ks) = set ks \<and> distinct (ord ks)"
  unfolding walks_def by (metis mset_eq_setD mset_eq_imp_distinct_iff)

lemma push_cell_map:
  "distinct names \<Longrightarrow> c \<in> set names \<Longrightarrow>
     push_cell c v (map (\<lambda>k. (k, vals k)) names) = Some (map (\<lambda>k. (k, (vals(c := vals c @ [v])) k)) names)"
  by (auto simp: push_cell_def)

lemma push_row_map:
  "distinct names \<Longrightarrow> distinct cs \<Longrightarrow> set cs \<subseteq> set names \<Longrightarrow>
     push_row cs row (map (\<lambda>k. (k, vals k)) names)
       = Some (map (\<lambda>k. (k, if k \<in> set cs then vals k @ [cell k row] else vals k)) names)"
proof (induction cs arbitrary: vals)
  case Nil
  then show ?case by simp
next
  case (Cons c cs)
  then have "push_row (c # cs) row (map (\<lambda>k. (k, vals k)) names)
      = push_row cs row (map (\<lambda>k. (k, (vals(c := vals c @ [cell c row])) k)) names)"
    using push_cell_map [of names c "cell c row" vals] by simp
  also have "\<dots> = Some (map (\<lambda>k. (k, if k \<in> set cs then (vals(c := vals c @ [cell c row])) k @ [cell k row]
                                     else (vals(c := vals c @ [cell c row])) k)) names)"
    using Cons by (intro Cons.IH) auto
  also have "\<dots> = Some (map (\<lambda>k. (k, if k \<in> set (c # cs) then vals k @ [cell k row] else vals k)) names)"
    using Cons.prems by auto
  finally show ?case .
qed

lemma push_rows_map:
  "distinct names \<Longrightarrow> push_rows names rows (map (\<lambda>k. (k, vals k)) names)
     = Some (map (\<lambda>k. (k, vals k @ map (cell k) rows)) names)"
proof (induction rows arbitrary: vals)
  case Nil
  then show ?case by simp
next
  case (Cons row rows)
  have "push_row names row (map (\<lambda>k. (k, vals k)) names) = Some (map (\<lambda>k. (k, vals k @ [cell k row])) names)"
    using push_row_map [OF Cons.prems Cons.prems, of row vals] by simp
  then show ?case
    using Cons.IH [OF Cons.prems, of "\<lambda>k. vals k @ [cell k row]"] by simp
qed

lemma from_rows_eq:
  assumes "walks ord" "rows \<noteq> []"
  shows "from_rows ord rows =
    Some \<lparr>out_columns = map (\<lambda>k. (k, map (cell k) rows)) (ord (all_keys rows)), out_rows = length rows\<rparr>"
proof -
  have d: "distinct (ord (all_keys rows))"
    using walks_set [OF assms(1)] by (simp add: all_keys_def)
  show ?thesis
    using assms(2) push_rows_map [OF d, of rows "\<lambda>_. []"] by (simp add: from_rows_def Let_def)
qed

lemma from_rows_total: "walks ord \<Longrightarrow> \<exists>out. from_rows ord rows = Some out"
  by (cases "rows = []", simp add: from_rows_def, simp add: from_rows_eq)

lemma from_rows_column:
  assumes "walks ord" "from_rows ord rows = Some out"
  shows "get_column out c = (if c \<in> set (all_keys rows) then Some (map (cell c) rows) else None)"
    and "out_rows out = length rows"
    and "set (map fst (out_columns out)) = set (all_keys rows)"
    and "distinct (map fst (out_columns out))"
proof -
  note ks = walks_set [OF assms(1), of "all_keys rows"]
  show "get_column out c = (if c \<in> set (all_keys rows) then Some (map (cell c) rows) else None)"
  proof (cases "rows = []")
    case True
    then show ?thesis
      using assms(2) by (auto simp: from_rows_def output_empty_def get_column_def all_keys_def)
  next
    case False
    then show ?thesis
      using assms from_rows_eq [of ord rows] ks
      by (auto simp: get_column_def all_keys_def map_of_map_restrict restrict_map_def)
  qed
  show "out_rows out = length rows" "set (map fst (out_columns out)) = set (all_keys rows)"
    "distinct (map fst (out_columns out))"
    using assms from_rows_eq [of ord rows] ks
    by (cases "rows = []"; force simp: from_rows_def output_empty_def all_keys_def comp_def)+
qed

lemma from_rows_rectangular:
  assumes "walks ord" "from_rows ord rows = Some out" shows "rectangular out"
  using assms from_rows_eq [of ord rows]
  by (cases "rows = []") (auto simp: rectangular_def from_rows_def output_empty_def)

section \<open>Properties\<close>

definition row_tuple :: "string list \<Rightarrow> 'n json list \<Rightarrow> nat \<Rightarrow> 'n json list" where
  "row_tuple cs rows i = map (\<lambda>c. cell c (rows ! i)) cs"

lemma row_parts_tuple:
  "walks ord \<Longrightarrow> from_rows ord rows = Some out \<Longrightarrow> set cs \<subseteq> set (all_keys rows) \<Longrightarrow> i < length rows \<Longrightarrow>
     row_parts jo out cs i = row_tuple cs rows i"
  by (auto simp: row_parts_def row_tuple_def from_rows_column)

lemma conclude_unfold [simp]:
  "vr_passed (conclude n f acc) = (fst acc = 0)"
  "vr_failed_count (conclude n f acc) = Some (fst acc)"
  "vr_total_count (conclude n f acc) = Some n"
  "vr_samples (conclude n f acc) = (if fst acc = 0 then None else Some (JArray (snd acc)))"
  by (simp_all add: conclude_def vr_pass_def vr_failed_with_samples_def)

lemma repeats_length:
  "int (length (repeats f {} [0..<n])) = int n - int (card (f ` {..<n}))"
  using repeats_count [of f "{}" "[0..<n]"] by (simp add: lessThan_atLeast0)

text \<open>
  C27: on an output made from rows, the check for unique columns fails exactly when two rows have
  the same values in these columns; its count is the number of rows less the number of different
  tuples, and its samples are the first ten rows whose tuple an earlier row has. The rows are
  compared by a joined text, and the joint is unambiguous.
\<close>

theorem unique_exact:
  fixes jo :: "('n, 'f, 're) json_ops"
  assumes "walks ord" "bar_delimited (json_text jo)" "from_rows ord rows = Some out"
    and "cs \<noteq> []" "set cs \<subseteq> set (all_keys rows)"
  defines "tuple \<equiv> row_tuple cs rows" and "n \<equiv> length rows"
  shows "\<exists>r. execute_check jo ord (Unique cs) out = Some r
    \<and> vr_passed r = inj_on tuple {..<n}
    \<and> vr_failed_count r = Some (int n - int (card (tuple ` {..<n})))
    \<and> vr_total_count r = Some (as_i64 n)
    \<and> vr_samples r =
        (if vr_passed r then None
         else Some (JArray (map (\<lambda>i. duplicate_sample jo cs i (join_with ''|'' (map (json_text jo) (tuple i))))
                (take 10 (filter (\<lambda>i. \<exists>j < i. tuple j = tuple i) [0..<n])))))"
proof -
  let ?key = "\<lambda>i. join_with ''|'' (map (json_text jo) (row_parts jo out cs i))"
  have cols: "\<forall>c \<in> set cs. get_column out c \<noteq> None" and rows: "out_rows out = n"
    using from_rows_column [OF assms(1,3)] assms(5) by (auto simp: n_def)
  have loop: "unique_loop jo out cs [0..<n] [] (0, []) =
      Some (Inr (int (length (repeats ?key {} [0..<n])),
                 take_samples [] (map (\<lambda>i. duplicate_sample jo cs i (?key i)) (repeats ?key {} [0..<n]))))"
    using unique_loop_repeats [OF from_rows_rectangular [OF assms(1,3)] cols, of "[0..<n]" ?key jo "[]" 0 "[]"] rows
    by simp
  have inj: "?key i = ?key j \<longleftrightarrow> row_parts jo out cs i = row_parts jo out cs j" for i j
    by (rule join_bar_inj [OF assms(2)]) (simp add: row_parts_def)
  have tup: "row_parts jo out cs i = tuple i" if "i < n" for i
    using row_parts_tuple [OF assms(1,3,5)] that by (simp add: tuple_def n_def)
  have rep: "repeats ?key {} [0..<n] = filter (\<lambda>i. \<exists>j < i. tuple j = tuple i) [0..<n]"
    unfolding repeats_upt
  proof (rule filter_cong [OF refl])
    fix i assume i: "i \<in> set [0..<n]"
    have "?key j = ?key i \<longleftrightarrow> tuple j = tuple i" if "j < i" for j
      using inj [of j i] tup [of i] tup [of j] i that by simp
    then show "(\<exists>j < i. ?key j = ?key i) = (\<exists>j < i. tuple j = tuple i)" by blast
  qed
  then have rep': "repeats ?key {} [0..<n] = repeats tuple {} [0..<n]" by (simp add: repeats_upt)
  have samples: "map (\<lambda>i. duplicate_sample jo cs i (?key i)) (repeats ?key {} [0..<n])
      = map (\<lambda>i. duplicate_sample jo cs i (join_with ''|'' (map (json_text jo) (tuple i))))
          (filter (\<lambda>i. \<exists>j < i. tuple j = tuple i) [0..<n])"
    unfolding rep by (simp add: tup)
  let ?r = "conclude (as_i64 n) (\<lambda>n. show_int n @ '' duplicate values found in columns '' @ debug_strings cs)
      (int (length (repeats ?key {} [0..<n])),
       take_samples [] (map (\<lambda>i. duplicate_sample jo cs i (?key i)) (repeats ?key {} [0..<n])))"
  have "execute_check jo ord (Unique cs) out = Some ?r"
    using loop rows assms(4) by (simp add: execute_check_def validate_unique_def)
  moreover have "vr_failed_count ?r = Some (int n - int (card (tuple ` {..<n})))"
    unfolding rep' by (simp add: repeats_length)
  moreover have "vr_passed ?r = inj_on tuple {..<n}"
    unfolding rep' using repeats_distinct [of tuple n] by simp
  moreover have "vr_samples ?r = (if vr_passed ?r then None
      else Some (JArray (map (\<lambda>i. duplicate_sample jo cs i (join_with ''|'' (map (json_text jo) (tuple i))))
             (take 10 (filter (\<lambda>i. \<exists>j < i. tuple j = tuple i) [0..<n])))))"
    unfolding samples by (simp add: take_samples_def max_failed_samples_def take_map)
  ultimately show ?thesis by auto
qed

text \<open>
  No check panics on an output made from rows, whatever the rows are: the conversion succeeds and
  all its columns have one value for each row.
\<close>

theorem checks_never_panic:
  assumes "walks ord"
  shows "\<exists>out. from_rows ord rows = Some out \<and> validate_check jo ord parse doc out \<noteq> None"
proof -
  obtain out where out: "from_rows ord rows = Some out" using from_rows_total [OF assms] by blast
  note rect = from_rows_rectangular [OF assms out]
  have u: "unique_loop jo out cs is seen acc \<noteq> None" if "\<forall>i \<in> set is. i < out_rows out" for cs "is" seen acc
    using that
  proof (induction "is" arbitrary: seen acc)
    case (Cons i "is")
    then have "key_parts jo out i cs \<noteq> None" by (intro key_parts_total [OF rect]) simp
    with Cons.IH Cons.prems show ?case
      by (simp add: Let_def del: split_paired_All split: option.splits sum.splits)
  qed simp
  have d: "duplicate_loop jo out cs is seen acc \<noteq> None" if "\<forall>i \<in> set is. i < out_rows out" for cs "is" seen acc
    using that
  proof (induction "is" arbitrary: seen acc)
    case (Cons i "is")
    then have "row_key jo out i cs \<noteq> None" by (intro row_key_total [OF rect]) simp
    with Cons.IH Cons.prems show ?case by (simp del: split_paired_All split: option.splits)
  qed simp
  have "execute_check jo ord ct out \<noteq> None" for ct
  proof (cases ct)
    case (Unique cs)
    then show ?thesis
      using u [of "[0..<out_rows out]" cs "[]" "(0, [])"]
      by (auto simp: execute_check_def validate_unique_def split: option.splits sum.splits)
  next
    case (NoDuplicateRows cs)
    then show ?thesis
      using d [of "[0..<out_rows out]" _ "[]" "(0, [])"]
      by (simp add: execute_check_def validate_no_duplicate_rows_def Let_def)
  qed (simp_all add: execute_check_def)
  then show ?thesis
    using out by (auto simp: validate_check_def split: sum.splits)
qed

lemma scan_count:
  assumes "\<And>i v. bad i v \<noteq> None \<longleftrightarrow> P v"
  shows "fst (scan bad (enumerate k vs) acc) = fst acc + int (length (filter P vs))"
proof (induction vs arbitrary: k acc)
  case (Cons v vs)
  then show ?case
    using assms [of k v] by (auto simp: count_failure_def split: option.splits)
qed simp

lemma not_null_count:
  assumes "walks ord" "from_rows ord rows = Some out"
  shows "set cs \<subseteq> set (all_keys rows) \<Longrightarrow>
    \<exists>ss. not_null_columns jo out cs acc
       = Inr (fst acc + (\<Sum>c\<leftarrow>cs. int (length (filter (\<lambda>row. cell c row = JNull) rows))), ss)"
proof (induction cs arbitrary: acc)
  case Nil
  then show ?case by (cases acc) simp
next
  case (Cons c cs)
  have null: "is_null v \<longleftrightarrow> v = JNull" for v :: "'a json" by (cases v) simp_all
  have "fst (scan (null_sample jo c) (enumerate 0 (map (cell c) rows)) acc)
      = fst acc + int (length (filter (\<lambda>v. v = JNull) (map (cell c) rows)))"
    by (rule scan_count) (simp add: null_sample_def null)
  also have "filter (\<lambda>v. v = JNull) (map (cell c) rows) = map (cell c) (filter (\<lambda>row. cell c row = JNull) rows)"
    by (simp add: filter_map comp_def)
  finally have e: "fst (scan (null_sample jo c) (enumerate 0 (map (cell c) rows)) acc)
      = fst acc + int (length (filter (\<lambda>row. cell c row = JNull) rows))" by simp
  show ?case
    using Cons.IH [of "scan (null_sample jo c) (enumerate 0 (map (cell c) rows)) acc"] Cons.prems
    by (simp add: from_rows_column [OF assms] e add.assoc)
qed

lemma json_text_inj: "bar_delimited tx \<Longrightarrow> tx v = tx w \<Longrightarrow> v = w"
  unfolding bar_delimited_def by metis

text \<open>
  The checks by value count what they are meant to count on an output made from rows: the null
  cells of the columns, and the cells whose value is not among the accepted ones. A null cell is
  never counted by the latter, whether null is accepted or not.
\<close>

theorem value_checks_exact:
  assumes "walks ord" "bar_delimited (json_text jo)" "from_rows ord rows = Some out"
    and "set cs \<subseteq> set (all_keys rows)" "c \<in> set (all_keys rows)"
  shows "(\<exists>r. execute_check jo ord (NotNull cs) out = Some r \<and>
      vr_failed_count r = Some (\<Sum>c\<leftarrow>cs. int (length (filter (\<lambda>row. cell c row = JNull) rows)))) \<and>
    (\<exists>r. execute_check jo ord (AcceptedValues c vs) out = Some r \<and>
      vr_failed_count r = Some (int (length (filter (\<lambda>row. cell c row \<noteq> JNull \<and> cell c row \<notin> set vs) rows))))"
proof
  show "\<exists>r. execute_check jo ord (NotNull cs) out = Some r \<and>
      vr_failed_count r = Some (\<Sum>c\<leftarrow>cs. int (length (filter (\<lambda>row. cell c row = JNull) rows)))"
    using not_null_count [OF assms(1,3,4), of jo "(0, [])"]
    by (auto simp: execute_check_def validate_not_null_def)
  have null: "is_null v \<longleftrightarrow> v = JNull" for v :: "'a json" by (cases v) simp_all
  have "accepted_sample jo c vs i v \<noteq> None \<longleftrightarrow> v \<noteq> JNull \<and> v \<notin> set vs" for i v
    using json_text_inj [OF assms(2)] by (auto simp: accepted_sample_def null)
  then have "fst (scan (accepted_sample jo c vs) (enumerate 0 (map (cell c) rows)) (0, []))
      = 0 + int (length (filter (\<lambda>v. v \<noteq> JNull \<and> v \<notin> set vs) (map (cell c) rows)))"
    using scan_count [of "accepted_sample jo c vs" "\<lambda>v. v \<noteq> JNull \<and> v \<notin> set vs" 0 "map (cell c) rows" "(0, [])"]
    by simp
  then show "\<exists>r. execute_check jo ord (AcceptedValues c vs) out = Some r \<and>
      vr_failed_count r = Some (int (length (filter (\<lambda>row. cell c row \<noteq> JNull \<and> cell c row \<notin> set vs) rows)))"
    using assms(5)
    by (simp add: execute_check_def validate_accepted_values_def from_rows_column [OF assms(1,3)]
        filter_map comp_def)
qed

text \<open>
  Columns that do not exist are left out of the key of \<open>no_duplicate_rows\<close>, so that a check over
  unknown columns only declares every row but the first a duplicate.
\<close>

lemma unknown_columns_duplicate:
  assumes "walks ord" "from_rows ord rows = Some out" "cs \<noteq> []" "set cs \<inter> set (all_keys rows) = {}"
  shows "\<exists>r. execute_check jo ord (NoDuplicateRows (Some cs)) out = Some r
    \<and> vr_failed_count r = Some (int (length rows - 1))"
proof -
  have "row_key jo out i cs = Some []" for i
    using assms(4) by (induction cs) (simp_all add: from_rows_column [OF assms(1,2)])
  then have "duplicate_loop jo out cs [0..<length rows] [] (0, []) =
      Some (0 + int (length (repeats (\<lambda>_. [] :: string) {} [0..<length rows])),
            take_samples [] (map (duplicate_row_sample jo) (repeats (\<lambda>_. [] :: string) {} [0..<length rows])))"
    using duplicate_loop_repeats [of "[0..<length rows]" jo out cs "\<lambda>_. []" "[]" 0 "[]"] by simp
  moreover have "length (repeats (\<lambda>_. ([] :: string)) {} [0..<length rows]) = length rows - 1"
    using repeats_count [of "\<lambda>_. ([] :: string)" "{}" "[0..<length rows]"] by (cases rows) (simp_all add: image_constant_conv)
  ultimately show ?thesis
    using assms(3) from_rows_column(2) [OF assms(1,2)]
    by (auto simp: execute_check_def validate_no_duplicate_rows_def)
qed

section \<open>Examples\<close>

text \<open>Concrete operations: natural numbers, and a pattern that is searched as it stands.\<close>

definition plain_ops :: "(nat, int, string) json_ops" where
  "plain_ops = \<lparr>json_text = compact_text, json_usize = (\<lambda>n. n), json_f64 = (\<lambda>x. JNumber (nat x)),
     as_f64 = (\<lambda>n. Some (int n)), float_less = (<), float_debug = show_int,
     regex_new = Inr, regex_match = str_contains\<rparr>"

definition sample_rows :: "nat json list" where
  "sample_rows = [json_object [(''a'', JNumber 1), (''b'', JString ''x'')],
                  json_object [(''a'', JNumber 1)],
                  json_object [(''b'', JString ''x''), (''a'', JNumber 1)]]"

lemma walks_id: "walks (\<lambda>ks. ks)"
  by (simp add: walks_def)

definition sample_output :: "nat asset_output" where
  "sample_output = \<lparr>out_columns = [(''a'', [JNumber 1, JNumber 1, JNumber 1]),
     (''b'', [JString ''x'', JNull, JString ''x''])], out_rows = 3\<rparr>"

lemma sample_facts:
  "from_rows (\<lambda>ks. ks) sample_rows = Some sample_output" "all_keys sample_rows = [''a'', ''b'']"
  "bar_delimited (json_text plain_ops)"
  by (simp_all add: sample_rows_def sample_output_def from_rows_def all_keys_def json_object_def row_keys_def
      push_cell_def cell_def plain_ops_def bar_delimited_compact_text)

lemma unique_exact_witness:
  "\<exists>r. execute_check plain_ops (\<lambda>ks. ks) (Unique [''a'', ''b'']) sample_output = Some r
    \<and> \<not> vr_passed r \<and> vr_failed_count r = Some 1"
proof -
  have c: "row_tuple [''a'', ''b''] sample_rows ` {..<3} = {[JNumber 1, JString ''x''], [JNumber 1, JNull]}"
    by (auto simp: row_tuple_def sample_rows_def json_object_def cell_def numeral_eq_Suc lessThan_Suc)
  have "\<not> inj_on (row_tuple [''a'', ''b''] sample_rows) {..<3}"
  proof
    assume "inj_on (row_tuple [''a'', ''b''] sample_rows) {..<3}"
    moreover have "row_tuple [''a'', ''b''] sample_rows 0 = row_tuple [''a'', ''b''] sample_rows 2"
      by (simp add: row_tuple_def sample_rows_def json_object_def cell_def)
    ultimately have "(0 :: nat) = 2" by (rule inj_onD) simp_all
    then show False by simp
  qed
  moreover have n: "length sample_rows = 3" by (simp add: sample_rows_def)
  ultimately show ?thesis
    using unique_exact [OF walks_id sample_facts(3,1), of "[''a'', ''b'']"] c
    by (auto simp: sample_facts(2))
qed

lemma value_checks_exact_witness:
  "\<exists>r. execute_check plain_ops (\<lambda>ks. ks) (AcceptedValues ''b'' []) sample_output = Some r \<and> vr_failed_count r = Some 2"
  using value_checks_exact [OF walks_id sample_facts(3,1), of "[]" "''b''" "[]"]
  by (simp add: sample_facts(2)) (simp add: sample_rows_def json_object_def cell_def)

lemma checks_never_panic_witness:
  "from_rows (\<lambda>ks. ks) sample_rows \<noteq> None \<and>
   (\<exists>out. validate_check plain_ops (\<lambda>ks. ks) (\<lambda>_. Inr (Unique [''b''])) JNull out \<noteq> None)"
  using checks_never_panic [OF walks_id, of sample_rows plain_ops "\<lambda>_. Inr (Unique [''b''])" JNull] by auto

text \<open>An output put together by hand can make the code panic: the columns are public.\<close>

lemma ragged_panics:
  "execute_check plain_ops ord (Unique [''a'']) \<lparr>out_columns = [(''a'', [])], out_rows = 1\<rparr> = None"
  by (simp add: execute_check_def validate_unique_def get_column_def)

end
