(* ===== verification/Pii.thy ===== *)
theory Pii
  imports Json
begin

text \<open>
  The redaction of personal data in failure samples (\<open>servo-worker/src/pii.rs\<close>). What the regular
  expressions match belongs to the library regex: \<open>rep k s r\<close> is \<open>replace_all\<close> of the pattern of
  kind \<open>k\<close> in \<open>s\<close> by \<open>r\<close>. \<open>String::truncate\<close> panics when the length is not on a character
  boundary; the result is then \<open>None\<close>.
\<close>

datatype pii_kind = Email | Ssn | CreditCard | Phone | Ipv4

record pii_config =
  redact_emails :: bool
  redact_ssn :: bool
  redact_credit_cards :: bool
  redact_phone_numbers :: bool
  redact_ip_addresses :: bool
  max_sample_length :: nat

definition pii_config_default :: pii_config where
  "pii_config_default = \<lparr>redact_emails = True, redact_ssn = True, redact_credit_cards = True,
     redact_phone_numbers = True, redact_ip_addresses = True, max_sample_length = 1000\<rparr>"

definition truncate_str :: "nat \<Rightarrow> string \<Rightarrow> string option" where
  "truncate_str n s =
     (if length s \<le> n then Some s
      else if continuation (s ! n) then None else Some (take n s))"

type_synonym replacer = "pii_kind \<Rightarrow> string \<Rightarrow> string \<Rightarrow> string"

definition redact_patterns :: "replacer \<Rightarrow> pii_config \<Rightarrow> string \<Rightarrow> string" where
  "redact_patterns rep cfg s =
     (let s1 = (if redact_emails cfg then rep Email s ''[EMAIL]'' else s);
          s2 = (if redact_ssn cfg then rep Ssn s1 ''[SSN]'' else s1);
          s3 = (if redact_credit_cards cfg then rep CreditCard s2 ''[CARD]'' else s2);
          s4 = (if redact_phone_numbers cfg then rep Phone s3 ''[PHONE]'' else s3) in
      if redact_ip_addresses cfg then rep Ipv4 s4 ''[IP]'' else s4)"

definition redact :: "replacer \<Rightarrow> pii_config \<Rightarrow> string \<Rightarrow> string option" where
  "redact rep cfg s =
     (let r = redact_patterns rep cfg s in
      if length r > max_sample_length cfg
      then map_option (\<lambda>t. t @ ''...[TRUNCATED]'') (truncate_str (max_sample_length cfg) r)
      else Some r)"

fun redact_json :: "replacer \<Rightarrow> pii_config \<Rightarrow> 'n json \<Rightarrow> 'n json option" where
  "redact_json rep cfg (JString s) = map_option JString (redact rep cfg s)"
| "redact_json rep cfg (JArray vs) = map_option JArray (those (map (redact_json rep cfg) vs))"
| "redact_json rep cfg (JObject ms) =
     map_option json_object (those (map (\<lambda>(k, v). map_option (Pair k) (redact_json rep cfg v)) ms))"
| "redact_json rep cfg v = Some v"

definition redact_samples :: "replacer \<Rightarrow> pii_config \<Rightarrow> 'n json option \<Rightarrow> 'n json option option" where
  "redact_samples rep cfg v =
     (case v of None \<Rightarrow> Some None | Some w \<Rightarrow> map_option Some (redact_json rep cfg w))"

text \<open>The strings of a document that are not names of members.\<close>

fun json_strings :: "'n json \<Rightarrow> string list" where
  "json_strings (JString s) = [s]"
| "json_strings (JArray vs) = concat (map json_strings vs)"
| "json_strings (JObject ms) = concat (map (\<lambda>(k, v). json_strings v) ms)"
| "json_strings v = []"

lemma redact_length: "redact rep cfg s = Some t \<Longrightarrow> length t \<le> max_sample_length cfg + 14"
  by (auto simp: redact_def truncate_str_def Let_def split: if_splits)

lemma those_set: "those xs = Some ys \<Longrightarrow> y \<in> set ys \<Longrightarrow> Some y \<in> set xs"
  by (induction xs arbitrary: ys) (auto split: option.splits)

lemma those_total: "those xs \<noteq> None \<longleftrightarrow> None \<notin> set xs"
  by (induction xs) (auto split: option.splits)

lemma obj_insert_set: "set (obj_insert k v ms) \<subseteq> insert (k, v) (set ms)"
  by (induction k v ms rule: obj_insert.induct) auto

lemma fold_insert_set: "set (fold (\<lambda>(k, v) ms. obj_insert k v ms) kvs ms) \<subseteq> set kvs \<union> set ms"
proof (induction kvs arbitrary: ms)
  case (Cons kv kvs)
  then show ?case
    using obj_insert_set [of "fst kv" "snd kv" ms] by (fastforce simp: case_prod_beta)
qed simp

lemma json_object_strings: "set (json_strings (json_object kvs)) \<subseteq> (\<Union>(k, v) \<in> set kvs. set (json_strings v))"
  using fold_insert_set [of kvs "[]"] by (fastforce simp: json_object_def)

lemma redact_bounded:
  assumes "redact_json rep cfg v = Some w" "s \<in> set (json_strings w)"
  shows "length s \<le> max_sample_length cfg + 14"
  using assms
proof (induction v arbitrary: w)
  case (JString t)
  then show ?case using redact_length by auto
next
  case (JArray vs)
  then obtain ws where ws: "those (map (redact_json rep cfg) vs) = Some ws" "w = JArray ws" by auto
  with JArray.prems obtain u where u: "u \<in> set ws" "s \<in> set (json_strings u)" by auto
  from those_set [OF ws(1) u(1)] obtain v where "v \<in> set vs" "redact_json rep cfg v = Some u" by auto
  with JArray.IH u(2) show ?case by blast
next
  case (JObject ms)
  then obtain kvs where kvs: "those (map (\<lambda>(k, v). map_option (Pair k) (redact_json rep cfg v)) ms) = Some kvs"
    "w = json_object kvs" by auto
  with JObject.prems(2) json_object_strings [of kvs] obtain k u where
    u: "(k, u) \<in> set kvs" "s \<in> set (json_strings u)" by fastforce
  from those_set [OF kvs(1) u(1)] obtain v where "(k, v) \<in> set ms" "redact_json rep cfg v = Some u"
    by (auto simp: eq_commute [of "Some (k, u)"])
  with JObject.IH [of "(k, v)" v u] u(2) show ?case by simp
qed auto

definition ascii :: "string \<Rightarrow> bool" where
  "ascii s \<longleftrightarrow> (\<forall>c \<in> set s. (of_char c :: nat) < 128)"

definition ascii_replacer :: "replacer \<Rightarrow> bool" where
  "ascii_replacer rep \<longleftrightarrow> (\<forall>k s r. ascii s \<longrightarrow> ascii r \<longrightarrow> ascii (rep k s r))"

lemma redact_patterns_ascii:
  assumes "ascii_replacer rep" "ascii s"
  shows "ascii (redact_patterns rep cfg s)"
proof -
  have step: "ascii (if b then rep k t r else t)" if "ascii t" "ascii r" for b k t r
    using assms(1) that by (simp add: ascii_replacer_def)
  have marks: "ascii ''[EMAIL]''" "ascii ''[SSN]''" "ascii ''[CARD]''" "ascii ''[PHONE]''" "ascii ''[IP]''"
    by (simp_all add: ascii_def)
  show ?thesis
    unfolding redact_patterns_def Let_def by (intro step assms(2) marks)
qed

lemma truncate_ascii:
  assumes "ascii s"
  shows "truncate_str n s \<noteq> None"
proof (cases "length s \<le> n")
  case False
  then have "(of_char (s ! n) :: nat) < 128" using assms by (simp add: ascii_def)
  then show ?thesis by (simp add: truncate_str_def continuation_def)
qed (simp add: truncate_str_def)

lemma redact_ascii: "ascii_replacer rep \<Longrightarrow> ascii s \<Longrightarrow> redact rep cfg s \<noteq> None"
  using truncate_ascii [OF redact_patterns_ascii] by (simp add: redact_def Let_def)

text \<open>
  A redacted document has no string longer than the limit and the mark of a truncation, and
  when the patterns keep ASCII texts ASCII, every document whose strings are ASCII is redacted
  without a panic.
\<close>

theorem redact_safe:
  assumes "ascii_replacer rep" "list_all ascii (json_strings v)"
  shows "\<exists>w. redact_json rep cfg v = Some w \<and> list_all (\<lambda>s. length s \<le> max_sample_length cfg + 14) (json_strings w)"
proof -
  have "redact_json rep cfg v \<noteq> None" using assms(2)
  proof (induction v)
    case (JString s)
    then show ?case using redact_ascii [OF assms(1)] by simp
  next
    case (JArray vs)
    then have "redact_json rep cfg v \<noteq> None" if "v \<in> set vs" for v using that by (simp add: list_all_iff)
    then have "None \<notin> set (map (redact_json rep cfg) vs)" by force
    then show ?case using those_total [of "map (redact_json rep cfg) vs"] by simp
  next
    case (JObject ms)
    have "redact_json rep cfg v \<noteq> None" if "(k, v) \<in> set ms" for k v
      using JObject.IH [of "(k, v)" v] JObject.prems that by (force simp: list_all_iff)
    then have "None \<notin> set (map (\<lambda>(k, v). map_option (Pair k) (redact_json rep cfg v)) ms)" by fastforce
    then show ?case
      using those_total [of "map (\<lambda>(k, v). map_option (Pair k) (redact_json rep cfg v)) ms"] by simp
  qed simp_all
  then obtain w where w: "redact_json rep cfg v = Some w" by blast
  have "length s \<le> max_sample_length cfg + 14" if "s \<in> set (json_strings w)" for s
    by (rule redact_bounded [OF w that])
  with w show ?thesis by (simp add: list_all_iff)
qed

definition no_patterns :: replacer where
  "no_patterns k s r = s"

lemma redact_safe_witness:
  "\<exists>w. redact_json no_patterns pii_config_default (JArray [JString ''abc'', JNumber (1 :: nat)]) = Some w
     \<and> list_all (\<lambda>s. length s \<le> max_sample_length pii_config_default + 14) (json_strings w)"
  by (rule redact_safe) (simp_all add: ascii_replacer_def no_patterns_def ascii_def)

text \<open>A text whose truncation would cut a character of two bytes makes the filter panic.\<close>

lemma truncation_panics:
  "redact no_patterns (pii_config_default\<lparr>max_sample_length := 1\<rparr>) [CHR 0xC3, CHR 0xA9] = None"
  by (simp add: redact_def redact_patterns_def no_patterns_def truncate_str_def continuation_def pii_config_default_def)

end
