(* ===== verification/Worker.thy ===== *)
theory Worker
  imports Schedule Checks Pii ExecutionLife
begin

text \<open>
  The worker's executor (\<open>servo-worker/src/executor.rs\<close>): an execution is moved to running, its assets
  are executed in the order of the plan with the quality checks of each, and its end is recorded. A
  storage call is one tick of a schedule. The libraries, the Python process, the random identifiers
  and the clocks are a parameter, the record \<open>worker\<close>. The timer of \<open>tokio::select!\<close> wins
  when a storage call of the workflow would take place at or after the deadline; the call is then not
  made. Metrics and logging are left out. A run that panics has no result, like one that never ends.
\<close>

section \<open>The environment\<close>

datatype execution_error =
    StateTransition string
  | ExecTimeout nat
  | StorageE string
  | BlockingCheckFailure uuid string string
  | InternalE string

text \<open>Its \<open>Display\<close>.\<close>

fun show_execution_error :: "execution_error \<Rightarrow> string" where
  "show_execution_error (StateTransition m) = ''State transition failed: '' @ m"
| "show_execution_error (ExecTimeout ms) = ''Execution timeout after '' @ debug_duration ms"
| "show_execution_error (StorageE m) = ''Storage error: '' @ m"
| "show_execution_error (BlockingCheckFailure a k m) = ''Blocking check failed for asset '' @ a @ '': '' @ m"
| "show_execution_error (InternalE m) = ''Internal error: '' @ m"

record payload =
  pl_execution_id :: uuid
  pl_workflow_id :: uuid
  pl_tenant_id :: tenant
  pl_idempotency_key :: "string option"
  pl_execution_plan :: "uuid list"
  pl_partition_context :: "partition_context option"

text \<open>The end of a subprocess; its exit code as \<open>Debug\<close> shows it.\<close>

record process_output =
  po_success :: bool
  po_exit_code :: string
  po_stdout :: string
  po_stderr :: string

record ('n, 'f, 're) worker =
  wk_timeout :: nat
  wk_sx :: "sqlx_error \<Rightarrow> string"
  wk_json :: "('n, 'f, 're) json_ops"
  wk_order :: "string list \<Rightarrow> string list"
  wk_document :: "string \<Rightarrow> 'n json"  \<comment> \<open>a JSON column that has been read\<close>
  wk_column :: "'n json \<Rightarrow> string"
  wk_check :: "'n json \<Rightarrow> string + ('n, 'f) check_type"
  wk_read_json :: "string \<Rightarrow> 'n json option"
  wk_replace :: replacer
  wk_context :: "partition_context \<Rightarrow> string option"
  wk_python :: "string \<Rightarrow> (string \<times> string) list \<Rightarrow> string + process_output"
  wk_fresh :: "tick list \<Rightarrow> nat \<Rightarrow> uuid"
  wk_instant :: "tick list \<Rightarrow> nat \<Rightarrow> time"
  wk_duration :: "tick list \<Rightarrow> nat \<Rightarrow> int"

definition as_tenant :: "tenant \<Rightarrow> (call \<Rightarrow> 'a) \<Rightarrow> call \<Rightarrow> 'a" where
  "as_tenant u f c = f (c\<lparr>tenant := u\<rparr>)"

text \<open>A storage call of the workflow: the error of the timer, or that of the call.\<close>

definition timed ::
  "('n, 'f, 're) worker \<Rightarrow> time \<Rightarrow> (storage_error \<Rightarrow> execution_error) \<Rightarrow> (call \<Rightarrow> db \<Rightarrow> ('a, db) outcome)
     \<Rightarrow> (execution_error + 'a) run" where
  "timed wk deadline h f ts db =
     (case ts of
        [] \<Rightarrow> None
      | t # _ \<Rightarrow>
          if deadline \<le> now (tk_call t) then Some (Inl (ExecTimeout (wk_timeout wk)), ts, db)
          else try_db h f ts db)"

definition storage_failure :: "('n, 'f, 're) worker \<Rightarrow> string \<Rightarrow> storage_error \<Rightarrow> execution_error" where
  "storage_failure wk what e = StorageE (what @ show_storage_error (wk_sx wk) e)"

section \<open>Executing an asset\<close>

text \<open>The program handed to Python, line by line.\<close>

definition newline :: string where
  "newline = [CHR 0x0A]"

definition python_code :: "string \<Rightarrow> string \<Rightarrow> string \<Rightarrow> string" where
  "python_code md fn nm = concat (map (\<lambda>l. newline @ l)
     [''import sys'', ''import json'', ''try:'',
      ''    from '' @ md @ '' import '' @ fn,
      ''    result = '' @ fn @ ''()'',
      ''    # Output as JSON for parsing'',
      ''    output = {'' @ dquoted ''status'' @ '': '' @ dquoted ''success'' @ '', '' @ dquoted ''asset'' @ '': ''
        @ dquoted nm @ '', '' @ dquoted ''result'' @ '': str(result) if result is not None else None}'',
      ''    print(json.dumps(output))'',
      ''except Exception as e:'',
      ''    import traceback'',
      ''    error_output = {'' @ dquoted ''status'' @ '': '' @ dquoted ''error'' @ '', '' @ dquoted ''asset'' @ '': ''
        @ dquoted nm @ '', '' @ dquoted ''error'' @ '': str(e), '' @ dquoted ''traceback'' @ '': traceback.format_exc()}'',
      ''    print(json.dumps(error_output), file=sys.stderr)'',
      ''    sys.exit(1)'']) @ newline"

definition python_env :: "('n, 'f, 're) worker \<Rightarrow> string \<Rightarrow> uuid \<Rightarrow> tenant \<Rightarrow> partition_context option \<Rightarrow> (string \<times> string) list" where
  "python_env wk nm a u ctx =
     [(''SERVO_ASSET_ID'', a), (''SERVO_ASSET_NAME'', nm), (''SERVO_TENANT_ID'', u)] @
     (case ctx of
        None \<Rightarrow> []
      | Some pc \<Rightarrow>
          (case wk_context wk pc of
             None \<Rightarrow> []
           | Some txt \<Rightarrow> [(''SERVO_PARTITION_CONTEXT'', txt), (''SERVO_PARTITION_KEY'', pc_key pc)]))"

text \<open>The fixed rows the checks run on, and the output made from them.\<close>

definition sample_row :: "('n, 'f, 're) json_ops \<Rightarrow> nat \<Rightarrow> string \<Rightarrow> string \<Rightarrow> nat \<Rightarrow> string \<Rightarrow> 'n json" where
  "sample_row jo i nm mail age status =
     json_object [(''id'', JNumber (json_usize jo i)), (''name'', JString nm), (''email'', JString mail),
       (''age'', JNumber (json_usize jo age)), (''status'', JString status)]"

definition sample_asset_rows :: "('n, 'f, 're) json_ops \<Rightarrow> 'n json list" where
  "sample_asset_rows jo =
     [sample_row jo 1 ''Alice'' ''alice@example.com'' 30 ''active'',
      sample_row jo 2 ''Bob'' ''bob@example.com'' 25 ''active'',
      sample_row jo 3 ''Charlie'' ''charlie@example.com'' 35 ''pending'',
      sample_row jo 4 ''Diana'' ''diana@example.com'' 28 ''active'',
      sample_row jo 5 ''Eve'' ''eve@example.com'' 32 ''inactive'']"

definition generate_sample_asset_data :: "('n, 'f, 're) worker \<Rightarrow> string \<Rightarrow> (execution_error + 'n asset_output) run" where
  "generate_sample_asset_data wk nm =
     (case from_rows (wk_order wk) (sample_asset_rows (wk_json wk)) of
        None \<Rightarrow> run_panic
      | Some out \<Rightarrow> run_return (Inr out))"

definition json_member :: "string \<Rightarrow> 'n json \<Rightarrow> 'n json option" where
  "json_member k v = (case v of JObject ms \<Rightarrow> map_of ms k | _ \<Rightarrow> None)"

definition as_str :: "'n json \<Rightarrow> string option" where
  "as_str v = (case v of JString s \<Rightarrow> Some s | _ \<Rightarrow> None)"

definition trim_text :: "string \<Rightarrow> string" where
  "trim_text s = rev (dropWhile is_whitespace (rev (dropWhile is_whitespace s)))"

definition process_failure :: "('n, 'f, 're) worker \<Rightarrow> string \<Rightarrow> process_output \<Rightarrow> execution_error" where
  "process_failure wk nm po =
     InternalE (''Asset '' @ quoted nm @ '' execution failed'' @
       (case wk_read_json wk (po_stderr po) of
          Some v \<Rightarrow> '': '' @ (case Option.bind (json_member ''error'' v) as_str of Some m \<Rightarrow> m | None \<Rightarrow> ''Unknown error'')
        | None \<Rightarrow> '' with exit code '' @ po_exit_code po @ '': '' @ trim_text (po_stderr po)))"

definition execute_python_asset ::
  "('n, 'f, 're) worker \<Rightarrow> string \<Rightarrow> string \<Rightarrow> string \<Rightarrow> uuid \<Rightarrow> tenant \<Rightarrow> partition_context option
     \<Rightarrow> (execution_error + 'n asset_output) run" where
  "execute_python_asset wk nm md fn a u ctx =
     (case wk_python wk (python_code md fn nm) (python_env wk nm a u ctx) of
        Inl e \<Rightarrow> run_return (Inl (InternalE (''Failed to spawn Python process: '' @ e)))
      | Inr po \<Rightarrow>
          if \<not> po_success po then run_return (Inl (process_failure wk nm po))
          else generate_sample_asset_data wk nm)"

definition execute_asset ::
  "('n, 'f, 're) worker \<Rightarrow> time \<Rightarrow> uuid \<Rightarrow> tenant \<Rightarrow> partition_context option \<Rightarrow> (execution_error + 'n asset_output) run" where
  "execute_asset wk deadline a u ctx =
     run_ok (timed wk deadline (storage_failure wk ''Failed to fetch asset: '') (as_tenant u (\<lambda>c. get_asset c a)))
       (\<lambda>row.
          case (ar_compute_fn_module row, ar_compute_fn_function row) of
            (Some md, Some fn) \<Rightarrow> execute_python_asset wk (ar_name row) md fn a u ctx
          | _ \<Rightarrow> generate_sample_asset_data wk (ar_name row))"

section \<open>Checking its output\<close>

record 'n check_report =
  rp_passed :: bool
  rp_skipped :: bool
  rp_failed_count :: "int option"
  rp_total_count :: "int option"
  rp_error_message :: "string option"
  rp_failed_samples :: "'n json option"

definition report_outcome :: "'n check_report \<Rightarrow> string" where
  "report_outcome r = (if rp_skipped r then ''skipped'' else if rp_passed r then ''passed'' else ''failed'')"

definition report_of :: "'n validation \<Rightarrow> 'n check_report" where
  "report_of v =
     (if vr_message v \<noteq> None \<and> vr_failed_count v = None
      then \<lparr>rp_passed = False, rp_skipped = True, rp_failed_count = None, rp_total_count = None,
            rp_error_message = vr_message v, rp_failed_samples = None\<rparr>
      else if vr_passed v
      then \<lparr>rp_passed = True, rp_skipped = False, rp_failed_count = vr_failed_count v,
            rp_total_count = vr_total_count v, rp_error_message = None, rp_failed_samples = None\<rparr>
      else \<lparr>rp_passed = False, rp_skipped = False, rp_failed_count = vr_failed_count v,
            rp_total_count = vr_total_count v, rp_error_message = vr_message v,
            rp_failed_samples = vr_samples v\<rparr>)"

definition run_check :: "('n, 'f, 're) worker \<Rightarrow> check_row \<Rightarrow> 'n asset_output \<Rightarrow> 'n check_report option" where
  "run_check wk k out =
     map_option report_of (validate_check (wk_json wk) (wk_order wk) (wk_check wk) (wk_document wk (ck_check_type k)) out)"

text \<open>The result of the \<open>n\<close>-th check, made at the point \<open>ts\<close> of the schedule.\<close>

definition result_row ::
  "('n, 'f, 're) worker \<Rightarrow> tick list \<Rightarrow> nat \<Rightarrow> tenant \<Rightarrow> uuid \<Rightarrow> uuid \<Rightarrow> check_row \<Rightarrow> 'n check_report
     \<Rightarrow> check_result_row option" where
  "result_row wk ts n u x a k r =
     (case redact_samples (wk_replace wk) pii_config_default (rp_failed_samples r) of
        None \<Rightarrow> None
      | Some samples \<Rightarrow> Some
          \<lparr>cr_id = wk_fresh wk ts n, cr_check_id = ck_id k, cr_execution_id = x, cr_asset_id = a,
           cr_outcome = report_outcome r, cr_severity = ck_severity k, cr_blocking = ck_blocking k,
           cr_failed_row_count = rp_failed_count r, cr_total_row_count = rp_total_count r,
           cr_error_message = rp_error_message r, cr_failed_samples = map_option (wk_column wk) samples,
           cr_duration_ms = wk_duration wk ts n, cr_executed_at = wk_instant wk ts n, cr_metadata = None,
           cr_tenant_id = Some u\<rparr>)"

definition check_results ::
  "('n, 'f, 're) worker \<Rightarrow> tick list \<Rightarrow> tenant \<Rightarrow> uuid \<Rightarrow> uuid \<Rightarrow> 'n asset_output \<Rightarrow> check_row list
     \<Rightarrow> check_result_row list option" where
  "check_results wk ts u x a out ks =
     those (map (\<lambda>(n, k). Option.bind (run_check wk k out) (result_row wk ts n u x a k)) (enumerate 0 ks))"

definition run_asset_checks ::
  "('n, 'f, 're) worker \<Rightarrow> time \<Rightarrow> uuid \<Rightarrow> uuid \<Rightarrow> tenant \<Rightarrow> 'n asset_output
     \<Rightarrow> (execution_error + check_result_row list) run" where
  "run_asset_checks wk deadline a x u out =
     run_ok (timed wk deadline (storage_failure wk ''Failed to fetch checks: '') (as_tenant u (\<lambda>c. list_asset_checks c a True)))
       (\<lambda>ks.
          if ks = [] then run_return (Inr [])
          else run_bind run_point (\<lambda>ts.
            case check_results wk ts u x a out ks of
              None \<Rightarrow> run_panic
            | Some rs \<Rightarrow>
                run_ok (timed wk deadline (storage_failure wk ''Failed to store check results: '')
                          (as_tenant u (\<lambda>c. create_check_results_batch c rs)))
                  (\<lambda>_. run_return (Inr rs))))"

text \<open>The name of a check for the error; a failure of the call is not an error, the timer is.\<close>

definition get_check_name :: "('n, 'f, 're) worker \<Rightarrow> time \<Rightarrow> uuid \<Rightarrow> tenant \<Rightarrow> (execution_error + string) run" where
  "get_check_name wk deadline i u =
     timed wk deadline (storage_failure wk [])
       (\<lambda>c db. case as_tenant u (\<lambda>c. get_asset_check c i) c db of
          (Inr k, db') \<Rightarrow> (Inr (ck_name k), db')
        | (Inl _, db') \<Rightarrow> (Inr (''check-'' @ i), db'))"

section \<open>Executing a plan\<close>

definition blocks :: "check_result_row \<Rightarrow> bool" where
  "blocks r \<longleftrightarrow> cr_blocking r \<and> cr_outcome r = ''failed''"

definition blocking_failure ::
  "('n, 'f, 're) worker \<Rightarrow> time \<Rightarrow> uuid \<Rightarrow> tenant \<Rightarrow> check_result_row \<Rightarrow> (execution_error + unit) run" where
  "blocking_failure wk deadline a u r =
     run_ok (get_check_name wk deadline (cr_check_id r) u) (\<lambda>nm.
       run_return (Inl (BlockingCheckFailure a nm (case cr_error_message r of Some m \<Rightarrow> m | None \<Rightarrow> ''Check failed''))))"

fun execute_plan ::
  "('n, 'f, 're) worker \<Rightarrow> time \<Rightarrow> payload \<Rightarrow> uuid list \<Rightarrow> (execution_error + unit) run" where
  "execute_plan wk deadline pl [] = run_return (Inr ())"
| "execute_plan wk deadline pl (a # as) =
     run_ok (execute_asset wk deadline a (pl_tenant_id pl) (pl_partition_context pl)) (\<lambda>out.
     run_ok (run_asset_checks wk deadline a (pl_execution_id pl) (pl_tenant_id pl) out) (\<lambda>rs.
       case find blocks rs of
         Some r \<Rightarrow> blocking_failure wk deadline a (pl_tenant_id pl) r
       | None \<Rightarrow> execute_plan wk deadline pl as))"

definition execute_workflow :: "('n, 'f, 're) worker \<Rightarrow> time \<Rightarrow> payload \<Rightarrow> (execution_error + unit) run" where
  "execute_workflow wk deadline pl = execute_plan wk deadline pl (pl_execution_plan pl)"

section \<open>Transitions of the execution\<close>

text \<open>
  The transitions of the orchestrator as runs: the read and the write are two ticks. The instant of
  the write is returned.
\<close>

definition run_transition ::
  "(sqlx_error \<Rightarrow> string) \<Rightarrow> tenant \<Rightarrow> uuid \<Rightarrow> execution_state \<Rightarrow> execution_state \<Rightarrow> (runtime_error + time) run" where
  "run_transition sx u i from to =
     (if \<not> is_valid_transition from to
      then run_return (Inl (Execution (''Invalid state transition from '' @ debug_state from @ '' to '' @ debug_state to)))
      else run_ok (try_db (map_storage_error sx ''Failed to get execution'') (as_tenant u (\<lambda>c. get_execution c i))) (\<lambda>x.
        case parse_state (x_state x) of
          Inl e \<Rightarrow> run_return (Inl e)
        | Inr cur \<Rightarrow>
            if cur \<noteq> from
            then run_return (Inl (Execution (''State mismatch: expected '' @ debug_state from @ '', got '' @ debug_state cur)))
            else try_db (map_storage_error sx ''Failed to update execution'')
                   (\<lambda>c db. case as_tenant u (\<lambda>c. update_execution c (moved to (now c) x)) c db of
                      (Inl e, db') \<Rightarrow> (Inl e, db') | (Inr _, db') \<Rightarrow> (Inr (now c), db'))))"

definition run_failure :: "(sqlx_error \<Rightarrow> string) \<Rightarrow> tenant \<Rightarrow> uuid \<Rightarrow> string \<Rightarrow> (runtime_error + unit) run" where
  "run_failure sx u i err =
     run_ok (try_db (map_storage_error sx ''Failed to get execution'') (as_tenant u (\<lambda>c. get_execution c i))) (\<lambda>x.
       case parse_state (x_state x) of
         Inl e \<Rightarrow> run_return (Inl e)
       | Inr cur \<Rightarrow>
           if \<not> is_valid_transition cur Failed
           then run_return (Inl (Execution (''Cannot transition to Failed from state '' @ debug_state cur)))
           else try_db (map_storage_error sx ''Failed to record failure'')
                  (as_tenant u (\<lambda>c. update_execution c
                     (x\<lparr>x_state := state_string Failed, x_error_message := Some err,
                        x_completed_at := Some (now c), x_updated_at := now c\<rparr>))))"

section \<open>The whole execution\<close>

definition state_error :: "string \<Rightarrow> runtime_error \<Rightarrow> execution_error" where
  "state_error what e = StateTransition (what @ show_error e)"

definition finish ::
  "('n, 'f, 're) worker \<Rightarrow> payload \<Rightarrow> execution_error + unit \<Rightarrow> (execution_error + unit) run" where
  "finish wk pl r =
     (let u = pl_tenant_id pl; i = pl_execution_id pl in
      case r of
        Inr _ \<Rightarrow>
          run_ok (run_map_error (state_error ''Failed to mark success: '') (run_transition (wk_sx wk) u i Running Succeeded))
            (\<lambda>_. run_return (Inr ()))
      | Inl (ExecTimeout d) \<Rightarrow>
          run_ok (run_map_error (state_error ''Failed to mark timeout: '') (run_transition (wk_sx wk) u i Running TimedOut))
            (\<lambda>_. run_map_error (state_error ''Failed to record timeout: '')
               (run_failure (wk_sx wk) u i (''Execution timeout after '' @ debug_duration d)))
      | Inl e \<Rightarrow> run_map_error (state_error ''Failed to record failure: '') (run_failure (wk_sx wk) u i (show_execution_error e)))"

definition execute :: "('n, 'f, 're) worker \<Rightarrow> payload \<Rightarrow> (execution_error + unit) run" where
  "execute wk pl =
     run_ok (run_map_error (state_error ''Failed to start: '')
         (run_transition (wk_sx wk) (pl_tenant_id pl) (pl_execution_id pl) Pending Running)) (\<lambda>started.
     run_bind (execute_workflow wk (started + int (wk_timeout wk)) pl) (finish wk pl))"

text \<open>
  A scheduled execution: the orchestrator of the worker has no task queue, and the plan of the payload
  is empty.
\<close>

definition workflow_not_found :: "('n, 'f, 're) worker \<Rightarrow> uuid \<Rightarrow> tenant \<Rightarrow> storage_error \<Rightarrow> execution_error" where
  "workflow_not_found wk w u e =
     InternalE (''Workflow '' @ w @ '' not found or not accessible for tenant '' @ u @ '': '' @ show_storage_error (wk_sx wk) e)"

definition run_start :: "('n, 'f, 're) worker \<Rightarrow> tenant \<Rightarrow> uuid \<Rightarrow> (execution_error + uuid) run" where
  "run_start wk u w ts =
     run_map_error (\<lambda>e. InternalE (''Failed to start execution: '' @ show_error e))
       (perform (as_tenant u (\<lambda>c db. case start_execution (wk_sx wk) None (wk_fresh wk ts 0) c w None db of
          (r, _, db') \<Rightarrow> (r, db')))) ts"

definition scheduled_payload :: "uuid \<Rightarrow> uuid \<Rightarrow> tenant \<Rightarrow> payload" where
  "scheduled_payload i w u = \<lparr>pl_execution_id = i, pl_workflow_id = w, pl_tenant_id = u,
     pl_idempotency_key = None, pl_execution_plan = [], pl_partition_context = None\<rparr>"

definition execute_scheduled :: "('n, 'f, 're) worker \<Rightarrow> uuid \<Rightarrow> tenant \<Rightarrow> (execution_error + uuid) run" where
  "execute_scheduled wk w u =
     run_ok (try_db (workflow_not_found wk w u) (as_tenant u (\<lambda>c. get_workflow c w))) (\<lambda>row.
       if wr_schedule_enabled row \<noteq> Some True
       then run_return (Inl (InternalE ''Workflow schedule is disabled''))
       else run_ok (run_start wk u w) (\<lambda>i.
              run_ok (execute wk (scheduled_payload i w u)) (\<lambda>_. run_return (Inr i))))"

section \<open>What the worker writes\<close>

lemma step_as_tenant [run_intros]: "step_op f \<Longrightarrow> step_op (as_tenant u f)"
  by (simp add: step_op_def as_tenant_def)

lemma writes_timed [run_intros]:
  assumes "step_op f"
  shows "writes (timed wk d h f)"
  unfolding writes_def
proof (intro allI impI)
  fix ts db a ts' db' assume r: "timed wk d h f ts db = Some (a, ts', db')"
  then obtain t ts0 where ts: "ts = t # ts0" by (auto simp: timed_def split: list.splits)
  show "length ts' \<le> length ts \<and> (\<exists>ops. db' = foldl db_step db ops)"
  proof (cases "d \<le> now (tk_call t)")
    case True
    with r ts show ?thesis by (auto simp: timed_def intro: exI [of _ "[]"])
  next
    case False
    with r ts have "try_db h f ts db = Some (a, ts', db')" by (simp add: timed_def)
    then show ?thesis using writes_try [OF assms, of h] by (auto dest: writesD)
  qed
qed

lemma writes_panic [run_intros]: "writes run_panic"
  by (simp add: writes_def run_panic_def)

lemma writes_map_error [run_intros]: "writes f \<Longrightarrow> writes (run_map_error h f)"
  unfolding run_map_error_def by (intro run_intros)

lemma writes_sample [run_intros]: "writes (generate_sample_asset_data wk nm)"
  unfolding generate_sample_asset_data_def by (intro run_intros)

lemma writes_asset [run_intros]: "writes (execute_asset wk d a u ctx)"
  unfolding execute_asset_def execute_python_asset_def by (intro run_intros)

lemma writes_checks [run_intros]: "writes (run_asset_checks wk d a x u out)"
  unfolding run_asset_checks_def by (intro run_intros)

lemma step_same: "step_op f \<Longrightarrow> (\<And>c db. snd (g c db) = snd (f c db)) \<Longrightarrow> step_op g"
  by (simp add: step_op_def)

lemma step_update [run_intros]: "step_op (\<lambda>c. update_execution c (y c))"
  by (rule step_write [of _ "\<lambda>c. Meta c (Update_execution (y c))"]) simp

lemma writes_name [run_intros]: "writes (get_check_name wk d i u)"
  unfolding get_check_name_def
  by (intro writes_timed, rule step_same [of "as_tenant u (\<lambda>c. get_asset_check c i)"])
     (intro run_intros, auto split: prod.splits sum.splits)

lemma step_moved [run_intros]:
  "step_op (\<lambda>c db. case as_tenant u (\<lambda>c. update_execution c (moved t (now c) x)) c db of
     (Inl e, db') \<Rightarrow> (Inl e, db') | (Inr _, db') \<Rightarrow> (Inr (now c), db'))"
  by (rule step_same [of "as_tenant u (\<lambda>c. update_execution c (moved t (now c) x))"])
     (intro run_intros, auto split: prod.splits sum.splits)

lemma writes_transition [run_intros]: "writes (run_transition sx u i s t)"
  unfolding run_transition_def by (intro run_intros)

lemma writes_failure [run_intros]: "writes (run_failure sx u i m)"
  unfolding run_failure_def by (intro run_intros)

lemma writes_blocking [run_intros]: "writes (blocking_failure wk d a u r)"
  unfolding blocking_failure_def by (intro run_intros)

lemma writes_plan [run_intros]: "writes (execute_plan wk d pl as)"
proof (induction as)
  case (Cons a as)
  then show ?case unfolding execute_plan.simps by (intro run_intros)
qed (simp add: writes_return)

lemma writes_finish [run_intros]: "writes (finish wk pl r)"
  unfolding finish_def Let_def by (cases r; simp; (cases "projl r")?; simp; intro run_intros)

lemma writes_worker [run_intros]: "writes (execute wk pl)"
  unfolding execute_def execute_workflow_def by (intro run_intros)

lemma step_start_plain [run_intros]:
  "step_op (\<lambda>c db. case start_execution sx None fresh c w None db of (r, _, db') \<Rightarrow> (r, db'))"
  by (rule step_write [of _ "\<lambda>c. Meta c (Create_execution (new_execution fresh c w None))"])
     (auto simp: start_execution_def start_execution_with_def Let_def split: prod.splits sum.splits option.splits)

lemma writes_run_start [run_intros]: "writes (run_start wk u w)"
  unfolding run_start_def by (rule writes_at) (intro run_intros)

lemma writes_scheduled: "writes (execute_scheduled wk w u)"
  unfolding execute_scheduled_def by (intro run_intros)

end
