(* ===== verification/LocalRun.thy ===== *)
theory LocalRun
  imports Worker
begin

text \<open>
  The local executor (\<open>servo-runtime/src/local_executor.rs\<close>), which runs the assets of a workflow as
  Python processes of the calling process. A storage call is one tick of a schedule. The processes,
  the fresh identifiers, the set of cancelled executions at a point of the schedule (other tasks add
  to it) and the configuration are a parameter, the record \<open>local\<close>. Metrics and logs are left out.
\<close>

section \<open>Names of Python functions\<close>

definition identifier_start :: "char \<Rightarrow> bool" where
  "identifier_start c \<longleftrightarrow>
     (let n = (of_char c :: nat) in 65 \<le> n \<and> n \<le> 90 \<or> 97 \<le> n \<and> n \<le> 122 \<or> n = 95)"

definition identifier_char :: "char \<Rightarrow> bool" where
  "identifier_char c \<longleftrightarrow> identifier_start c \<or> (let n = (of_char c :: nat) in 48 \<le> n \<and> n \<le> 57 \<or> n = 46)"

definition python_identifier_pattern :: "string \<Rightarrow> bool" where
  "python_identifier_pattern s = (case s of [] \<Rightarrow> False | c # cs \<Rightarrow> identifier_start c \<and> list_all identifier_char cs)"

definition dangerous_chars :: "char list" where
  "dangerous_chars = [CHR '';'', CHR ''|'', CHR ''&'', CHR ''$'', CHR 0x60, CHR ''('', CHR '')'', CHR ''{'', CHR ''}'',
     CHR ''<'', CHR ''>'', CHR 0x5C, CHR 0x0A, CHR 0x0D]"

definition validate_python_identifier :: "string \<Rightarrow> string \<Rightarrow> runtime_error + unit" where
  "validate_python_identifier s kind =
     (if s = [] then Inl (Execution (''Invalid '' @ kind @ '': cannot be empty''))
      else if length s > 256 then Inl (Execution (''Invalid '' @ kind @ '': exceeds maximum length of 256 characters''))
      else if \<not> python_identifier_pattern s
      then Inl (Execution (''Invalid '' @ kind @ '': '' @ quoted s @ '' contains invalid characters. ''
             @ ''Must start with letter or underscore and contain only letters, digits, underscores, and dots.''))
      else if str_contains ''..'' s
      then Inl (Execution (''Invalid '' @ kind @ '': '' @ quoted s @ '' contains path traversal sequence '' @ quoted ''..''))
      else case find (\<lambda>c. c \<in> set s) dangerous_chars of
        Some c \<Rightarrow> Inl (Execution (''Invalid '' @ kind @ '': '' @ quoted s @ '' contains forbidden character '' @ quoted [c]))
      | None \<Rightarrow> Inr ())"

text \<open>The last bytes of a text; a cut inside a character is a panic.\<close>

definition truncate_end :: "string \<Rightarrow> nat \<Rightarrow> string option" where
  "truncate_end s n =
     (if length s \<le> n then Some s
      else let start = length s - n in
        if continuation (s ! start) then None else Some (''...'' @ drop start s))"

section \<open>The executor\<close>

text \<open>How a process ends; the outputs are cut to the limit and decoded.\<close>

datatype process_end =
    SpawnFailed string
  | IoFailed string
  | ProcessTimeout
  | Exited bool "int option" string string

record local_config =
  python_path :: string
  working_dir :: string
  timeout_seconds :: nat
  env_vars :: "(string \<times> string) list"

record 'n local =
  lx_tenant :: tenant
  lx_config :: local_config
  lx_sx :: "sqlx_error \<Rightarrow> string"
  lx_read_json :: "string \<Rightarrow> 'n json option"
  lx_process :: "nat \<Rightarrow> local_config \<Rightarrow> string \<Rightarrow> (string \<times> string) list \<Rightarrow> process_end"
  lx_fresh :: "tick list \<Rightarrow> uuid"
  lx_cancelled :: "tick list \<Rightarrow> nat \<Rightarrow> uuid \<Rightarrow> bool"

definition config_default :: "string option \<Rightarrow> local_config" where
  "config_default cwd = \<lparr>python_path = ''python3'', working_dir = (case cwd of Some d \<Rightarrow> d | None \<Rightarrow> ''.''),
     timeout_seconds = 3600, env_vars = []\<rparr>"

record execution_result =
  er_execution_id :: uuid
  er_success :: bool
  er_error :: "string option"

definition as_local :: "'n local \<Rightarrow> (call \<Rightarrow> 'a) \<Rightarrow> call \<Rightarrow> 'a" where
  "as_local lx f = as_tenant (lx_tenant lx) f"

definition local_error :: "'n local \<Rightarrow> string \<Rightarrow> storage_error \<Rightarrow> runtime_error" where
  "local_error lx what e = InternalR (what @ show_storage_error (lx_sx lx) e)"

section \<open>Executing an asset\<close>

definition local_code :: "string \<Rightarrow> string \<Rightarrow> string \<Rightarrow> string" where
  "local_code md fn nm = concat (map (\<lambda>l. newline @ l)
     [''import sys'', ''import json'', [], ''try:'',
      ''    from '' @ md @ '' import '' @ fn,
      ''    result = '' @ fn @ ''()'',
      ''    print(json.dumps({'' @ dquoted ''status'' @ '': '' @ dquoted ''success'' @ '', '' @ dquoted ''asset'' @ '': ''
        @ dquoted nm @ '', '' @ dquoted ''result'' @ '': str(result) if result is not None else None}))'',
      ''except Exception as e:'',
      ''    import traceback'',
      ''    print(json.dumps({'' @ dquoted ''status'' @ '': '' @ dquoted ''error'' @ '', '' @ dquoted ''asset'' @ '': ''
        @ dquoted nm @ '', '' @ dquoted ''error'' @ '': str(e), '' @ dquoted ''traceback''
        @ '': traceback.format_exc()}), file=sys.stderr)'',
      ''    sys.exit(1)'']) @ newline"

text \<open>Later variables replace earlier ones of the same name.\<close>

definition local_env :: "'n local \<Rightarrow> asset_row \<Rightarrow> uuid \<Rightarrow> (string \<times> string) list" where
  "local_env lx a x = env_vars (lx_config lx) @
     [(''SERVO_EXECUTION_ID'', x), (''SERVO_ASSET_ID'', ar_id a), (''SERVO_ASSET_NAME'', ar_name a),
      (''SERVO_TENANT_ID'', lx_tenant lx)]"

definition no_function :: "asset_row \<Rightarrow> string \<Rightarrow> string \<Rightarrow> runtime_error" where
  "no_function a field what = Execution (''Asset '' @ quoted (ar_name a) @ '' has no '' @ field @ '' - cannot execute.''
     @ newline @ ''Set '' @ field @ '' in the asset definition to specify the Python '' @ what @ ''.'')"

definition exit_error :: "'n local \<Rightarrow> asset_row \<Rightarrow> int option \<Rightarrow> string \<Rightarrow> string \<Rightarrow> runtime_error option" where
  "exit_error lx a code out err =
     (let msg = (case lx_read_json lx err of
                   Some v \<Rightarrow> (case Option.bind (json_member ''error'' v) as_str of Some m \<Rightarrow> m | None \<Rightarrow> err)
                 | None \<Rightarrow> err) in
      case (truncate_end out 500, truncate_end err 500) of
        (Some out', Some err') \<Rightarrow> Some (Execution (''Asset '' @ quoted (ar_name a) @ '' failed (exit code ''
           @ show_int (case code of Some n \<Rightarrow> n | None \<Rightarrow> -1) @ ''):'' @ newline @ msg @ newline @ newline
           @ ''Stdout (last 500 chars):'' @ newline @ out' @ newline @ newline
           @ ''Stderr (last 500 chars):'' @ newline @ err'))
      | _ \<Rightarrow> None)"

definition timeout_error :: "'n local \<Rightarrow> asset_row \<Rightarrow> runtime_error" where
  "timeout_error lx a =
     (let secs = show_nat (timeout_seconds (lx_config lx)) in
      Timeout (''Asset '' @ quoted (ar_name a) @ '' timed out after '' @ secs @ '' seconds.'' @ newline @ newline
        @ ''This usually means:'' @ newline
        @ ''1. The Python function is hanging (check for infinite loops)'' @ newline
        @ ''2. The function is processing too much data'' @ newline
        @ ''3. The timeout is too aggressive (current: '' @ secs @ ''s)'' @ newline @ newline
        @ ''Consider increasing timeout_seconds in LocalExecutorConfig.''))"

text \<open>The \<open>n\<close>-th asset of an execution; a panic has no result.\<close>

definition execute_asset_python :: "'n local \<Rightarrow> nat \<Rightarrow> asset_row \<Rightarrow> uuid \<Rightarrow> (runtime_error + unit) option" where
  "execute_asset_python lx n a x =
     (case ar_compute_fn_module a of
        None \<Rightarrow> Some (Inl (no_function a ''compute_fn_module'' ''module''))
      | Some md \<Rightarrow>
      (case ar_compute_fn_function a of
        None \<Rightarrow> Some (Inl (no_function a ''compute_fn_function'' ''function''))
      | Some fn \<Rightarrow>
      (case validate_python_identifier md ''compute_fn_module'' of Inl e \<Rightarrow> Some (Inl e) | Inr _ \<Rightarrow>
      (case validate_python_identifier fn ''compute_fn_function'' of Inl e \<Rightarrow> Some (Inl e) | Inr _ \<Rightarrow>
      (case lx_process lx n (lx_config lx) (local_code md fn (ar_name a)) (local_env lx a x) of
        SpawnFailed e \<Rightarrow> Some (Inl (Execution (''Failed to spawn Python process for asset '' @ quoted (ar_name a) @ '': '' @ e
          @ newline @ ''Verify that '' @ quoted (python_path (lx_config lx)) @ '' is installed and accessible.'')))
      | Exited ok code out err \<Rightarrow> (if ok then Some (Inr ()) else map_option Inl (exit_error lx a code out err))
      | IoFailed e \<Rightarrow> Some (Inl (Execution (''I/O error during asset '' @ quoted (ar_name a) @ '' execution: '' @ e)))
      | ProcessTimeout \<Rightarrow> Some (Inl (timeout_error lx a)))))))"

section \<open>Executing a workflow\<close>

definition was_cancelled :: runtime_error where
  "was_cancelled = Execution ''Execution was cancelled''"

fun run_assets :: "'n local \<Rightarrow> uuid \<Rightarrow> nat \<Rightarrow> asset_row list \<Rightarrow> (runtime_error + unit) run" where
  "run_assets lx x n [] = run_return (Inr ())"
| "run_assets lx x n (a # as) = run_bind run_point (\<lambda>ts.
     if lx_cancelled lx ts (Suc n) x then run_return (Inl was_cancelled)
     else case execute_asset_python lx n a x of
       None \<Rightarrow> run_panic
     | Some (Inl e) \<Rightarrow> run_return (Inl e)
     | Some (Inr _) \<Rightarrow> run_assets lx x (Suc n) as)"

definition run_workflow_locally :: "'n local \<Rightarrow> uuid \<Rightarrow> uuid \<Rightarrow> (runtime_error + execution_result) run" where
  "run_workflow_locally lx w x = run_bind run_point (\<lambda>ts.
     if lx_cancelled lx ts 0 x then run_return (Inl was_cancelled)
     else run_ok (try_db (\<lambda>e. NotFoundR (''Workflow not found: '' @ show_storage_error (lx_sx lx) e))
            (as_local lx (\<lambda>c. get_workflow c w))) (\<lambda>_.
          run_ok (try_db (local_error lx ''Failed to get workflow assets: '') (as_local lx (\<lambda>c. get_workflow_assets c w))) (\<lambda>as.
          run_ok (run_assets lx x 0 as) (\<lambda>_.
            run_return (Inr \<lparr>er_execution_id = x, er_success = True, er_error = None\<rparr>)))))"

definition state_update :: "string \<Rightarrow> string option \<Rightarrow> time \<Rightarrow> execution_row \<Rightarrow> execution_row" where
  "state_update s msg t x =
     (let x1 = x\<lparr>x_state := s, x_updated_at := t\<rparr>;
          x2 = (if s = ''running'' then x1\<lparr>x_started_at := Some t\<rparr>
                else if s \<in> {''succeeded'', ''failed'', ''cancelled''} then x1\<lparr>x_completed_at := Some t\<rparr> else x1) in
      case msg of None \<Rightarrow> x2 | Some m \<Rightarrow> x2\<lparr>x_error_message := Some m\<rparr>)"

definition update_execution_state :: "'n local \<Rightarrow> uuid \<Rightarrow> string \<Rightarrow> string option \<Rightarrow> (runtime_error + unit) run" where
  "update_execution_state lx i s msg =
     run_ok (try_db (local_error lx ''Failed to get execution: '') (as_local lx (\<lambda>c. get_execution c i))) (\<lambda>x.
       try_db (local_error lx ''Failed to update execution: '')
         (as_local lx (\<lambda>c. update_execution c (state_update s msg (now c) x))))"

text \<open>The row is created with the identifier and the clock of the call.\<close>

definition execute_with_idempotency :: "'n local \<Rightarrow> uuid \<Rightarrow> string option \<Rightarrow> (runtime_error + execution_result) run" where
  "execute_with_idempotency lx w key = run_bind run_point (\<lambda>ts.
     run_ok (try_db (local_error lx ''Failed to create execution: '')
         (as_local lx (\<lambda>c. create_execution_or_get_existing c (new_execution (lx_fresh lx ts) c w key)))) (\<lambda>(i, was_created).
     if \<not> was_created
     then run_ok (try_db (local_error lx ''Failed to get execution: '') (as_local lx (\<lambda>c. get_execution c i))) (\<lambda>x.
            run_return (Inr \<lparr>er_execution_id = i, er_success = (x_state x = ''succeeded''), er_error = x_error_message x\<rparr>))
     else run_ok (update_execution_state lx i ''running'' None) (\<lambda>_.
          run_bind (run_workflow_locally lx w i) (\<lambda>r. case r of
            Inr res \<Rightarrow> run_ok (update_execution_state lx i ''succeeded'' None) (\<lambda>_. run_return (Inr res))
          | Inl e \<Rightarrow> run_ok (update_execution_state lx i ''failed'' (Some (show_error e))) (\<lambda>_. run_return (Inl e))))))"

definition local_execute :: "'n local \<Rightarrow> uuid \<Rightarrow> (runtime_error + execution_result) run" where
  "local_execute lx w = execute_with_idempotency lx w None"

section \<open>Cancelling and watching\<close>

text \<open>The write of a cancellation; the flag in memory is part of the parameter.\<close>

definition local_cancel :: "'n local \<Rightarrow> uuid \<Rightarrow> (runtime_error + unit) run" where
  "local_cancel lx i =
     run_bind (perform (as_local lx (\<lambda>c. get_execution c i))) (\<lambda>r. case r of
       Inl _ \<Rightarrow> run_return (Inr ())
     | Inr x \<Rightarrow>
         if x_state x \<notin> {''succeeded'', ''failed'', ''cancelled''}
         then try_db (local_error lx ''Failed to cancel execution: '')
                (as_local lx (\<lambda>c. update_execution c
                   (x\<lparr>x_state := ''cancelled'', x_completed_at := Some (now c), x_updated_at := now c\<rparr>)))
         else run_return (Inr ()))"

definition local_status :: "'n local \<Rightarrow> uuid \<Rightarrow> (runtime_error + execution_result) run" where
  "local_status lx i =
     run_ok (try_db (\<lambda>e. NotFoundR (''Execution not found: '' @ show_storage_error (lx_sx lx) e))
         (as_local lx (\<lambda>c. get_execution c i))) (\<lambda>x.
       run_return (Inr \<lparr>er_execution_id = i, er_success = (x_state x = ''succeeded''),
         er_error = (if x_state x = ''failed'' then x_error_message x else None)\<rparr>))"

definition get_execution_details :: "'n local \<Rightarrow> uuid \<Rightarrow> (runtime_error + execution_row) run" where
  "get_execution_details lx i = try_db (local_error lx ''Failed to get execution: '') (as_local lx (\<lambda>c. get_execution c i))"

end
