(* ===== verification/WorkerLife.thy ===== *)
theory WorkerLife
  imports Worker "HOL-Library.Sublist"
begin

text \<open>
  What the worker's executor guarantees. On any schedule it keeps the database intact and, when its
  libraries do not panic, returns after a bounded number of storage calls. On a schedule without
  interference the quality checks gate the plan exactly, and the end of the execution is recorded.
\<close>

section \<open>Integrity\<close>

lemma worker_keeps_db:
  assumes "db_ok db" "execute wk pl ts db = Some (r, ts', db') \<or> execute_scheduled wk w u ts db = Some (q, ts', db')"
  shows "db_ok db'"
proof -
  have "\<exists>ops. db' = foldl db_step db ops"
    using assms(2) writesD [OF writes_worker, of wk pl ts db r ts' db']
      writesD [OF writes_scheduled, of wk w u ts db q ts' db'] by blast
  with steps_db_ok [OF assms(1)] show ?thesis by auto
qed

section \<open>Calls of a calm schedule\<close>

lemma as_tenant_calm [simp]: "calm u t \<Longrightarrow> as_tenant u f (tk_call t) = f (tk_call t)"
  by (auto simp: as_tenant_def calm_def)

lemma get_asset_db: "get_asset c a db = (r, db') \<Longrightarrow> db' = db"
  unfolding get_asset_def by (drule with_tenant_context_db) (auto split: option.splits)

lemma timed_calm:
  assumes "list_all (calm u) ts" "timed wk d h f ts db = Some (r, ts', db')"
  shows "suffix ts' ts \<and> ((r = Inl (ExecTimeout (wk_timeout wk)) \<and> db' = db) \<or>
     (\<exists>t q. calm u t \<and> f (tk_call t) db = (q, db') \<and> r = map_sum h id q))"
proof -
  from assms(2) obtain t ts0 where ts: "ts = t # ts0" by (cases ts) (auto simp: timed_def)
  with assms(1) have t: "calm u t" by simp
  show ?thesis
  proof (cases "d \<le> now (tk_call t)")
    case True
    with assms(2) ts show ?thesis by (auto simp: timed_def)
  next
    case False
    obtain q db1 where q: "f (tk_call t) db = (q, db1)" by fastforce
    from False assms(2) ts try_calm [of u t f db q db1 h ts0, OF t q]
    have "r = (case q of Inl e \<Rightarrow> Inl (h e) | Inr a \<Rightarrow> Inr a)" "ts' = ts0" "db' = db1"
      by (auto simp: timed_def)
    with t q ts show ?thesis by (cases q) (auto simp: suffix_def)
  qed
qed

lemma storage_not_blocking [simp]:
  "Inl (BlockingCheckFailure a nm m) \<noteq> map_sum (storage_failure wk what) h q"
  by (cases q) (simp_all add: storage_failure_def)

lemma point_bind [simp]: "run_bind run_point f ts db = f ts ts db"
  by (simp add: run_bind_def run_point_def)

lemma run_panic_None [simp]: "run_panic ts db = None"
  by (simp add: run_panic_def)

lemma try_calm_eq: "calm u t \<Longrightarrow> try_db h f (t # ts) db =
    Some (map_sum h id (fst (f (tk_call t) db)), ts, snd (f (tk_call t) db))"
  by (cases "f (tk_call t) db"; cases "fst (f (tk_call t) db)") (auto simp: try_calm)

lemma try_nil [simp]: "try_db h f [] db = None"
  by (simp add: try_db_def run_bind_def perform_def)

lemma mapped_ok_Some: "run_ok (run_map_error h f) g ts db = Some (r, ts', db') \<longleftrightarrow>
    (\<exists>e. f ts db = Some (Inl e, ts', db') \<and> r = Inl (h e)) \<or>
    (\<exists>a ts1 db1. f ts db = Some (Inr a, ts1, db1) \<and> g a ts1 db1 = Some (r, ts', db'))"
proof (cases "f ts db")
  case (Some p)
  obtain q ts1 db1 where "p = (q, ts1, db1)" by (cases p)
  with Some show ?thesis
    by (cases q) (auto simp: run_map_error_def run_ok_def run_bind_def run_return_def)
qed (simp add: run_map_error_def run_ok_def run_bind_def)

lemma calm_suffix: "suffix ts' ts \<Longrightarrow> list_all (calm u) ts \<Longrightarrow> list_all (calm u) ts'"
  by (auto simp: suffix_def)

section \<open>The checks of an asset\<close>

definition enabled_checks :: "tenant \<Rightarrow> uuid \<Rightarrow> db \<Rightarrow> check_row list" where
  "enabled_checks u a db = stmt_select ck_created_at (\<lambda>k. ck_asset_id k = a \<and> ck_enabled k) (my_checks (call_of u 0) db)"

definition fixed_output :: "('n, 'f, 're) worker \<Rightarrow> 'n asset_output option" where
  "fixed_output wk = from_rows (wk_order wk) (sample_asset_rows (wk_json wk))"

definition verdict :: "('n, 'f, 're) worker \<Rightarrow> check_row \<Rightarrow> string option" where
  "verdict wk k = Option.bind (fixed_output wk) (\<lambda>out. map_option report_outcome (run_check wk k out))"

definition halts :: "('n, 'f, 're) worker \<Rightarrow> check_row \<Rightarrow> bool" where
  "halts wk k \<longleftrightarrow> ck_blocking k \<and> verdict wk k = Some ''failed''"

text \<open>What a stored result says of its check: ids, whether it is blocking, and the outcome.\<close>

definition row_view :: "check_result_row \<Rightarrow> uuid \<times> uuid \<times> uuid \<times> bool \<times> string option" where
  "row_view r = (cr_check_id r, cr_asset_id r, cr_execution_id r, cr_blocking r, Some (cr_outcome r))"

definition expected :: "('n, 'f, 're) worker \<Rightarrow> uuid \<Rightarrow> uuid \<Rightarrow> check_row \<Rightarrow> uuid \<times> uuid \<times> uuid \<times> bool \<times> string option" where
  "expected wk x a k = (ck_id k, a, x, ck_blocking k, verdict wk k)"

lemma my_checks_calm: "calm u t \<Longrightarrow> my_checks (tk_call t) db = my_checks (call_of u 0) db"
  by (simp add: my_checks_def visible_def calm_def call_of_def cong: option.case_cong)

lemma enabled_results [simp]: "enabled_checks u a (db\<lparr>t_check_results := rs\<rparr>) = enabled_checks u a db"
  by (simp add: enabled_checks_def my_checks_def)

lemma list_checks_calm: "calm u t \<Longrightarrow> list_asset_checks (tk_call t) a True db = (Inr (enabled_checks u a db), db)"
  by (simp add: list_asset_checks_def calm_commit my_checks_calm enabled_checks_def)

lemma asset_calm:
  assumes ts: "list_all (calm u) ts" and run: "execute_asset wk d a u ctx ts db = Some (r, ts', db')"
  shows "suffix ts' ts \<and> db' = db \<and> (\<forall>out. r = Inr out \<longrightarrow> fixed_output wk = Some out) \<and>
     (\<forall>a nm m. r \<noteq> Inl (BlockingCheckFailure a nm m))"
proof -
  have sample: "suffix ts2 ts1 \<and> db2 = db1 \<and> (\<forall>out. q = Inr out \<longrightarrow> fixed_output wk = Some out) \<and>
     (\<forall>a nm m. q \<noteq> Inl (BlockingCheckFailure a nm m))"
    if "generate_sample_asset_data wk nm ts1 db1 = Some (q, ts2, db2)" for nm ts1 db1 q ts2 db2
    using that by (auto simp: generate_sample_asset_data_def fixed_output_def run_panic_def split: option.splits)
  have python: "suffix ts2 ts1 \<and> db2 = db1 \<and> (\<forall>out. q = Inr out \<longrightarrow> fixed_output wk = Some out) \<and>
     (\<forall>a nm m. q \<noteq> Inl (BlockingCheckFailure a nm m))"
    if "execute_python_asset wk nm md fn a u ctx ts1 db1 = Some (q, ts2, db2)" for nm md fn ts1 db1 q ts2 db2
    using that sample
    by (auto simp: execute_python_asset_def process_failure_def split: sum.splits if_splits)
  from run consider
      (err) e where "timed wk d (storage_failure wk ''Failed to fetch asset: '') (as_tenant u (\<lambda>c. get_asset c a)) ts db
        = Some (Inl e, ts', db')" "r = Inl e"
    | (row) row ts1 db1 where "timed wk d (storage_failure wk ''Failed to fetch asset: '') (as_tenant u (\<lambda>c. get_asset c a)) ts db
        = Some (Inr row, ts1, db1)"
        "(case (ar_compute_fn_module row, ar_compute_fn_function row) of
            (Some md, Some fn) \<Rightarrow> execute_python_asset wk (ar_name row) md fn a u ctx
          | _ \<Rightarrow> generate_sample_asset_data wk (ar_name row)) ts1 db1 = Some (r, ts', db')"
    unfolding execute_asset_def run_ok_Some by blast
  then show ?thesis
  proof cases
    case err
    from timed_calm [OF ts err(1)] err(2) show ?thesis
      by (auto dest: get_asset_db)
  next
    case row
    from timed_calm [OF ts row(1)] have "suffix ts1 ts" "db1 = db" by (auto dest: get_asset_db)
    moreover have "suffix ts' ts1 \<and> db' = db1 \<and> (\<forall>out. r = Inr out \<longrightarrow> fixed_output wk = Some out) \<and>
       (\<forall>a nm m. r \<noteq> Inl (BlockingCheckFailure a nm m))"
      using row(2) sample python by (auto split: option.splits)
    ultimately show ?thesis by (auto intro: suffix_order.trans)
  qed
qed

lemma insert_results_Inr:
  "\<forall>r\<in>set rs. cr_tenant_id r = Some (tenant c) \<Longrightarrow> insert_check_results c rs db = Inr (v, db') \<Longrightarrow>
   db' = db\<lparr>t_check_results := t_check_results db @ rs\<rparr>"
proof (induction rs arbitrary: db)
  case (Cons r rs)
  from Cons.prems(2) obtain w db1 where one: "insert_check_result c r db = Inr (w, db1)"
    "insert_check_results c rs db1 = Inr (v, db')" by (auto simp: tx_bind_Inr)
  have "r\<lparr>cr_tenant_id := Some (tenant c)\<rparr> = r" using Cons.prems(1) by simp
  with one(1) have "db1 = db\<lparr>t_check_results := t_check_results db @ [r]\<rparr>"
    unfolding insert_check_result_def stmt_insert_case by simp
  with Cons.IH [of db1] Cons.prems(1) one(2) show ?case by simp
qed (simp add: tx_return_def)

lemma batch_calm:
  assumes "calm u t" "\<forall>r\<in>set rs. cr_tenant_id r = Some u" "create_check_results_batch (tk_call t) rs db = (q, db')"
  shows "db' = (case q of Inl e \<Rightarrow> db | Inr _ \<Rightarrow> db\<lparr>t_check_results := t_check_results db @ rs\<rparr>)"
proof (cases q)
  case (Inl e)
  with assms(3) show ?thesis
    by (auto simp: create_check_results_batch_def split: if_splits dest!: checked_Inl with_tenant_context_Inl)
next
  case (Inr v)
  have "tenant (tk_call t) = u" using assms(1) by (simp add: calm_def)
  with Inr assms show ?thesis
    using insert_results_Inr [of rs "tk_call t" db v db']
    by (auto simp: create_check_results_batch_def checked_Inr with_tenant_context_Inr split: if_splits)
qed

lemma those_map: "those (map f xs) = Some ys \<Longrightarrow> list_all2 (\<lambda>x y. f x = Some y) xs ys"
  by (induction xs arbitrary: ys) (auto split: option.splits)

lemma result_row_view:
  assumes "fixed_output wk = Some out" "Option.bind (run_check wk k out) (result_row wk ts n u x a k) = Some r"
  shows "row_view r = expected wk x a k" "cr_tenant_id r = Some u"
  using assms by (auto simp: bind_eq_Some_conv result_row_def row_view_def expected_def verdict_def split: option.splits)

lemma check_results_view:
  assumes out: "fixed_output wk = Some out" and rs: "check_results wk ts u x a out ks = Some rs"
  shows "map row_view rs = map (expected wk x a) ks \<and> (\<forall>r\<in>set rs. cr_tenant_id r = Some u)"
proof -
  let ?f = "\<lambda>(n, k). Option.bind (run_check wk k out) (result_row wk ts n u x a k)"
  have all: "list_all2 (\<lambda>p r. ?f p = Some r) (enumerate 0 ks) rs"
    using those_map [OF rs [unfolded check_results_def]] .
  then have "list_all2 (\<lambda>p r. row_view r = expected wk x a (snd p) \<and> cr_tenant_id r = Some u) (enumerate 0 ks) rs"
    by (rule list_all2_mono) (use result_row_view [OF out] in \<open>auto split: prod.splits\<close>)
  then have "map row_view rs = map (expected wk x a \<circ> snd) (enumerate 0 ks) \<and> (\<forall>r\<in>set rs. cr_tenant_id r = Some u)"
    by (induction rule: list_all2_induct) auto
  then show ?thesis by (simp flip: map_map)
qed

text \<open>The results that an asset's checks add, and when they are returned.\<close>

lemma checks_calm:
  assumes ts: "list_all (calm u) ts" and out: "fixed_output wk = Some out"
    and run: "run_asset_checks wk d a x u out ts db = Some (r, ts', db')"
  shows "suffix ts' ts \<and> (case r of
       Inl e \<Rightarrow> db' = db \<and> (\<forall>a nm m. e \<noteq> BlockingCheckFailure a nm m)
     | Inr rs \<Rightarrow> db' = db\<lparr>t_check_results := t_check_results db @ rs\<rparr> \<and>
         map row_view rs = map (expected wk x a) (enabled_checks u a db))"
proof -
  let ?list = "timed wk d (storage_failure wk ''Failed to fetch checks: '') (as_tenant u (\<lambda>c. list_asset_checks c a True))"
  let ?store = "\<lambda>rs. timed wk d (storage_failure wk ''Failed to store check results: '')
    (as_tenant u (\<lambda>c. create_check_results_batch c rs))"
  from run consider
      (err) e where "?list ts db = Some (Inl e, ts', db')" "r = Inl e"
    | (none) ts1 db1 where "?list ts db = Some (Inr [], ts1, db1)" "r = Inr []" "ts' = ts1" "db' = db1"
    | (some) ks ts1 db1 rs where "?list ts db = Some (Inr ks, ts1, db1)" "check_results wk ts1 u x a out ks = Some rs"
        "run_ok (?store rs) (\<lambda>_. run_return (Inr rs)) ts1 db1 = Some (r, ts', db')"
    unfolding run_asset_checks_def run_ok_Some
    by (auto simp: run_ok_Some split: if_splits option.splits)
  then show ?thesis
  proof cases
    case err
    from timed_calm [OF ts err(1)] err(2) show ?thesis by (auto simp: list_checks_calm)
  next
    case none
    from timed_calm [OF ts none(1)] none show ?thesis by (auto simp: list_checks_calm)
  next
    case some
    from timed_calm [OF ts some(1)] have l: "suffix ts1 ts" "db1 = db" "ks = enabled_checks u a db"
      by (auto simp: list_checks_calm)
    note view = check_results_view [OF out some(2)]
    have "suffix ts' ts1 \<and> (case r of Inl e \<Rightarrow> db' = db1 \<and> (\<forall>a nm m. e \<noteq> BlockingCheckFailure a nm m)
       | Inr q \<Rightarrow> q = rs \<and> db' = db1\<lparr>t_check_results := t_check_results db1 @ rs\<rparr>)"
    proof -
      from some(3) obtain q where q: "?store rs ts1 db1 = Some (q, ts', db')" "r = map_sum id (\<lambda>_. rs) q"
        by (auto simp: run_ok_Some)
      from timed_calm [OF calm_suffix [OF l(1) ts] q(1)] show ?thesis
      proof (elim conjE disjE exE)
        fix t p assume t: "suffix ts' ts1" "calm u t"
          "as_tenant u (\<lambda>c. create_check_results_batch c rs) (tk_call t) db1 = (p, db')"
          "q = map_sum (storage_failure wk ''Failed to store check results: '') id p"
        then have "create_check_results_batch (tk_call t) rs db1 = (p, db')" by simp
        from batch_calm [OF t(2) _ this] view t(1,4) q(2) show ?thesis
          by (cases p) (auto simp: storage_failure_def)
      qed (use q(2) in auto)
    qed
    with l view show ?thesis by (cases r) (auto intro: suffix_order.trans)
  qed
qed

section \<open>The plan\<close>

lemma blocks_view: "blocks r \<longleftrightarrow> (case row_view r of (_, _, _, b, q) \<Rightarrow> b \<and> q = Some ''failed'')"
  by (simp add: blocks_def row_view_def)

lemma blocks_stops:
  assumes "map row_view rs = map (expected wk x a) ks"
  shows "find blocks rs = None \<longleftrightarrow> (\<forall>k\<in>set ks. \<not> halts wk k)"
    and "find blocks rs = Some r \<Longrightarrow> \<exists>k\<in>set ks. halts wk k \<and> cr_check_id r = ck_id k"
proof -
  let ?bad = "\<lambda>v. case v of (_, _, _, b, q) \<Rightarrow> b \<and> q = Some ''failed''"
  have s: "halts wk k \<longleftrightarrow> ?bad (expected wk x a k)" for k by (simp add: halts_def expected_def)
  have sets: "row_view ` set rs = expected wk x a ` set ks" using arg_cong [OF assms, of set] by simp
  have "(\<forall>r\<in>set rs. \<not> blocks r) \<longleftrightarrow> (\<forall>v\<in>row_view ` set rs. \<not> ?bad v)" by (simp add: blocks_view)
  also have "\<dots> \<longleftrightarrow> (\<forall>k\<in>set ks. \<not> halts wk k)" unfolding sets by (simp add: s)
  finally show "find blocks rs = None \<longleftrightarrow> (\<forall>k\<in>set ks. \<not> halts wk k)" by (auto simp: find_None_iff)
  assume "find blocks rs = Some r"
  then have r: "r \<in> set rs" "blocks r" by (auto simp: find_Some_iff)
  then obtain k where k: "k \<in> set ks" "row_view r = expected wk x a k" using sets by (metis imageE imageI)
  moreover from k(2) have "cr_check_id r = ck_id k" by (simp add: row_view_def expected_def)
  moreover have "halts wk k" using r(2) k(2) by (simp add: blocks_view s)
  ultimately show "\<exists>k\<in>set ks. halts wk k \<and> cr_check_id r = ck_id k" by blast
qed

lemma blocking_calm:
  assumes ts: "list_all (calm u) ts" and ids: "distinct (map ck_id (t_checks db))"
    and k: "k \<in> set (my_checks (call_of u 0) db)" "cr_check_id q = ck_id k"
    and run: "blocking_failure wk d a u q ts db = Some (r, ts', db')"
  shows "suffix ts' ts \<and> db' = db \<and>
     (r = Inl (ExecTimeout (wk_timeout wk)) \<or> (\<exists>m. r = Inl (BlockingCheckFailure a (ck_name k) m)))"
proof -
  let ?f = "\<lambda>c db. case as_tenant u (\<lambda>c. get_asset_check c (cr_check_id q)) c db of
      (Inr k, db') \<Rightarrow> (Inr (ck_name k), db')
    | (Inl _, db') \<Rightarrow> (Inr (''check-'' @ cr_check_id q), db')"
  have found: "get_asset_check (tk_call t) (ck_id k) db = (Inr k, db)" if "calm u t" for t
  proof -
    have "find (\<lambda>c. ck_id c = ck_id k) (my_checks (call_of u 0) db) = Some k"
    proof -
      have d: "distinct (map ck_id (my_checks (call_of u 0) db))"
        using ids by (simp add: my_checks_def distinct_map_filter')
      have "find (\<lambda>c. ck_id c = ck_id k) (my_checks (call_of u 0) db) \<noteq> None"
        using k(1) by (auto simp: find_None_iff)
      then obtain c where c: "find (\<lambda>c. ck_id c = ck_id k) (my_checks (call_of u 0) db) = Some c" by blast
      then have "c \<in> set (my_checks (call_of u 0) db)" "ck_id c = ck_id k" by (auto simp: find_Some_iff)
      then have "c = k" using d k(1) by (auto simp: distinct_map dest: inj_onD)
      with c show ?thesis by simp
    qed
    with that show ?thesis
      by (simp add: get_asset_check_def calm_commit my_checks_calm)
  qed
  from run consider
      (err) e where "timed wk d (storage_failure wk []) ?f ts db = Some (Inl e, ts', db')" "r = Inl e"
    | (name) nm m where "timed wk d (storage_failure wk []) ?f ts db = Some (Inr nm, ts', db')"
        "r = Inl (BlockingCheckFailure a nm m)"
    unfolding blocking_failure_def get_check_name_def run_ok_Some by auto
  then show ?thesis
  proof cases
    case err
    from timed_calm [OF ts err(1)] err(2) show ?thesis by (auto simp: found k(2))
  next
    case name
    from timed_calm [OF ts name(1)] name(2) show ?thesis by (auto simp: found k(2))
  qed
qed

text \<open>What a plan has done when it ends.\<close>

definition plan_done ::
  "('n, 'f, 're) worker \<Rightarrow> payload \<Rightarrow> uuid list \<Rightarrow> db \<Rightarrow> execution_error + unit \<Rightarrow> db \<Rightarrow> bool" where
  "plan_done wk pl as db r db' \<longleftrightarrow>
     (let ks = (\<lambda>a. enabled_checks (pl_tenant_id pl) a db) in
      \<exists>n rs. n \<le> length as \<and> db' = db\<lparr>t_check_results := t_check_results db @ rs\<rparr> \<and>
        map row_view rs = concat (map (\<lambda>a. map (expected wk (pl_execution_id pl) a) (ks a)) (take n as)) \<and>
        (\<forall>a\<in>set (take (n - 1) as). \<forall>k\<in>set (ks a). \<not> halts wk k) \<and>
        (r = Inr () \<longrightarrow> n = length as \<and> (\<forall>a\<in>set as. \<forall>k\<in>set (ks a). \<not> halts wk k)) \<and>
        (\<forall>a nm m. r = Inl (BlockingCheckFailure a nm m) \<longrightarrow>
           n > 0 \<and> a = as ! (n - 1) \<and> (\<exists>k\<in>set (ks a). halts wk k \<and> nm = ck_name k)))"

lemma plan_doneI:
  assumes "n \<le> length as" "db' = db\<lparr>t_check_results := t_check_results db @ rs\<rparr>"
    "map row_view rs = concat (map (\<lambda>a. map (expected wk (pl_execution_id pl) a)
        (enabled_checks (pl_tenant_id pl) a db)) (take n as))"
    "\<forall>a\<in>set (take (n - 1) as). \<forall>k\<in>set (enabled_checks (pl_tenant_id pl) a db). \<not> halts wk k"
    "r = Inr () \<Longrightarrow> n = length as \<and> (\<forall>a\<in>set as. \<forall>k\<in>set (enabled_checks (pl_tenant_id pl) a db). \<not> halts wk k)"
    "\<And>a nm m. r = Inl (BlockingCheckFailure a nm m) \<Longrightarrow>
       n > 0 \<and> a = as ! (n - 1) \<and> (\<exists>k\<in>set (enabled_checks (pl_tenant_id pl) a db). halts wk k \<and> nm = ck_name k)"
  shows "plan_done wk pl as db r db'"
  unfolding plan_done_def Let_def using assms by blast

lemma plan_calm:
  assumes "list_all (calm (pl_tenant_id pl)) ts" "distinct (map ck_id (t_checks db))"
    "execute_plan wk d pl as ts db = Some (r, ts', db')"
  shows "suffix ts' ts \<and> plan_done wk pl as db r db'"
  using assms
proof (induction as arbitrary: ts db)
  case Nil
  then show ?case by (auto intro: plan_doneI [where n = 0 and rs = "[]"])
next
  case (Cons a as)
  let ?u = "pl_tenant_id pl"
  let ?ks = "\<lambda>a. enabled_checks ?u a db"
  from Cons.prems(3) consider
      (asset) e where "execute_asset wk d a ?u (pl_partition_context pl) ts db = Some (Inl e, ts', db')" "r = Inl e"
    | (checks) out ts1 db1 e where "execute_asset wk d a ?u (pl_partition_context pl) ts db = Some (Inr out, ts1, db1)"
        "run_asset_checks wk d a (pl_execution_id pl) ?u out ts1 db1 = Some (Inl e, ts', db')" "r = Inl e"
    | (stored) out ts1 db1 rs ts2 db2 where "execute_asset wk d a ?u (pl_partition_context pl) ts db = Some (Inr out, ts1, db1)"
        "run_asset_checks wk d a (pl_execution_id pl) ?u out ts1 db1 = Some (Inr rs, ts2, db2)"
        "(case find blocks rs of Some r \<Rightarrow> blocking_failure wk d a ?u r
          | None \<Rightarrow> execute_plan wk d pl as) ts2 db2 = Some (r, ts', db')"
    unfolding execute_plan.simps run_ok_Some by blast
  then show ?case
  proof cases
    case asset
    from asset_calm [OF Cons.prems(1) asset(1)] asset(2) show ?thesis
      by (auto intro: plan_doneI [where n = 0 and rs = "[]"])
  next
    case checks
    from asset_calm [OF Cons.prems(1) checks(1)] have o: "suffix ts1 ts" "db1 = db" "fixed_output wk = Some out" by auto
    from checks_calm [OF calm_suffix [OF o(1) Cons.prems(1)] o(3) checks(2)] o checks(3) show ?thesis
      by (auto intro: plan_doneI [where n = 0 and rs = "[]"] suffix_order.trans)
  next
    case stored
    from asset_calm [OF Cons.prems(1) stored(1)] have o: "suffix ts1 ts" "db1 = db" "fixed_output wk = Some out" by auto
    from checks_calm [OF calm_suffix [OF o(1) Cons.prems(1)] o(3) stored(2)] o have
      c: "suffix ts2 ts" "db2 = db\<lparr>t_check_results := t_check_results db @ rs\<rparr>"
        "map row_view rs = map (expected wk (pl_execution_id pl) a) (?ks a)"
      by (auto intro: suffix_order.trans)
    note calm2 = calm_suffix [OF c(1) Cons.prems(1)]
    have ids: "distinct (map ck_id (t_checks db2))" using Cons.prems(2) c(2) by simp
    show ?thesis
    proof (cases "find blocks rs")
      case None
      with stored(3) have run: "execute_plan wk d pl as ts2 db2 = Some (r, ts', db')" by simp
      have ok: "\<forall>k\<in>set (?ks a). \<not> halts wk k" using None blocks_stops(1) [OF c(3)] by blast
      from Cons.IH [OF calm2 ids run] have s: "suffix ts' ts2" and p: "plan_done wk pl as db2 r db'" by auto
      have "enabled_checks ?u b db2 = ?ks b" for b using c(2) by simp
      with p obtain n qs where q: "n \<le> length as" "db' = db2\<lparr>t_check_results := t_check_results db2 @ qs\<rparr>"
        "map row_view qs = concat (map (\<lambda>a. map (expected wk (pl_execution_id pl) a) (?ks a)) (take n as))"
        "\<forall>a\<in>set (take (n - 1) as). \<forall>k\<in>set (?ks a). \<not> halts wk k"
        "r = Inr () \<longrightarrow> n = length as \<and> (\<forall>a\<in>set as. \<forall>k\<in>set (?ks a). \<not> halts wk k)"
        "\<forall>a nm m. r = Inl (BlockingCheckFailure a nm m) \<longrightarrow>
           n > 0 \<and> a = as ! (n - 1) \<and> (\<exists>k\<in>set (?ks a). halts wk k \<and> nm = ck_name k)"
        unfolding plan_done_def Let_def by auto
      have "plan_done wk pl (a # as) db r db'"
      proof (rule plan_doneI [where n = "Suc n" and rs = "rs @ qs"])
        show "\<forall>b\<in>set (take (Suc n - 1) (a # as)). \<forall>k\<in>set (?ks b). \<not> halts wk k"
          using q(4) ok by (cases n) auto
        show "Suc n > 0 \<and> b = (a # as) ! (Suc n - 1) \<and> (\<exists>k\<in>set (?ks b). halts wk k \<and> nm = ck_name k)"
          if "r = Inl (BlockingCheckFailure b nm m)" for b nm m
          using q(6) that by (cases n) auto
      qed (use q c ok in auto)
      with s c(1) show ?thesis by (auto intro: suffix_order.trans)
    next
      case (Some f)
      with stored(3) have run: "blocking_failure wk d a ?u f ts2 db2 = Some (r, ts', db')" by simp
      from blocks_stops(2) [OF c(3) Some] obtain k where k: "k \<in> set (?ks a)" "halts wk k" "cr_check_id f = ck_id k" by blast
      have "k \<in> set (my_checks (call_of ?u 0) db2)" using k(1) c(2) by (simp add: enabled_checks_def my_checks_def)
      from blocking_calm [OF calm2 ids this k(3) run] have b: "suffix ts' ts2" "db' = db2"
        "r = Inl (ExecTimeout (wk_timeout wk)) \<or> (\<exists>m. r = Inl (BlockingCheckFailure a (ck_name k) m))" by auto
      have "plan_done wk pl (a # as) db r db'"
        by (rule plan_doneI [where n = 1 and rs = rs]) (use b c k in auto)
      with b(1) c(1) show ?thesis by (auto intro: suffix_order.trans)
    qed
  qed
qed

section \<open>The transitions of an execution\<close>

lemma executions_tables [simp]:
  "executions_ok (db\<lparr>t_check_results := rs\<rparr>) = executions_ok db"
  "enabled_checks u a (db\<lparr>t_executions := xs\<rparr>) = enabled_checks u a db"
  by (simp_all add: executions_ok_def enabled_checks_def my_checks_def)

text \<open>The row of an execution in a database, and a database in which it has become another row.\<close>

definition has_row :: "tenant \<Rightarrow> execution_row \<Rightarrow> db \<Rightarrow> bool" where
  "has_row u x db \<longleftrightarrow> executions_ok db \<and> x \<in> set (t_executions db) \<and> visible (call_of u 0) (x_tenant_id x)"

definition with_row :: "execution_row \<Rightarrow> execution_row \<Rightarrow> db \<Rightarrow> db" where
  "with_row x y db = db\<lparr>t_executions := map (\<lambda>r. if r = x then y else r) (t_executions db)\<rparr>"

lemma visible_calm: "calm u t \<Longrightarrow> visible (tk_call t) v = visible (call_of u 0) v"
  by (simp add: visible_def calm_def call_of_def split: option.splits)

lemma get_calm:
  assumes row: "has_row u x db" and t: "calm u t"
  shows "get_execution (tk_call t) (x_id x) db = (Inr x, db)"
proof -
  have "find (\<lambda>y. x_id y = x_id x) (my_executions (tk_call t) db) = Some x"
    using row t by (simp add: has_row_def find_execution in_my_executions visible_calm)
  with t show ?thesis by (simp add: get_execution_def calm_commit)
qed

definition later :: "time \<Rightarrow> tick list \<Rightarrow> bool" where
  "later n ts \<longleftrightarrow> sorted (map (\<lambda>t. now (tk_call t)) ts) \<and> (\<forall>t\<in>set ts. n \<le> now (tk_call t))"

lemma later_tail: "later n (t # ts) \<Longrightarrow> n \<le> now (tk_call t) \<and> later (now (tk_call t)) ts \<and> later n ts"
  by (auto simp: later_def)

lemma later_suffix: "later n ts \<Longrightarrow> suffix ts' ts \<Longrightarrow> later n ts'"
  by (auto simp: later_def suffix_def sorted_append)

lemma put_tenant [simp]: "x_tenant_id (put_execution y x) = x_tenant_id x" "x_id (put_execution y x) = x_id x"
  by (simp_all add: put_execution_def)

lemma update_calm:
  assumes row: "has_row u x db" and t: "calm u t" and id: "x_id y = x_id x"
    and chk: "execution_check_row (put_execution y x) = None"
  shows "update_execution (tk_call t) y db = (Inr (), with_row x (put_execution y x) db)"
    and "has_row u (put_execution y x) (with_row x (put_execution y x) db)"
proof -
  have ok: "executions_ok db" and x: "x \<in> set (my_executions (tk_call t) db)"
    using row t by (simp_all add: has_row_def in_my_executions visible_calm)
  have "x_state y \<in> set execution_states" using chk by (simp add: execution_check_None put_execution_def)
  then show "update_execution (tk_call t) y db = (Inr (), with_row x (put_execution y x) db)"
    unfolding update_execution_Inr [OF ok x id [symmetric]] with_row_def using t chk by (simp add: calm_def)
  show "has_row u (put_execution y x) (with_row x (put_execution y x) db)"
    using put_ok [OF ok _ chk] row by (auto simp: has_row_def with_row_def)
qed

lemma put_moved_row: "put_execution (moved s n x) x = moved s n x"
  by (simp add: put_execution_def moved_def)

lemma transition_calm:
  assumes row: "has_row u x db" and ts: "list_all (calm u) ts" "later n ts"
    and x: "x_id x = i" "x_state x = state_string from" "is_valid_transition from to" "x_completed_at x = None"
      "x_created_at x \<le> n" "\<forall>s. x_started_at x = Some s \<longrightarrow> s \<le> n"
    and run: "run_transition sx u i from to ts db = Some (r, ts', db')"
  shows "\<exists>t. r = Inr t \<and> n \<le> t \<and> later t ts' \<and> list_all (calm u) ts' \<and> db' = with_row x (moved to t x) db \<and>
    has_row u (moved to t x) db' \<and> (\<exists>t1 t2. ts = t1 # t2 # ts' \<and> t = now (tk_call t2))"
proof -
  have chk0: "execution_check_row x = None" using row by (auto simp: has_row_def executions_ok_def)
  note simps = run_transition_def run_ok_def run_bind_def try_calm_eq run_return_def x
  obtain t1 ts1 where t1: "ts = t1 # ts1" using run x(3) by (cases ts) (auto simp: simps)
  have "ts1 \<noteq> []" using run ts t1 get_calm [OF row, of t1] by (auto simp: simps)
  then obtain t2 rest where tt: "ts = t1 # t2 # rest" using t1 by (cases ts1) auto
  have calm12: "calm u t1" "calm u t2" "list_all (calm u) rest" using ts(1) tt by simp_all
  let ?n = "now (tk_call t2)"
  have l: "n \<le> ?n" "later ?n rest" using ts(2) tt by (auto dest: later_tail simp: later_def)
  have chk: "execution_check_row (put_execution (moved to ?n x) x) = None"
    by (rule finish_check) (use chk0 x l in auto)
  note upd = update_calm [OF row calm12(2) _ chk, simplified, unfolded put_moved_row]
  have rd: "try_db h (as_tenant u (\<lambda>c. get_execution c i)) (t1 # t2 # rest) db = Some (Inr x, t2 # rest, db)"
    for h :: "storage_error \<Rightarrow> runtime_error"
    using get_calm [OF row calm12(1)] calm12(1) x(1) by (simp add: try_calm_eq)
  have wr: "try_db h (\<lambda>c db. case as_tenant u (\<lambda>c. update_execution c (moved to (now c) x)) c db of
      (Inl e, db') \<Rightarrow> (Inl e, db') | (Inr _, db') \<Rightarrow> (Inr (now c), db')) (t2 # rest) db =
      Some (Inr ?n, rest, with_row x (moved to ?n x) db)" for h :: "storage_error \<Rightarrow> runtime_error"
    using try_calm [OF calm12(2), of _ db "Inr ?n" "with_row x (moved to ?n x) db" h rest] calm12(2) upd(1) by simp
  have "run_transition sx u i from to ts db = Some (Inr ?n, rest, with_row x (moved to ?n x) db)"
    using x by (simp add: run_transition_def run_ok_def run_bind_def tt rd wr)
  with run l calm12(3) upd(2) tt show ?thesis by auto
qed

definition failed_row :: "string \<Rightarrow> time \<Rightarrow> execution_row \<Rightarrow> execution_row" where
  "failed_row err t x = x\<lparr>x_state := state_string Failed, x_error_message := Some err,
     x_completed_at := Some t, x_updated_at := t\<rparr>"

lemma failure_calm:
  assumes row: "has_row u x db" and ts: "list_all (calm u) ts" "later n ts"
    and x: "x_id x = i" "x_state x = state_string cur" "x_created_at x \<le> n" "\<forall>s. x_started_at x = Some s \<longrightarrow> s \<le> n"
    and run: "run_failure sx u i err ts db = Some (r, ts', db')"
  shows "if is_valid_transition cur Failed
    then \<exists>t. r = Inr () \<and> n \<le> t \<and> db' = with_row x (failed_row err t x) db
    else r = Inl (Execution (''Cannot transition to Failed from state '' @ debug_state cur)) \<and> db' = db"
proof -
  have chk0: "execution_check_row x = None" using row by (auto simp: has_row_def executions_ok_def)
  obtain t1 ts1 where t1: "ts = t1 # ts1"
    using run by (cases ts) (auto simp: run_failure_def run_ok_def run_bind_def)
  have c1: "calm u t1" using ts(1) t1 by simp
  have rd: "try_db h (as_tenant u (\<lambda>c. get_execution c i)) (t1 # ts1) db = Some (Inr x, ts1, db)"
    for h :: "storage_error \<Rightarrow> runtime_error"
    using get_calm [OF row c1] c1 x(1) by (simp add: try_calm_eq)
  show ?thesis
  proof (cases "is_valid_transition cur Failed")
    case False
    then show ?thesis
      using run x by (simp add: run_failure_def run_ok_def run_bind_def t1 rd)
  next
    case valid: True
    let ?y = "\<lambda>c. x\<lparr>x_state := state_string Failed, x_error_message := Some err,
      x_completed_at := Some (now c), x_updated_at := now c\<rparr>"
    have run': "try_db (map_storage_error sx ''Failed to record failure'') (as_tenant u (\<lambda>c. update_execution c (?y c)))
        ts1 db = Some (r, ts', db')"
      using run valid x by (simp add: run_failure_def run_ok_def run_bind_def t1 rd)
    then obtain t2 rest where t2: "ts1 = t2 # rest" by (cases ts1) auto
    let ?n = "now (tk_call t2)"
    have c2: "calm u t2" and l: "n \<le> ?n" using ts t1 t2 by (simp_all add: later_def)
    have put: "put_execution (?y (tk_call t2)) x = failed_row err ?n x"
      by (simp add: put_execution_def failed_row_def)
    have chk: "execution_check_row (put_execution (?y (tk_call t2)) x) = None"
      unfolding put using chk0 x l by (auto simp: execution_check_None failed_row_def execution_states_def)
    have "update_execution (tk_call t2) (?y (tk_call t2)) db = (Inr (), with_row x (failed_row err ?n x) db)"
      using update_calm(1) [OF row c2 _ chk] unfolding put by simp
    then have "try_db (map_storage_error sx ''Failed to record failure'') (as_tenant u (\<lambda>c. update_execution c (?y c)))
        ts1 db = Some (Inr (), rest, with_row x (failed_row err ?n x) db)"
      using c2 unfolding t2 by (simp add: try_calm_eq)
    with run' valid l show ?thesis by auto
  qed
qed

section \<open>The whole execution\<close>

lemma plan_done_table:
  assumes "plan_done wk pl as (db\<lparr>t_executions := xs\<rparr>) r db'"
  shows "\<exists>rs. db' = db\<lparr>t_executions := xs, t_check_results := t_check_results db @ rs\<rparr> \<and>
    plan_done wk pl as db r (db\<lparr>t_check_results := t_check_results db @ rs\<rparr>)"
proof -
  from assms obtain n rs where p: "n \<le> length as" "db' = db\<lparr>t_executions := xs, t_check_results := t_check_results db @ rs\<rparr>"
    "map row_view rs = concat (map (\<lambda>a. map (expected wk (pl_execution_id pl) a) (enabled_checks (pl_tenant_id pl) a db)) (take n as))"
    "\<forall>a\<in>set (take (n - 1) as). \<forall>k\<in>set (enabled_checks (pl_tenant_id pl) a db). \<not> halts wk k"
    "r = Inr () \<longrightarrow> n = length as \<and> (\<forall>a\<in>set as. \<forall>k\<in>set (enabled_checks (pl_tenant_id pl) a db). \<not> halts wk k)"
    "\<forall>a nm m. r = Inl (BlockingCheckFailure a nm m) \<longrightarrow> n > 0 \<and> a = as ! (n - 1) \<and>
       (\<exists>k\<in>set (enabled_checks (pl_tenant_id pl) a db). halts wk k \<and> nm = ck_name k)"
    unfolding plan_done_def Let_def by auto
  have "plan_done wk pl as db r (db\<lparr>t_check_results := t_check_results db @ rs\<rparr>)"
    by (rule plan_doneI [where n = n and rs = rs]) (use p in auto)
  with p(2) show ?thesis by blast
qed

lemma with_row_twice:
  assumes "executions_ok db" "x \<in> set (t_executions db)" "x_id y = x_id x"
  shows "with_row y z (with_row x y db) = with_row x z db"
proof -
  have "r \<noteq> x \<Longrightarrow> r \<in> set (t_executions db) \<Longrightarrow> r \<noteq> y" for r
    using execution_unique [OF assms(1) _ assms(2), of r] assms(3) by auto
  then show ?thesis by (simp add: with_row_def)
qed

lemma with_row_results: "with_row x y (db\<lparr>t_check_results := rs\<rparr>) = (with_row x y db)\<lparr>t_check_results := rs\<rparr>"
  by (simp add: with_row_def)

text \<open>How the end of the plan is recorded in the row of the execution and in the result.\<close>

definition recorded :: "execution_row \<Rightarrow> execution_error + unit \<Rightarrow> execution_row \<Rightarrow> execution_error + unit \<Rightarrow> bool" where
  "recorded x res y r \<longleftrightarrow>
     (case res of
        Inr _ \<Rightarrow> x_state y = ''succeeded'' \<and> x_error_message y = x_error_message x \<and> r = Inr ()
      | Inl (ExecTimeout _) \<Rightarrow> x_state y = ''timeout'' \<and> x_error_message y = x_error_message x \<and>
          r = Inl (StateTransition (''Failed to record timeout: '' @
                show_error (Execution ''Cannot transition to Failed from state Timeout'')))
      | Inl e \<Rightarrow> x_state y = ''failed'' \<and> x_error_message y = Some (show_execution_error e) \<and> r = Inr ())"

lemma finish_calm:
  assumes row: "has_row (pl_tenant_id pl) x db" and ts: "list_all (calm (pl_tenant_id pl)) ts" "later n ts"
    and x: "x_id x = pl_execution_id pl" "x_state x = state_string Running" "x_completed_at x = None"
      "x_created_at x \<le> n" "x_started_at x = Some n"
    and run: "finish wk pl res ts db = Some (r, ts', db')"
  shows "\<exists>y. db' = with_row x y db \<and> x_id y = x_id x \<and> x_started_at y = Some n \<and> x_completed_at y \<noteq> None \<and> recorded x res y r"
proof -
  have s: "\<forall>s. x_started_at x = Some s \<longrightarrow> s \<le> n" using x(5) by simp
  have fails: "\<exists>y. db' = with_row x y db \<and> x_id y = x_id x \<and> x_started_at y = Some n \<and> x_completed_at y \<noteq> None \<and>
      recorded x (Inl e) y r" if res: "res = Inl e" "\<forall>d. e \<noteq> ExecTimeout d" for e
  proof -
    have "finish wk pl res = run_map_error (state_error ''Failed to record failure: '')
        (run_failure (wk_sx wk) (pl_tenant_id pl) (pl_execution_id pl) (show_execution_error e))"
      using res by (cases e) (simp_all add: finish_def)
    with run obtain q where q: "run_failure (wk_sx wk) (pl_tenant_id pl) (pl_execution_id pl) (show_execution_error e) ts db
        = Some (q, ts', db')" "r = map_sum (state_error ''Failed to record failure: '') id q"
      by (auto simp: run_map_error_def run_bind_Some)
    have "is_valid_transition Running Failed" by (simp add: is_valid_transition_def)
    with failure_calm [OF row ts x(1,2,4) s q(1)] obtain t where
      "q = Inr ()" "db' = with_row x (failed_row (show_execution_error e) t x) db" by auto
    moreover have "recorded x (Inl e) (failed_row (show_execution_error e) t x) (Inr ())"
      using res(2) by (cases e) (simp_all add: recorded_def failed_row_def)
    ultimately show ?thesis
      using q(2) x(5) by (intro exI [of _ "failed_row (show_execution_error e) t x"]) (simp add: failed_row_def)
  qed
  show ?thesis
  proof (cases res)
    case (Inr v)
    with run obtain q where q: "run_transition (wk_sx wk) (pl_tenant_id pl) (pl_execution_id pl) Running Succeeded ts db
        = Some (q, ts', db')" "\<forall>v. q = Inr v \<longrightarrow> r = Inr ()"
      by (auto simp: finish_def Let_def mapped_ok_Some)
    have "is_valid_transition Running Succeeded" by (simp add: is_valid_transition_def)
    from transition_calm [OF row ts x(1,2) this x(3,4) s q(1)] obtain t where
      t: "q = Inr t" "db' = with_row x (moved Succeeded t x) db" by blast
    then show ?thesis using q(2) Inr x(3,5)
      by (intro exI [of _ "moved Succeeded t x"]) (simp add: recorded_def moved_def or_else_def)
  next
    case (Inl e)
    show ?thesis
    proof (cases "\<exists>d. e = ExecTimeout d")
      case False
      with fails Inl show ?thesis by blast
    next
      case True
      then obtain d where e: "e = ExecTimeout d" by blast
      let ?fail = "run_failure (wk_sx wk) (pl_tenant_id pl) (pl_execution_id pl) (''Execution timeout after '' @ debug_duration d)"
      from run Inl e obtain q ts1 db1 where q:
        "run_transition (wk_sx wk) (pl_tenant_id pl) (pl_execution_id pl) Running TimedOut ts db = Some (q, ts1, db1)"
        "\<forall>v. q = Inr v \<longrightarrow> run_map_error (state_error ''Failed to record timeout: '') ?fail ts1 db1 = Some (r, ts', db')"
        by (auto simp: finish_def Let_def mapped_ok_Some)
      have "is_valid_transition Running TimedOut" by (simp add: is_valid_transition_def)
      from transition_calm [OF row ts x(1,2) this x(3,4) s q(1)] obtain t where
        t: "q = Inr t" "n \<le> t" "later t ts1" "list_all (calm (pl_tenant_id pl)) ts1"
          "db1 = with_row x (moved TimedOut t x) db" "has_row (pl_tenant_id pl) (moved TimedOut t x) db1" by blast
      from q(2) t(1) obtain p where p: "?fail ts1 db1 = Some (p, ts', db')"
        "r = map_sum (state_error ''Failed to record timeout: '') id p"
        by (auto simp: run_map_error_def run_bind_Some)
      have "\<not> is_valid_transition TimedOut Failed" by (simp add: is_valid_transition_def)
      moreover have "x_created_at (moved TimedOut t x) \<le> t" "\<forall>s. x_started_at (moved TimedOut t x) = Some s \<longrightarrow> s \<le> t"
        using x(4,5) t(2) by (simp_all add: moved_def)
      ultimately have "p = Inl (Execution (''Cannot transition to Failed from state '' @ debug_state TimedOut))" "db' = db1"
        using failure_calm [OF t(6,4,3) _ _ _ _ p(1), of TimedOut] x(1) by auto
      then show ?thesis using p(2) t(5) Inl e x(3,5)
        by (intro exI [of _ "moved TimedOut t x"]) (simp add: recorded_def moved_def or_else_def state_error_def)
    qed
  qed
qed

text \<open>
  C4: the quality checks gate a plan exactly. On a schedule without interference a plan changes the
  database only by adding results: those of the enabled checks of its first assets, each with the
  verdict of its check, in order, and no blocking check of an asset before the last of them failed.
  If the plan succeeds, these are all its assets and no enabled blocking check of any of them failed;
  if it ends with a blocking failure, it names the last of them and one of its failed blocking checks.
\<close>

theorem checks_gate:
  assumes "list_all (calm (pl_tenant_id pl)) ts" "checks_ok db"
    "execute_workflow wk d pl ts db = Some (r, ts', db')"
  shows "plan_done wk pl (pl_execution_plan pl) db r db'"
  using plan_calm [of pl ts db wk d "pl_execution_plan pl" r ts' db'] assms
  by (simp add: checks_ok_def execute_workflow_def)

lemma execution_ends:
  assumes row: "db_ok db" "x \<in> set (t_executions db)" "x_tenant_id x = Some (pl_tenant_id pl)"
    and x: "x_id x = pl_execution_id pl" "x_state x = ''pending''" "x_started_at x = None" "x_completed_at x = None"
    and ts: "list_all (calm (pl_tenant_id pl)) ts" "later (x_created_at x) ts"
    and run: "execute wk pl ts db = Some (r, ts', db')"
  shows "\<exists>t1 t2 ts1 ts2 rs y res. ts = t1 # t2 # ts1 \<and>
    execute_workflow wk (now (tk_call t2) + int (wk_timeout wk)) pl ts1 (with_row x (moved Running (now (tk_call t2)) x) db) =
      Some (res, ts2, (with_row x (moved Running (now (tk_call t2)) x) db)\<lparr>t_check_results := t_check_results db @ rs\<rparr>) \<and>
    db' = with_row x y (db\<lparr>t_check_results := t_check_results db @ rs\<rparr>) \<and>
    x_id y = x_id x \<and> x_started_at y = Some (now (tk_call t2)) \<and> x_completed_at y \<noteq> None \<and> recorded x res y r \<and>
    plan_done wk pl (pl_execution_plan pl) db res (db\<lparr>t_check_results := t_check_results db @ rs\<rparr>)"
proof -
  let ?u = "pl_tenant_id pl"
  have ok: "executions_ok db" "distinct (map ck_id (t_checks db))"
    using row(1) by (simp_all add: db_ok_def checks_ok_def)
  have r0: "has_row ?u x db" using ok(1) row(2,3) by (simp add: has_row_def visible_def)
  from run obtain q ts1 db1 where q:
    "run_transition (wk_sx wk) ?u (pl_execution_id pl) Pending Running ts db = Some (q, ts1, db1)"
    "\<And>t. q = Inr t \<Longrightarrow> run_bind (execute_workflow wk (t + int (wk_timeout wk)) pl) (finish wk pl) ts1 db1 = Some (r, ts', db')"
    unfolding execute_def mapped_ok_Some by fastforce
  have "is_valid_transition Pending Running" by (simp add: is_valid_transition_def)
  from transition_calm [OF r0 ts x(1) _ this x(4) _ _ q(1)] x(2,3) obtain n where
    n: "q = Inr n" "x_created_at x \<le> n" "later n ts1" "list_all (calm ?u) ts1"
      "db1 = with_row x (moved Running n x) db" "has_row ?u (moved Running n x) db1"
    "\<exists>t1 t2. ts = t1 # t2 # ts1 \<and> n = now (tk_call t2)" by auto
  from n(7) obtain t1 t2 where tt: "ts = t1 # t2 # ts1" "n = now (tk_call t2)" by blast
  from q(2) [OF n(1)] obtain res ts2 db2 where p:
    "execute_plan wk (n + int (wk_timeout wk)) pl (pl_execution_plan pl) ts1 db1 = Some (res, ts2, db2)"
    "finish wk pl res ts2 db2 = Some (r, ts', db')"
    unfolding run_bind_Some execute_workflow_def by blast
  have "distinct (map ck_id (t_checks db1))" using ok(2) n(5) by (simp add: with_row_def)
  from plan_calm [OF n(4) this p(1)] have s: "suffix ts2 ts1"
    and d: "plan_done wk pl (pl_execution_plan pl) db1 res db2" by auto
  from plan_done_table [OF d [unfolded n(5) with_row_def]] obtain rs where rs:
    "db2 = (with_row x (moved Running n x) db)\<lparr>t_check_results := t_check_results db @ rs\<rparr>"
    "plan_done wk pl (pl_execution_plan pl) db res (db\<lparr>t_check_results := t_check_results db @ rs\<rparr>)"
    unfolding with_row_def by auto
  have r2: "has_row ?u (moved Running n x) db2"
    using n(6) unfolding n(5) rs(1) by (simp add: has_row_def)
  have "execute_workflow wk (n + int (wk_timeout wk)) pl ts1 (with_row x (moved Running n x) db) =
      Some (res, ts2, (with_row x (moved Running n x) db)\<lparr>t_check_results := t_check_results db @ rs\<rparr>)"
    using p(1) by (simp add: execute_workflow_def n(5) rs(1))
  moreover have "\<exists>y. db' = with_row (moved Running n x) y db2 \<and> x_id y = x_id x \<and> x_started_at y = Some n \<and>
      x_completed_at y \<noteq> None \<and> recorded x res y r"
  proof -
    have m: "x_completed_at (moved Running n x) = None" "x_created_at (moved Running n x) \<le> n"
      "x_started_at (moved Running n x) = Some n" "x_error_message (moved Running n x) = x_error_message x"
      using x n(2) by (simp_all add: moved_def or_else_def)
    have "recorded (moved Running n x) = recorded x" by (intro ext) (simp only: recorded_def m(4))
    with finish_calm [OF r2 calm_suffix [OF s n(4)] later_suffix [OF n(3) s] _ _ m(1-3) p(2)] x(1)
    show ?thesis by simp
  qed
  moreover have "with_row (moved Running n x) y db2 = with_row x y (db\<lparr>t_check_results := t_check_results db @ rs\<rparr>)" for y
    unfolding rs(1) with_row_results [symmetric]
    by (rule with_row_twice) (use ok(1) row(2) in simp_all)
  ultimately show ?thesis using rs(2) tt by metis
qed

text \<open>
  C3: the end of an execution is recorded. On a schedule without interference whose clock does not
  run backwards, an execution that was pending is first marked running at the time of its second
  storage call; then its plan is run from that database, on the rest of the schedule and
  against the deadline counted from that time, with some result and with the new check results
  as its only change of the database. The row ends completed with that start, succeeded exactly when
  this run of the plan succeeded, timed out exactly when it ended with the timeout, and failed with
  the text of its error in all other cases, and nothing else changes but the results of the plan. A
  failure is not an error of the call; a timeout is recorded without message, and
  the call returns an error, because recording the message is refused in that state.
\<close>

theorem execution_verdict:
  assumes row: "db_ok db" "x \<in> set (t_executions db)" "x_tenant_id x = Some (pl_tenant_id pl)"
    and x: "x_id x = pl_execution_id pl" "x_state x = ''pending''" "x_started_at x = None" "x_completed_at x = None"
    and ts: "list_all (calm (pl_tenant_id pl)) ts" "later (x_created_at x) ts"
    and run: "execute wk pl ts db = Some (r, ts', db')"
  shows "\<exists>t1 t2 ts1 ts2 rs y res. ts = t1 # t2 # ts1 \<and>
    execute_workflow wk (now (tk_call t2) + int (wk_timeout wk)) pl ts1 (with_row x (moved Running (now (tk_call t2)) x) db) =
      Some (res, ts2, (with_row x (moved Running (now (tk_call t2)) x) db)\<lparr>t_check_results := t_check_results db @ rs\<rparr>) \<and>
    db' = with_row x y (db\<lparr>t_check_results := t_check_results db @ rs\<rparr>) \<and>
    x_id y = x_id x \<and> x_started_at y = Some (now (tk_call t2)) \<and> x_completed_at y \<noteq> None \<and> recorded x res y r \<and>
    plan_done wk pl (pl_execution_plan pl) db res (db\<lparr>t_check_results := t_check_results db @ rs\<rparr>)"
  by (rule execution_ends [OF assms])

section \<open>Returning\<close>

text \<open>A run that returns on every schedule of \<open>n\<close> calls, and takes at most so many.\<close>

definition returns :: "nat \<Rightarrow> 'a run \<Rightarrow> bool" where
  "returns n f \<longleftrightarrow> (\<forall>ts db. n \<le> length ts \<longrightarrow> (\<exists>a ts' db'. f ts db = Some (a, ts', db') \<and> length ts \<le> length ts' + n))"

lemma returns_return: "returns n (run_return a)"
  by (simp add: returns_def run_return_def)

lemma returns_bind:
  assumes "returns n f" "\<And>a. returns m (g a)"
  shows "returns (n + m) (run_bind f g)"
  unfolding returns_def
proof (intro allI impI)
  fix ts :: "tick list" and db assume l: "n + m \<le> length ts"
  then have "n \<le> length ts" by simp
  with assms(1) obtain a ts1 db1 where f: "f ts db = Some (a, ts1, db1)" "length ts \<le> length ts1 + n"
    unfolding returns_def by blast
  with l have "m \<le> length ts1" by simp
  with assms(2) [of a] obtain b ts2 db2 where "g a ts1 db1 = Some (b, ts2, db2)" "length ts1 \<le> length ts2 + m"
    unfolding returns_def by blast
  with f show "\<exists>b ts' db'. run_bind f g ts db = Some (b, ts', db') \<and> length ts \<le> length ts' + (n + m)"
    by (auto simp: run_bind_def)
qed

lemma returns_more: "returns n f \<Longrightarrow> n \<le> m \<Longrightarrow> returns m f"
  unfolding returns_def by (meson add_le_mono le_trans order_refl)

lemma returns_ok:
  assumes "returns n f" "n \<le> k" "\<And>a. returns (k - n) (g a)"
  shows "returns k (run_ok f g)"
proof -
  have "returns (n + (k - n)) (run_ok f g)"
    unfolding run_ok_def using assms(1,3) by (intro returns_bind) (auto split: sum.split intro: returns_return)
  with assms(2) show ?thesis by simp
qed

lemma returns_cases:
  "returns n f \<Longrightarrow> returns n g \<Longrightarrow> returns n (if b then f else g)"
  "(\<And>e. returns n (p e)) \<Longrightarrow> (\<And>a. returns n (q a)) \<Longrightarrow> returns n (case r of Inl e \<Rightarrow> p e | Inr a \<Rightarrow> q a)"
  "returns n f \<Longrightarrow> (\<And>a. returns n (s a)) \<Longrightarrow> returns n (case v of None \<Rightarrow> f | Some a \<Rightarrow> s a)"
  by (simp_all split: sum.split option.split)

lemma returns_map_error:
  assumes "returns n f"
  shows "returns n (run_map_error h f)"
proof -
  have "returns (n + 0) (run_map_error h f)"
    unfolding run_map_error_def by (rule returns_bind [OF assms returns_return])
  then show ?thesis by simp
qed

lemma returns_call: "(\<And>t ts db. \<exists>a ts' db'. f (t # ts) db = Some (a, ts', db') \<and> length ts \<le> length ts') \<Longrightarrow> returns 1 f"
  unfolding returns_def
proof (intro allI impI)
  fix ts :: "tick list" and db
  assume f: "\<And>t ts db. \<exists>a ts' db'. f (t # ts) db = Some (a, ts', db') \<and> length ts \<le> length ts'" and "1 \<le> length ts"
  then obtain t ts1 where "ts = t # ts1" by (cases ts) auto
  with f [of t ts1 db] show "\<exists>a ts' db'. f ts db = Some (a, ts', db') \<and> length ts \<le> length ts' + 1" by auto
qed

lemma try_cons: "\<exists>a db'. try_db h f (t # ts) db = Some (a, ts, db')"
  by (auto simp: try_db_def run_bind_def run_return_def perform_def split: prod.splits)

lemma returns_try: "returns 1 (try_db h f)"
  by (rule returns_call) (use try_cons in fast)

lemma returns_timed: "returns 1 (timed wk d h f)"
proof (rule returns_call)
  fix t ts db
  show "\<exists>a ts' db'. timed wk d h f (t # ts) db = Some (a, ts', db') \<and> length ts \<le> length ts'"
    using try_cons [of h f t ts db] by (cases "d \<le> now (tk_call t)") (auto simp: timed_def)
qed

lemmas returns_intros = returns_return returns_cases returns_ok [OF returns_try] returns_ok [OF returns_timed]
  returns_more [OF returns_try] returns_more [OF returns_timed]

lemma returns_transition: "returns 2 (run_transition sx u i s t)"
  unfolding run_transition_def by (intro returns_intros) simp_all

lemma returns_failure: "returns 2 (run_failure sx u i m)"
  unfolding run_failure_def by (intro returns_intros) simp_all

definition libraries_ok :: "('n, 'f, 're) worker \<Rightarrow> bool" where
  "libraries_ok wk \<longleftrightarrow> walks (wk_order wk) \<and>
     (\<forall>k out rp. fixed_output wk = Some out \<longrightarrow> run_check wk k out = Some rp \<longrightarrow>
        redact_samples (wk_replace wk) pii_config_default (rp_failed_samples rp) \<noteq> None)"

lemma sample_total:
  assumes "libraries_ok wk"
  obtains out where "fixed_output wk = Some out" "\<And>k. run_check wk k out \<noteq> None"
proof -
  have w: "walks (wk_order wk)" using assms by (simp add: libraries_ok_def)
  obtain out where out: "fixed_output wk = Some out" using from_rows_total [OF w] unfolding fixed_output_def by blast
  have "run_check wk k out \<noteq> None" for k
    using checks_never_panic [OF w, of "sample_asset_rows (wk_json wk)" "wk_json wk" "wk_check wk"
        "wk_document wk (ck_check_type k)"] out
    by (auto simp: run_check_def fixed_output_def)
  with out that show ?thesis by blast
qed

lemma check_results_total:
  assumes "libraries_ok wk" "fixed_output wk = Some out"
  shows "check_results wk ts u x a out ks \<noteq> None"
proof -
  have all: "Option.bind (run_check wk k out) (result_row wk ts n u x a k) \<noteq> None" for n k
  proof -
    obtain rp where rp: "run_check wk k out = Some rp" using sample_total [OF assms(1)] assms(2) by (metis option.exhaust option.inject)
    then obtain v where "redact_samples (wk_replace wk) pii_config_default (rp_failed_samples rp) = Some v"
      using assms unfolding libraries_ok_def by (metis option.exhaust)
    with rp show ?thesis by (simp add: result_row_def)
  qed
  show ?thesis
    unfolding check_results_def those_total
  proof
    assume "None \<in> set (map (\<lambda>(n, k). Option.bind (run_check wk k out) (result_row wk ts n u x a k)) (enumerate 0 ks))"
    then obtain n k where "None = Option.bind (run_check wk k out) (result_row wk ts n u x a k)" by auto
    with all [of k n] show False by simp
  qed
qed

lemma returns_sample:
  assumes "libraries_ok wk"
  shows "returns n (generate_sample_asset_data wk nm)"
proof -
  obtain out where "fixed_output wk = Some out" using sample_total [OF assms] by blast
  then show ?thesis by (simp add: generate_sample_asset_data_def fixed_output_def returns_return)
qed

lemma returns_asset:
  assumes "libraries_ok wk"
  shows "returns 1 (execute_asset wk d a u ctx)"
  unfolding execute_asset_def execute_python_asset_def
  by (intro returns_intros order_refl) (auto intro!: returns_intros returns_sample [OF assms] split: option.split sum.split)

lemma returns_checks:
  assumes "libraries_ok wk" "fixed_output wk = Some out"
  shows "returns 2 (run_asset_checks wk d a x u out)"
proof -
  have "returns 1 (run_bind run_point (\<lambda>ts. case check_results wk ts u x a out ks of
      None \<Rightarrow> run_panic | Some rs \<Rightarrow> run_ok (timed wk d h (f rs)) (\<lambda>_. run_return (Inr rs))))"
    for ks h and f :: "check_result_row list \<Rightarrow> call \<Rightarrow> db \<Rightarrow> (unit, db) outcome"
    unfolding returns_def
  proof (intro allI impI)
    fix ts :: "tick list" and db assume l: "1 \<le> length ts"
    obtain rs where rs: "check_results wk ts u x a out ks = Some rs" using check_results_total [OF assms] by blast
    have "returns 1 (run_ok (timed wk d h (f rs)) (\<lambda>_. run_return (Inr rs :: execution_error + check_result_row list)))"
      by (intro returns_intros) simp
    with l rs show "\<exists>r ts' db'. run_bind run_point (\<lambda>ts. case check_results wk ts u x a out ks of
        None \<Rightarrow> run_panic | Some rs \<Rightarrow> run_ok (timed wk d h (f rs)) (\<lambda>_. run_return (Inr rs))) ts db =
          Some (r, ts', db') \<and> length ts \<le> length ts' + 1"
      unfolding returns_def by simp
  qed
  then show ?thesis
    unfolding run_asset_checks_def
    by (intro returns_ok [OF returns_timed] returns_cases(1) returns_return) simp_all
qed

lemma asset_output_is:
  assumes "execute_asset wk d a u ctx ts db = Some (Inr out, ts', db')"
  shows "fixed_output wk = Some out"
proof -
  have sample: "fixed_output wk = Some out" if "generate_sample_asset_data wk nm ts1 db1 = Some (Inr out, ts', db')" for nm ts1 db1
    using that by (auto simp: generate_sample_asset_data_def fixed_output_def split: option.splits)
  have python: "fixed_output wk = Some out" if "execute_python_asset wk nm md fn a u ctx ts1 db1 = Some (Inr out, ts', db')"
    for nm md fn ts1 db1
    using that sample by (auto simp: execute_python_asset_def split: sum.splits if_splits)
  from assms obtain row :: asset_row and ts1 db1 where
    "(case (ar_compute_fn_module row, ar_compute_fn_function row) of
        (Some md, Some fn) \<Rightarrow> execute_python_asset wk (ar_name row) md fn a u ctx
      | _ \<Rightarrow> generate_sample_asset_data wk (ar_name row)) ts1 db1 = Some (Inr out, ts', db')"
    unfolding execute_asset_def run_ok_Some by (elim disjE exE conjE; (blast | simp))
  then show ?thesis by (auto split: option.splits dest: sample python)
qed

lemma returns_plan:
  assumes wk: "libraries_ok wk"
  shows "returns (3 * length as + 1) (execute_plan wk d pl as)"
proof (induction as)
  case (Cons a as)
  let ?rest = "\<lambda>out. run_ok (run_asset_checks wk d a (pl_execution_id pl) (pl_tenant_id pl) out) (\<lambda>rs.
    case find blocks rs of Some r \<Rightarrow> blocking_failure wk d a (pl_tenant_id pl) r | None \<Rightarrow> execute_plan wk d pl as)"
  have rest: "returns (3 * length as + 3) (?rest out)" if "fixed_output wk = Some out" for out
  proof (rule returns_ok [OF returns_checks [OF wk that]])
    have "returns (3 * length as + 1) (case find blocks rs of
        Some r \<Rightarrow> blocking_failure wk d a (pl_tenant_id pl) r | None \<Rightarrow> execute_plan wk d pl as)" for rs
      unfolding blocking_failure_def get_check_name_def by (intro returns_intros Cons.IH) simp_all
    then show "returns (3 * length as + 3 - 2) (case find blocks rs of
        Some r \<Rightarrow> blocking_failure wk d a (pl_tenant_id pl) r | None \<Rightarrow> execute_plan wk d pl as)" for rs
      by simp
  qed simp
  show ?case
    unfolding returns_def
  proof (intro allI impI)
    fix ts :: "tick list" and db assume l: "3 * length (a # as) + 1 \<le> length ts"
    then have "1 \<le> length ts" by simp
    with returns_asset [OF wk, of d a "pl_tenant_id pl" "pl_partition_context pl"] obtain q ts1 db1 where
      q: "execute_asset wk d a (pl_tenant_id pl) (pl_partition_context pl) ts db = Some (q, ts1, db1)" "length ts \<le> length ts1 + 1"
      unfolding returns_def by blast
    show "\<exists>r ts' db'. execute_plan wk d pl (a # as) ts db = Some (r, ts', db') \<and>
        length ts \<le> length ts' + (3 * length (a # as) + 1)"
    proof (cases q)
      case (Inl e)
      then show ?thesis using q by (auto simp: run_ok_def run_bind_def run_return_def)
    next
      case (Inr out)
      have "3 * length as + 3 \<le> length ts1" using q(2) l by simp
      with rest [OF asset_output_is] q(1) Inr obtain r ts2 db2 where
        "?rest out ts1 db1 = Some (r, ts2, db2)" "length ts1 \<le> length ts2 + (3 * length as + 3)"
        unfolding returns_def by blast
      then show ?thesis using q Inr by (auto simp: run_ok_def run_bind_def)
    qed
  qed
qed (simp add: returns_return)

text \<open>
  C39: the worker always returns. When the hash maps of the libraries are walked as they promise and
  no redaction of a failed sample panics, an execution comes to its end on every schedule with three
  storage calls for each asset of the plan and seven more, whatever other processes write meanwhile,
  whichever calls fail and whenever the timer fires.
\<close>

theorem worker_returns:
  assumes "libraries_ok wk" "3 * length (pl_execution_plan pl) + 7 \<le> length ts"
  shows "\<exists>r ts' db'. execute wk pl ts db = Some (r, ts', db') \<and>
    length ts \<le> length ts' + (3 * length (pl_execution_plan pl) + 7)"
proof -
  have finish: "returns 4 (finish wk pl res)" for res
  proof -
    have end_of: "returns 2 (run_ok (run_map_error h (run_transition sx u i s t)) (\<lambda>_. run_return (Inr ())))"
      for h sx u i s t
      by (rule returns_ok [OF returns_map_error [OF returns_transition]]) (simp_all add: returns_return)
    have fail: "returns 2 (run_map_error h (run_failure sx u i m))" for h sx u i m
      by (rule returns_map_error [OF returns_failure])
    have both: "returns 4 (run_ok (run_map_error h (run_transition sx u i s t)) (\<lambda>_. run_map_error g (run_failure sx u i m)))"
      for h g sx u i s t m
      by (rule returns_ok [OF returns_map_error [OF returns_transition]]) (simp_all add: fail)
    show ?thesis
      unfolding finish_def Let_def
      by (auto intro: returns_more [OF end_of] returns_more [OF fail] both split: sum.split execution_error.split)
  qed
  have "returns (3 * length (pl_execution_plan pl) + 7) (execute wk pl)"
    unfolding execute_def
  proof (rule returns_ok [OF returns_map_error [OF returns_transition]])
    fix n
    have "returns (3 * length (pl_execution_plan pl) + 1 + 4) (run_bind (execute_workflow wk (n + int (wk_timeout wk)) pl) (finish wk pl))"
      unfolding execute_workflow_def by (rule returns_bind [OF returns_plan [OF assms(1)] finish])
    then show "returns (3 * length (pl_execution_plan pl) + 7 - 2)
        (run_bind (execute_workflow wk (n + int (wk_timeout wk)) pl) (finish wk pl))" by simp
  qed simp
  with assms(2) show ?thesis unfolding returns_def by blast
qed

section \<open>Witnesses\<close>

text \<open>A worker whose checks all ask for a number of rows that the fixed rows do not have.\<close>

definition strict_worker :: "(nat, int, string) worker" where
  "strict_worker = \<lparr>wk_timeout = 60, wk_sx = (\<lambda>_. ''failed''), wk_json = plain_ops, wk_order = (\<lambda>ks. ks),
     wk_document = (\<lambda>_. JNull), wk_column = (\<lambda>_. ''null''), wk_check = (\<lambda>_. Inr (RowCount (Some 10) None)),
     wk_read_json = (\<lambda>_. None), wk_replace = no_patterns, wk_context = (\<lambda>_. None),
     wk_python = (\<lambda>_ _. Inl ''no python''), wk_fresh = (\<lambda>ts n. ''fresh''), wk_instant = (\<lambda>ts n. 1000),
     wk_duration = (\<lambda>ts n. 0)\<rparr>"

definition strict_check :: check_row where
  "strict_check = \<lparr>ck_id = ''q'', ck_name = ''rows'', ck_description = None, ck_asset_id = ar_id sample_asset, ck_check_type = ''null'',
     ck_severity = ''error'', ck_blocking = True, ck_enabled = True, ck_tags = [], ck_owner = None,
     ck_tenant_id = None, ck_created_at = 0, ck_updated_at = 0\<rparr>"

definition strict_workflow :: workflow_row where
  "strict_workflow = \<lparr>wr_id = ''w'', wr_name = ''daily'', wr_description = None, wr_owner = None, wr_tags = [],
     wr_tenant_id = None, wr_version = 1, wr_schedule_cron = None, wr_schedule_timezone = None,
     wr_schedule_enabled = Some True, wr_scheduler_job_name = None, wr_last_scheduled_run = None,
     wr_next_scheduled_run = None, wr_created_at = 0, wr_updated_at = 0\<rparr>"

definition worker_db :: db where
  "worker_db = foldl db_step empty_db
     [Meta sample_call (Create_asset sample_asset), Meta sample_call (Create_workflow strict_workflow),
      Meta sample_call (Create_execution (new_execution ''x'' sample_call ''w'' None)),
      Check sample_call (Create_check strict_check)]"

definition strict_payload :: payload where
  "strict_payload = \<lparr>pl_execution_id = ''x'', pl_workflow_id = ''w'', pl_tenant_id = ''acme'',
     pl_idempotency_key = None, pl_execution_plan = [ar_id sample_asset], pl_partition_context = None\<rparr>"

definition worker_ticks :: "nat \<Rightarrow> tick list" where
  "worker_ticks n = replicate n (quiet_tick sample_call)"

lemma sample_quiet: "calm ''acme'' (quiet_tick sample_call)"
  by (simp add: calm_quiet sample_call_def)

lemma worker_ticks_calm: "list_all (calm ''acme'') (worker_ticks n)" "later 1000 (worker_ticks n)"
  by (simp_all add: worker_ticks_def list_all_iff sample_quiet later_def) (simp add: quiet_tick_def sample_call_def)

lemma worker_db_ok: "db_ok worker_db"
  unfolding worker_db_def by (rule db_steps_ok)

lemma row_count_samples: "vr_samples (validate_row_count a b out) = None"
  by (simp add: validate_row_count_def vr_pass_def vr_failed_def Let_def split: option.split)

lemma strict_libraries: "libraries_ok strict_worker"
proof -
  have "rp_failed_samples rp = None" if "run_check strict_worker k out = Some rp" for k out rp
    using that
    by (auto simp: run_check_def strict_worker_def validate_check_def execute_check_def report_of_def row_count_samples)
  then show ?thesis
    unfolding libraries_ok_def by (auto simp: strict_worker_def walks_id redact_samples_def)
qed

lemma strict_run:
  "map_option (\<lambda>(r, ts, db). (r, length ts, map x_state (t_executions db), map cr_outcome (t_check_results db)))
     (execute strict_worker strict_payload (worker_ticks 10) worker_db) =
   Some (Inr (), 2, [''failed''], [''failed''])"
  by code_simp

lemma strict_plan_run:
  "map_option fst (execute_workflow strict_worker 2000 strict_payload (worker_ticks 4) worker_db) =
   Some (Inl (BlockingCheckFailure (ar_id sample_asset) ''rows'' ''Row count 5 is below minimum 10''))"
  by code_simp

lemma pending_row:
  "t_executions worker_db = [new_execution ''x'' sample_call ''w'' None]"
  by code_simp

theorem checks_gate_witness:
  "\<exists>ts' db' m. execute_workflow strict_worker 2000 strict_payload (worker_ticks 4) worker_db =
       Some (Inl (BlockingCheckFailure (ar_id sample_asset) ''rows'' m), ts', db') \<and>
     plan_done strict_worker strict_payload [ar_id sample_asset] worker_db
       (Inl (BlockingCheckFailure (ar_id sample_asset) ''rows'' m)) db'"
proof -
  let ?r = "Inl (BlockingCheckFailure (ar_id sample_asset) ''rows'' ''Row count 5 is below minimum 10'')"
  obtain ts' db' where run: "execute_workflow strict_worker 2000 strict_payload (worker_ticks 4) worker_db = Some (?r, ts', db')"
    using strict_plan_run by auto
  have "list_all (calm (pl_tenant_id strict_payload)) (worker_ticks 4)"
    using worker_ticks_calm(1) by (simp add: strict_payload_def)
  from checks_gate [OF this db_okD(5) [OF worker_db_ok] run] run show ?thesis
    by (auto simp: strict_payload_def)
qed

theorem execution_verdict_witness:
  "\<exists>y rs ts' db'. execute strict_worker strict_payload (worker_ticks 10) worker_db = Some (Inr (), ts', db') \<and>
     db' = with_row (new_execution ''x'' sample_call ''w'' None) y
       (worker_db\<lparr>t_check_results := t_check_results worker_db @ rs\<rparr>) \<and> x_state y = ''failed''"
proof -
  let ?x = "new_execution ''x'' sample_call ''w'' None"
  obtain ts' db' where run: "execute strict_worker strict_payload (worker_ticks 10) worker_db = Some (Inr (), ts', db')"
    using strict_run by auto
  have "?x \<in> set (t_executions worker_db)" "x_tenant_id ?x = Some (pl_tenant_id strict_payload)"
    "x_id ?x = pl_execution_id strict_payload" "x_state ?x = ''pending''" "x_started_at ?x = None" "x_completed_at ?x = None"
    "list_all (calm (pl_tenant_id strict_payload)) (worker_ticks 10)" "later (x_created_at ?x) (worker_ticks 10)"
    using worker_ticks_calm by (simp_all add: pending_row strict_payload_def new_execution_def sample_call_def)
  from execution_verdict [OF worker_db_ok this run] obtain rs y res where
    d: "db' = with_row ?x y (worker_db\<lparr>t_check_results := t_check_results worker_db @ rs\<rparr>)" "recorded ?x res y (Inr ())"
    by (elim exE conjE) (rule that)
  moreover have "map x_state (t_executions db') = [''failed'']" using strict_run run by simp
  moreover have "t_executions worker_db = [?x]" by code_simp
  ultimately have "x_state y = ''failed''" by (simp add: with_row_def)
  with d show ?thesis using run by blast
qed

theorem worker_returns_witness:
  "\<exists>r ts' db'. execute strict_worker strict_payload (worker_ticks 10) empty_db = Some (r, ts', db')"
proof -
  have "3 * length (pl_execution_plan strict_payload) + 7 \<le> length (worker_ticks 10)"
    by (simp add: strict_payload_def worker_ticks_def)
  from worker_returns [OF strict_libraries this] show ?thesis by blast
qed

end
