(* ===== verification/LocalLife.thy ===== *)
theory LocalLife
  imports LocalRun WorkerLife
begin

text \<open>
  What the local executor guarantees: which names of functions reach the Python program, that it keeps
  the database intact, what its result says of the stored execution whatever happens meanwhile (a
  cancellation included), and on a schedule without interference the exact result and database.
\<close>

section \<open>Names\<close>

text \<open>
  The names that reach a Python program. A name is accepted exactly when it has between 1 and 256
  bytes, is made of ASCII letters, digits, underscores and dots, starts with a letter or an underscore
  and has no two dots in a row; the check for forbidden characters that follows never refuses a name.
\<close>

theorem identifier_exact:
  "(validate_python_identifier s kind = Inr ()) =
     (s \<noteq> [] \<and> length s \<le> 256 \<and> identifier_start (hd s) \<and> list_all identifier_char s \<and> \<not> str_contains ''..'' s) \<and>
   (\<forall>c \<in> set dangerous_chars. \<not> identifier_char c)"
proof -
  have safe: "list_all (\<lambda>c. \<not> identifier_char c) dangerous_chars" by code_simp
  have none: "find (\<lambda>c. c \<in> set s) dangerous_chars = None" if "list_all identifier_char s"
    using that safe by (auto simp: find_None_iff list_all_iff)
  have pattern: "python_identifier_pattern s \<longleftrightarrow> s \<noteq> [] \<and> identifier_start (hd s) \<and> list_all identifier_char s"
    by (cases s) (auto simp: python_identifier_pattern_def identifier_char_def)
  have "(validate_python_identifier s kind = Inr ()) =
     (s \<noteq> [] \<and> length s \<le> 256 \<and> identifier_start (hd s) \<and> list_all identifier_char s \<and> \<not> str_contains ''..'' s)"
  proof (cases "list_all identifier_char s")
    case True
    then show ?thesis using none by (auto simp: validate_python_identifier_def pattern)
  qed (simp add: validate_python_identifier_def pattern)
  with safe show ?thesis by (simp add: list_all_iff)
qed

section \<open>Integrity\<close>

lemma step_as_local [run_intros]: "step_op f \<Longrightarrow> step_op (as_local lx f)"
  by (simp add: as_local_def step_as_tenant)

lemma step_create_once [run_intros]: "step_op (\<lambda>c. create_execution_or_get_existing c (y c))"
  by (rule step_write [of _ "\<lambda>c. Meta c (Create_execution_once (y c))"]) simp

lemma writes_assets [run_intros]: "writes (run_assets lx x n as)"
proof (induction as arbitrary: n)
  case (Cons a as)
  then show ?case unfolding run_assets.simps by (intro run_intros)
qed (simp add: writes_return)

lemma writes_workflow [run_intros]: "writes (run_workflow_locally lx w x)"
  unfolding run_workflow_locally_def by (intro run_intros)

lemma writes_state [run_intros]: "writes (update_execution_state lx i s msg)"
  unfolding update_execution_state_def by (intro run_intros)

lemma writes_local [run_intros]: "writes (execute_with_idempotency lx w key)"
  unfolding execute_with_idempotency_def by (intro run_intros)

lemma writes_local_cancel [run_intros]: "writes (local_cancel lx i)"
  unfolding local_cancel_def by (intro run_intros)

lemma writes_db_ok:
  assumes "writes f" "db_ok db" "f ts db = Some (r, ts', db')"
  shows "db_ok db'"
proof -
  obtain ops where "db' = foldl db_step db ops" using writesD [OF assms(1,3)] by blast
  then show ?thesis using steps_db_ok [OF assms(2)] by simp
qed

section \<open>The stored execution, under interference\<close>

lemma update_stores:
  assumes "update_execution c y db = (Inr (), db')"
  shows "\<exists>r\<in>set (t_executions db'). x_id r = x_id y \<and> x_state r = x_state y \<and> x_error_message r = x_error_message y"
proof -
  let ?hit = "\<lambda>r. visible c (x_tenant_id r) \<and> x_id r = x_id y"
  from assms have hit: "0 < hits ?hit (t_executions db)"
    and upd: "t_executions db' = upd_where ?hit (put_execution y) (t_executions db)"
    unfolding update_execution_def checked_Inr with_tenant_context_Inr must_hit_Inr put_execution_def
    by (subst (asm) stmt_update_case; auto)+
  from hit obtain r where r: "r \<in> set (t_executions db)" "?hit r" by (auto simp: hits_pos)
  then have "put_execution y r \<in> set (t_executions db')" unfolding upd upd_where_def by auto
  with r(2) show ?thesis by (intro bexI [of _ "put_execution y r"]) (simp_all add: put_execution_def)
qed

lemma state_stored:
  assumes "update_execution_state lx i s msg ts db = Some (Inr (), ts', db')"
  shows "\<exists>r\<in>set (t_executions db'). x_id r = i \<and> x_state r = s \<and> (\<forall>m. msg = Some m \<longrightarrow> x_error_message r = Some m)"
proof -
  let ?u = "\<lambda>c. c\<lparr>tenant := lx_tenant lx\<rparr>"
  from assms obtain c1 db1 x db2 c2 db3 where get: "get_execution (?u c1) i db1 = (Inr x, db2)"
    and upd: "update_execution (?u c2) (state_update s msg (now (?u c2)) x) db3 = (Inr (), db')"
    by (auto simp: update_execution_state_def run_ok_Some try_Inr as_local_def as_tenant_def)
  have "x_id x = i" using get by (auto simp: get_execution_Inr dest: find_Some_in)
  then have y: "x_id (state_update s msg t x) = i" "x_state (state_update s msg t x) = s"
    "\<forall>m. msg = Some m \<longrightarrow> x_error_message (state_update s msg t x) = Some m" for t
    by (auto simp: state_update_def Let_def split: option.split)
  from update_stores [OF upd] show ?thesis using y by metis
qed

lemma create_once_new:
  assumes "create_execution_or_get_existing c (new_execution i c' w None) db = (Inr (j, b), db')"
  shows "j = i \<and> b"
  using assms
  by (auto simp: create_execution_or_get_existing_def checked_Inr with_tenant_context_Inr Let_def tx_Inr
      same_execution_key_def new_execution_def list_ex_iff tx_bind_Inr tx_return_def simp del: checked.simps
      split: option.splits if_splits)

text \<open>
  C5: the result of a local run and the stored execution agree, whatever other processes write
  meanwhile. When the run succeeds, its execution is stored as succeeded; when it fails, the execution
  is stored as failed with the message of the error, unless the error is that of a storage call. Both
  hold also when another process has marked the execution cancelled: the mark is overwritten.
\<close>

theorem local_run_recorded:
  assumes "local_execute lx w ts db = Some (r, ts', db')"
  shows "case r of
      Inr res \<Rightarrow> er_success res \<and> er_execution_id res = lx_fresh lx ts \<and>
        (\<exists>x\<in>set (t_executions db'). x_id x = lx_fresh lx ts \<and> x_state x = ''succeeded'')
    | Inl e \<Rightarrow> (\<exists>what se. e = local_error lx what se) \<or>
        (\<exists>x\<in>set (t_executions db'). x_id x = lx_fresh lx ts \<and> x_state x = ''failed'' \<and> x_error_message x = Some (show_error e))"
proof -
  let ?i = "lx_fresh lx ts"
  have state: "\<exists>what se. e = local_error lx what se" if "update_execution_state lx i s msg ts1 db1 = Some (Inl e, ts2, db2)"
    for e i s msg ts1 db1 ts2 db2
    using that by (auto simp: update_execution_state_def run_ok_Some try_Inl)
  from assms consider
      (err) e where "r = Inl e" "\<exists>what se. e = local_error lx what se"
    | (created) db1 j b ts2 db2 c where "create_execution_or_get_existing c (new_execution ?i c w None) db1 = (Inr (j, b), db2)"
        "(if \<not> b
          then run_ok (try_db (local_error lx ''Failed to get execution: '') (as_local lx (\<lambda>c. get_execution c j))) (\<lambda>x.
            run_return (Inr \<lparr>er_execution_id = j, er_success = (x_state x = ''succeeded''), er_error = x_error_message x\<rparr>))
          else run_ok (update_execution_state lx j ''running'' None) (\<lambda>_.
            run_bind (run_workflow_locally lx w j) (\<lambda>r. case r of
              Inr res \<Rightarrow> run_ok (update_execution_state lx j ''succeeded'' None) (\<lambda>_. run_return (Inr res))
            | Inl e \<Rightarrow> run_ok (update_execution_state lx j ''failed'' (Some (show_error e))) (\<lambda>_. run_return (Inl e)))))
           ts2 db2 = Some (r, ts', db')"
    unfolding local_execute_def execute_with_idempotency_def point_bind run_ok_Some [of "try_db _ _"]
    by (auto simp: try_Inl try_Inr as_local_def as_tenant_def)
  then show ?thesis
  proof cases
    case err
    then show ?thesis by simp
  next
    case created
    from create_once_new [OF created(1)] have "j = ?i" "b" by auto
    with created(2) have "run_ok (update_execution_state lx ?i ''running'' None) (\<lambda>_.
        run_bind (run_workflow_locally lx w ?i) (\<lambda>r. case r of
          Inr res \<Rightarrow> run_ok (update_execution_state lx ?i ''succeeded'' None) (\<lambda>_. run_return (Inr res))
        | Inl e \<Rightarrow> run_ok (update_execution_state lx ?i ''failed'' (Some (show_error e))) (\<lambda>_. run_return (Inl e))))
       ts2 db2 = Some (r, ts', db')" by simp
    then consider
        (start) e where "r = Inl e" "\<exists>what se. e = local_error lx what se"
      | (ended) q ts3 db3 ts4 db4 where "run_workflow_locally lx w ?i ts3 db3 = Some (q, ts4, db4)"
          "(case q of
              Inr res \<Rightarrow> run_ok (update_execution_state lx ?i ''succeeded'' None) (\<lambda>_. run_return (Inr res))
            | Inl e \<Rightarrow> run_ok (update_execution_state lx ?i ''failed'' (Some (show_error e))) (\<lambda>_. run_return (Inl e)))
           ts4 db4 = Some (r, ts', db')"
      unfolding run_ok_Some [of "update_execution_state lx ?i ''running'' None"] run_bind_Some using state by blast
    then show ?thesis
    proof cases
      case start
      then show ?thesis by simp
    next
      case ended
      show ?thesis
      proof (cases q)
        case (Inl e)
        with ended(2) state state_stored [of lx ?i "''failed''" "Some (show_error e)"]
        show ?thesis by (fastforce simp: run_ok_Some)
      next
        case (Inr res)
        have res: "er_success res" "er_execution_id res = ?i"
          using ended(1) Inr by (auto simp: run_workflow_locally_def run_ok_Some split: if_splits)
        with ended(2) Inr state state_stored [of lx ?i "''succeeded''" None]
        show ?thesis by (fastforce simp: run_ok_Some)
      qed
    qed
  qed
qed

section \<open>The exact run, without interference\<close>

lemma local_integrity:
  "db_ok db \<Longrightarrow> execute_with_idempotency lx w key ts db = Some (r, ts', db') \<Longrightarrow> db_ok db'"
  "db_ok db \<Longrightarrow> local_cancel lx i ts db = Some (q, ts', db') \<Longrightarrow> db_ok db'"
  by (rule writes_db_ok [OF writes_local], assumption+) (rule writes_db_ok [OF writes_local_cancel])

text \<open>The error of the first asset that fails.\<close>

fun first_failure :: "'n local \<Rightarrow> uuid \<Rightarrow> nat \<Rightarrow> asset_row list \<Rightarrow> runtime_error option" where
  "first_failure lx x n [] = None"
| "first_failure lx x n (a # as) =
     (case execute_asset_python lx n a x of Some (Inl e) \<Rightarrow> Some e | _ \<Rightarrow> first_failure lx x (Suc n) as)"

lemma assets_exact:
  assumes "\<And>ts n i. \<not> lx_cancelled lx ts n i" "run_assets lx x n as ts db = Some (r, ts', db')"
  shows "ts' = ts \<and> db' = db \<and> r = (case first_failure lx x n as of None \<Rightarrow> Inr () | Some e \<Rightarrow> Inl e)"
  using assms(2)
proof (induction as arbitrary: n)
  case (Cons a as)
  show ?case
  proof (cases "execute_asset_python lx n a x")
    case None
    with Cons.prems assms(1) show ?thesis by simp
  next
    case (Some p)
    show ?thesis
    proof (cases p)
      case (Inl e)
      with Some Cons.prems assms(1) show ?thesis by auto
    next
      case (Inr v)
      with Some Cons.prems assms(1) have "run_assets lx x (Suc n) as ts db = Some (r, ts', db')" by simp
      from Cons.IH [OF this] Some Inr show ?thesis by simp
    qed
  qed
qed simp

lemma state_put: "put_execution (state_update s msg t x) x = state_update s msg t x"
  by (simp add: put_execution_def state_update_def Let_def split: option.split)

lemma state_update_simps [simp]:
  "x_id (state_update s msg t x) = x_id x" "x_tenant_id (state_update s msg t x) = x_tenant_id x"
  "x_created_at (state_update s msg t x) = x_created_at x" "x_state (state_update s msg t x) = s"
  by (simp_all add: state_update_def Let_def split: option.split)

lemma state_calm:
  assumes row: "has_row (lx_tenant lx) x db" and ts: "list_all (calm (lx_tenant lx)) ts" "later n ts"
    and x: "x_id x = i" and chk: "\<And>t. n \<le> t \<Longrightarrow> execution_check_row (state_update s msg t x) = None"
    and run: "update_execution_state lx i s msg ts db = Some (r, ts', db')"
  shows "\<exists>t. r = Inr () \<and> n \<le> t \<and> later t ts' \<and> list_all (calm (lx_tenant lx)) ts' \<and>
    db' = with_row x (state_update s msg t x) db \<and> has_row (lx_tenant lx) (state_update s msg t x) db'"
proof -
  let ?u = "lx_tenant lx"
  obtain t1 ts1 where t1: "ts = t1 # ts1"
    using run by (cases ts) (auto simp: update_execution_state_def run_ok_def run_bind_def)
  have c1: "calm ?u t1" using ts(1) t1 by simp
  have rd: "try_db h (as_local lx (\<lambda>c. get_execution c i)) (t1 # ts1) db = Some (Inr x, ts1, db)"
    for h :: "storage_error \<Rightarrow> runtime_error"
    using get_calm [OF row c1] c1 x by (simp add: try_calm_eq as_local_def)
  let ?y = "\<lambda>c. state_update s msg (now c) x"
  have run': "try_db (local_error lx ''Failed to update execution: '') (as_local lx (\<lambda>c. update_execution c (?y c)))
      ts1 db = Some (r, ts', db')"
    using run by (simp add: update_execution_state_def run_ok_def run_bind_def t1 rd)
  then obtain t2 rest where t2: "ts1 = t2 # rest" by (cases ts1) auto
  let ?n = "now (tk_call t2)"
  have c2: "calm ?u t2" "list_all (calm ?u) rest" and l: "n \<le> ?n" "later ?n rest"
    using ts t1 t2 by (auto simp: later_def)
  have "execution_check_row (put_execution (?y (tk_call t2)) x) = None" unfolding state_put by (rule chk [OF l(1)])
  note upd = update_calm [OF row c2(1) _ this, unfolded state_put, simplified]
  have "try_db (local_error lx ''Failed to update execution: '') (as_local lx (\<lambda>c. update_execution c (?y c)))
      ts1 db = Some (Inr (), rest, with_row x (?y (tk_call t2)) db)"
    using c2(1) upd(1) unfolding t2 by (simp add: try_calm_eq as_local_def)
  with run' l c2(2) upd(2) show ?thesis by auto
qed

definition workflow_assets_of :: "tenant \<Rightarrow> uuid \<Rightarrow> db \<Rightarrow> asset_row list" where
  "workflow_assets_of u w db = concat (map (\<lambda>wa. filter (\<lambda>a. ar_id a = wa_asset_id wa) (my_assets (call_of u 0) db))
     (sort_key wa_position (filter (\<lambda>wa. wa_workflow_id wa = w) (t_workflow_assets db))))"

lemma my_calm:
  assumes "calm u t"
  shows "my_assets (tk_call t) db = my_assets (call_of u 0) db" "my_workflows (tk_call t) db = my_workflows (call_of u 0) db"
  using assms by (simp_all add: my_assets_def my_workflows_def visible_calm)

lemma workflow_calm:
  assumes ts: "list_all (calm (lx_tenant lx)) ts"
    and nc: "\<And>ts n i. \<not> lx_cancelled lx ts n i"
    and w: "find (\<lambda>v. wr_id v = w) (my_workflows (call_of (lx_tenant lx) 0) db) = Some v"
    and run: "run_workflow_locally lx w x ts db = Some (r, ts', db')"
  shows "suffix ts' ts \<and> db' = db \<and>
    r = (case first_failure lx x 0 (workflow_assets_of (lx_tenant lx) w db) of
           None \<Rightarrow> Inr \<lparr>er_execution_id = x, er_success = True, er_error = None\<rparr> | Some e \<Rightarrow> Inl e)"
proof -
  let ?rest = "\<lambda>as. run_ok (run_assets lx x 0 as) (\<lambda>_.
    run_return (Inr \<lparr>er_execution_id = x, er_success = True, er_error = None\<rparr>))"
  let ?wf = "try_db (\<lambda>e. NotFoundR (''Workflow not found: '' @ show_storage_error (lx_sx lx) e)) (as_local lx (\<lambda>c. get_workflow c w))"
  let ?as = "try_db (local_error lx ''Failed to get workflow assets: '') (as_local lx (\<lambda>c. get_workflow_assets c w))"
  have run1: "run_ok ?wf (\<lambda>_. run_ok ?as ?rest) ts db = Some (r, ts', db')"
    using run nc by (simp add: run_workflow_locally_def)
  then obtain t1 ts1 where t1: "ts = t1 # ts1" by (cases ts) (auto simp: run_ok_def run_bind_def)
  have c1: "calm (lx_tenant lx) t1" using ts t1 by simp
  have "?wf (t1 # ts1) db = Some (Inr v, ts1, db)"
    using c1 w by (simp add: try_calm_eq as_local_def get_workflow_def calm_commit my_calm)
  with run1 have run2: "run_ok ?as ?rest ts1 db = Some (r, ts', db')" by (simp add: run_ok_def run_bind_def t1)
  then obtain t2 ts2 where t2: "ts1 = t2 # ts2" by (cases ts1) (auto simp: run_ok_def run_bind_def)
  have c2: "calm (lx_tenant lx) t2" using ts t1 t2 by simp
  have "?as (t2 # ts2) db = Some (Inr (workflow_assets_of (lx_tenant lx) w db), ts2, db)"
    using c2 by (simp add: try_calm_eq as_local_def get_workflow_assets_def calm_commit my_calm workflow_assets_of_def)
  with run2 have "?rest (workflow_assets_of (lx_tenant lx) w db) ts2 db = Some (r, ts', db')"
    by (simp add: run_ok_def run_bind_def t2)
  then show ?thesis
    using assets_exact [OF nc] t1 t2
    by (fastforce simp: run_ok_Some suffix_def split: option.splits)
qed

lemma with_row_new:
  assumes "\<forall>z\<in>set (t_executions db). x_id z \<noteq> x_id x"
  shows "with_row x y (db\<lparr>t_executions := t_executions db @ [x]\<rparr>) = db\<lparr>t_executions := t_executions db @ [y]\<rparr>"
proof -
  have "map (\<lambda>r. if r = x then y else r) (t_executions db) = t_executions db"
    using assms by (intro map_idI) auto
  then show ?thesis by (simp add: with_row_def)
qed

lemma create_once_calm:
  assumes t: "calm u t" and fresh: "\<forall>z\<in>set (t_executions db). x_id z \<noteq> i"
    and w: "find (\<lambda>v. wr_id v = w) (my_workflows (call_of u 0) db) = Some v"
  shows "create_execution_or_get_existing (tk_call t) (new_execution i (tk_call t) w None) db =
    (Inr (i, True), db\<lparr>t_executions := t_executions db @ [new_execution i (tk_call t) w None]\<rparr>)"
proof -
  let ?x = "new_execution i (tk_call t) w None"
  have u: "tenant (tk_call t) = u" using t by (simp add: calm_def)
  have same: "?x\<lparr>x_tenant_id := Some u\<rparr> = ?x" by (simp add: new_execution_def u)
  have ok: "validate_execution_state (x_state ?x) = Inr ()" "execution_check_row ?x = None" "visible (tk_call t) (x_tenant_id ?x)"
    by (simp_all add: new_execution_def validate_execution_state_def execution_states_def execution_check_None visible_def)
  have key: "\<not> list_ex (same_execution_key ?x) (t_executions db)"
    by (simp add: list_ex_iff same_execution_key_def new_execution_def)
  have "list_ex (\<lambda>v. wr_id v = w) (t_workflows db)"
    using find_Some_in [OF w] by (auto simp: list_ex_iff my_workflows_def)
  then have fk: "execution_fk db ?x = None" by (simp add: execution_fk_def violated_None new_execution_def)
  have clash: "key_clash [execution_pkey] ?x (t_executions db) = None"
    using fresh by (auto simp: key_clash_None execution_pkey_def new_execution_def list_ex_iff)
  have "insert_execution (tk_call t) [execution_pkey] ?x db = Inr ((), db\<lparr>t_executions := t_executions db @ [?x]\<rparr>)"
    unfolding insert_execution_Inr using ok fk clash by simp
  moreover have "x_id ?x = i" by (simp add: new_execution_def)
  ultimately show ?thesis
    using t ok key u by (simp add: create_execution_or_get_existing_def calm_commit policy_def Let_def same tx_bind_def tx_return_def)
qed

text \<open>
  C25: the exact local run. On a schedule without interference or cancellation, a run with a fresh
  identifier of a workflow that exists adds one execution and changes nothing else. When every asset
  of the workflow, in order, runs without an error the execution is stored as succeeded and the result
  is a success; otherwise the error of the first asset that fails is returned and stored, and the
  execution is stored as failed.
\<close>

theorem local_exact:
  assumes ts: "list_all (calm (lx_tenant lx)) ts" "later n ts"
    and nc: "\<forall>ts n i. \<not> lx_cancelled lx ts n i"
    and ok: "executions_ok db" "\<forall>z\<in>set (t_executions db). x_id z \<noteq> lx_fresh lx ts"
    and w: "find (\<lambda>v. wr_id v = w) (my_workflows (call_of (lx_tenant lx) 0) db) = Some v"
    and run: "local_execute lx w ts db = Some (r, ts', db')"
  shows "\<exists>x. x_id x = lx_fresh lx ts \<and> x_workflow_id x = w \<and> x_tenant_id x = Some (lx_tenant lx) \<and>
    x_started_at x \<noteq> None \<and> x_completed_at x \<noteq> None \<and> db' = db\<lparr>t_executions := t_executions db @ [x]\<rparr> \<and>
    (case first_failure lx (lx_fresh lx ts) 0 (workflow_assets_of (lx_tenant lx) w db) of
       None \<Rightarrow> x_state x = ''succeeded'' \<and> x_error_message x = None \<and>
         r = Inr \<lparr>er_execution_id = lx_fresh lx ts, er_success = True, er_error = None\<rparr>
     | Some e \<Rightarrow> x_state x = ''failed'' \<and> x_error_message x = Some (show_error e) \<and> r = Inl e)"
proof -
  let ?u = "lx_tenant lx" and ?i = "lx_fresh lx ts"
  let ?last = "\<lambda>r. case r of
      Inr res \<Rightarrow> run_ok (update_execution_state lx ?i ''succeeded'' None) (\<lambda>_. run_return (Inr res))
    | Inl e \<Rightarrow> run_ok (update_execution_state lx ?i ''failed'' (Some (show_error e))) (\<lambda>_. run_return (Inl e))"
  obtain t1 ts1 where t1: "ts = t1 # ts1"
    using run by (cases ts) (auto simp: local_execute_def execute_with_idempotency_def run_ok_Some)
  have c1: "calm ?u t1" "list_all (calm ?u) ts1" using ts(1) t1 by simp_all
  let ?n = "now (tk_call t1)" and ?x = "new_execution ?i (tk_call t1) w None"
  let ?db = "db\<lparr>t_executions := t_executions db @ [?x]\<rparr>"
  have l1: "later ?n ts1" using ts(2) t1 by (auto simp: later_def)
  have "try_db (local_error lx ''Failed to create execution: '')
      (as_local lx (\<lambda>c. create_execution_or_get_existing c (new_execution ?i c w None))) ts db =
    Some (Inr (?i, True), ts1, ?db)"
    using create_once_calm [OF c1(1) ok(2) w] c1(1) by (simp add: try_calm_eq as_local_def t1)
  with run have run1: "run_ok (update_execution_state lx ?i ''running'' None)
      (\<lambda>_. run_bind (run_workflow_locally lx w ?i) ?last) ts1 ?db = Some (r, ts', db')"
    by (simp add: local_execute_def execute_with_idempotency_def run_ok_def [of "try_db _ _"] run_bind_def [of "try_db _ _"])
  have new: "x_id ?x = ?i" "x_tenant_id ?x = Some ?u" "x_created_at ?x = ?n" "x_started_at ?x = None" "x_completed_at ?x = None"
    "x_idempotency_key ?x = None" "x_error_message ?x = None" "x_workflow_id ?x = w"
    using c1(1) by (simp_all add: new_execution_def calm_def)
  have "execution_check_row ?x = None" by (simp add: execution_check_None new_execution_def execution_states_def)
  then have "executions_ok ?db"
    by (rule insert_ok [OF ok(1)]) (use ok(2) new in \<open>auto simp: same_execution_key_def\<close>)
  then have row: "has_row ?u ?x ?db" using new(2) by (simp add: has_row_def visible_def)
  have chk1: "execution_check_row (state_update ''running'' None t ?x) = None" if "?n \<le> t" for t
    using that new by (simp add: execution_check_None state_update_def Let_def execution_states_def)
  from run1 obtain q ts2 db2 where q: "update_execution_state lx ?i ''running'' None ts1 ?db = Some (q, ts2, db2)"
    "\<forall>v. q = Inr v \<longrightarrow> run_bind (run_workflow_locally lx w ?i) ?last ts2 db2 = Some (r, ts', db')"
    by (auto simp: run_ok_Some)
  from state_calm [OF row c1(2) l1 new(1) chk1 q(1)] obtain t2 where
    t2: "q = Inr ()" "?n \<le> t2" "later t2 ts2" "list_all (calm ?u) ts2"
      "db2 = with_row ?x (state_update ''running'' None t2 ?x) ?db"
      "has_row ?u (state_update ''running'' None t2 ?x) db2" by blast
  let ?y = "state_update ''running'' None t2 ?x"
  have fresh: "\<forall>z\<in>set (t_executions db). x_id z \<noteq> x_id ?x" using ok(2) new(1) by simp
  have db2: "db2 = db\<lparr>t_executions := t_executions db @ [?y]\<rparr>" unfolding t2(5) by (rule with_row_new [OF fresh])
  have w2: "find (\<lambda>v. wr_id v = w) (my_workflows (call_of ?u 0) db2) = Some v" using w by (simp add: db2 my_workflows_def)
  have as2: "workflow_assets_of ?u w db2 = workflow_assets_of ?u w db" by (simp add: db2 workflow_assets_of_def my_assets_def)
  have y: "x_id ?y = ?i" "x_started_at ?y = Some t2" "x_completed_at ?y = None" "x_error_message ?y = None"
    "x_created_at ?y = ?n" "x_workflow_id ?y = w" "x_tenant_id ?y = Some ?u" "x_idempotency_key ?y = None"
    using new by (simp_all add: state_update_def Let_def)
  from q(2) t2(1) obtain p ts3 db3 where p: "run_workflow_locally lx w ?i ts2 db2 = Some (p, ts3, db3)"
    "?last p ts3 db3 = Some (r, ts', db')" by (auto simp: run_bind_Some)
  from workflow_calm [OF t2(4) _ w2 p(1)] nc as2 have
    p': "suffix ts3 ts2" "db3 = db2" "p = (case first_failure lx ?i 0 (workflow_assets_of ?u w db) of
           None \<Rightarrow> Inr \<lparr>er_execution_id = ?i, er_success = True, er_error = None\<rparr> | Some e \<Rightarrow> Inl e)" by auto
  note c3 = calm_suffix [OF p'(1) t2(4)] and l3 = later_suffix [OF t2(3) p'(1)]
  have final: "\<exists>t x. q = Inr () \<and> x = state_update s msg t ?y \<and> db' = db\<lparr>t_executions := t_executions db @ [x]\<rparr>"
    if s: "s \<in> {''succeeded'', ''failed''}" and u: "update_execution_state lx ?i s msg ts3 db3 = Some (q, ts', db')" for s msg q
  proof -
    have chk: "execution_check_row (state_update s msg t ?y) = None" if "t2 \<le> t" for t
      using that s y t2(2) by (auto simp: execution_check_None state_update_def Let_def execution_states_def split: option.splits)
    from state_calm [OF t2(6) c3 l3 y(1) chk u [unfolded p'(2)]] obtain t where
      "q = Inr ()" "db' = with_row ?y (state_update s msg t ?y) db2" by blast
    moreover have "with_row ?y z db2 = db\<lparr>t_executions := t_executions db @ [z]\<rparr>" for z
      unfolding db2 by (rule with_row_new) (use ok(2) y(1) in simp)
    ultimately show ?thesis by auto
  qed
  show ?thesis
  proof (cases "first_failure lx ?i 0 (workflow_assets_of ?u w db)")
    case None
    with p(2) p'(3) obtain k where k: "update_execution_state lx ?i ''succeeded'' None ts3 db3 = Some (k, ts', db')"
      "\<forall>v. k = Inr v \<longrightarrow> r = Inr \<lparr>er_execution_id = ?i, er_success = True, er_error = None\<rparr>"
      by (auto simp: run_ok_Some)
    from final [OF _ k(1)] obtain t where "k = Inr ()" "db' = db\<lparr>t_executions := t_executions db @ [state_update ''succeeded'' None t ?y]\<rparr>" by auto
    with k(2) None y show ?thesis
      by (intro exI [of _ "state_update ''succeeded'' None t ?y"]) (simp add: state_update_def Let_def)
  next
    case (Some e)
    with p(2) p'(3) obtain k where k: "update_execution_state lx ?i ''failed'' (Some (show_error e)) ts3 db3 = Some (k, ts', db')"
      "\<forall>v. k = Inr v \<longrightarrow> r = Inl e"
      by (auto simp: run_ok_Some)
    from final [OF _ k(1)] obtain t where "k = Inr ()"
      "db' = db\<lparr>t_executions := t_executions db @ [state_update ''failed'' (Some (show_error e)) t ?y]\<rparr>" by auto
    with k(2) Some y show ?thesis
      by (intro exI [of _ "state_update ''failed'' (Some (show_error e)) t ?y"]) (simp add: state_update_def Let_def)
  qed
qed

section \<open>Witnesses\<close>

definition sample_local :: "nat local" where
  "sample_local = \<lparr>lx_tenant = ''acme'', lx_config = config_default None, lx_sx = (\<lambda>_. ''failed''),
     lx_read_json = (\<lambda>_. None), lx_process = (\<lambda>_ _ _ _. Exited True (Some 0) [] []),
     lx_fresh = (\<lambda>_. ''y''), lx_cancelled = (\<lambda>_ _ _. False)\<rparr>"

definition local_db :: db where
  "local_db = worker_db\<lparr>t_workflow_assets := [\<lparr>wa_workflow_id = ''w'', wa_asset_id = ''a'', wa_position = 0\<rparr>]\<rparr>"

lemma local_db_ok: "db_ok local_db"
proof -
  have "members_ok local_db" unfolding members_ok_def by code_simp
  moreover have "metas_ok local_db = metas_ok worker_db" "refs_ok local_db = refs_ok worker_db"
    "backfill_ok local_db = backfill_ok worker_db" "executions_ok local_db = executions_ok worker_db"
    "checks_ok local_db = checks_ok worker_db"
    by (simp_all add: local_db_def metas_ok_def refs_ok_def backfill_ok_def executions_ok_def)
  ultimately show ?thesis using worker_db_ok by (simp add: db_ok_def)
qed

theorem database_integrity_witness:
  "db_ok (foldl db_step local_db [Meta sample_call (Delete_asset ''a''), Meta sample_call (Delete_workflow ''w'')])"
  using database_integrity [of local_db] local_db_ok by blast

text \<open>A cancellation that is written while the assets are running.\<close>

definition cancelling_ticks :: "tick list" where
  "cancelling_ticks = worker_ticks 5 @ [\<lparr>tk_call = sample_call, tk_ops = [Meta sample_call (Update_execution
     ((new_execution ''y'' sample_call ''w'' None)\<lparr>x_state := ''cancelled'', x_started_at := Some 1000, x_completed_at := Some 1000\<rparr>))]\<rparr>]
     @ worker_ticks 1"

lemma cancelled_write:
  "map x_state (t_executions (foldl db_step (worker_db\<lparr>t_executions := [(new_execution ''y'' sample_call ''w'' None)\<lparr>x_state := ''running''\<rparr>]\<rparr>)
     (tk_ops (cancelling_ticks ! 5)))) = [''cancelled'']"
  by code_simp

lemma cancelled_run:
  "map_option fst (local_execute sample_local ''w'' cancelling_ticks worker_db) =
     Some (Inr \<lparr>er_execution_id = ''y'', er_success = True, er_error = None\<rparr>)"
  by code_simp

theorem local_run_recorded_witness:
  "\<exists>res ts' db'. local_execute sample_local ''w'' cancelling_ticks worker_db = Some (Inr res, ts', db') \<and>
     (\<exists>x\<in>set (t_executions db'). x_id x = ''y'' \<and> x_state x = ''succeeded'')"
proof -
  obtain res ts' db' where run: "local_execute sample_local ''w'' cancelling_ticks worker_db = Some (Inr res, ts', db')"
    using cancelled_run by auto
  have "lx_fresh sample_local cancelling_ticks = ''y''" by (simp add: sample_local_def)
  with local_run_recorded [OF run] run show ?thesis by auto
qed

lemma local_facts:
  "map_option wr_id (find (\<lambda>v. wr_id v = ''w'') (my_workflows (call_of ''acme'' 0) local_db)) = Some ''w''"
  "first_failure sample_local ''y'' 0 (workflow_assets_of ''acme'' ''w'' local_db) =
     Some (no_function sample_asset ''compute_fn_module'' ''module'')"
  "map_option fst (local_execute sample_local ''w'' (worker_ticks 7) local_db) =
     Some (Inl (no_function sample_asset ''compute_fn_module'' ''module''))"
  by code_simp+

theorem local_exact_witness:
  "\<exists>x ts' db'. local_execute sample_local ''w'' (worker_ticks 7) local_db =
       Some (Inl (no_function sample_asset ''compute_fn_module'' ''module''), ts', db') \<and>
     db' = local_db\<lparr>t_executions := t_executions local_db @ [x]\<rparr> \<and> x_state x = ''failed''"
proof -
  obtain ts' db' where run: "local_execute sample_local ''w'' (worker_ticks 7) local_db =
      Some (Inl (no_function sample_asset ''compute_fn_module'' ''module''), ts', db')"
    using local_facts(3) by auto
  have s: "lx_tenant sample_local = ''acme''" "lx_fresh sample_local ts = ''y''" "\<not> lx_cancelled sample_local ts n i" for ts n i
    by (simp_all add: sample_local_def)
  have ok: "executions_ok local_db" using db_okD(2) [OF worker_db_ok] by (simp add: local_db_def executions_ok_def)
  have "list_all (\<lambda>z. x_id z \<noteq> ''y'') (t_executions local_db)" by code_simp
  then have fresh: "\<forall>z\<in>set (t_executions local_db). x_id z \<noteq> lx_fresh sample_local (worker_ticks 7)"
    unfolding s(2) list_all_iff .
  obtain v where v: "find (\<lambda>v. wr_id v = ''w'') (my_workflows (call_of (lx_tenant sample_local) 0) local_db) = Some v"
    using local_facts(1) s by auto
  have calm: "list_all (calm (lx_tenant sample_local)) (worker_ticks 7)" using worker_ticks_calm(1) s by simp
  have nc: "\<forall>ts n i. \<not> lx_cancelled sample_local ts n i" using s by blast
  from local_exact [OF calm worker_ticks_calm(2) nc ok fresh v run] run show ?thesis
    by (simp add: s local_facts(2)) blast
qed

end
