(* ===== verification/Assets.thy ===== *)
theory Assets
  imports Prelude
begin

text \<open>
  The catalogue types of \<open>servo-core\<close>: assets, their metadata, partition configuration and
  dependencies (\<open>asset.rs\<close>), workflows (\<open>workflow.rs\<close>) and the in-memory scheduler
  (\<open>scheduler.rs\<close>). \<open>Uuid::new_v4()\<close> and \<open>Utc::now()\<close> are effects of the caller, so an
  operation that calls them takes the fresh identifier and the instant as arguments.
\<close>

section \<open>Partition configuration\<close>

datatype time_granularity = Hourly | Daily | Weekly | Monthly | Yearly

datatype partition_type =
    PTime time_granularity
  | PCustom string
  | PRange string string  \<comment> \<open>lower bound (inclusive), upper bound (exclusive)\<close>

record partition_config =
  partition_type :: partition_type
  partition_key :: string

section \<open>Assets\<close>

type_synonym asset_id = uuid

datatype dependency_type = DData | DMetadata | DControl

record asset_dependency =
  upstream_asset_id :: asset_id
  dependency_type :: dependency_type

record asset_metadata =
  description :: "string option"
  asset_type :: string
  owner :: "string option"
  tags :: "string list"
  created_at :: time
  updated_at :: time
  tenant_id :: "string option"
  partition :: "partition_config option"

record asset =
  asset_id :: asset_id
  asset_name :: string
  metadata :: asset_metadata
  dependencies :: "asset_dependency list"

definition asset_new :: "asset_id \<Rightarrow> time \<Rightarrow> string \<Rightarrow> asset" where
  "asset_new fresh now nm =
     \<lparr> asset_id = fresh, asset_name = nm,
       metadata = \<lparr> description = None, asset_type = ''generic'', owner = None, tags = [],
                    created_at = now, updated_at = now, tenant_id = None, partition = None \<rparr>,
       dependencies = [] \<rparr>"

definition add_dependency :: "asset \<Rightarrow> asset_id \<Rightarrow> dependency_type \<Rightarrow> asset" where
  "add_dependency a upstream dep_type =
     (if (\<exists>d\<in>set (dependencies a). upstream_asset_id d = upstream \<and> dependency_type d = dep_type)
      then a
      else a\<lparr>dependencies := dependencies a @
               [\<lparr>upstream_asset_id = upstream, dependency_type = dep_type\<rparr>]\<rparr>)"

definition asset_touch :: "time \<Rightarrow> asset \<Rightarrow> asset" where
  "asset_touch now a = a\<lparr>metadata := (metadata a)\<lparr>updated_at := now\<rparr>\<rparr>"

subsection \<open>The builder\<close>

record asset_builder =
  b_name :: string
  b_description :: "string option"
  b_asset_type :: string
  b_owner :: "string option"
  b_tags :: "string list"
  b_tenant_id :: "string option"
  b_partition :: "partition_config option"
  b_dependencies :: "asset_dependency list"

definition builder_new :: "string \<Rightarrow> asset_builder" where
  "builder_new nm =
     \<lparr> b_name = nm, b_description = None, b_asset_type = ''generic'', b_owner = None, b_tags = [],
       b_tenant_id = None, b_partition = None, b_dependencies = [] \<rparr>"

text \<open>The setters of \<open>AssetBuilder\<close>, one constructor each, and their effect on the builder.\<close>

datatype builder_call =
    Set_description string
  | Set_asset_type string
  | Set_owner string
  | Add_tag string
  | Add_tags "string list"
  | Set_tenant_id string
  | Partitioned_daily string
  | Partitioned_hourly string
  | Set_partition partition_config
  | Partitioned_custom string
  | Partitioned_range string string string
  | Depends_on asset_id dependency_type

fun builder_apply :: "asset_builder \<Rightarrow> builder_call \<Rightarrow> asset_builder" where
  "builder_apply b (Set_description d) = b\<lparr>b_description := Some d\<rparr>"
| "builder_apply b (Set_asset_type t) = b\<lparr>b_asset_type := t\<rparr>"
| "builder_apply b (Set_owner w) = b\<lparr>b_owner := Some w\<rparr>"
| "builder_apply b (Add_tag t) = b\<lparr>b_tags := b_tags b @ [t]\<rparr>"
| "builder_apply b (Add_tags ts) = b\<lparr>b_tags := b_tags b @ ts\<rparr>"
| "builder_apply b (Set_tenant_id t) = b\<lparr>b_tenant_id := Some t\<rparr>"
| "builder_apply b (Partitioned_daily k) =
     b\<lparr>b_partition := Some \<lparr>partition_type = PTime Daily, partition_key = k\<rparr>\<rparr>"
| "builder_apply b (Partitioned_hourly k) =
     b\<lparr>b_partition := Some \<lparr>partition_type = PTime Hourly, partition_key = k\<rparr>\<rparr>"
| "builder_apply b (Set_partition p) = b\<lparr>b_partition := Some p\<rparr>"
| "builder_apply b (Partitioned_custom e) =
     b\<lparr>b_partition := Some \<lparr>partition_type = PCustom e, partition_key = ''custom''\<rparr>\<rparr>"
| "builder_apply b (Partitioned_range k lo hi) =
     b\<lparr>b_partition := Some \<lparr>partition_type = PRange lo hi, partition_key = k\<rparr>\<rparr>"
| "builder_apply b (Depends_on u t) =
     b\<lparr>b_dependencies := b_dependencies b @
         [\<lparr>upstream_asset_id = u, dependency_type = t\<rparr>]\<rparr>"

definition builder_build :: "asset_id \<Rightarrow> time \<Rightarrow> asset_builder \<Rightarrow> asset" where
  "builder_build fresh now b =
     \<lparr> asset_id = fresh, asset_name = b_name b,
       metadata = \<lparr> description = b_description b, asset_type = b_asset_type b,
                    owner = b_owner b, tags = b_tags b, created_at = now, updated_at = now,
                    tenant_id = b_tenant_id b, partition = b_partition b \<rparr>,
       dependencies = b_dependencies b \<rparr>"

section \<open>Workflows\<close>

type_synonym workflow_id = uuid

text \<open>\<open>version\<close> is a \<open>u32\<close>; the bump is the checked addition of a debug build (None is the panic).\<close>

record workflow_metadata =
  w_description :: "string option"
  w_owner :: "string option"
  w_tags :: "string list"
  w_created_at :: time
  w_updated_at :: time
  w_tenant_id :: "string option"
  w_version :: nat

record workflow =
  workflow_id :: workflow_id
  workflow_name :: string
  workflow_metadata :: workflow_metadata
  workflow_assets :: "asset_id list"

definition workflow_new :: "workflow_id \<Rightarrow> time \<Rightarrow> string \<Rightarrow> workflow" where
  "workflow_new fresh now nm =
     \<lparr> workflow_id = fresh, workflow_name = nm,
       workflow_metadata = \<lparr> w_description = None, w_owner = None, w_tags = [],
         w_created_at = now, w_updated_at = now, w_tenant_id = None, w_version = 1 \<rparr>,
       workflow_assets = [] \<rparr>"

definition workflow_touch :: "time \<Rightarrow> workflow \<Rightarrow> workflow" where
  "workflow_touch now w = w\<lparr>workflow_metadata := (workflow_metadata w)\<lparr>w_updated_at := now\<rparr>\<rparr>"

definition workflow_add_asset :: "time \<Rightarrow> workflow \<Rightarrow> asset_id \<Rightarrow> workflow" where
  "workflow_add_asset now w a = workflow_touch now (w\<lparr>workflow_assets := workflow_assets w @ [a]\<rparr>)"

definition workflow_bump_version :: "time \<Rightarrow> workflow \<Rightarrow> workflow option" where
  "workflow_bump_version now w =
     (let v = w_version (workflow_metadata w) in
      if v + 1 < 2 ^ 32
      then Some (workflow_touch now
             (w\<lparr>workflow_metadata := (workflow_metadata w)\<lparr>w_version := v + 1\<rparr>\<rparr>))
      else None)"

definition workflow_with_version :: "time \<Rightarrow> workflow \<Rightarrow> nat \<Rightarrow> workflow" where
  "workflow_with_version now w v =
     workflow_touch now (w\<lparr>workflow_metadata := (workflow_metadata w)\<lparr>w_version := v\<rparr>\<rparr>)"

section \<open>The scheduler\<close>

datatype schedule = Immediate | At time | Cron string | OnDependency

type_synonym scheduler = "(workflow_id \<times> schedule) list"

definition scheduler_schedule :: "scheduler \<Rightarrow> workflow_id \<Rightarrow> schedule \<Rightarrow> scheduler" where
  "scheduler_schedule s w sch = s @ [(w, sch)]"

definition scheduler_unschedule :: "scheduler \<Rightarrow> workflow_id \<Rightarrow> bool \<times> scheduler" where
  "scheduler_unschedule s w =
     (let s' = filter (\<lambda>(i, _). i \<noteq> w) s in (length s' < length s, s'))"

section \<open>Properties\<close>

text \<open>No pair of a dependency list names the same upstream with the same type twice.\<close>

definition dep_key :: "asset_dependency \<Rightarrow> asset_id \<times> dependency_type" where
  "dep_key d = (upstream_asset_id d, dependency_type d)"

lemma add_dependency_distinct:
  "distinct (map dep_key (dependencies a)) \<Longrightarrow>
   distinct (map dep_key (dependencies (add_dependency a u t)))"
  by (auto simp: add_dependency_def dep_key_def)

lemma add_dependency_set:
  "set (dependencies (add_dependency a u t)) =
   insert \<lparr>upstream_asset_id = u, dependency_type = t\<rparr> (set (dependencies a))"
proof (cases "\<exists>d\<in>set (dependencies a). upstream_asset_id d = u \<and> dependency_type d = t")
  case True
  then obtain d where "d \<in> set (dependencies a)" "d = \<lparr>upstream_asset_id = u, dependency_type = t\<rparr>"
    by (metis asset_dependency.surjective unit.exhaust)
  with True show ?thesis by (auto simp: add_dependency_def)
next
  case False
  then show ?thesis by (auto simp: add_dependency_def)
qed

lemma scheduler_unschedule_iff:
  "fst (scheduler_unschedule s w) \<longleftrightarrow> w \<in> fst ` set s"
  by (auto simp: scheduler_unschedule_def length_filter_less rev_image_eqI intro!: length_filter_less)
     (metis (mono_tags, lifting) case_prod_beta filter_True fst_conv image_eqI less_irrefl)

end
