(* ===== verification/Registry.thy ===== *)
theory Registry
  imports Assets
begin

text \<open>
  The thread-safe asset registry of \<open>servo-core/src/registry.rs\<close>: two hash maps behind one
  \<open>RwLock\<close>. Every operation takes the lock for its whole body, so a concurrent use of the
  registry is a sequence of whole operations; a poisoned lock makes the writers fail and the
  readers answer as for an empty registry.
\<close>

section \<open>State and operations\<close>

datatype registry_error =
    AssetNotFound string
  | AssetAlreadyExists string
  | InvalidAsset string
  | LockPoisoned

record registry =
  poisoned :: bool
  assets_by_id :: "asset_id \<rightharpoonup> asset"
  assets_by_name :: "string \<rightharpoonup> asset_id"

text \<open>\<open>format!("{:?}", id)\<close> of the tuple struct \<open>AssetId\<close>.\<close>

definition debug_id :: "asset_id \<Rightarrow> string" where
  "debug_id i = ''AssetId('' @ i @ '')''"

definition registry_new :: registry where
  "registry_new = \<lparr>poisoned = False, assets_by_id = Map.empty, assets_by_name = Map.empty\<rparr>"

definition insert_asset :: "registry \<Rightarrow> asset \<Rightarrow> registry" where
  "insert_asset r a =
     r\<lparr>assets_by_name := (assets_by_name r)(asset_name a \<mapsto> asset_id a),
       assets_by_id := (assets_by_id r)(asset_id a \<mapsto> a)\<rparr>"

definition register :: "registry \<Rightarrow> asset \<Rightarrow> registry_error + registry" where
  "register r a =
     (if poisoned r then Inl LockPoisoned
      else if assets_by_id r (asset_id a) \<noteq> None
      then Inl (AssetAlreadyExists (debug_id (asset_id a)))
      else if assets_by_name r (asset_name a) \<noteq> None
      then Inl (AssetAlreadyExists (asset_name a))
      else Inr (insert_asset r a))"

text \<open>The validation loop of \<open>register_batch\<close>, with its two sets of names and ids seen so far.\<close>

fun validate_batch ::
  "registry \<Rightarrow> string list \<Rightarrow> asset_id list \<Rightarrow> asset list \<Rightarrow> registry_error + unit" where
  "validate_batch r names ids [] = Inr ()"
| "validate_batch r names ids (a # as) =
     (if asset_name a \<in> set names then Inl (AssetAlreadyExists (asset_name a))
      else if asset_id a \<in> set ids then Inl (AssetAlreadyExists (debug_id (asset_id a)))
      else if assets_by_name r (asset_name a) \<noteq> None
      then Inl (AssetAlreadyExists (asset_name a))
      else if assets_by_id r (asset_id a) \<noteq> None
      then Inl (AssetAlreadyExists (debug_id (asset_id a)))
      else validate_batch r (asset_name a # names) (asset_id a # ids) as)"

definition register_batch :: "registry \<Rightarrow> asset list \<Rightarrow> registry_error + registry" where
  "register_batch r as =
     (if poisoned r then Inl LockPoisoned
      else case validate_batch r [] [] as of
             Inl e \<Rightarrow> Inl e
           | Inr _ \<Rightarrow> Inr (foldl insert_asset r as))"

definition update :: "registry \<Rightarrow> asset \<Rightarrow> registry_error + registry" where
  "update r a =
     (if poisoned r then Inl LockPoisoned
      else case assets_by_id r (asset_id a) of
        None \<Rightarrow> Inl (AssetNotFound (debug_id (asset_id a)))
      | Some old \<Rightarrow>
          if asset_name old \<noteq> asset_name a then
            (if (\<exists>i. assets_by_name r (asset_name a) = Some i \<and> i \<noteq> asset_id a)
             then Inl (AssetAlreadyExists (asset_name a))
             else Inr (r\<lparr>assets_by_name :=
                          (assets_by_name r)(asset_name old := None, asset_name a \<mapsto> asset_id a),
                         assets_by_id := (assets_by_id r)(asset_id a \<mapsto> a)\<rparr>))
          else Inr (r\<lparr>assets_by_id := (assets_by_id r)(asset_id a \<mapsto> a)\<rparr>))"

definition get_by_id :: "registry \<Rightarrow> asset_id \<Rightarrow> asset option" where
  "get_by_id r i = (if poisoned r then None else assets_by_id r i)"

definition get_by_name :: "registry \<Rightarrow> string \<Rightarrow> asset option" where
  "get_by_name r n =
     (if poisoned r then None else Option.bind (assets_by_name r n) (assets_by_id r))"

text \<open>\<open>list\<close> returns the values in the iteration order of the hash map: here, their set.\<close>

definition list_assets :: "registry \<Rightarrow> asset set" where
  "list_assets r = (if poisoned r then {} else ran (assets_by_id r))"

definition count :: "registry \<Rightarrow> nat" where
  "count r = (if poisoned r then 0 else card (dom (assets_by_id r)))"

definition contains_id :: "registry \<Rightarrow> asset_id \<Rightarrow> bool" where
  "contains_id r i = (\<not> poisoned r \<and> assets_by_id r i \<noteq> None)"

definition contains_name :: "registry \<Rightarrow> string \<Rightarrow> bool" where
  "contains_name r n = (\<not> poisoned r \<and> assets_by_name r n \<noteq> None)"

definition remove :: "registry \<Rightarrow> asset_id \<Rightarrow> asset option \<times> registry" where
  "remove r i =
     (if poisoned r then (None, r)
      else case assets_by_id r i of
        Some a \<Rightarrow> (Some a, r\<lparr>assets_by_id := (assets_by_id r)(i := None),
                            assets_by_name := (assets_by_name r)(asset_name a := None)\<rparr>)
      | None \<Rightarrow> (None, r))"

definition clear :: "registry \<Rightarrow> registry" where
  "clear r =
     (if poisoned r then r
      else r\<lparr>assets_by_id := Map.empty, assets_by_name := Map.empty\<rparr>)"

lemmas registry_defs =
  register_def update_def remove_def clear_def insert_asset_def

section \<open>The representation invariant\<close>

text \<open>The name index is exactly the inverse of the names stored in the id index.\<close>

definition registry_wf :: "registry \<Rightarrow> bool" where
  "registry_wf r \<longleftrightarrow>
     (\<forall>i a. assets_by_id r i = Some a \<longrightarrow> asset_id a = i \<and> assets_by_name r (asset_name a) = Some i) \<and>
     (\<forall>n i. assets_by_name r n = Some i \<longrightarrow> (\<exists>a. assets_by_id r i = Some a \<and> asset_name a = n)) \<and>
     finite (dom (assets_by_id r))"

lemma registry_wfD:
  assumes "registry_wf r"
  shows wf_id: "assets_by_id r i = Some a \<Longrightarrow> asset_id a = i"
    and wf_id_name: "assets_by_id r i = Some a \<Longrightarrow> assets_by_name r (asset_name a) = Some i"
    and wf_name: "assets_by_name r n = Some i \<Longrightarrow> \<exists>a. assets_by_id r i = Some a \<and> asset_name a = n"
    and wf_finite: "finite (dom (assets_by_id r))"
  using assms by (auto simp: registry_wf_def)

lemma wf_new: "registry_wf registry_new"
  by (simp add: registry_wf_def registry_new_def)

lemma wf_insert:
  assumes "registry_wf r" "assets_by_id r (asset_id a) = None" "assets_by_name r (asset_name a) = None"
  shows "registry_wf (insert_asset r a)"
  using assms unfolding registry_wf_def insert_asset_def by (auto; fastforce)

lemma wf_register: "registry_wf r \<Longrightarrow> register r a = Inr r' \<Longrightarrow> registry_wf r'"
  by (auto simp: register_def wf_insert split: if_splits)

lemma wf_update:
  assumes wf: "registry_wf r" and up: "update r a = Inr r'"
  shows "registry_wf r'"
proof -
  from up obtain old where old: "assets_by_id r (asset_id a) = Some old"
    by (auto simp: update_def split: option.splits if_splits)
  have names: "asset_id old = asset_id a" "assets_by_name r (asset_name old) = Some (asset_id a)"
    using wf old by (auto simp: registry_wf_def)
  show ?thesis
  proof (cases "asset_name old = asset_name a")
    case True
    with up old have "r' = r\<lparr>assets_by_id := (assets_by_id r)(asset_id a \<mapsto> a)\<rparr>"
      by (auto simp: update_def split: if_splits)
    with wf True old names show ?thesis
      unfolding registry_wf_def by (auto; fastforce)
  next
    case False
    with up old have free: "\<And>i. assets_by_name r (asset_name a) = Some i \<Longrightarrow> i = asset_id a"
      and r': "r' = r\<lparr>assets_by_name :=
                   (assets_by_name r)(asset_name old := None, asset_name a \<mapsto> asset_id a),
                 assets_by_id := (assets_by_id r)(asset_id a \<mapsto> a)\<rparr>"
      by (auto simp: update_def split: if_splits)
    have "assets_by_name r (asset_name a) = None"
    proof (rule ccontr)
      assume "assets_by_name r (asset_name a) \<noteq> None"
      with free have "assets_by_name r (asset_name a) = Some (asset_id a)" by auto
      from wf_name [OF wf this] old False show False by auto
    qed
    have others: "asset_name b \<noteq> asset_name old \<and> asset_name b \<noteq> asset_name a"
      if "assets_by_id r j = Some b" "j \<noteq> asset_id a" for j b
      using wf_id_name [OF wf that(1)] names(2) that(2) \<open>assets_by_name r (asset_name a) = None\<close>
      by auto
    have stale: "j \<noteq> asset_id a" if "assets_by_name r n = Some j" "n \<noteq> asset_name old" for n j
      using wf_name [OF wf that(1)] old that(2) by auto
    show ?thesis
      unfolding registry_wf_def r'
      using wf_id [OF wf] wf_id_name [OF wf] wf_name [OF wf] wf_finite [OF wf] others stale
      by (auto split: if_splits)
  qed
qed

lemma wf_remove:
  assumes wf: "registry_wf r"
  shows "registry_wf (snd (remove r i))"
proof (cases "assets_by_id r i")
  case None
  with wf show ?thesis by (simp add: remove_def)
next
  case (Some a)
  have other: "asset_name b \<noteq> asset_name a" if "assets_by_id r j = Some b" "j \<noteq> i" for j b
    using wf_id_name [OF wf that(1)] wf_id_name [OF wf Some] that(2) by auto
  have stale: "j \<noteq> i" if "assets_by_name r n = Some j" "n \<noteq> asset_name a" for n j
    using wf_name [OF wf that(1)] that(2) Some by auto
  from wf Some show ?thesis
    unfolding registry_wf_def remove_def by (auto simp: other dest: stale)
qed

lemma wf_clear: "registry_wf r \<Longrightarrow> registry_wf (clear r)"
  by (simp add: registry_wf_def clear_def)

section \<open>The contract of a store of named assets\<close>

text \<open>
  What a client relies on when it puts assets into a store: a fresh asset is accepted, an
  accepted one is found under its id and its name and nothing else changes, and a name that
  is taken is refused. The registry and the workflow compiler both keep such a store.
\<close>

locale named_store =
  fixes inv :: "'s \<Rightarrow> bool"
    and ids :: "'s \<Rightarrow> asset_id \<rightharpoonup> asset"
    and names :: "'s \<Rightarrow> string \<rightharpoonup> asset_id"
    and put :: "'s \<Rightarrow> asset \<Rightarrow> 'e + 's"
  assumes put_accepts: "inv s \<Longrightarrow> ids s (asset_id a) = None \<Longrightarrow> names s (asset_name a) = None \<Longrightarrow>
      \<exists>s'. put s a = Inr s'"
    and put_inv: "inv s \<Longrightarrow> ids s (asset_id a) = None \<Longrightarrow> put s a = Inr s' \<Longrightarrow> inv s'"
    and put_ids: "put s a = Inr s' \<Longrightarrow> ids s' = (ids s)(asset_id a \<mapsto> a)"
    and put_names: "put s a = Inr s' \<Longrightarrow> names s' = (names s)(asset_name a \<mapsto> asset_id a)"
    and put_refuses: "names s (asset_name a) \<noteq> None \<Longrightarrow> \<exists>e. put s a = Inl e"
begin

text \<open>A batch of assets with new, pairwise different ids and names is accepted as a whole.\<close>

lemma put_all_accepts:
  assumes "inv s" "distinct (map asset_id as)" "distinct (map asset_name as)"
    and "\<And>a. a \<in> set as \<Longrightarrow> ids s (asset_id a) = None \<and> names s (asset_name a) = None"
  shows "\<exists>s'. fold_res put s as = Inr s' \<and> inv s'"
  using assms
proof (induction as arbitrary: s)
  case Nil
  then show ?case by simp
next
  case (Cons a as)
  from Cons.prems obtain s1 where s1: "put s a = Inr s1"
    using put_accepts by (metis list.set_intros(1))
  have "inv s1" using put_inv s1 Cons.prems by (metis list.set_intros(1))
  moreover have "ids s1 (asset_id b) = None \<and> names s1 (asset_name b) = None" if "b \<in> set as" for b
    using that Cons.prems(2,3) Cons.prems(4) [of b] put_ids [OF s1] put_names [OF s1]
    by (auto simp: rev_image_eqI)
  ultimately show ?case using Cons.IH [of s1] Cons.prems(2,3) s1 by auto
qed

lemma put_all_ids:
  "fold_res put s as = Inr s' \<Longrightarrow> ids s' i = (case find (\<lambda>a. asset_id a = i) (rev as) of
      Some a \<Rightarrow> Some a | None \<Rightarrow> ids s i)"
proof (induction as arbitrary: s)
  case Nil
  then show ?case by simp
next
  case (Cons a as)
  then obtain s1 where s1: "put s a = Inr s1" and "fold_res put s1 as = Inr s'"
    by (auto split: sum.splits)
  then show ?case
    using Cons.IH [of s1] put_ids [OF s1] by (auto simp: find_append split: option.splits)
qed

text \<open>Conversely a batch that went in had pairwise different names, none of them taken before.\<close>

lemma put_all_names_fresh:
  "fold_res put s as = Inr s' \<Longrightarrow>
   distinct (map asset_name as) \<and> (\<forall>a\<in>set as. names s (asset_name a) = None)"
proof (induction as arbitrary: s)
  case Nil
  then show ?case by simp
next
  case (Cons a as)
  then obtain s1 where s1: "put s a = Inr s1" and rest: "fold_res put s1 as = Inr s'"
    by (auto split: sum.splits)
  from Cons.IH [OF rest] have IH: "distinct (map asset_name as)"
    "\<forall>b\<in>set as. names s1 (asset_name b) = None" by auto
  have "names s (asset_name a) = None"
    using put_refuses s1 by (metis Inl_Inr_False)
  with IH put_names [OF s1] show ?case
    by (auto simp: fun_upd_def split: if_splits)
qed

end

definition registry_ok :: "registry \<Rightarrow> bool" where
  "registry_ok r \<longleftrightarrow> registry_wf r \<and> \<not> poisoned r"

interpretation reg: named_store registry_ok assets_by_id assets_by_name register
proof unfold_locales
  show "\<exists>s'. register s a = Inr s'"
    if "registry_ok s" "assets_by_id s (asset_id a) = None" "assets_by_name s (asset_name a) = None" for s a
    using that by (simp add: register_def registry_ok_def)
  show "registry_ok s'" if "registry_ok s" "register s a = Inr s'" for s a s'
    using that wf_register [of s a s']
    by (auto simp: registry_ok_def register_def insert_asset_def split: if_splits)
qed (auto simp: register_def insert_asset_def split: if_splits)

section \<open>Batch registration\<close>

lemma validate_batch_ok:
  "validate_batch r ns is as = Inr () \<longleftrightarrow>
     distinct (map asset_name as) \<and> distinct (map asset_id as) \<and>
     (\<forall>a\<in>set as. asset_name a \<notin> set ns \<and> asset_id a \<notin> set is \<and>
        assets_by_name r (asset_name a) = None \<and> assets_by_id r (asset_id a) = None)"
  by (induction r ns "is" as rule: validate_batch.induct) (auto simp: rev_image_eqI)

lemma fold_register:
  "\<not> poisoned r \<Longrightarrow> fold_res register r as = Inr r' \<longleftrightarrow>
     validate_batch r [] [] as = Inr () \<and> r' = foldl insert_asset r as"
proof (induction as arbitrary: r)
  case Nil
  then show ?case by auto
next
  case (Cons a as)
  have np: "\<not> poisoned (insert_asset r a)" using Cons.prems by (simp add: insert_asset_def)
  show ?case
    using Cons.IH [OF np] Cons.prems
    by (simp add: register_def validate_batch_ok)
       (auto simp: insert_asset_def split: if_splits)
qed

section \<open>Sequences of operations\<close>

datatype registry_op =
    Register asset
  | Register_batch "asset list"
  | Update asset
  | Remove asset_id
  | Clear

text \<open>One locked operation; an operation that returns an error leaves the registry as it was.\<close>

fun registry_step :: "registry \<Rightarrow> registry_op \<Rightarrow> registry" where
  "registry_step r (Register a) = (case register r a of Inl _ \<Rightarrow> r | Inr r' \<Rightarrow> r')"
| "registry_step r (Register_batch as) = (case register_batch r as of Inl _ \<Rightarrow> r | Inr r' \<Rightarrow> r')"
| "registry_step r (Update a) = (case update r a of Inl _ \<Rightarrow> r | Inr r' \<Rightarrow> r')"
| "registry_step r (Remove i) = snd (remove r i)"
| "registry_step r Clear = clear r"

lemma registry_step_poisoned: "poisoned (registry_step r op) = poisoned r"
proof -
  have "poisoned (foldl insert_asset r as) = poisoned r" for as
    by (induction as arbitrary: r) (auto simp: insert_asset_def)
  then show ?thesis
    by (cases op)
       (auto simp: registry_defs register_batch_def split: sum.splits option.splits if_splits)
qed

lemma wf_register_batch:
  assumes "registry_wf r" "register_batch r as = Inr r'"
  shows "registry_wf r'"
proof -
  have np: "\<not> poisoned r" and ok: "fold_res register r as = Inr r'"
    using assms(2) by (auto simp: register_batch_def fold_register split: if_splits sum.splits)
  have "registry_ok r" using assms(1) np by (simp add: registry_ok_def)
  moreover have "distinct (map asset_name as)" "distinct (map asset_id as)"
    "\<And>a. a \<in> set as \<Longrightarrow> assets_by_id r (asset_id a) = None \<and> assets_by_name r (asset_name a) = None"
    using ok np by (auto simp: fold_register validate_batch_ok)
  ultimately show ?thesis
    using reg.put_all_accepts [of r as] ok by (auto simp: registry_ok_def)
qed

lemma wf_step: "registry_wf r \<Longrightarrow> registry_wf (registry_step r op)"
  by (cases op)
     (auto split: sum.splits
           intro: wf_register wf_register_batch wf_update wf_remove wf_clear)

lemma wf_run: "registry_wf r \<Longrightarrow> registry_wf (foldl registry_step r ops)"
  by (induction ops arbitrary: r) (auto intro: wf_step)

lemma wf_lookup:
  assumes wf: "registry_wf r"
  shows "get_by_name r n = Some a \<longleftrightarrow> get_by_id r (asset_id a) = Some a \<and> asset_name a = n"
proof
  assume "get_by_name r n = Some a"
  then obtain i where i: "\<not> poisoned r" "assets_by_name r n = Some i" "assets_by_id r i = Some a"
    by (auto simp: get_by_name_def bind_eq_Some_conv split: if_splits)
  with wf_name [OF wf i(2)] wf_id [OF wf i(3)]
  show "get_by_id r (asset_id a) = Some a \<and> asset_name a = n"
    by (auto simp: get_by_id_def)
next
  assume "get_by_id r (asset_id a) = Some a \<and> asset_name a = n"
  with wf_id_name [OF wf, of "asset_id a" a] show "get_by_name r n = Some a"
    by (auto simp: get_by_id_def get_by_name_def split: if_splits)
qed

text \<open>
  C22: after any sequence of registry operations on a new registry (failed ones included), looking
  an asset up by a name gives exactly the asset registered under that name: the name index and
  the id index never disagree, whatever was renamed, removed or overwritten on the way.
\<close>

theorem registry_index_consistent:
  "get_by_name (foldl registry_step registry_new ops) n = Some a \<longleftrightarrow>
     get_by_id (foldl registry_step registry_new ops) (asset_id a) = Some a \<and> asset_name a = n"
  by (rule wf_lookup [OF wf_run [OF wf_new]])

text \<open>
  The batch registration is the one-by-one registration done in one step: on a registry whose
  lock is not poisoned it accepts exactly the batches that registering the assets in order would
  accept, with the same resulting registry. So a batch that contains a duplicate, or a name or id
  already registered, registers nothing.
\<close>

theorem register_batch_sequential:
  "\<not> poisoned r \<Longrightarrow> register_batch r as = Inr r' \<longleftrightarrow> fold_res register r as = Inr r'"
  by (auto simp: register_batch_def fold_register split: sum.splits)

theorem register_batch_sequential_witness:
  "\<not> poisoned registry_new \<and>
   register_batch registry_new [asset_new ''1'' 0 ''orders'', asset_new ''2'' 0 ''sales''] =
     fold_res register registry_new [asset_new ''1'' 0 ''orders'', asset_new ''2'' 0 ''sales'']"
proof -
  let ?as = "[asset_new ''1'' 0 ''orders'', asset_new ''2'' 0 ''sales'']"
  have np: "\<not> poisoned registry_new" by (simp add: registry_new_def)
  obtain r' where "register_batch registry_new ?as = Inr r'"
    by (simp add: register_batch_def registry_new_def asset_new_def)
  with register_batch_sequential [OF np, of ?as r'] np show ?thesis by simp
qed

end
