(* ===== verification/Kahn.thy ===== *)
theory Kahn
  imports Prelude
begin

text \<open>
  The worklist of the workflow compiler (\<open>servo-core/src/compiler.rs\<close>, the second half of
  \<open>topological_sort\<close>), over any type of node: the indegree table, one relaxation of a popped
  node's children, and the loop. A missing table entry and a subtraction below zero are panics
  of the source, here the result None; the lemmas show that neither can happen.
\<close>

section \<open>The indegree table and the loop\<close>

text \<open>
  \<open>HashMap<_, usize>\<close> as the list of its entries in iteration order. \<open>inc_deg\<close> is
  \<open>*indegree.entry(a).or_insert(0) += 1\<close>; \<open>dec_deg\<close> is \<open>get_mut(a).expect(..)\<close> and
  \<open>*entry -= 1\<close>, returning the new count.
\<close>

fun inc_deg :: "'a \<Rightarrow> ('a \<times> nat) list \<Rightarrow> ('a \<times> nat) list" where
  "inc_deg a [] = [(a, 1)]"
| "inc_deg a ((b, n) # ds) = (if a = b then (b, n + 1) # ds else (b, n) # inc_deg a ds)"

fun dec_deg :: "'a \<Rightarrow> ('a \<times> nat) list \<Rightarrow> (nat \<times> ('a \<times> nat) list) option" where
  "dec_deg a [] = None"
| "dec_deg a ((b, n) # ds) =
     (if a = b then (if n = 0 then None else Some (n - 1, (b, n - 1) # ds))
      else map_option (\<lambda>(m, ds'). (m, (b, n) # ds')) (dec_deg a ds))"

definition children :: "('a \<rightharpoonup> 'a list) \<Rightarrow> 'a \<Rightarrow> 'a list" where
  "children g a = (case g a of None \<Rightarrow> [] | Some cs \<Rightarrow> cs)"

fun relax :: "'a list \<Rightarrow> ('a \<times> nat) list \<Rightarrow> 'a list \<Rightarrow> (('a \<times> nat) list \<times> 'a list) option" where
  "relax [] deg ready = Some (deg, ready)"
| "relax (c # cs) deg ready =
     (case dec_deg c deg of
        None \<Rightarrow> None
      | Some (n, deg') \<Rightarrow> relax cs deg' (if n = 0 then ready @ [c] else ready))"

lemma dec_deg_sum: "dec_deg a ds = Some (n, ds') \<Longrightarrow> sum_list (map snd ds) = Suc (sum_list (map snd ds'))"
  by (induction a ds arbitrary: n ds' rule: dec_deg.induct) (auto split: if_splits)

lemma relax_measure:
  "relax cs deg ready = Some (deg', ready') \<Longrightarrow>
   2 * sum_list (map snd deg') + length ready' \<le> 2 * sum_list (map snd deg) + length ready"
  by (induction cs deg ready rule: relax.induct)
     (force dest: dec_deg_sum split: option.splits prod.splits if_splits)+

function kahn ::
  "('a \<rightharpoonup> 'a list) \<Rightarrow> 'a list \<Rightarrow> ('a \<times> nat) list \<Rightarrow> 'a list \<Rightarrow> 'a list option" where
  "kahn g [] deg ordered = Some ordered"
| "kahn g (a # ready) deg ordered =
     (case relax (children g a) deg ready of
        None \<Rightarrow> None
      | Some (deg', ready') \<Rightarrow> kahn g ready' deg' (ordered @ [a]))"
  by pat_completeness auto
termination
  by (relation "measure (\<lambda>(g, ready, deg, ordered). 2 * sum_list (map snd deg) + length ready)")
     (auto dest: relax_measure)

section \<open>Counts\<close>

definition dget :: "('a \<times> nat) list \<Rightarrow> 'a \<Rightarrow> nat" where
  "dget deg a = (case map_of deg a of None \<Rightarrow> 0 | Some n \<Rightarrow> n)"

lemma dget_simps [simp]:
  "dget [] a = 0"
  "dget ((b, n) # ds) a = (if a = b then n else dget ds a)"
  by (simp_all add: dget_def)

lemma dget_inc [simp]: "dget (inc_deg a ds) b = dget ds b + (if a = b then 1 else 0)"
  by (induction a ds rule: inc_deg.induct) auto

lemma keys_inc: "a \<in> fst ` set ds \<Longrightarrow> map fst (inc_deg a ds) = map fst ds"
  by (induction a ds rule: inc_deg.induct) auto

lemma dec_deg_Some:
  assumes "0 < dget ds a"
  shows "\<exists>ds'. dec_deg a ds = Some (dget ds a - 1, ds') \<and> map fst ds' = map fst ds \<and>
           (\<forall>b. dget ds' b = dget ds b - (if a = b then 1 else 0))"
  using assms by (induction a ds rule: dec_deg.induct) auto

lemma relax_spec:
  assumes "\<And>c. count_list cs c \<le> dget deg c"
  shows "\<exists>deg' new. relax cs deg ready = Some (deg', ready @ new) \<and> map fst deg' = map fst deg \<and>
           (\<forall>c. dget deg' c = dget deg c - count_list cs c) \<and> distinct new \<and>
           set new = {c \<in> set cs. dget deg c = count_list cs c}"
  using assms
proof (induction cs arbitrary: deg ready)
  case Nil
  then show ?case by simp
next
  case (Cons c cs)
  have "0 < dget deg c" using Cons.prems [of c] by simp
  then obtain deg1 where d1: "dec_deg c deg = Some (dget deg c - 1, deg1)"
    "map fst deg1 = map fst deg" "\<And>b. dget deg1 b = dget deg b - (if c = b then 1 else 0)"
    using dec_deg_Some by metis
  have le: "count_list cs b \<le> dget deg1 b" for b
    using Cons.prems [of b] by (auto simp: d1(3) split: if_splits)
  let ?r = "if dget deg c - 1 = 0 then ready @ [c] else ready"
  from Cons.IH [OF le, of ?r] obtain deg' new where IH:
    "relax cs deg1 ?r = Some (deg', ?r @ new)" "map fst deg' = map fst deg1"
    "\<forall>b. dget deg' b = dget deg1 b - count_list cs b" "distinct new"
    "set new = {b \<in> set cs. dget deg1 b = count_list cs b}" by blast
  show ?case
  proof (cases "dget deg c = 1")
    case True
    then have "c \<notin> set cs" using le [of c] by (auto simp: d1(3) count_list_0_iff)
    with True IH d1 \<open>0 < dget deg c\<close> show ?thesis
      by (intro exI [of _ deg'] exI [of _ "c # new"]) (auto simp: count_list_0_iff)
  next
    case False
    with \<open>0 < dget deg c\<close> have "1 < dget deg c" by simp
    then have "c \<in> set cs \<or> dget deg1 c \<noteq> count_list cs c"
      by (metis count_notin d1(3) diff_is_0_eq not_le)
    with False IH d1 \<open>1 < dget deg c\<close> show ?thesis
      by (intro exI [of _ deg'] exI [of _ new]) (auto split: if_splits)
  qed
qed

section \<open>The loop invariant\<close>

definition edges :: "'a set \<Rightarrow> ('a \<rightharpoonup> 'a list) \<Rightarrow> ('a \<times> 'a) set" where
  "edges V g = {(u, c). u \<in> V \<and> c \<in> set (children g u)}"

text \<open>Every node of the list comes after all its predecessors.\<close>

definition topo :: "('a \<times> 'a) set \<Rightarrow> 'a list \<Rightarrow> bool" where
  "topo E xs \<longleftrightarrow> (\<forall>ys c zs. xs = ys @ c # zs \<longrightarrow> (\<forall>u. (u, c) \<in> E \<longrightarrow> u \<in> set ys))"

definition deg_ok :: "'a set \<Rightarrow> ('a \<rightharpoonup> 'a list) \<Rightarrow> 'a list \<Rightarrow> ('a \<times> nat) list \<Rightarrow> bool" where
  "deg_ok V g done deg \<longleftrightarrow>
     (\<forall>c. dget deg c = (\<Sum>u \<in> V - set done. count_list (children g u) c))"

definition kahn_inv ::
  "'a set \<Rightarrow> ('a \<rightharpoonup> 'a list) \<Rightarrow> 'a list \<Rightarrow> ('a \<times> nat) list \<Rightarrow> 'a list \<Rightarrow> bool" where
  "kahn_inv V g ready deg ord \<longleftrightarrow>
     finite V \<and> (\<forall>u\<in>V. set (children g u) \<subseteq> V) \<and> distinct (ord @ ready) \<and>
     set (ord @ ready) \<subseteq> V \<and> deg_ok V g ord deg \<and>
     (\<forall>c\<in>V. c \<in> set (ord @ ready) \<longleftrightarrow> dget deg c = 0) \<and> topo (edges V g) ord"

lemma topo_snoc:
  assumes "topo E xs" "\<And>u. (u, c) \<in> E \<Longrightarrow> u \<in> set xs"
  shows "topo E (xs @ [c])"
  using assms
proof (unfold topo_def, intro allI impI)
  fix ys d zs u
  assume t: "\<forall>ys c zs. xs = ys @ c # zs \<longrightarrow> (\<forall>u. (u, c) \<in> E \<longrightarrow> u \<in> set ys)"
    and new: "\<And>u. (u, c) \<in> E \<Longrightarrow> u \<in> set xs"
    and eq: "xs @ [c] = ys @ d # zs" and e: "(u, d) \<in> E"
  show "u \<in> set ys"
  proof (cases zs rule: rev_cases)
    case Nil
    with eq have "xs = ys" "c = d" by auto
    with new e show ?thesis by simp
  next
    case (snoc zs' z)
    with eq have "xs = ys @ d # zs'" by simp
    with t e show ?thesis by blast
  qed
qed

lemma kahn_step:
  assumes inv: "kahn_inv V g (a # ready) deg ord"
  shows "\<exists>deg' ready'. relax (children g a) deg ready = Some (deg', ready') \<and>
           kahn_inv V g ready' deg' (ord @ [a])"
proof -
  let ?cs = "children g a"
  have a: "a \<in> V" "a \<notin> set ord" "a \<notin> set ready" and V: "finite V" and deg: "deg_ok V g ord deg"
    and zero: "\<And>c. c \<in> V \<Longrightarrow> (c \<in> set (ord @ a # ready)) = (dget deg c = 0)"
    using inv by (auto simp: kahn_inv_def)
  have split: "dget deg c = count_list ?cs c + (\<Sum>u \<in> V - set (ord @ [a]). count_list (children g u) c)" for c
  proof -
    have "dget deg c = (\<Sum>u \<in> V - set ord. count_list (children g u) c)"
      using deg by (auto simp: deg_ok_def)
    also have "V - set ord = insert a (V - set (ord @ [a]))" using a by auto
    also have "(\<Sum>u \<in> insert a (V - set (ord @ [a])). count_list (children g u) c) =
        count_list ?cs c + (\<Sum>u \<in> V - set (ord @ [a]). count_list (children g u) c)"
      using V by (intro sum.insert) auto
    finally show ?thesis .
  qed
  have "\<And>c. count_list ?cs c \<le> dget deg c" by (simp add: split)
  from relax_spec [OF this] obtain deg' new where r:
    "relax ?cs deg ready = Some (deg', ready @ new)"
    "\<forall>c. dget deg' c = dget deg c - count_list ?cs c" "distinct new"
    "set new = {c \<in> set ?cs. dget deg c = count_list ?cs c}" by blast
  have sub: "set ?cs \<subseteq> V" using inv a by (auto simp: kahn_inv_def)
  have new: "c \<in> V \<and> c \<notin> set (ord @ a # ready)" if "c \<in> set new" for c
  proof -
    have "c \<in> set ?cs" "dget deg c = count_list ?cs c" using that r(4) by auto
    then have "0 < dget deg c" by (metis count_list_0_iff gr0I)
    with zero [of c] sub \<open>c \<in> set ?cs\<close> show ?thesis by auto
  qed
  have deg': "deg_ok V g (ord @ [a]) deg'" unfolding deg_ok_def by (simp add: r(2) split)
  have iff: "c \<in> set ((ord @ [a]) @ ready @ new) \<longleftrightarrow> dget deg' c = 0" if "c \<in> V" for c
  proof (cases "dget deg c = 0")
    case True
    with zero [OF that] r(2) show ?thesis by auto
  next
    case False
    with zero [OF that] have "c \<notin> set (ord @ a # ready)" by simp
    moreover have "dget deg' c = 0 \<longleftrightarrow> c \<in> set new"
    proof -
      have "dget deg' c = 0 \<longleftrightarrow> dget deg c = count_list ?cs c"
        using split [of c] r(2) [rule_format, of c] by linarith
      moreover have "c \<in> set ?cs" if "dget deg c = count_list ?cs c"
        using that False by (metis count_list_0_iff)
      ultimately show ?thesis using r(4) by blast
    qed
    ultimately show ?thesis by simp
  qed
  have preds: "u \<in> set ord" if "(u, a) \<in> edges V g" for u
  proof (rule ccontr)
    assume "u \<notin> set ord"
    with that have "u \<in> V - set ord" "a \<in> set (children g u)" by (auto simp: edges_def)
    then have "0 < dget deg a"
      using deg V by (auto simp: deg_ok_def count_list_0_iff sum_eq_0_iff simp flip: neq0_conv)
    with zero [OF a(1)] show False by simp
  qed
  have "kahn_inv V g (ready @ new) deg' (ord @ [a])"
    unfolding kahn_inv_def
    using inv deg' iff new r(3) topo_snoc [OF _ preds]
    by (auto simp: kahn_inv_def)
  with r(1) show ?thesis by blast
qed

lemma kahn_run:
  "kahn_inv V g ready deg ord \<Longrightarrow>
   \<exists>deg' res. kahn g ready deg ord = Some res \<and> kahn_inv V g [] deg' res"
proof (induction g ready deg ord rule: kahn.induct)
  case (1 g deg ordered)
  then show ?case by auto
next
  case (2 g a ready deg ordered)
  from kahn_step [OF 2(2)] obtain deg' ready' where
    "relax (children g a) deg ready = Some (deg', ready')" "kahn_inv V g ready' deg' (ordered @ [a])"
    by blast
  with 2(1) show ?case by fastforce
qed

section \<open>What the result means\<close>

lemma topo_acyclic:
  assumes "topo E xs" "distinct xs" "E \<subseteq> set xs \<times> set xs"
  shows "acyclic E"
proof -
  define pos where "pos x = length (takeWhile (\<lambda>y. y \<noteq> x) xs)" for x
  have "pos u < pos c" if "(u, c) \<in> E" for u c
  proof -
    from assms(3) that have "c \<in> set xs" by auto
    then obtain ys zs where xs: "xs = ys @ c # zs" "c \<notin> set ys" by (meson split_list_first)
    with assms(1) that have u: "u \<in> set ys" by (auto simp: topo_def)
    then have "length (takeWhile (\<lambda>y. y \<noteq> u) ys) < length ys"
      by (metis (mono_tags) length_takeWhile_le le_neq_implies_less takeWhile_eq_all_conv
          takeWhile_eq_take take_all_iff order_refl)
    with xs u show ?thesis by (auto simp: pos_def takeWhile_append)
  qed
  then have "E \<subseteq> measure pos" by auto
  then show ?thesis by (meson acyclic_subset wf_acyclic wf_measure)
qed

lemma kahn_final:
  assumes inv: "kahn_inv V g [] deg res"
  shows "set res = V \<longleftrightarrow> acyclic (edges V g)"
proof
  assume "set res = V"
  with inv show "acyclic (edges V g)"
    by (intro topo_acyclic [of _ res]) (auto simp: kahn_inv_def edges_def)
next
  assume ac: "acyclic (edges V g)"
  have fin: "finite (edges V g)"
    using inv by (intro finite_subset [of "edges V g" "V \<times> V"]) (auto simp: kahn_inv_def edges_def)
  have wf: "wf (edges V g)" using ac fin by (simp add: finite_acyclic_wf)
  show "set res = V"
  proof (rule ccontr)
    assume "set res \<noteq> V"
    with inv obtain x where "x \<in> V - set res" by (auto simp: kahn_inv_def)
    with wf obtain z where z: "z \<in> V - set res" "\<And>y. (y, z) \<in> edges V g \<Longrightarrow> y \<notin> V - set res"
      by (metis wfE_min)
    have "dget deg z \<noteq> 0" using inv z(1) unfolding kahn_inv_def by (metis DiffE append_Nil2)
    moreover have "dget deg z = (\<Sum>u \<in> V - set res. count_list (children g u) z)"
      using inv by (simp add: kahn_inv_def deg_ok_def)
    ultimately obtain u where "u \<in> V - set res" "count_list (children g u) z \<noteq> 0"
      by (metis (no_types, lifting) sum.neutral)
    then show False using z(2) [of u] by (auto simp: edges_def count_list_0_iff)
  qed
qed

end
