(* ===== verification/Compiler.thy ===== *)
theory Compiler
  imports Registry Kahn
begin

text \<open>
  The workflow compiler of \<open>servo-core/src/compiler.rs\<close>: registration of assets, the check
  that every asset of a workflow is registered, and the topological sort of their dependencies.
  The order in which the source iterates its indegree hash map is not determined, so it is an
  argument: any list that names every asset of the workflow exactly once.
\<close>

section \<open>State and operations\<close>

datatype compile_error =
    CircularDependency
  | MissingAsset string
  | MissingDependency string string  \<comment> \<open>asset name, missing upstream\<close>
  | DuplicateAsset string
  | InvalidWorkflow string

record compiler =
  c_by_id :: "asset_id \<rightharpoonup> asset"
  c_by_name :: "string \<rightharpoonup> asset_id"

record execution_plan =
  plan_workflow :: workflow_id
  execution_order :: "asset_id list"

definition compiler_new :: compiler where
  "compiler_new = \<lparr>c_by_id = Map.empty, c_by_name = Map.empty\<rparr>"

definition register_asset :: "compiler \<Rightarrow> asset \<Rightarrow> compile_error + compiler" where
  "register_asset c a =
     (if c_by_name c (asset_name a) \<noteq> None then Inl (DuplicateAsset (asset_name a))
      else Inr (c\<lparr>c_by_name := (c_by_name c)(asset_name a \<mapsto> asset_id a),
                  c_by_id := (c_by_id c)(asset_id a \<mapsto> a)\<rparr>))"

fun validate_assets_exist :: "compiler \<Rightarrow> asset_id list \<Rightarrow> compile_error + unit" where
  "validate_assets_exist c [] = Inr ()"
| "validate_assets_exist c (i # is) =
     (if c_by_id c i = None then Inl (MissingAsset (debug_id i)) else validate_assets_exist c is)"

type_synonym adjacency = "asset_id \<rightharpoonup> asset_id list"
type_synonym degrees = "(asset_id \<times> nat) list"

definition push_child :: "adjacency \<Rightarrow> asset_id \<Rightarrow> asset_id \<Rightarrow> adjacency" where
  "push_child g u a = g(u \<mapsto> children g u @ [a])"

fun add_dependencies ::
  "compiler \<Rightarrow> asset_id list \<Rightarrow> asset_id \<Rightarrow> string \<Rightarrow> asset_dependency list \<Rightarrow>
   adjacency \<times> degrees \<Rightarrow> compile_error + (adjacency \<times> degrees)" where
  "add_dependencies c wfa a nm [] st = Inr st"
| "add_dependencies c wfa a nm (d # ds) (g, deg) =
     (let u = upstream_asset_id d in
      if c_by_id c u = None then Inl (MissingDependency nm (debug_id u))
      else if u \<notin> set wfa then Inl (MissingDependency nm (debug_id u))
      else add_dependencies c wfa a nm ds (push_child g u a, inc_deg a deg))"

text \<open>The outer loop; the \<open>expect\<close> on an unregistered asset is the result None.\<close>

fun build_graph ::
  "compiler \<Rightarrow> asset_id list \<Rightarrow> asset_id list \<Rightarrow> adjacency \<times> degrees \<Rightarrow>
   (compile_error + (adjacency \<times> degrees)) option" where
  "build_graph c wfa [] st = Some (Inr st)"
| "build_graph c wfa (i # is) st =
     (case c_by_id c i of
        None \<Rightarrow> None
      | Some a \<Rightarrow>
          (case add_dependencies c wfa i (asset_name a) (dependencies a) st of
             Inl e \<Rightarrow> Some (Inl e)
           | Inr st' \<Rightarrow> build_graph c wfa is st'))"

definition topological_sort ::
  "compiler \<Rightarrow> asset_id list \<Rightarrow> workflow \<Rightarrow> (compile_error + asset_id list) option" where
  "topological_sort c order w =
     (case build_graph c (workflow_assets w) (workflow_assets w) (Map.empty, map (\<lambda>a. (a, 0)) order) of
        None \<Rightarrow> None
      | Some (Inl e) \<Rightarrow> Some (Inl e)
      | Some (Inr (g, deg)) \<Rightarrow>
          (case kahn g (map fst (filter (\<lambda>(_, n). n = 0) deg)) deg [] of
             None \<Rightarrow> None
           | Some ordered \<Rightarrow>
               if length ordered \<noteq> length (workflow_assets w) then Some (Inl CircularDependency)
               else Some (Inr ordered)))"

definition compile ::
  "compiler \<Rightarrow> asset_id list \<Rightarrow> workflow \<Rightarrow> (compile_error + execution_plan) option" where
  "compile c order w =
     (case validate_assets_exist c (workflow_assets w) of
        Inl e \<Rightarrow> Some (Inl e)
      | Inr _ \<Rightarrow>
          (case topological_sort c order w of
             None \<Rightarrow> None
           | Some (Inl e) \<Rightarrow> Some (Inl e)
           | Some (Inr ord) \<Rightarrow>
               Some (Inr \<lparr>plan_workflow = workflow_id w, execution_order = ord\<rparr>)))"

interpretation comp: named_store "\<lambda>_. True" c_by_id c_by_name register_asset
  by unfold_locales (auto simp: register_asset_def split: if_splits)

section \<open>The dependency graph of a workflow\<close>

definition upstreams :: "compiler \<Rightarrow> asset_id \<Rightarrow> asset_id set" where
  "upstreams c i = (case c_by_id c i of None \<Rightarrow> {} | Some a \<Rightarrow> upstream_asset_id ` set (dependencies a))"

definition dep_edges :: "compiler \<Rightarrow> workflow \<Rightarrow> (asset_id \<times> asset_id) set" where
  "dep_edges c w = {(u, i). i \<in> set (workflow_assets w) \<and> u \<in> upstreams c i}"

text \<open>Every asset of the workflow is registered and depends only on assets of the workflow.\<close>

definition workflow_closed :: "compiler \<Rightarrow> workflow \<Rightarrow> bool" where
  "workflow_closed c w \<longleftrightarrow>
     (\<forall>i\<in>set (workflow_assets w). c_by_id c i \<noteq> None \<and> upstreams c i \<subseteq> set (workflow_assets w))"

definition hash_order :: "workflow \<Rightarrow> asset_id list \<Rightarrow> bool" where
  "hash_order w order \<longleftrightarrow> distinct order \<and> set order = set (workflow_assets w)"

lemma validate_ok: "validate_assets_exist c is = Inr () \<longleftrightarrow> (\<forall>i\<in>set is. c_by_id c i \<noteq> None)"
  by (induction c "is" rule: validate_assets_exist.induct) auto

text \<open>What the two loops that build the graph keep, for the edges added so far.\<close>

definition graph_inv :: "asset_id set \<Rightarrow> (asset_id \<times> asset_id) set \<Rightarrow> adjacency \<times> degrees \<Rightarrow> bool" where
  "graph_inv V E st \<longleftrightarrow>
     finite V \<and> (\<forall>u. set (children (fst st) u) \<subseteq> V) \<and> deg_ok V (fst st) [] (snd st) \<and>
     distinct (map fst (snd st)) \<and> set (map fst (snd st)) = V \<and>
     (\<forall>u. {i. (u, i) \<in> E} = set (children (fst st) u))"

lemma children_push: "children (push_child g u a) v = children g v @ (if v = u then [a] else [])"
  by (simp add: push_child_def children_def)

lemma graph_inv_add:
  assumes inv: "graph_inv V E (g, deg)" and "u \<in> V" "a \<in> V"
  shows "graph_inv V (insert (u, a) E) (push_child g u a, inc_deg a deg)"
proof -
  have "(\<Sum>v\<in>V. count_list (children (push_child g u a) v) c) =
        (\<Sum>v\<in>V. count_list (children g v) c) + (if a = c then 1 else 0)" for c
  proof -
    have "(\<Sum>v\<in>V. count_list (children (push_child g u a) v) c) =
          (\<Sum>v\<in>V. count_list (children g v) c + (if v = u then (if a = c then 1 else 0) else 0))"
      by (intro sum.cong) (auto simp: children_push)
    also have "\<dots> = (\<Sum>v\<in>V. count_list (children g v) c) + (if a = c then 1 else 0)"
      using inv assms(2) by (simp add: sum.distrib graph_inv_def)
    finally show ?thesis .
  qed
  then have "deg_ok V (push_child g u a) [] (inc_deg a deg)"
    using inv by (simp add: graph_inv_def deg_ok_def)
  moreover have "map fst (inc_deg a deg) = map fst deg"
    using inv assms(3) by (intro keys_inc) (auto simp: graph_inv_def)
  ultimately show ?thesis
    using inv assms(2,3) by (auto simp: graph_inv_def children_push)
qed

lemma add_dependencies_inv:
  "graph_inv (set wfa) E st \<Longrightarrow> a \<in> set wfa \<Longrightarrow> add_dependencies c wfa a nm ds st = Inr st' \<Longrightarrow>
   graph_inv (set wfa) (E \<union> (\<lambda>d. (upstream_asset_id d, a)) ` set ds) st' \<and>
   upstream_asset_id ` set ds \<subseteq> set wfa"
proof (induction c wfa a nm ds st arbitrary: E rule: add_dependencies.induct)
  case (1 c wfa a nm st)
  then show ?case by simp
next
  case (2 c wfa a nm d ds g deg)
  let ?u = "upstream_asset_id d"
  have u: "c_by_id c ?u \<noteq> None" "?u \<in> set wfa"
    and rest: "add_dependencies c wfa a nm ds (push_child g ?u a, inc_deg a deg) = Inr st'"
    using "2.prems"(3) by (auto simp: Let_def split: if_splits)
  have "graph_inv (set wfa) (insert (?u, a) E) (push_child g ?u a, inc_deg a deg)"
    using graph_inv_add "2.prems"(1,2) u(2) by blast
  from "2.IH" [OF refl _ _ this "2.prems"(2) rest] u show ?case by auto
qed

lemma add_dependencies_total:
  "upstream_asset_id ` set ds \<subseteq> set wfa \<Longrightarrow> (\<forall>u\<in>set wfa. c_by_id c u \<noteq> None) \<Longrightarrow>
   \<exists>st'. add_dependencies c wfa a nm ds st = Inr st'"
  by (induction c wfa a nm ds st rule: add_dependencies.induct) (auto simp: Let_def)

lemma build_graph_inv:
  "graph_inv (set wfa) E st \<Longrightarrow> set is \<subseteq> set wfa \<Longrightarrow> build_graph c wfa is st = Some (Inr st') \<Longrightarrow>
   graph_inv (set wfa) (E \<union> {(u, i). i \<in> set is \<and> u \<in> upstreams c i}) st' \<and>
   (\<forall>i\<in>set is. upstreams c i \<subseteq> set wfa)"
proof (induction c wfa "is" st arbitrary: E rule: build_graph.induct)
  case (1 c wfa st)
  then show ?case by simp
next
  case (2 c wfa i "is" st)
  then obtain a st1 where a: "c_by_id c i = Some a"
    and st1: "add_dependencies c wfa i (asset_name a) (dependencies a) st = Inr st1"
    and rest: "build_graph c wfa is st1 = Some (Inr st')"
    by (auto split: option.splits sum.splits)
  have i: "i \<in> set wfa" "set is \<subseteq> set wfa" using 2(3) by auto
  let ?E = "E \<union> (\<lambda>d. (upstream_asset_id d, i)) ` set (dependencies a)"
  have 1: "graph_inv (set wfa) ?E st1" "upstreams c i \<subseteq> set wfa"
    using add_dependencies_inv [OF 2(2) i(1) st1] a by (auto simp: upstreams_def)
  have "?E \<union> {(u, j). j \<in> set is \<and> u \<in> upstreams c j} =
        E \<union> {(u, j). j \<in> set (i # is) \<and> u \<in> upstreams c j}"
    using a by (auto simp: upstreams_def)
  with 2(1) [OF a st1 1(1) i(2) rest] 1(2) show ?case by simp
qed

lemma build_graph_total:
  "\<forall>i\<in>set is. c_by_id c i \<noteq> None \<Longrightarrow> \<exists>r. build_graph c wfa is st = Some r"
  by (induction c wfa "is" st rule: build_graph.induct) (auto split: sum.splits)

lemma build_graph_closed:
  "set is \<subseteq> set wfa \<Longrightarrow> \<forall>i\<in>set wfa. c_by_id c i \<noteq> None \<and> upstreams c i \<subseteq> set wfa \<Longrightarrow>
   \<exists>st'. build_graph c wfa is st = Some (Inr st')"
proof (induction c wfa "is" st rule: build_graph.induct)
  case (1 c wfa st)
  then show ?case by simp
next
  case (2 c wfa i "is" st)
  have i: "i \<in> set wfa" "set is \<subseteq> set wfa" using 2(2) by auto
  from 2(3) i(1) have "c_by_id c i \<noteq> None" and up: "upstreams c i \<subseteq> set wfa" by blast+
  then obtain a where a: "c_by_id c i = Some a" by blast
  from up a have "upstream_asset_id ` set (dependencies a) \<subseteq> set wfa" by (simp add: upstreams_def)
  moreover have "\<forall>u\<in>set wfa. c_by_id c u \<noteq> None" using 2(3) by blast
  ultimately have "\<exists>st'. add_dependencies c wfa i (asset_name a) (dependencies a) st = Inr st'"
    by (rule add_dependencies_total)
  then obtain st1 where
    st1: "add_dependencies c wfa i (asset_name a) (dependencies a) st = Inr st1" ..
  from 2(1) [OF a st1 i(2) 2(3)] show ?case by (simp add: a st1)
qed

lemma graph_inv_start:
  assumes "hash_order w order"
  shows "graph_inv (set (workflow_assets w)) {} (Map.empty, map (\<lambda>a. (a, 0)) order)"
proof -
  have "dget (map (\<lambda>a. (a, 0)) xs) c = 0" for xs :: "asset_id list" and c
    by (induction xs) auto
  then show ?thesis
    using assms by (auto simp: graph_inv_def hash_order_def deg_ok_def children_def o_def)
qed

lemma dget_zero_iff: "distinct (map fst deg) \<Longrightarrow> c \<in> set (map fst deg) \<Longrightarrow>
   c \<in> set (map fst (filter (\<lambda>(_, n). n = 0) deg)) \<longleftrightarrow> dget deg c = 0"
proof -
  assume d: "distinct (map fst deg)" and c: "c \<in> set (map fst deg)"
  then obtain n where n: "map_of deg c = Some n" by (metis map_of_eq_None_iff not_None_eq set_map)
  have "c \<in> set (map fst (filter (\<lambda>(_, n). n = 0) deg)) \<longleftrightarrow> (c, 0) \<in> set deg" by force
  also have "\<dots> \<longleftrightarrow> map_of deg c = Some 0" using d by simp
  finally show ?thesis using n by (simp add: dget_def)
qed

lemma kahn_start:
  assumes "graph_inv V E (g, deg)"
  shows "kahn_inv V g (map fst (filter (\<lambda>(_, n). n = 0) deg)) deg []" and "edges V g = E \<inter> (V \<times> V)"
proof -
  have d: "distinct (map fst deg)" "set (map fst deg) = V" using assms by (auto simp: graph_inv_def)
  show "kahn_inv V g (map fst (filter (\<lambda>(_, n). n = 0) deg)) deg []"
    using assms d dget_zero_iff [OF d(1)]
    by (auto simp: kahn_inv_def graph_inv_def distinct_map_filter topo_def simp del: set_map)
       (metis (no_types, lifting) filter_is_subset image_mono list.set_map subset_eq)
  show "edges V g = E \<inter> (V \<times> V)" using assms by (auto simp: edges_def graph_inv_def)
qed

section \<open>The sort of a built graph\<close>

text \<open>A graph was built: then the workflow is closed, and the sort answers as follows.\<close>

lemma sort_result:
  assumes order: "hash_order w order"
    and graph: "build_graph c (workflow_assets w) (workflow_assets w)
                  (Map.empty, map (\<lambda>a. (a, 0)) order) = Some (Inr st)"
  obtains ord where
    "topological_sort c order w =
       Some (if length ord \<noteq> length (workflow_assets w) then Inl CircularDependency else Inr ord)"
    "distinct ord" "set ord \<subseteq> set (workflow_assets w)" "topo (dep_edges c w) ord"
    "set ord = set (workflow_assets w) \<longleftrightarrow> acyclic (dep_edges c w)"
proof -
  let ?V = "set (workflow_assets w)"
  obtain g deg where st: "st = (g, deg)" by (cases st)
  from build_graph_inv [OF graph_inv_start [OF order] subset_refl graph]
  have g: "graph_inv ?V (dep_edges c w) (g, deg)" and sub: "\<forall>i\<in>?V. upstreams c i \<subseteq> ?V"
    by (simp_all add: st dep_edges_def)
  have "dep_edges c w \<subseteq> ?V \<times> ?V" using sub by (auto simp: dep_edges_def)
  with kahn_start [OF g] have E: "edges ?V g = dep_edges c w"
    and inv: "kahn_inv ?V g (map fst (filter (\<lambda>(_, n). n = 0) deg)) deg []" by auto
  from kahn_run [OF inv] obtain deg' ord where
    ord: "kahn g (map fst (filter (\<lambda>(_, n). n = 0) deg)) deg [] = Some ord"
      "kahn_inv ?V g [] deg' ord" by blast
  show thesis
  proof (rule that [of ord])
    show "topological_sort c order w =
        Some (if length ord \<noteq> length (workflow_assets w) then Inl CircularDependency else Inr ord)"
      using graph ord(1) by (simp add: topological_sort_def st)
    show "set ord = ?V \<longleftrightarrow> acyclic (dep_edges c w)" using kahn_final [OF ord(2)] E by simp
  qed (use ord(2) E in \<open>auto simp: kahn_inv_def\<close>)
qed

lemma closed_graph:
  "workflow_closed c w \<Longrightarrow> \<exists>st. build_graph c (workflow_assets w) (workflow_assets w) st0 = Some (Inr st)"
  using build_graph_closed [of "workflow_assets w" "workflow_assets w" c st0]
  by (simp add: workflow_closed_def)

lemma same_length_iff:
  assumes "distinct xs" "distinct ys" "set xs \<subseteq> set ys"
  shows "length xs = length ys \<longleftrightarrow> set xs = set ys"
proof
  assume "length xs = length ys"
  then have "card (set ys) \<le> card (set xs)" using assms(1,2) by (simp add: distinct_card)
  with assms(3) show "set xs = set ys" by (meson card_seteq finite_set)
next
  assume "set xs = set ys"
  then show "length xs = length ys" using assms(1,2) by (metis distinct_card)
qed

definition comes_before :: "'a list \<Rightarrow> 'a \<Rightarrow> 'a \<Rightarrow> bool" where
  "comes_before xs u i \<longleftrightarrow> (\<exists>k l. k < l \<and> l < length xs \<and> xs ! k = u \<and> xs ! l = i)"

lemma topo_comes_before:
  assumes "topo E xs" "i \<in> set xs" "(u, i) \<in> E"
  shows "comes_before xs u i"
proof -
  from assms(2) obtain ys zs where xs: "xs = ys @ i # zs" by (meson split_list)
  with assms(1,3) have "u \<in> set ys" by (auto simp: topo_def)
  then obtain k where "k < length ys" "ys ! k = u" by (auto simp: in_set_conv_nth)
  with xs show ?thesis
    unfolding comes_before_def by (intro exI [of _ k] exI [of _ "length ys"]) (auto simp: nth_append)
qed

lemma compile_Inr:
  "compile c order w = Some (Inr plan) \<Longrightarrow>
   \<exists>st. build_graph c (workflow_assets w) (workflow_assets w) (Map.empty, map (\<lambda>a. (a, 0)) order) =
          Some (Inr st) \<and>
        topological_sort c order w = Some (Inr (execution_order plan)) \<and> plan_workflow plan = workflow_id w"
  by (auto simp: compile_def topological_sort_def split: sum.splits option.splits prod.splits if_splits)

section \<open>Concrete workflows\<close>

definition sample_compiler :: compiler where
  "sample_compiler =
     \<lparr>c_by_id = [''2'' \<mapsto> add_dependency (asset_new ''2'' 0 ''sales'') ''1'' DData,
                ''1'' \<mapsto> asset_new ''1'' 0 ''orders''],
      c_by_name = [''sales'' \<mapsto> ''2'', ''orders'' \<mapsto> ''1'']\<rparr>"

definition sample_workflow :: "asset_id list \<Rightarrow> workflow" where
  "sample_workflow assets = (workflow_new ''w'' 0 ''daily'')\<lparr>workflow_assets := assets\<rparr>"

lemmas sample_defs =
  sample_compiler_def sample_workflow_def workflow_new_def asset_new_def add_dependency_def

lemma sample_order:
  "hash_order (sample_workflow [''2'', ''1'']) [''1'', ''2'']"
  "hash_order (sample_workflow [''1'', ''1'']) [''1'']"
  by (auto simp: hash_order_def sample_workflow_def)

lemma sample_closed:
  "workflow_closed sample_compiler (sample_workflow [''2'', ''1''])"
  "workflow_closed sample_compiler (sample_workflow [''1'', ''1''])"
  by (auto simp: workflow_closed_def upstreams_def sample_defs)

lemma sample_compiles:
  "compile sample_compiler [''1'', ''2''] (sample_workflow [''2'', ''1'']) =
     Some (Inr \<lparr>plan_workflow = ''w'', execution_order = [''1'', ''2'']\<rparr>)"
  by code_simp

section \<open>Correctness of the compiler\<close>

text \<open>
  The compiler always answers: no input makes it panic on a missing table entry, on an
  unregistered asset or on an indegree that would go below zero, and its loop ends.
\<close>

theorem compile_total:
  assumes "hash_order w order"
  shows "\<exists>r. compile c order w = Some r"
proof (cases "validate_assets_exist c (workflow_assets w)")
  case (Inl e)
  then show ?thesis by (simp add: compile_def)
next
  case (Inr u)
  then have "\<forall>i\<in>set (workflow_assets w). c_by_id c i \<noteq> None" by (simp add: validate_ok)
  with build_graph_total obtain r where r: "build_graph c (workflow_assets w) (workflow_assets w)
      (Map.empty, map (\<lambda>a. (a, 0)) order) = Some r" by blast
  show ?thesis
  proof (cases r)
    case (Inl e)
    with r Inr show ?thesis by (simp add: compile_def topological_sort_def)
  next
    fix st assume "r = Inr st"
    with r have st: "build_graph c (workflow_assets w) (workflow_assets w)
      (Map.empty, map (\<lambda>a. (a, 0)) order) = Some (Inr st)" by simp
    obtain ord where "topological_sort c order w =
        Some (if length ord \<noteq> length (workflow_assets w) then Inl CircularDependency else Inr ord)"
      by (auto intro: sort_result [OF assms st])
    with Inr show ?thesis by (simp add: compile_def)
  qed
qed

theorem compile_total_witness:
  "\<exists>r. compile sample_compiler [''1'', ''2''] (sample_workflow [''2'', ''1'']) = Some r"
  by (rule compile_total [OF sample_order(1)])

text \<open>
  C16: when the compiler returns a plan, the plan lists every asset of the workflow exactly once and
  every asset after all the upstream assets it depends on.
\<close>

theorem compile_sound:
  assumes "hash_order w order" "compile c order w = Some (Inr plan)"
  shows "plan_workflow plan = workflow_id w \<and> distinct (execution_order plan) \<and>
    set (execution_order plan) = set (workflow_assets w) \<and>
    (\<forall>i\<in>set (workflow_assets w). \<forall>u\<in>upstreams c i. comes_before (execution_order plan) u i)"
proof -
  from compile_Inr [OF assms(2)] obtain st where
    st: "build_graph c (workflow_assets w) (workflow_assets w) (Map.empty, map (\<lambda>a. (a, 0)) order) =
          Some (Inr st)" and
    sorted: "topological_sort c order w = Some (Inr (execution_order plan))"
      "plan_workflow plan = workflow_id w" by blast
  obtain ord where
    ord: "topological_sort c order w =
       Some (if length ord \<noteq> length (workflow_assets w) then Inl CircularDependency else Inr ord)"
    "distinct ord" "set ord \<subseteq> set (workflow_assets w)" "topo (dep_edges c w) ord"
    "set ord = set (workflow_assets w) \<longleftrightarrow> acyclic (dep_edges c w)"
    by (rule sort_result [OF assms(1) st])
  from ord(1) sorted have eq: "execution_order plan = ord" "length ord = length (workflow_assets w)"
    by (auto split: if_splits)
  have "card (set (workflow_assets w)) \<le> card (set ord)"
    using eq(2) ord(2) card_length [of "workflow_assets w"] by (simp add: distinct_card)
  with ord(3) have "set ord = set (workflow_assets w)" by (meson card_seteq finite_set)
  with eq sorted(2) ord(2) topo_comes_before [OF ord(4)] show ?thesis
    by (auto simp: dep_edges_def)
qed

theorem compile_sound_witness:
  "comes_before [''1'', ''2''] ''1'' ''2''"
  using compile_sound [OF sample_order(1) sample_compiles]
  by (simp add: upstreams_def sample_defs)

text \<open>
  C18: for a workflow without repeated assets whose assets are registered and depend only on each
  other, the compiler reports a circular dependency exactly when the dependencies have a cycle, and
  otherwise returns a plan, whatever the iteration order of its hash maps.
\<close>

theorem compile_circular_iff:
  assumes "hash_order w order" "workflow_closed c w" "distinct (workflow_assets w)"
  shows "(compile c order w = Some (Inl CircularDependency) \<longleftrightarrow> \<not> acyclic (dep_edges c w)) \<and>
    ((\<exists>plan. compile c order w = Some (Inr plan)) \<longleftrightarrow> acyclic (dep_edges c w))"
proof -
  have v: "validate_assets_exist c (workflow_assets w) = Inr ()"
    using assms(2) by (simp add: validate_ok workflow_closed_def)
  from closed_graph [OF assms(2)] obtain st where
    built: "build_graph c (workflow_assets w) (workflow_assets w) (Map.empty, map (\<lambda>a. (a, 0)) order) =
       Some (Inr st)" by blast
  obtain ord where
    ord: "topological_sort c order w =
       Some (if length ord \<noteq> length (workflow_assets w) then Inl CircularDependency else Inr ord)"
    "distinct ord" "set ord \<subseteq> set (workflow_assets w)" "topo (dep_edges c w) ord"
    "set ord = set (workflow_assets w) \<longleftrightarrow> acyclic (dep_edges c w)"
    by (rule sort_result [OF assms(1) built])
  have len: "length ord = length (workflow_assets w) \<longleftrightarrow> set ord = set (workflow_assets w)"
    by (rule same_length_iff [OF ord(2) assms(3) ord(3)])
  show ?thesis
  proof (cases "acyclic (dep_edges c w)")
    case True
    with ord(5) len have "length ord = length (workflow_assets w)" by simp
    with True ord(1) v show ?thesis by (simp add: compile_def)
  next
    case False
    with ord(5) len have "length ord \<noteq> length (workflow_assets w)" by simp
    with False ord(1) v show ?thesis by (simp add: compile_def)
  qed
qed

theorem compile_circular_iff_witness:
  "acyclic (dep_edges sample_compiler (sample_workflow [''2'', ''1'']))"
proof -
  have "distinct (workflow_assets (sample_workflow [''2'', ''1'']))" by (simp add: sample_workflow_def)
  from compile_circular_iff [OF sample_order(1) sample_closed(1) this] sample_compiles
  show ?thesis by blast
qed

text \<open>
  A workflow that lists an asset twice is always refused with \<open>CircularDependency\<close>, also when
  its dependencies have no cycle: the sorted list has each asset once and its length is compared
  with the length of the list with repetitions.
\<close>

theorem compile_repeated_asset:
  assumes "hash_order w order" "workflow_closed c w" "\<not> distinct (workflow_assets w)"
  shows "compile c order w = Some (Inl CircularDependency)"
proof -
  have v: "validate_assets_exist c (workflow_assets w) = Inr ()"
    using assms(2) by (simp add: validate_ok workflow_closed_def)
  from closed_graph [OF assms(2)] obtain st where
    built: "build_graph c (workflow_assets w) (workflow_assets w) (Map.empty, map (\<lambda>a. (a, 0)) order) =
       Some (Inr st)" by blast
  obtain ord where
    ord: "topological_sort c order w =
       Some (if length ord \<noteq> length (workflow_assets w) then Inl CircularDependency else Inr ord)"
    "distinct ord" "set ord \<subseteq> set (workflow_assets w)" "topo (dep_edges c w) ord"
    "set ord = set (workflow_assets w) \<longleftrightarrow> acyclic (dep_edges c w)"
    by (rule sort_result [OF assms(1) built])
  have "length ord = card (set ord)" using ord(2) by (simp add: distinct_card)
  also have "\<dots> \<le> card (set (workflow_assets w))" using ord(3) by (simp add: card_mono)
  also have "\<dots> < length (workflow_assets w)"
    using assms(3) card_distinct [of "workflow_assets w"] card_length [of "workflow_assets w"]
    by linarith
  finally have "length ord \<noteq> length (workflow_assets w)" by simp
  with ord(1) v show ?thesis by (simp add: compile_def)
qed

theorem compile_repeated_asset_witness:
  "compile sample_compiler [''1''] (sample_workflow [''1'', ''1'']) = Some (Inl CircularDependency)"
  by (rule compile_repeated_asset [OF sample_order(2) sample_closed(2)]) (simp add: sample_workflow_def)

end
