(* ===== verification/Breaker.thy ===== *)
theory Breaker
  imports Text "HOL-Library.Word"
begin

text \<open>
  The circuit breaker in front of the database (\<open>servo-storage/src/circuit_breaker.rs\<close>) and the
  classification of errors of the cloud services (\<open>servo-cloud-gcp/src/circuit_breaker.rs\<close>).

  A call takes the lock twice, before and after the protected function runs, so a call is two atomic
  steps, \<open>breaker_enter\<close> and \<open>breaker_finish\<close>, and calls of several tasks interleave between them.
  The clock is an argument of each step; the counter is a 32-bit word.
\<close>

section \<open>Configuration\<close>

record breaker_config =
  failure_threshold :: "32 word"
  half_open_timeout :: time

definition breaker_config_default :: breaker_config where
  "breaker_config_default = \<lparr>failure_threshold = 5, half_open_timeout = 30 * 1000\<rparr>"

text \<open>A variable of the environment that does not parse, or is zero, gives the default.\<close>

definition env_number :: "(string \<Rightarrow> string option) \<Rightarrow> nat \<Rightarrow> string \<Rightarrow> nat \<Rightarrow> nat" where
  "env_number env w var d =
     (let n = (case env var of None \<Rightarrow> d
               | Some v \<Rightarrow> (case parse_unsigned w v of None \<Rightarrow> d | Some n \<Rightarrow> n)) in
      if n = 0 then d else n)"

definition breaker_from_env :: "(string \<Rightarrow> string option) \<Rightarrow> string \<Rightarrow> breaker_config" where
  "breaker_from_env env dep =
     \<lparr>failure_threshold =
        word_of_nat (env_number env 32 (''SERVO_CB_'' @ to_uppercase dep @ ''_FAILURE_THRESHOLD'') 5),
      half_open_timeout =
        int (env_number env 64 (''SERVO_CB_'' @ to_uppercase dep @ ''_HALF_OPEN_TIMEOUT_SECS'') 30) * 1000\<rparr>"

section \<open>State and steps\<close>

datatype circuit_state = Closed | Open

record breaker =
  circuit :: circuit_state
  consecutive_failures :: "32 word"
  last_failure_time :: "time option"
  probe_in_progress :: bool

definition breaker_new :: breaker where
  "breaker_new = \<lparr>circuit = Closed, consecutive_failures = 0, last_failure_time = None,
                  probe_in_progress = False\<rparr>"

text \<open>\<open>Instant::elapsed\<close> saturates at zero.\<close>

definition elapsed :: "time \<Rightarrow> time \<Rightarrow> time" where
  "elapsed n t = max 0 (n - t)"

text \<open>Admission: \<open>None\<close> rejects the call, otherwise the flag says whether it is a half-open probe.\<close>

definition breaker_enter :: "breaker_config \<Rightarrow> time \<Rightarrow> breaker \<Rightarrow> bool option \<times> breaker" where
  "breaker_enter cfg n b =
     (if circuit b = Open
      then (case last_failure_time b of
              Some t \<Rightarrow>
                (if elapsed n t < half_open_timeout cfg then (None, b)
                 else if probe_in_progress b then (None, b)
                 else (Some True, b\<lparr>probe_in_progress := True\<rparr>))
            | None \<Rightarrow> (Some False, b))
      else (Some False, b))"

definition breaker_success :: "breaker \<Rightarrow> breaker" where
  "breaker_success b =
     b\<lparr>circuit := Closed, consecutive_failures := 0, last_failure_time := None, probe_in_progress := False\<rparr>"

definition breaker_failure :: "breaker_config \<Rightarrow> time \<Rightarrow> bool \<Rightarrow> breaker \<Rightarrow> breaker" where
  "breaker_failure cfg n probe b =
     (let b1 = (if probe then b\<lparr>probe_in_progress := False\<rparr> else b);
          b2 = b1\<lparr>consecutive_failures := consecutive_failures b1 + 1, last_failure_time := Some n\<rparr> in
      if failure_threshold cfg \<le> consecutive_failures b2 \<and> circuit b2 = Closed
      then b2\<lparr>circuit := Open\<rparr> else b2)"

definition breaker_finish :: "breaker_config \<Rightarrow> time \<Rightarrow> bool \<Rightarrow> ('e + 'a) \<Rightarrow> breaker \<Rightarrow> breaker" where
  "breaker_finish cfg n probe r b =
     (case r of Inr _ \<Rightarrow> breaker_success b | Inl _ \<Rightarrow> breaker_failure cfg n probe b)"

datatype 'e breaker_error = Circuit_open | Failure 'e

text \<open>One call without interference: entered at \<open>n1\<close>, the function ends at \<open>n2\<close> with \<open>r\<close>.\<close>

definition breaker_call ::
  "breaker_config \<Rightarrow> time \<Rightarrow> time \<Rightarrow> ('e + 'a) \<Rightarrow> breaker \<Rightarrow> ('e breaker_error + 'a) \<times> breaker" where
  "breaker_call cfg n1 n2 r b =
     (case breaker_enter cfg n1 b of
        (None, b1) \<Rightarrow> (Inl Circuit_open, b1)
      | (Some probe, b1) \<Rightarrow>
          (case r of Inr v \<Rightarrow> Inr v | Inl e \<Rightarrow> Inl (Failure e), breaker_finish cfg n2 probe r b1))"

definition breaker_is_open :: "breaker_config \<Rightarrow> time \<Rightarrow> breaker \<Rightarrow> bool" where
  "breaker_is_open cfg n b \<longleftrightarrow> circuit b = Open \<and>
     (case last_failure_time b of None \<Rightarrow> False | Some t \<Rightarrow> elapsed n t < half_open_timeout cfg)"

section \<open>The specification for calls that do not overlap\<close>

text \<open>
  The promise of the breaker needs no circuit state and no guard: count the failures since the last
  success; below the threshold every call runs, from then on a call runs only when the timeout has
  passed since the last failure.
\<close>

record trail =
  failures :: nat
  last_failed :: "time option"

definition trail_admits :: "breaker_config \<Rightarrow> time \<Rightarrow> trail \<Rightarrow> bool" where
  "trail_admits cfg n tr \<longleftrightarrow> failures tr < max 1 (unat (failure_threshold cfg)) \<or>
     (case last_failed tr of None \<Rightarrow> True | Some t \<Rightarrow> half_open_timeout cfg \<le> elapsed n t)"

definition trail_call ::
  "breaker_config \<Rightarrow> time \<Rightarrow> time \<Rightarrow> ('e + 'a) \<Rightarrow> trail \<Rightarrow> ('e breaker_error + 'a) \<times> trail" where
  "trail_call cfg n1 n2 r tr =
     (if trail_admits cfg n1 tr
      then (case r of Inr v \<Rightarrow> (Inr v, \<lparr>failures = 0, last_failed = None\<rparr>)
            | Inl e \<Rightarrow> (Inl (Failure e), \<lparr>failures = failures tr + 1, last_failed = Some n2\<rparr>))
      else (Inl Circuit_open, tr))"

fun call_series :: "('s \<Rightarrow> time \<times> time \<times> ('e + 'a) \<Rightarrow> 'r \<times> 's) \<Rightarrow> 's \<Rightarrow> (time \<times> time \<times> ('e + 'a)) list \<Rightarrow> 'r list" where
  "call_series f s [] = []"
| "call_series f s (x # xs) = (case f s x of (r, s') \<Rightarrow> r # call_series f s' xs)"

text \<open>The states of the breaker that stand for a trail.\<close>

definition stands_for :: "breaker_config \<Rightarrow> breaker \<Rightarrow> trail \<Rightarrow> bool" where
  "stands_for cfg b tr \<longleftrightarrow>
     last_failure_time b = last_failed tr \<and> \<not> probe_in_progress b \<and>
     (case circuit b of
        Closed \<Rightarrow> unat (consecutive_failures b) = failures tr \<and>
          failures tr < max 1 (unat (failure_threshold cfg))
      | Open \<Rightarrow> max 1 (unat (failure_threshold cfg)) \<le> failures tr \<and> last_failed tr \<noteq> None)"

lemma succ_no_wrap: "unat (c :: 32 word) < m \<Longrightarrow> m < 2 ^ 32 \<Longrightarrow> unat (c + 1) = unat c + 1"
  by (simp add: unat_word_ariths)

lemma threshold_bound: "max 1 (unat (w :: 32 word)) < 2 ^ 32"
  using unsigned_less [of w] by simp

lemma count_step:
  assumes "unat (c :: 32 word) < max 1 (unat w)"
  shows "unat (c + 1) = unat c + 1" and "w \<le> c + 1 \<longleftrightarrow> max 1 (unat w) \<le> unat c + 1"
proof -
  show "unat (c + 1) = unat c + 1" by (rule succ_no_wrap [OF assms threshold_bound])
  then show "w \<le> c + 1 \<longleftrightarrow> max 1 (unat w) \<le> unat c + 1" by (auto simp: word_le_nat_alt)
qed

lemma stands_for_new: "stands_for cfg breaker_new \<lparr>failures = 0, last_failed = None\<rparr>"
  by (simp add: stands_for_def breaker_new_def)

lemma breaker_failure_Closed:
  "circuit b = Closed \<Longrightarrow> unat (consecutive_failures b) < max 1 (unat (failure_threshold cfg)) \<Longrightarrow>
   breaker_failure cfg n False b =
     b\<lparr>consecutive_failures := consecutive_failures b + 1, last_failure_time := Some n,
       circuit := (if max 1 (unat (failure_threshold cfg)) \<le> unat (consecutive_failures b) + 1 then Open else Closed)\<rparr>"
  by (simp add: breaker_failure_def Let_def count_step(2))

lemma call_simulation:
  assumes "stands_for cfg b tr" "trail_call cfg n1 n2 r tr = (x, tr')"
  shows "\<exists>b'. breaker_call cfg n1 n2 r b = (x, b') \<and> stands_for cfg b' tr'"
proof (cases "circuit b")
  case Closed
  with assms(1) have c: "unat (consecutive_failures b) = failures tr"
    "failures tr < max 1 (unat (failure_threshold cfg))" "\<not> probe_in_progress b"
    "last_failure_time b = last_failed tr"
    by (simp_all add: stands_for_def)
  have enter: "breaker_enter cfg n1 b = (Some False, b)" by (simp add: breaker_enter_def Closed)
  have admits: "trail_admits cfg n1 tr" using c(2) by (simp add: trail_admits_def)
  show ?thesis
  proof (cases r)
    case (Inr v)
    with assms(2) enter admits c show ?thesis
      by (auto simp: breaker_call_def trail_call_def breaker_finish_def breaker_success_def stands_for_def)
  next
    case (Inl e)
    have c1: "unat (consecutive_failures b) < max 1 (unat (failure_threshold cfg))" using c by simp
    with assms(2) enter admits c Closed Inl count_step(1) [OF c1] show ?thesis
      by (auto simp: breaker_call_def trail_call_def breaker_finish_def stands_for_def
          breaker_failure_Closed [OF Closed c1] not_le)
  qed
next
  case Open
  with assms(1) obtain t where o: "last_failure_time b = Some t" "last_failed tr = Some t"
    "\<not> probe_in_progress b" "max 1 (unat (failure_threshold cfg)) \<le> failures tr"
    by (auto simp: stands_for_def)
  have admits: "trail_admits cfg n1 tr \<longleftrightarrow> half_open_timeout cfg \<le> elapsed n1 t"
    using leD [OF o(4)] o(2) by (simp add: trail_admits_def)
  show ?thesis
  proof (cases "half_open_timeout cfg \<le> elapsed n1 t")
    case True
    with o Open have "breaker_enter cfg n1 b = (Some True, b\<lparr>probe_in_progress := True\<rparr>)"
      by (simp add: breaker_enter_def)
    with assms(2) admits True o Open show ?thesis
      by (cases r) (auto simp: breaker_call_def trail_call_def breaker_finish_def breaker_success_def
          breaker_failure_def Let_def stands_for_def)
  next
    case False
    with o Open assms admits show ?thesis
      by (auto simp: breaker_call_def trail_call_def breaker_enter_def)
  qed
qed

lemma series_simulation:
  "stands_for cfg b tr \<Longrightarrow>
   call_series (\<lambda>b (n1, n2, r). breaker_call cfg n1 n2 r b) b xs =
   call_series (\<lambda>tr (n1, n2, r). trail_call cfg n1 n2 r tr) tr xs"
proof (induction xs arbitrary: b tr)
  case (Cons x xs)
  obtain n1 n2 r where x: "x = (n1, n2, r)" by (cases x)
  obtain y tr' where tr: "trail_call cfg n1 n2 r tr = (y, tr')" by fastforce
  from call_simulation [OF Cons.prems this] obtain b' where
    "breaker_call cfg n1 n2 r b = (y, b')" "stands_for cfg b' tr'" by blast
  with tr Cons.IH show ?case by (simp add: x)
qed simp

text \<open>
  C24: the breaker refines its specification. For calls that do not overlap, with any results, start
  and end times and any configuration (a threshold of zero acts as one), the results of a new breaker
  are those of the specification that only counts the failures since the last success: calls run
  while the count is below the threshold, and afterwards only once the timeout has passed since the
  last failure, one at a time; the 32-bit counter never wraps where it matters.
\<close>

theorem breaker_refines_trail:
  "call_series (\<lambda>b (n1, n2, r). breaker_call cfg n1 n2 r b) breaker_new xs =
   call_series (\<lambda>tr (n1, n2, r). trail_call cfg n1 n2 r tr) \<lparr>failures = 0, last_failed = None\<rparr> xs"
  by (rule series_simulation [OF stands_for_new])

section \<open>Calls that overlap\<close>

text \<open>
  The breaker with the calls that are running, each with its probe flag. \<open>breaker_cancel\<close> is a
  caller that is dropped while its function runs, as \<open>tokio\<close> does at a timeout or a disconnect: the
  second half of the call never happens.
\<close>

record breaker_sys =
  brk :: breaker
  flight :: "bool list"
  clock :: time

inductive breaker_step :: "breaker_config \<Rightarrow> breaker_sys \<Rightarrow> breaker_sys \<Rightarrow> bool" for cfg where
  tick: "clock s \<le> t \<Longrightarrow> breaker_step cfg s (s\<lparr>clock := t\<rparr>)"
| admit: "breaker_enter cfg (clock s) (brk s) = (Some p, b) \<Longrightarrow>
    breaker_step cfg s (s\<lparr>brk := b, flight := p # flight s\<rparr>)"
| reject: "breaker_enter cfg (clock s) (brk s) = (None, b) \<Longrightarrow> breaker_step cfg s (s\<lparr>brk := b\<rparr>)"
| succeed: "flight s = xs @ p # ys \<Longrightarrow>
    breaker_step cfg s (s\<lparr>brk := breaker_success (brk s), flight := xs @ ys\<rparr>)"
| fail: "flight s = xs @ p # ys \<Longrightarrow>
    breaker_step cfg s (s\<lparr>brk := breaker_failure cfg (clock s) p (brk s), flight := xs @ ys\<rparr>)"

inductive_cases breaker_stepE: "breaker_step cfg s s'"

inductive breaker_cancel :: "breaker_sys \<Rightarrow> breaker_sys \<Rightarrow> bool" where
  cancel: "flight s = xs @ p # ys \<Longrightarrow> breaker_cancel s (s\<lparr>flight := xs @ ys\<rparr>)"

definition breaker_start :: "time \<Rightarrow> breaker_sys" where
  "breaker_start n = \<lparr>brk = breaker_new, flight = [], clock = n\<rparr>"

definition breaker_inv :: "breaker_config \<Rightarrow> breaker_sys \<Rightarrow> bool" where
  "breaker_inv cfg s \<longleftrightarrow>
     (circuit (brk s) = Closed \<longrightarrow>
        unat (consecutive_failures (brk s)) < max 1 (unat (failure_threshold cfg)) \<and> \<not> probe_in_progress (brk s)) \<and>
     (circuit (brk s) = Open \<longrightarrow> last_failure_time (brk s) \<noteq> None) \<and>
     (\<forall>t. last_failure_time (brk s) = Some t \<longrightarrow> t \<le> clock s) \<and>
     (probe_in_progress (brk s) \<longrightarrow> True \<in> set (flight s))"

lemma breaker_inv_start: "breaker_inv cfg (breaker_start n)"
  by (simp add: breaker_inv_def breaker_start_def breaker_new_def)

lemma breaker_inv_step: "breaker_step cfg s s' \<Longrightarrow> breaker_inv cfg s \<Longrightarrow> breaker_inv cfg s'"
proof (induction rule: breaker_step.induct)
  case (admit s p b)
  then show ?case
    by (auto simp: breaker_inv_def breaker_enter_def split: if_splits option.splits)
next
  case (fail s xs p ys)
  show ?case
  proof (cases "circuit (brk s)")
    case Closed
    let ?b = "if p then brk s\<lparr>probe_in_progress := False\<rparr> else brk s"
    have "unat (consecutive_failures (brk s)) < max 1 (unat (failure_threshold cfg))"
      using fail.prems Closed by (simp add: breaker_inv_def)
    from count_step [OF this] fail Closed show ?thesis
      by (auto simp: breaker_inv_def breaker_failure_def Let_def not_le)
  next
    case Open
    with fail show ?thesis by (auto simp: breaker_inv_def breaker_failure_def Let_def)
  qed
qed (auto simp: breaker_inv_def breaker_success_def breaker_enter_def split: if_splits option.splits)

lemma breaker_inv_reachable: "(breaker_step cfg)\<^sup>*\<^sup>* (breaker_start n) s \<Longrightarrow> breaker_inv cfg s"
  by (induction rule: rtranclp_induct) (auto intro: breaker_inv_start breaker_inv_step)

text \<open>All that can happen: the steps of calls, and callers that are dropped.\<close>

definition breaker_event :: "breaker_config \<Rightarrow> breaker_sys \<Rightarrow> breaker_sys \<Rightarrow> bool" where
  "breaker_event cfg s s' \<longleftrightarrow> breaker_step cfg s s' \<or> breaker_cancel s s'"

text \<open>What is left of the invariant when calls are dropped.\<close>

definition dropped_inv :: "breaker_config \<Rightarrow> breaker_sys \<Rightarrow> bool" where
  "dropped_inv cfg s \<longleftrightarrow>
     (circuit (brk s) = Closed \<longrightarrow>
        unat (consecutive_failures (brk s)) < max 1 (unat (failure_threshold cfg)) \<and> \<not> probe_in_progress (brk s)) \<and>
     (circuit (brk s) = Open \<longrightarrow> last_failure_time (brk s) \<noteq> None)"

lemma dropped_inv_step: "breaker_step cfg s s' \<Longrightarrow> dropped_inv cfg s \<Longrightarrow> dropped_inv cfg s'"
proof (induction rule: breaker_step.induct)
  case (admit s p b)
  then show ?case by (auto simp: dropped_inv_def breaker_enter_def split: if_splits option.splits)
next
  case (fail s xs p ys)
  show ?case
  proof (cases "circuit (brk s)")
    case Closed
    have "unat (consecutive_failures (brk s)) < max 1 (unat (failure_threshold cfg))"
      using fail.prems Closed by (simp add: dropped_inv_def)
    from count_step [OF this] fail Closed show ?thesis
      by (auto simp: dropped_inv_def breaker_failure_def Let_def not_le)
  next
    case Open
    with fail show ?thesis by (auto simp: dropped_inv_def breaker_failure_def Let_def)
  qed
qed (auto simp: dropped_inv_def breaker_success_def breaker_enter_def split: if_splits option.splits)

lemma dropped_inv_reachable: "(breaker_event cfg)\<^sup>*\<^sup>* (breaker_start n) s \<Longrightarrow> dropped_inv cfg s"
proof (induction rule: rtranclp_induct)
  case (step y z)
  from step.hyps(2) consider "breaker_step cfg y z" | "brk z = brk y"
    by (auto simp: breaker_event_def elim!: breaker_cancel.cases)
  then show ?case using step.IH dropped_inv_step by cases (auto simp: dropped_inv_def)
qed (simp add: dropped_inv_def breaker_start_def breaker_new_def)

text \<open>A guard that is set while no call is running is never cleared.\<close>

lemma stuck_guard:
  assumes "(breaker_event cfg)\<^sup>*\<^sup>* s s2" "circuit (brk s) = Open" "probe_in_progress (brk s)"
    and "last_failure_time (brk s) = Some t" "flight s = []"
  shows "flight s2 = [] \<and> brk s2 = brk s"
  using assms(1)
proof (induction rule: rtranclp_induct)
  case (step y z)
  then have "fst (breaker_enter cfg k (brk y)) = None" "snd (breaker_enter cfg k (brk y)) = brk y" for k
    using assms(2-4) by (simp_all add: breaker_enter_def)
  with step show ?case
    by (auto simp: breaker_event_def prod_eq_iff elim!: breaker_stepE breaker_cancel.cases)
qed (simp add: assms(5))

text \<open>
  C38: when the breaker recovers and when it never does. Take any state that overlapping calls can
  reach, some of which may have been dropped half way (by a timeout or a disconnect), in which no call is
  running and the timeout has passed since the last failure. Either the guard of the probe is clear:
  then the next call is admitted, and if it succeeds the breaker is as new, so an open circuit is left
  as soon as the database answers again. Or the guard is set: then the circuit is open, calls
  were dropped on the way to this state, and every later call is rejected for ever, whatever happens
  and however much time passes.
\<close>

theorem breaker_recovers:
  assumes "(breaker_event cfg)\<^sup>*\<^sup>* (breaker_start n) s" "flight s = []"
    and "\<forall>t. last_failure_time (brk s) = Some t \<longrightarrow> half_open_timeout cfg \<le> elapsed (clock s) t"
  shows "if \<not> probe_in_progress (brk s)
    then \<exists>p b. breaker_enter cfg (clock s) (brk s) = (Some p, b) \<and> breaker_success b = breaker_new
    else circuit (brk s) = Open \<and> \<not> (breaker_step cfg)\<^sup>*\<^sup>* (breaker_start n) s \<and>
      (\<forall>s2 m. (breaker_event cfg)\<^sup>*\<^sup>* s s2 \<longrightarrow> fst (breaker_enter cfg m (brk s2)) = None)"
proof (cases "probe_in_progress (brk s)")
  case False
  with dropped_inv_reachable [OF assms(1)] assms(2,3) show ?thesis
    by (cases "circuit (brk s)")
       (auto simp: dropped_inv_def breaker_enter_def breaker_success_def breaker_new_def not_less)
next
  case guard: True
  have inv: "dropped_inv cfg s" by (rule dropped_inv_reachable [OF assms(1)])
  then have opn: "circuit (brk s) = Open" using guard by (cases "circuit (brk s)") (simp_all add: dropped_inv_def)
  then obtain t where t: "last_failure_time (brk s) = Some t" using inv by (auto simp: dropped_inv_def)
  have "\<not> (breaker_step cfg)\<^sup>*\<^sup>* (breaker_start n) s"
    using breaker_inv_reachable [of cfg n s] guard assms(2) by (auto simp: breaker_inv_def)
  moreover have "fst (breaker_enter cfg m (brk s2)) = None" if "(breaker_event cfg)\<^sup>*\<^sup>* s s2" for s2 m
    using stuck_guard [OF that opn guard t assms(2)] opn guard t by (simp add: breaker_enter_def)
  ultimately show ?thesis using guard opn by simp
qed

text \<open>
  A dropped probe blocks the breaker for ever. When the task of the half-open probe is dropped
  while the protected function runs and no other call is running, the guard is never cleared: whatever
  steps follow and however much time passes, every call is rejected, also when the database is
  healthy again.
\<close>

theorem dropped_probe_blocks:
  assumes "(breaker_step cfg)\<^sup>*\<^sup>* (breaker_start n) s" "circuit (brk s) = Open"
    and "probe_in_progress (brk s)" "flight s = [True]"
    and "breaker_cancel s s1" "(breaker_step cfg)\<^sup>*\<^sup>* s1 s2"
  shows "fst (breaker_enter cfg m (brk s2)) = None"
proof -
  have "breaker_inv cfg s" by (rule breaker_inv_reachable [OF assms(1)])
  then obtain t where t: "last_failure_time (brk s) = Some t"
    using assms(2) by (auto simp: breaker_inv_def)
  have s1: "brk s1 = brk s" "flight s1 = []"
    using assms(4,5) by (auto elim!: breaker_cancel.cases simp: append_eq_Cons_conv)
  have "(breaker_event cfg)\<^sup>*\<^sup>* s1 s2"
    by (rule rtranclp_mono [THEN predicate2D, OF _ assms(6)]) (auto simp: breaker_event_def)
  from stuck_guard [OF this] assms(2,3) t s1 have "brk s2 = brk s" by simp
  with assms(2,3) t show ?thesis by (simp add: breaker_enter_def)
qed

text \<open>A step in which no late call of before the opening closes the circuit.\<close>

definition calm_step :: "breaker_config \<Rightarrow> breaker_sys \<Rightarrow> breaker_sys \<Rightarrow> bool" where
  "calm_step cfg s s' \<longleftrightarrow> breaker_step cfg s s' \<and>
     \<not> (circuit (brk s) = Open \<and> circuit (brk s') = Closed \<and>
        count_list (flight s') True = count_list (flight s) True)"

lemma calm_reachable: "(calm_step cfg)\<^sup>*\<^sup>* (breaker_start n) s \<Longrightarrow> (breaker_step cfg)\<^sup>*\<^sup>* (breaker_start n) s"
  by (induction rule: rtranclp_induct) (auto simp: calm_step_def intro: rtranclp.rtrancl_into_rtrancl)

text \<open>
  One probe at a time. As long as the circuit is not closed by the late success of a call that was
  admitted before it opened, at most one half-open probe is running, however the calls interleave.
\<close>

theorem single_probe:
  assumes "(calm_step cfg)\<^sup>*\<^sup>* (breaker_start n) s"
  shows "count_list (flight s) True \<le> 1"
proof -
  from assms have "count_list (flight s) True = of_bool (probe_in_progress (brk s))"
  proof (induction rule: rtranclp_induct)
    case base
    then show ?case by (simp add: breaker_start_def breaker_new_def)
  next
    case (step y z)
    have inv: "breaker_inv cfg y" by (rule breaker_inv_reachable [OF calm_reachable [OF step.hyps(1)]])
    from step.hyps(2) have "breaker_step cfg y z" by (simp add: calm_step_def)
    then show ?case
    proof cases
      case (admit p b)
      with step.IH inv show ?thesis
        by (auto simp: breaker_enter_def breaker_inv_def split: if_splits option.splits)
    next
      case (reject b)
      with step.IH show ?thesis by (auto simp: breaker_enter_def split: if_splits option.splits)
    next
      case (succeed xs p ys)
      have "p" if "circuit (brk y) = Open"
        using step.hyps(2) succeed that by (cases p) (simp_all add: calm_step_def breaker_success_def)
      moreover have "\<not> probe_in_progress (brk y)" if "circuit (brk y) \<noteq> Open"
        using inv that by (cases "circuit (brk y)") (simp_all add: breaker_inv_def)
      ultimately have "count_list (xs @ ys) True = 0"
        using step.IH succeed(2) by (cases "circuit (brk y) = Open"; cases "probe_in_progress (brk y)")
          (simp_all split: if_splits)
      with succeed(1) show ?thesis by (simp add: breaker_success_def)
    next
      case (fail xs p ys)
      with step.IH show ?thesis
        by (cases p; cases "probe_in_progress (brk y)") (auto simp: breaker_failure_def Let_def)
    qed (use step.IH in auto)
  qed
  then show ?thesis by simp
qed

section \<open>A concrete run\<close>

text \<open>One call fails at time 0 and opens the circuit; at time 100 the next call is the probe.\<close>

definition sample_config :: breaker_config where
  "sample_config = \<lparr>failure_threshold = 1, half_open_timeout = 10\<rparr>"

definition opened :: "bool \<Rightarrow> time \<Rightarrow> breaker_sys" where
  "opened probe n =
     \<lparr>brk = \<lparr>circuit = Open, consecutive_failures = 1, last_failure_time = Some 0, probe_in_progress = probe\<rparr>,
      flight = (if probe then [True] else []), clock = n\<rparr>"

lemma calm_opened: "calm_step sample_config (opened False n) (opened True n)" if "10 \<le> n"
  using breaker_step.admit [of sample_config "opened False n" True "brk (opened True n)"] that
  by (simp add: calm_step_def opened_def breaker_enter_def sample_config_def elapsed_def)

lemma calm_start_opened: "(calm_step sample_config)\<^sup>*\<^sup>* (breaker_start 0) (opened False 100)"
proof -
  let ?one = "\<lparr>brk = breaker_new, flight = [False], clock = 0\<rparr>"
  have "breaker_step sample_config (breaker_start 0) ?one"
    using breaker_step.admit [of sample_config "breaker_start 0" False breaker_new]
    by (simp add: breaker_start_def breaker_enter_def breaker_new_def)
  then have "calm_step sample_config (breaker_start 0) ?one"
    by (simp add: calm_step_def breaker_start_def breaker_new_def)
  moreover have "breaker_step sample_config ?one (opened False 0)"
    using breaker_step.fail [of ?one "[]" False "[]" sample_config]
    by (simp add: opened_def breaker_failure_def breaker_new_def sample_config_def)
  then have "calm_step sample_config ?one (opened False 0)" by (simp add: calm_step_def breaker_new_def)
  moreover have "breaker_step sample_config (opened False 0) (opened False 100)"
    using breaker_step.tick [of "opened False 0" 100 sample_config] by (simp add: opened_def)
  then have "calm_step sample_config (opened False 0) (opened False 100)"
    by (simp add: calm_step_def opened_def)
  ultimately show ?thesis by (meson converse_rtranclp_into_rtranclp rtranclp.rtrancl_refl)
qed

lemma events: "(breaker_step cfg)\<^sup>*\<^sup>* s s' \<Longrightarrow> (breaker_event cfg)\<^sup>*\<^sup>* s s'"
  by (rule rtranclp_mono [THEN predicate2D]) (auto simp: breaker_event_def)

theorem breaker_recovers_witness:
  "(\<exists>p b. breaker_enter sample_config 100 (brk (opened False 100)) = (Some p, b) \<and> breaker_success b = breaker_new) \<and>
   fst (breaker_enter sample_config 5000 (brk ((opened True 100)\<lparr>flight := []\<rparr>))) = None"
proof
  show "\<exists>p b. breaker_enter sample_config 100 (brk (opened False 100)) = (Some p, b) \<and> breaker_success b = breaker_new"
    using breaker_recovers [OF events [OF calm_reachable [OF calm_start_opened]]]
    by (simp add: opened_def elapsed_def sample_config_def)
  let ?s = "(opened True 100)\<lparr>flight := []\<rparr>"
  have "(breaker_event sample_config)\<^sup>*\<^sup>* (breaker_start 0) (opened True 100)"
    by (rule events, rule calm_reachable, rule rtranclp.rtrancl_into_rtrancl [OF calm_start_opened calm_opened]) simp
  moreover have "breaker_event sample_config (opened True 100) ?s"
    using breaker_cancel.cancel [of "opened True 100" "[]" True "[]"] by (simp add: breaker_event_def opened_def)
  ultimately have s: "(breaker_event sample_config)\<^sup>*\<^sup>* (breaker_start 0) ?s" by (rule rtranclp.rtrancl_into_rtrancl)
  from breaker_recovers [OF s] show "fst (breaker_enter sample_config 5000 (brk ?s)) = None"
    by (auto simp: opened_def elapsed_def sample_config_def)
qed

theorem dropped_probe_blocks_witness:
  "fst (breaker_enter sample_config 5000 (brk (opened True 100))) = None"
proof -
  have s: "(breaker_step sample_config)\<^sup>*\<^sup>* (breaker_start 0) (opened True 100)"
    by (rule calm_reachable, rule rtranclp.rtrancl_into_rtrancl [OF calm_start_opened calm_opened]) simp
  have "breaker_cancel (opened True 100) ((opened True 100)\<lparr>flight := []\<rparr>)"
    using breaker_cancel.cancel [of "opened True 100" "[]" True "[]"] by (simp add: opened_def)
  from dropped_probe_blocks [OF s _ _ _ this rtranclp.rtrancl_refl, of 5000] show ?thesis
    by (simp add: opened_def)
qed

theorem single_probe_witness:
  "count_list (flight (opened True 100)) True \<le> 1"
  by (rule single_probe, rule rtranclp.rtrancl_into_rtrancl [OF calm_start_opened calm_opened]) simp

section \<open>Errors of the cloud services\<close>

text \<open>\<open>should_trip_breaker\<close>; a status code is its number.\<close>

definition should_trip_breaker :: "nat option \<Rightarrow> bool \<Rightarrow> bool" where
  "should_trip_breaker status is_network_error =
     (if is_network_error then True
      else (case status of
              Some s \<Rightarrow> if 500 \<le> s \<and> s < 600 then True else if s = 429 then True
                        else if 400 \<le> s \<and> s < 500 then False else False
            | None \<Rightarrow> False))"

end
