(* ===== verification/Bfs.thy ===== *)
theory Bfs
  imports Prelude
begin

text \<open>
  Breadth-first search as the repository writes it four times: a queue of nodes with their depth, a
  set of visited nodes that is extended when a node is put into the queue, and a limit on the depth.
  The locale \<open>search\<close> states what the loops share and proves that a node is found exactly at its
  distance from the seeds.
\<close>

section \<open>The loop over the neighbours\<close>

text \<open>The neighbours that are not visited yet are marked and put at the end of the queue.\<close>

fun push :: "nat \<Rightarrow> 'n list \<Rightarrow> 'n set \<times> ('n \<times> nat) list \<Rightarrow> 'n set \<times> ('n \<times> nat) list" where
  "push d [] vq = vq"
| "push d (n # ns) (visited, queue) =
     push d ns (if n \<in> visited then (visited, queue) else (insert n visited, queue @ [(n, d)]))"

fun fresh_of :: "'n set \<Rightarrow> 'n list \<Rightarrow> 'n list" where
  "fresh_of V [] = []"
| "fresh_of V (n # ns) = (if n \<in> V then fresh_of V ns else n # fresh_of (insert n V) ns)"

lemma push_fresh: "push d ns (V, q) = (V \<union> set ns, q @ map (\<lambda>n. (n, d)) (fresh_of V ns))"
  by (induction ns arbitrary: V q) auto

lemma set_fresh: "set (fresh_of V ns) = set ns - V"
  by (induction ns arbitrary: V) auto

lemma distinct_fresh: "distinct (fresh_of V ns)"
  by (induction ns arbitrary: V) (auto simp: set_fresh)

lemma hd_tag: "x \<in> set xs \<Longrightarrow> snd (hd (map (\<lambda>n. (n, d)) xs)) = d"
  by (cases xs) auto

lemma sorted_const: "sorted (map (\<lambda>_. c) xs)"
  by (induction xs) auto

text \<open>No node occurs with two depths.\<close>

definition single_depth :: "('n \<times> nat) list \<Rightarrow> bool" where
  "single_depth xs \<longleftrightarrow> (\<forall>n d e. (n, d) \<in> set xs \<longrightarrow> (n, e) \<in> set xs \<longrightarrow> d = e)"

lemma distinct_single_depth: "distinct (map fst xs) \<Longrightarrow> single_depth xs"
  unfolding single_depth_def by (metis distinct_map_unique fst_conv snd_conv)

section \<open>The invariant of the search\<close>

text \<open>
  The seeds enter the queue with depth \<open>d0\<close>; the nodes of \<open>base\<close> count as visited from the start;
  the neighbours of a node found at depth \<open>d\<close> are looked at when \<open>deeper d\<close>.
\<close>

locale search =
  fixes succ :: "'n \<Rightarrow> 'n list"
    and seeds :: "'n list"
    and base :: "'n set"
    and d0 :: nat
    and deeper :: "nat \<Rightarrow> bool"
  assumes deeper_down: "deeper (Suc d) \<Longrightarrow> d0 \<le> d \<Longrightarrow> deeper d"
    and seeds_base: "set seeds \<inter> base = {}"
begin

definition edge :: "('n \<times> 'n) set" where
  "edge = {(m, n). n \<in> set (succ m) \<and> n \<notin> base}"

definition reached :: "nat \<Rightarrow> 'n set" where
  "reached k = (edge ^^ k) `` set seeds"

lemma reached_0 [simp]: "reached 0 = set seeds"
  by (simp add: reached_def)

lemma reached_Suc: "n \<in> reached (Suc k) \<longleftrightarrow> (\<exists>m\<in>reached k. (m, n) \<in> edge)"
  by (auto simp: reached_def)

lemma reached_base: "n \<in> reached k \<Longrightarrow> n \<notin> base"
  using seeds_base by (cases k) (auto simp: reached_Suc edge_def simp del: relpow.simps)

text \<open>The depths at which the search may find a node.\<close>

definition within :: "nat \<Rightarrow> bool" where
  "within k \<longleftrightarrow> (\<forall>j<k. deeper (d0 + j))"

lemma within_Suc: "within (Suc k) \<longleftrightarrow> deeper (d0 + k)"
proof
  assume "deeper (d0 + k)"
  moreover have "deeper (d0 + j)" if "j \<le> k" "deeper (d0 + k)" for j
    using that by (induction k) (auto simp: le_Suc_eq dest: deeper_down)
  ultimately show "within (Suc k)" by (auto simp: within_def less_Suc_eq_le)
qed (simp add: within_def)

definition inv :: "'n set \<Rightarrow> ('n \<times> nat) list \<Rightarrow> ('n \<times> nat) list \<Rightarrow> bool" where
  "inv V queue out \<longleftrightarrow>
     V = base \<union> fst ` set (out @ queue) \<and>
     (\<forall>(n, d)\<in>set (out @ queue). \<exists>k. d = d0 + k \<and> n \<in> reached k \<and> within k) \<and>
     sorted (map snd (out @ queue)) \<and>
     (\<forall>x\<in>set queue. snd x \<le> Suc (snd (hd queue))) \<and>
     (\<forall>(n, d)\<in>set out. deeper d \<longrightarrow> (\<forall>m. (n, m) \<in> edge \<longrightarrow> (\<exists>e\<le>Suc d. (m, e) \<in> set (out @ queue)))) \<and>
     (\<forall>s\<in>set seeds. (s, d0) \<in> set (out @ queue))"

lemma inv_start: "inv (base \<union> set seeds) (map (\<lambda>n. (n, d0)) seeds) []"
  unfolding inv_def by (auto simp: within_def sorted_const image_image o_def hd_tag)

lemma sorted_snoc_block:
  fixes xs :: "nat list"
  shows
  "sorted (xs @ map snd q) \<Longrightarrow> \<forall>x\<in>set xs \<union> snd ` set q. x \<le> d \<Longrightarrow>
   sorted (xs @ map snd (q @ map (\<lambda>n. (n, d)) ns))"
  by (auto simp: sorted_append o_def sorted_const)

lemma inv_leaf:
  assumes "inv V ((n, d) # q) out" "\<not> deeper d"
  shows "inv V q (out @ [(n, d)])"
proof -
  have "\<forall>x\<in>set q. snd x \<le> Suc (snd (hd q))"
    using assms(1) by (cases q) (auto simp: inv_def sorted_append)
  with assms show ?thesis unfolding inv_def by auto
qed

lemma inv_expand:
  assumes inv: "inv V ((n, d) # q) out" and deep: "deeper d"
    and push: "push (Suc d) (succ n) (V, q) = (V', q')"
  shows "inv V' q' (out @ [(n, d)])"
proof -
  let ?new = "map (\<lambda>m. (m, Suc d)) (fresh_of V (succ n))"
  have V': "V' = V \<union> set (succ n)" and q': "q' = q @ ?new"
    using push by (simp_all add: push_fresh)
  from inv have V: "V = base \<union> fst ` set (out @ (n, d) # q)"
    and walk: "\<forall>(n, d)\<in>set (out @ (n, d) # q). \<exists>k. d = d0 + k \<and> n \<in> reached k \<and> within k"
    and sorted: "sorted (map snd (out @ (n, d) # q))"
    and near: "\<forall>x\<in>set q. snd x \<le> Suc d"
    and closed: "\<forall>(n', d')\<in>set out. deeper d' \<longrightarrow>
       (\<forall>m. (n', m) \<in> edge \<longrightarrow> (\<exists>e\<le>Suc d'. (m, e) \<in> set (out @ (n, d) # q)))"
    and seeds: "\<forall>s\<in>set seeds. (s, d0) \<in> set (out @ (n, d) # q)"
    by (simp_all add: inv_def)
  have below: "snd x \<le> Suc d" if "x \<in> set (out @ (n, d) # q)" for x
    using that sorted near by (fastforce simp: sorted_append)
  obtain k where k: "d = d0 + k" "n \<in> reached k" "within k" using walk by auto
  have new: "m \<in> set (succ n) - V \<Longrightarrow> Suc d = d0 + Suc k \<and> m \<in> reached (Suc k) \<and> within (Suc k)" for m
    using k deep V by (auto simp: reached_Suc edge_def within_Suc)
  have "V' = base \<union> fst ` set ((out @ [(n, d)]) @ q')"
  proof -
    have "fst ` set ?new = set (succ n) - V" by (simp add: image_image set_fresh)
    then show ?thesis unfolding V' q' using V by auto
  qed
  moreover have "\<forall>(n', d')\<in>set ((out @ [(n, d)]) @ q'). \<exists>k. d' = d0 + k \<and> n' \<in> reached k \<and> within k"
  proof
    fix x assume "x \<in> set ((out @ [(n, d)]) @ q')"
    then consider "x \<in> set (out @ (n, d) # q)" | m where "x = (m, Suc d)" "m \<in> set (succ n) - V"
      by (auto simp: q' set_fresh)
    then show "case x of (n', d') \<Rightarrow> \<exists>k. d' = d0 + k \<and> n' \<in> reached k \<and> within k"
      using walk new by cases blast+
  qed
  moreover have "sorted (map snd ((out @ [(n, d)]) @ q'))"
  proof -
    have "sorted (map snd (out @ [(n, d)]) @ map snd q)" using sorted by simp
    moreover have "\<forall>x\<in>set (map snd (out @ [(n, d)])) \<union> snd ` set q. x \<le> Suc d" using below by fastforce
    ultimately have "sorted (map snd (out @ [(n, d)]) @ map snd (q @ ?new))" by (rule sorted_snoc_block)
    then show ?thesis by (simp add: q')
  qed
  moreover have "\<forall>x\<in>set q'. snd x \<le> Suc (snd (hd q'))"
    using near sorted by (cases q) (auto simp: q' sorted_append hd_tag)
  moreover have "\<forall>(n', d')\<in>set (out @ [(n, d)]). deeper d' \<longrightarrow>
       (\<forall>m. (n', m) \<in> edge \<longrightarrow> (\<exists>e\<le>Suc d'. (m, e) \<in> set ((out @ [(n, d)]) @ q')))"
  proof -
    have "\<exists>e\<le>Suc d. (m, e) \<in> set ((out @ [(n, d)]) @ q')" if "(n, m) \<in> edge" for m
    proof (cases "m \<in> V")
      case True
      with that V have "m \<in> fst ` set (out @ (n, d) # q)" by (auto simp: edge_def)
      then obtain x where x: "x \<in> set (out @ (n, d) # q)" "m = fst x" by blast
      with below [OF x(1)] show ?thesis by (intro exI [of _ "snd x"]) (auto simp: q')
    next
      case False
      with that show ?thesis by (auto simp: q' set_fresh edge_def)
    qed
    with closed show ?thesis by (fastforce simp: q')
  qed
  moreover have "\<forall>s\<in>set seeds. (s, d0) \<in> set ((out @ [(n, d)]) @ q')"
    using seeds by (auto simp: q')
  ultimately show ?thesis unfolding inv_def by blast
qed

text \<open>
  Every node nearer than the head of the queue has been found; when the queue is empty, every node
  is found at its distance.
\<close>

lemma inv_found_near:
  assumes "inv V q out"
  shows "n \<in> reached k \<Longrightarrow> within k \<Longrightarrow> \<forall>x\<in>set q. d0 + k \<le> snd x \<Longrightarrow>
    \<exists>e\<le>d0 + k. (n, e) \<in> set (out @ q)"
proof (induction k arbitrary: n)
  case 0
  with assms show ?case by (auto simp: inv_def)
next
  case (Suc k)
  then obtain m where m: "m \<in> reached k" "(m, n) \<in> edge" by (auto simp: reached_Suc)
  have "within k" using Suc.prems(2) by (simp add: within_def)
  moreover have "\<forall>x\<in>set q. d0 + k \<le> snd x" using Suc.prems(3) by auto
  ultimately obtain e where e: "e \<le> d0 + k" "(m, e) \<in> set (out @ q)" using Suc.IH m by blast
  then have out: "(m, e) \<in> set out" using Suc.prems(3) by force
  have "\<forall>(n, d)\<in>set (out @ q). \<exists>k. d = d0 + k \<and> n \<in> reached k \<and> within k"
    using assms by (simp add: inv_def)
  then obtain j where j: "e = d0 + j" using out by fastforce
  have "deeper e" using Suc.prems(2) e(1) unfolding j within_def by simp
  moreover have "\<forall>(n, d)\<in>set out. deeper d \<longrightarrow> (\<forall>m. (n, m) \<in> edge \<longrightarrow> (\<exists>e\<le>Suc d. (m, e) \<in> set (out @ q)))"
    using assms by (simp add: inv_def)
  ultimately obtain e' where "e' \<le> Suc e" "(n, e') \<in> set (out @ q)"
    using out m(2) by blast
  with e(1) show ?case by (intro exI [of _ e']) simp
qed

lemma inv_complete:
  assumes "inv V [] out" "n \<in> reached k" "within k"
  shows "\<exists>e\<le>d0 + k. (n, e) \<in> set out"
  using inv_found_near [OF assms] by simp

lemma inv_final:
  assumes "inv V [] out"
  shows "(n, d) \<in> set out \<Longrightarrow> single_depth out \<Longrightarrow>
      \<exists>k. d = d0 + k \<and> within k \<and> n \<in> reached k \<and> (\<forall>j<k. n \<notin> reached j)"
    and "n \<in> reached k \<Longrightarrow> within k \<Longrightarrow> (\<forall>j<k. n \<notin> reached j) \<Longrightarrow> (n, d0 + k) \<in> set out"
proof -
  assume out: "(n, d) \<in> set out" "single_depth out"
  then obtain k where k: "d = d0 + k" "n \<in> reached k" "within k"
    using assms by (auto simp: inv_def)
  have "n \<notin> reached j" if "j < k" for j
  proof
    assume "n \<in> reached j"
    moreover have "within j" using k(3) that by (simp add: within_def)
    ultimately obtain e where "e \<le> d0 + j" "(n, e) \<in> set out" using inv_complete [OF assms] by blast
    with out have "e = d" by (auto simp: single_depth_def)
    with \<open>e \<le> d0 + j\<close> k(1) that show False by simp
  qed
  with k show "\<exists>k. d = d0 + k \<and> within k \<and> n \<in> reached k \<and> (\<forall>j<k. n \<notin> reached j)" by blast
next
  assume k: "n \<in> reached k" "within k" "\<forall>j<k. n \<notin> reached j"
  then obtain e where e: "e \<le> d0 + k" "(n, e) \<in> set out" using inv_complete [OF assms] by blast
  then obtain j where j: "e = d0 + j" "n \<in> reached j" using assms by (auto simp: inv_def)
  with k(3) e(1) have "j = k" by (metis add_le_cancel_left le_neq_implies_less)
  with e j show "(n, d0 + k) \<in> set out" by simp
qed

lemma distinct_expand:
  assumes "inv V ((n, d) # q) out" "distinct (map fst (out @ (n, d) # q))"
    and "push (Suc d) (succ n) (V, q) = (V', q')"
  shows "distinct (map fst ((out @ [(n, d)]) @ q'))"
proof -
  have V: "V = base \<union> fst ` set (out @ (n, d) # q)" using assms(1) by (simp add: inv_def)
  have q': "q' = q @ map (\<lambda>m. (m, Suc d)) (fresh_of V (succ n))" using assms(3) by (simp add: push_fresh)
  have "fst ` (\<lambda>m. (m, Suc d)) ` S = S" for S by (simp add: image_image)
  with assms(2) show ?thesis
    by (auto simp: q' set_fresh distinct_fresh comp_def V image_image)
qed

lemma single_depth_expand:
  assumes "inv V ((n, d) # q) out" "single_depth (out @ (n, d) # q)"
    and "push (Suc d) (succ n) (V, q) = (V', q')"
  shows "single_depth ((out @ [(n, d)]) @ q')"
proof -
  have V: "V = base \<union> fst ` set (out @ (n, d) # q)" using assms(1) by (simp add: inv_def)
  have q': "q' = q @ map (\<lambda>m. (m, Suc d)) (fresh_of V (succ n))" using assms(3) by (simp add: push_fresh)
  have old: "e = e'" if "(x, e) \<in> set (out @ (n, d) # q)" "(x, e') \<in> set (out @ (n, d) # q)" for x e e'
    using assms(2) that unfolding single_depth_def by blast
  have seen: "x \<in> V" if "(x, e) \<in> set (out @ (n, d) # q)" for x e
    using that V by force
  have "(x, e) \<in> set ((out @ [(n, d)]) @ q') \<longleftrightarrow>
      (x, e) \<in> set (out @ (n, d) # q) \<or> (x \<in> set (succ n) - V \<and> e = Suc d)" for x e
    by (auto simp: q' set_fresh)
  with old seen show ?thesis unfolding single_depth_def by blast
qed

text \<open>The nodes in the queue and in the result are within the limit.\<close>

lemma inv_nodes: "inv V q out \<Longrightarrow> fst ` set (out @ q) \<subseteq> {n. \<exists>k. within k \<and> n \<in> reached k}"
proof
  fix n assume inv: "inv V q out" and "n \<in> fst ` set (out @ q)"
  then obtain d where "(n, d) \<in> set (out @ q)" by force
  moreover have "\<forall>(n, d)\<in>set (out @ q). \<exists>k. d = d0 + k \<and> n \<in> reached k \<and> within k"
    using inv by (simp add: inv_def)
  ultimately show "n \<in> {n. \<exists>k. within k \<and> n \<in> reached k}" by blast
qed

end

end
