(* ===== verification/Upstream.thy ===== *)
theory Upstream
  imports Schedule Bfs "HOL-Library.Multiset"
begin

text \<open>
  The two traversals of the dependency graph in \<open>servo-storage/src/postgres.rs\<close>:
  \<open>discover_upstream_assets\<close>, which finds the assets a backfill must run first, and
  \<open>get_asset_lineage\<close>. Both are breadth-first searches that make one storage call per asset.
\<close>

section \<open>The assets upstream of an asset\<close>

definition max_assets :: nat where
  "max_assets = 100"

definition asset_names :: "asset_row list \<Rightarrow> uuid \<Rightarrow> string option" where
  "asset_names rows = foldl (\<lambda>m a. m(ar_id a \<mapsto> ar_name a)) Map.empty rows"

definition display_name :: "(uuid \<Rightarrow> string option) \<Rightarrow> uuid \<Rightarrow> string" where
  "display_name names i = (case names i of Some n \<Rightarrow> n | None \<Rightarrow> ''asset-'' @ i)"

function discover_loop ::
  "int \<Rightarrow> (uuid \<Rightarrow> string option) \<Rightarrow> uuid set \<Rightarrow> (uuid \<times> nat) list \<Rightarrow> (uuid \<times> string \<times> int) list \<Rightarrow>
   (storage_error + (uuid \<times> string \<times> int) list) run" where
  "discover_loop max_depth names visited queue out =
     (case queue of
        [] \<Rightarrow> run_return (Inr out)
      | (i, d) # rest \<Rightarrow>
          if max_assets \<le> length out then run_return (Inr out)
          else
            let out' = out @ [(i, display_name names i, int d)] in
            if max_depth < 0 \<or> int d < max_depth then
              run_ok (perform (\<lambda>c. get_upstream_dependencies c i))
                (\<lambda>deps. case push (Suc d) (map dr_upstream_asset_id deps) (visited, rest) of
                   (visited', rest') \<Rightarrow> discover_loop max_depth names visited' rest' out')
            else discover_loop max_depth names visited rest out')"
  by pat_completeness auto
termination
  by (relation "measure (\<lambda>(_, _, _, _, out). max_assets - length out)") auto

declare discover_loop.simps [simp del]

definition discover_upstream_assets ::
  "uuid \<Rightarrow> int \<Rightarrow> (storage_error + (uuid \<times> string \<times> int) list) run" where
  "discover_upstream_assets asset max_depth =
     (if max_depth = 0 then run_return (Inr [])
      else
        run_ok (perform (\<lambda>c. list_assets_page c 1000 0)) (\<lambda>rows.
        run_ok (perform (\<lambda>c. get_upstream_dependencies c asset)) (\<lambda>deps.
          if list_ex (\<lambda>d. dr_upstream_asset_id d = asset) deps
          then run_return (Inl (ValidationError (''Cycle detected: asset '' @ asset @ '' depends on itself'')))
          else
            case push 1 (map dr_upstream_asset_id deps) ({asset}, []) of
              (visited, queue) \<Rightarrow>
                run_ok (discover_loop max_depth (asset_names rows) visited queue [])
                  (\<lambda>found. run_return (Inr (sort_key (\<lambda>(_, _, d). - d) found))))))"

section \<open>It always answers\<close>

lemma discover_loop_returns:
  "length out \<le> max_assets \<Longrightarrow> max_assets - length out \<le> length ts \<Longrightarrow>
   \<exists>r ts' db'. discover_loop m names V q out ts db = Some (r, ts', db') \<and>
     (\<forall>found. r = Inr found \<longrightarrow> length found \<le> max_assets)"
proof (induction m names V q out arbitrary: ts db rule: discover_loop.induct)
  case (1 m names V queue out)
  show ?case
  proof (cases "queue = [] \<or> max_assets \<le> length out")
    case True
    with 1(3) show ?thesis
      by (subst discover_loop.simps) (auto simp: run_return_def split: list.splits)
  next
    case False
    then obtain i d rest where q: "queue = (i, d) # rest" by (cases queue) auto
    let ?out = "out @ [(i, display_name names i, int d)]"
    from False 1(4) have ts: "ts \<noteq> []" by auto
    show ?thesis
    proof (cases "m < 0 \<or> int d < m")
      case True
      from perform_returns [OF ts, of "\<lambda>c. get_upstream_dependencies c i"] obtain r db1 where
        p: "perform (\<lambda>c. get_upstream_dependencies c i) ts db = Some (r, tl ts, db1)" by blast
      show ?thesis
      proof (cases r)
        case (Inl e)
        with p q False True show ?thesis
          by (subst discover_loop.simps) (auto simp: run_ok_def run_bind_def run_return_def)
      next
        case (Inr deps)
        obtain V' rest' where vp: "push (Suc d) (map dr_upstream_asset_id deps) (V, rest) = (V', rest')"
          by fastforce
        have "\<exists>r ts' db'. discover_loop m names V' rest' ?out (tl ts) db1 = Some (r, ts', db') \<and>
            (\<forall>found. r = Inr found \<longrightarrow> length found \<le> max_assets)"
          by (rule 1(1) [OF q refl _ refl True vp [symmetric]])
            (use False 1(3,4) ts in \<open>auto\<close>)
        with p q False True Inr vp show ?thesis
          by (subst discover_loop.simps) (auto simp: run_ok_def run_bind_def)
      qed
    next
      case shallow: False
      have "\<exists>r ts' db'. discover_loop m names V rest ?out ts db = Some (r, ts', db') \<and>
            (\<forall>found. r = Inr found \<longrightarrow> length found \<le> max_assets)"
        by (rule 1(2) [OF q refl _ refl shallow]) (use False 1(3,4) in auto)
      with q False shallow show ?thesis
        by (subst discover_loop.simps) simp
    qed
  qed
qed

text \<open>
  Discovery always answers. Whatever other tasks write between its storage calls, and whatever
  fails, it needs at most 102 storage calls and finds at most 100 assets, also when the dependencies
  have cycles.
\<close>

theorem discover_returns:
  assumes "102 \<le> length ts"
  shows "\<exists>r ts' db'. discover_upstream_assets asset m ts db = Some (r, ts', db') \<and>
     (\<forall>found. r = Inr found \<longrightarrow> length found \<le> 100)"
proof (cases "m = 0")
  case True
  then show ?thesis by (simp add: discover_upstream_assets_def run_return_def)
next
  case False
  have ts: "ts \<noteq> []" "tl ts \<noteq> []" using assms by (cases ts; cases "tl ts"; simp)+
  obtain r1 db1 where p1: "perform (\<lambda>c. list_assets_page c 1000 0) ts db = Some (r1, tl ts, db1)"
    using perform_returns [OF ts(1), of "\<lambda>c. list_assets_page c 1000 0"] by blast
  obtain r2 db2 where p2: "perform (\<lambda>c. get_upstream_dependencies c asset) (tl ts) db1 = Some (r2, tl (tl ts), db2)"
    using perform_returns [OF ts(2), of "\<lambda>c. get_upstream_dependencies c asset"] by blast
  have loop: "\<exists>r ts' db'. discover_loop m names V q [] (tl (tl ts)) db2 = Some (r, ts', db') \<and>
      (\<forall>found. r = Inr found \<longrightarrow> length found \<le> max_assets)" for names V q
    by (rule discover_loop_returns) (use assms in \<open>simp_all add: max_assets_def\<close>)
  show ?thesis
  proof (cases r1; cases r2)
    fix rows deps assume r: "r1 = Inr rows" "r2 = Inr deps"
    obtain V q where "push 1 (map dr_upstream_asset_id deps) ({asset}, []) = (V, q)" by fastforce
    with loop [of "asset_names rows" V q] False p1 p2 r show ?thesis
      by (auto simp: discover_upstream_assets_def run_ok_def run_bind_def run_return_def max_assets_def
          split: sum.splits)
  qed (use False p1 p2 in \<open>simp_all add: discover_upstream_assets_def run_ok_def run_bind_def run_return_def\<close>)
qed

section \<open>What it finds\<close>

text \<open>The direct upstream assets that a tenant sees.\<close>

definition upstream_ids :: "tenant \<Rightarrow> db \<Rightarrow> uuid \<Rightarrow> uuid list" where
  "upstream_ids u db i = map dr_upstream_asset_id (upstream_rows (call_of u 0) db i)"

lemma visible_tenant: "tenant c = u \<Longrightarrow> visible c = visible (call_of u 0)"
  by (simp add: visible_def fun_eq_iff split: option.split)

lemma upstream_ids_call: "tenant c = u \<Longrightarrow> map dr_upstream_asset_id (upstream_rows c db i) = upstream_ids u db i"
  by (simp add: upstream_ids_def upstream_rows_def my_dependencies_def dep_access_def my_assets_def
      visible_tenant [of c u])

definition in_depth :: "int \<Rightarrow> nat \<Rightarrow> bool" where
  "in_depth m d \<longleftrightarrow> m < 0 \<or> int d < m"

interpretation discover: search "upstream_ids u db" "fresh_of {asset} (upstream_ids u db asset)" "{asset}" "Suc 0"
  "in_depth m" for u db asset m
  by unfold_locales (auto simp: in_depth_def set_fresh)

lemma perform_upstream:
  assumes "list_all (calm u) ts" "ts \<noteq> []"
  shows "\<exists>deps. perform (\<lambda>c. get_upstream_dependencies c i) ts db = Some (Inr deps, tl ts, db) \<and>
     map dr_upstream_asset_id deps = upstream_ids u db i"
  using assms by (cases ts)
    (auto simp: perform_def calm_def get_upstream_dependencies_def with_tenant_context_def upstream_ids_call)

definition named :: "(uuid \<Rightarrow> string option) \<Rightarrow> uuid \<times> nat \<Rightarrow> uuid \<times> string \<times> int" where
  "named names x = (fst x, display_name names (fst x), int (snd x))"

lemma discover_loop_result:
  assumes "list_all (calm u) ts" "max_assets - length out \<le> length ts" "length out \<le> max_assets"
    and "discover.inv u db asset m V q out" "distinct (map fst (out @ q))"
  shows "\<exists>V' q' out' ts'. discover_loop m names V q (map (named names) out) ts db =
       Some (Inr (map (named names) out'), ts', db) \<and>
     discover.inv u db asset m V' q' out' \<and> distinct (map fst (out' @ q')) \<and>
     (q' = [] \<or> max_assets = length out')"
  using assms
proof (induction "max_assets - length out" arbitrary: V q out ts)
  case 0
  then have full: "max_assets = length out" by simp
  then have "discover_loop m names V q (map (named names) out) ts db = Some (Inr (map (named names) out), ts, db)"
    by (subst discover_loop.simps) (simp add: run_return_def split: list.split)
  with 0(5,6) full show ?case by blast
next
  case (Suc k)
  show ?case
  proof (cases q)
    case Nil
    then have "discover_loop m names V q (map (named names) out) ts db = Some (Inr (map (named names) out), ts, db)"
      by (subst discover_loop.simps) (simp add: run_return_def)
    with Suc.prems(4,5) Nil show ?thesis by blast
  next
    case (Cons x rest)
    obtain i d where x: "x = (i, d)" by fastforce
    have len: "\<not> max_assets \<le> length out" "ts \<noteq> []" using Suc.hyps(2) Suc.prems(2) by auto
    show ?thesis
    proof (cases "in_depth m d")
      case True
      obtain deps where deps: "perform (\<lambda>c. get_upstream_dependencies c i) ts db = Some (Inr deps, tl ts, db)"
        "map dr_upstream_asset_id deps = upstream_ids u db i"
        using perform_upstream [OF Suc.prems(1) len(2)] by blast
      obtain V' rest' where push: "push (Suc d) (upstream_ids u db i) (V, rest) = (V', rest')" by fastforce
      have inv: "discover.inv u db asset m V ((i, d) # rest) out" "distinct (map fst (out @ (i, d) # rest))"
        using Suc.prems(4,5) by (simp_all add: Cons x)
      have "list_all (calm u) (tl ts)" using Suc.prems(1) by (cases ts) simp_all
      from Suc.hyps(1) [OF _ this _ _ discover.inv_expand [OF inv(1) True push]
          discover.distinct_expand [OF inv push]] Suc.hyps(2) Suc.prems(2,3) len
      show ?thesis
        by (subst discover_loop.simps)
          (use True deps push in \<open>simp add: Cons x in_depth_def named_def run_ok_def run_bind_def\<close>)
    next
      case False
      have "discover.inv u db asset m V rest (out @ [(i, d)])"
        by (rule discover.inv_leaf [OF _ False]) (use Suc.prems(4) in \<open>simp add: Cons x\<close>)
      from Suc.hyps(1) [OF _ Suc.prems(1) _ _ this] Suc.hyps(2) Suc.prems(2,3,5) len
      show ?thesis
        by (subst discover_loop.simps) (use False in \<open>simp add: Cons x in_depth_def named_def\<close>)
    qed
  qed
qed

text \<open>The relation of direct dependency, and the depth of an asset: its distance from the target.\<close>

definition upstream_rel :: "tenant \<Rightarrow> db \<Rightarrow> (uuid \<times> uuid) set" where
  "upstream_rel u db = {(m, n). n \<in> set (upstream_ids u db m)}"

definition at_depth :: "tenant \<Rightarrow> db \<Rightarrow> uuid \<Rightarrow> uuid \<Rightarrow> nat \<Rightarrow> bool" where
  "at_depth u db a n d \<longleftrightarrow> (a, n) \<in> upstream_rel u db ^^ d \<and> (\<forall>i<d. (a, n) \<notin> upstream_rel u db ^^ i)"

definition depth_limit :: "int \<Rightarrow> nat \<Rightarrow> bool" where
  "depth_limit m d \<longleftrightarrow> 1 \<le> d \<and> (m < 0 \<or> int d \<le> m)"

lemma reached_rel: "n \<in> discover.reached u db a j \<Longrightarrow> (a, n) \<in> upstream_rel u db ^^ Suc j"
proof (induction j arbitrary: n)
  case 0
  then show ?case by (simp add: set_fresh upstream_rel_def)
next
  case (Suc j)
  then obtain k where "k \<in> discover.reached u db a j" "(k, n) \<in> upstream_rel u db"
    by (auto simp: discover.reached_Suc discover.edge_def upstream_rel_def)
  with Suc.IH show ?case by (blast intro: relpow_Suc_I)
qed

lemma rel_reached:
  "(a, n) \<in> upstream_rel u db ^^ k \<Longrightarrow> n \<noteq> a \<Longrightarrow> \<exists>j. Suc j \<le> k \<and> n \<in> discover.reached u db a j"
proof (induction k arbitrary: n)
  case (Suc k)
  then obtain x where x: "(a, x) \<in> upstream_rel u db ^^ k" "n \<in> set (upstream_ids u db x)"
    by (auto simp: upstream_rel_def)
  show ?case
  proof (cases "x = a")
    case True
    with x(2) Suc.prems(2) have "n \<in> discover.reached u db a 0" by (simp add: set_fresh)
    then show ?thesis by (metis Suc_le_mono le0)
  next
    case False
    with Suc.IH x(1) obtain j where "Suc j \<le> k" "x \<in> discover.reached u db a j" by blast
    with x(2) Suc.prems(2) have "n \<in> discover.reached u db a (Suc j)"
      by (auto simp: discover.reached_Suc discover.edge_def)
    with \<open>Suc j \<le> k\<close> show ?thesis by (metis Suc_le_mono)
  qed
qed auto

lemma at_depth_reached:
  "at_depth u db a n (Suc k) \<longleftrightarrow> n \<in> discover.reached u db a k \<and> (\<forall>j<k. n \<notin> discover.reached u db a j)"
proof
  assume d: "at_depth u db a n (Suc k)"
  then have "(a, n) \<notin> upstream_rel u db ^^ 0" unfolding at_depth_def by blast
  then have "n \<noteq> a" by simp
  moreover have "(a, n) \<in> upstream_rel u db ^^ Suc k" using d unfolding at_depth_def by blast
  ultimately obtain j where j: "Suc j \<le> Suc k" "n \<in> discover.reached u db a j"
    using rel_reached by blast
  have none: "n \<notin> discover.reached u db a j" if "j < k" for j
    using d reached_rel that unfolding at_depth_def by (metis Suc_less_eq)
  with j have "j = k" by (metis Suc_le_mono le_neq_implies_less)
  with j none show "n \<in> discover.reached u db a k \<and> (\<forall>j<k. n \<notin> discover.reached u db a j)" by blast
next
  assume r: "n \<in> discover.reached u db a k \<and> (\<forall>j<k. n \<notin> discover.reached u db a j)"
  then have "n \<noteq> a" using discover.reached_base by blast
  have "(a, n) \<notin> upstream_rel u db ^^ i" if "i < Suc k" for i
  proof
    assume "(a, n) \<in> upstream_rel u db ^^ i"
    with rel_reached [OF this \<open>n \<noteq> a\<close>] r that show False by auto
  qed
  with r reached_rel show "at_depth u db a n (Suc k)" unfolding at_depth_def by blast
qed

lemma within_depth: "m \<noteq> 0 \<Longrightarrow> discover.within m k \<longleftrightarrow> depth_limit m (Suc k)"
proof (cases k)
  case 0
  assume "m \<noteq> 0"
  with 0 show ?thesis unfolding discover.within_def by (auto simp: depth_limit_def)
next
  case (Suc j)
  then show ?thesis unfolding Suc discover.within_Suc by (auto simp: depth_limit_def in_depth_def)
qed

lemma finite_upstream: "finite {n. \<exists>k. discover.within m k \<and> n \<in> discover.reached u db a k}"
proof (rule finite_subset)
  have "n \<in> dr_upstream_asset_id ` set (t_dependencies db)" if "n \<in> discover.reached u db a k" for n k
    using reached_rel [OF that] by (auto simp: upstream_rel_def upstream_ids_def upstream_rows_def my_dependencies_def)
  then show "{n. \<exists>k. discover.within m k \<and> n \<in> discover.reached u db a k} \<subseteq>
      dr_upstream_asset_id ` set (t_dependencies db)" by blast
qed simp

text \<open>The result of the search when at most 100 assets are within the limit.\<close>

lemma inv_found:
  assumes "discover.inv u db a m V q out" "distinct (map fst (out @ q))"
    and "q = [] \<or> max_assets = length out" "m \<noteq> 0"
    and "card {n. \<exists>d. at_depth u db a n d \<and> depth_limit m d} \<le> 100"
  shows "distinct (map fst out)" "set out = {(n, d). at_depth u db a n d \<and> depth_limit m d}"
proof -
  let ?N = "{n. \<exists>k. discover.within m k \<and> n \<in> discover.reached u db a k}"
  have least: "\<exists>j. at_depth u db a n (Suc j) \<and> depth_limit m (Suc j)"
    if k: "discover.within m k" "n \<in> discover.reached u db a k" for n k
  proof -
    define j where "j = (LEAST j. n \<in> discover.reached u db a j)"
    have "n \<in> discover.reached u db a j" "j \<le> k" "\<forall>i<j. n \<notin> discover.reached u db a i"
      unfolding j_def using k(2) by (auto intro: LeastI Least_le dest: not_less_Least)
    moreover have "discover.within m j" using k(1) \<open>j \<le> k\<close> unfolding discover.within_def by auto
    ultimately show ?thesis by (auto simp: at_depth_reached within_depth [OF \<open>m \<noteq> 0\<close>])
  qed
  then have "?N \<subseteq> {n. \<exists>d. at_depth u db a n d \<and> depth_limit m d}" by blast
  moreover have "{n. \<exists>d. at_depth u db a n d \<and> depth_limit m d} \<subseteq> ?N"
  proof
    fix n assume "n \<in> {n. \<exists>d. at_depth u db a n d \<and> depth_limit m d}"
    then obtain d where d: "at_depth u db a n d" "depth_limit m d" by blast
    then obtain k where "d = Suc k" by (cases d) (auto simp: depth_limit_def)
    with d show "n \<in> ?N" by (auto simp: at_depth_reached within_depth [OF \<open>m \<noteq> 0\<close>])
  qed
  ultimately have N: "?N = {n. \<exists>d. at_depth u db a n d \<and> depth_limit m d}" by blast
  have "card (fst ` set (out @ q)) \<le> card ?N"
    by (rule card_mono [OF finite_upstream discover.inv_nodes [OF assms(1)]])
  moreover have "card (fst ` set (out @ q)) = length (out @ q)"
    using distinct_card [OF assms(2)] by (simp add: image_Un)
  ultimately have "length (out @ q) \<le> 100" using assms(5) by (simp add: N)
  with assms(3) have q: "q = []" by (cases q) (auto simp: max_assets_def)
  show dist: "distinct (map fst out)" using assms(2) by (simp add: q)
  show "set out = {(n, d). at_depth u db a n d \<and> depth_limit m d}"
  proof (intro equalityI subsetI; clarify)
    fix n d assume nd: "(n, d) \<in> set out"
    from discover.inv_final(1) [OF assms(1) [unfolded q] nd distinct_single_depth [OF dist]]
    show "at_depth u db a n d \<and> depth_limit m d"
      by (auto simp: at_depth_reached within_depth [OF \<open>m \<noteq> 0\<close>])
  next
    fix n d assume d: "at_depth u db a n d" "depth_limit m d"
    then obtain k where k: "d = Suc k" by (cases d) (auto simp: depth_limit_def)
    from d discover.inv_final(2) [OF assms(1) [unfolded q], of n k]
    show "(n, d) \<in> set out" by (simp add: k at_depth_reached within_depth [OF \<open>m \<noteq> 0\<close>])
  qed
qed

text \<open>
  C17: discovery is exact. On a schedule without interference and failures, for an asset that does not
  depend on itself and has at most 100 upstream assets within the depth limit (a negative limit is no
  limit), the result lists exactly these assets, each once and with its distance from the target, the
  farthest first; cycles among the dependencies make no difference.
\<close>

theorem discover_exact:
  assumes calm: "list_all (calm u) ts" "102 \<le> length ts"
    and "m \<noteq> 0" "asset \<notin> set (upstream_ids u db asset)"
    and "card {n. \<exists>d. at_depth u db asset n d \<and> depth_limit m d} \<le> 100"
  shows "\<exists>found ts'. discover_upstream_assets asset m ts db = Some (Inr found, ts', db) \<and>
     distinct (map fst found) \<and> sorted (map (\<lambda>(_, _, d). - d) found) \<and>
     {(n, d). \<exists>nm. (n, nm, d) \<in> set found} =
       {(n, int d) | n d. at_depth u db asset n d \<and> depth_limit m d}"
proof -
  have ts: "ts \<noteq> []" "tl ts \<noteq> []" "list_all (calm u) (tl ts)" "list_all (calm u) (tl (tl ts))"
    using calm by (cases ts; cases "tl ts"; simp)+
  obtain rows where p1: "perform (\<lambda>c. list_assets_page c 1000 0) ts db = Some (Inr rows, tl ts, db)"
    using ts(1) calm(1) by (cases ts)
      (auto simp: perform_def calm_def list_assets_page_def validate_pagination_params_def with_tenant_context_def)
  obtain deps where deps: "perform (\<lambda>c. get_upstream_dependencies c asset) (tl ts) db = Some (Inr deps, tl (tl ts), db)"
    "map dr_upstream_asset_id deps = upstream_ids u db asset"
    using perform_upstream [OF ts(3,2)] by blast
  let ?names = "asset_names rows" and ?seeds = "fresh_of {asset} (upstream_ids u db asset)"
  have push: "push 1 (map dr_upstream_asset_id deps) ({asset}, []) =
      ({asset} \<union> set ?seeds, map (\<lambda>n. (n, Suc 0)) ?seeds)"
    by (auto simp: push_fresh deps(2) set_fresh)
  have no_self: "\<not> list_ex (\<lambda>d. dr_upstream_asset_id d = asset) deps"
    using assms(4) unfolding deps(2) [symmetric] by (auto simp: list_ex_iff)
  have "distinct (map fst ([] @ map (\<lambda>n. (n, Suc 0)) ?seeds))" by (simp add: distinct_fresh comp_def)
  note dist = this
  have len: "max_assets - length [] \<le> length (tl (tl ts))" "length [] \<le> max_assets"
    using calm(2) by (simp_all add: max_assets_def)
  from discover_loop_result [OF ts(4) len discover.inv_start dist, of m ?names]
  obtain V' q' out' ts' where
    loop: "discover_loop m ?names ({asset} \<union> set ?seeds) (map (\<lambda>n. (n, Suc 0)) ?seeds) [] (tl (tl ts)) db =
       Some (Inr (map (named ?names) out'), ts', db)"
    and inv: "discover.inv u db asset m V' q' out'" "distinct (map fst (out' @ q'))"
      "q' = [] \<or> max_assets = length out'"
    unfolding list.map by blast
  note out = inv_found [OF inv assms(3,5)]
  let ?found = "sort_key (\<lambda>(_, _, d). - d) (map (named ?names) out')"
  have "discover_upstream_assets asset m ts db = Some (Inr ?found, ts', db)"
    using p1 deps(1) push no_self loop assms(3)
    by (simp add: discover_upstream_assets_def run_ok_def run_bind_def run_return_def)
  moreover have "distinct (map fst ?found)"
  proof -
    have "distinct (map fst (map (named ?names) out'))" using out(1) by (simp add: comp_def named_def)
    then have "inj_on fst (set (map (named ?names) out'))" "distinct (map (named ?names) out')"
      unfolding distinct_map [of fst "map (named ?names) out'"] by blast+
    then show ?thesis unfolding distinct_map distinct_sort set_sort by blast
  qed
  moreover have "{(n, d). \<exists>nm. (n, nm, d) \<in> set ?found} =
      {(n, int d) | n d. at_depth u db asset n d \<and> depth_limit m d}"
  proof -
    have "(n, nm, d) \<in> set ?found \<longleftrightarrow> (\<exists>e. (n, e) \<in> set out' \<and> nm = display_name ?names n \<and> d = int e)" for n nm d
      by (force simp: named_def)
    then show ?thesis unfolding out(2) by auto
  qed
  moreover have "sorted (map (\<lambda>(_, _, d). - d) ?found)" by (rule sorted_sort_key)
  ultimately show ?thesis by blast
qed

lemma upstream_card:
  "card {n. \<exists>d. at_depth u db a n d \<and> depth_limit m d} \<le> length (t_dependencies db)"
proof -
  have "n \<in> dr_upstream_asset_id ` set (t_dependencies db)"
    if n: "at_depth u db a n d" "depth_limit m d" for n d
  proof -
    obtain k where "d = Suc k" using n(2) by (cases d) (auto simp: depth_limit_def)
    with n(1) show ?thesis
      by (auto simp: at_depth_def upstream_rel_def upstream_ids_def upstream_rows_def my_dependencies_def)
  qed
  then have "card {n. \<exists>d. at_depth u db a n d \<and> depth_limit m d} \<le>
      card (dr_upstream_asset_id ` set (t_dependencies db))"
    by (intro card_mono) auto
  also have "\<dots> \<le> length (t_dependencies db)" using card_image_le card_length order_trans by blast
  finally show ?thesis .
qed

text \<open>
  Three assets: the target \<open>t\<close> depends on \<open>x\<close> and on \<open>y\<close>, and \<open>x\<close> depends on \<open>y\<close>.
\<close>

definition asset_named :: "string \<Rightarrow> asset_row" where
  "asset_named i = sample_asset\<lparr>ar_id := i, ar_name := i\<rparr>"

definition depends :: "uuid \<Rightarrow> uuid \<Rightarrow> dependency_row" where
  "depends down up = \<lparr>dr_id = down @ up, dr_upstream_asset_id = up, dr_downstream_asset_id = down,
     dr_dependency_type = ''data'', dr_created_at = 0\<rparr>"

definition triangle_db :: db where
  "triangle_db = empty_db\<lparr>t_assets := map asset_named [''t'', ''x'', ''y''],
     t_dependencies := [depends ''t'' ''x'', depends ''t'' ''y'', depends ''x'' ''y'']\<rparr>"

definition quiet :: "nat \<Rightarrow> tick list" where
  "quiet n = replicate n (quiet_tick sample_call)"

lemma quiet_calm: "list_all (calm ''acme'') (quiet n)"
  by (simp add: quiet_def list_all_iff calm_quiet sample_call_def)

theorem discover_returns_witness:
  "\<exists>r ts' db'. discover_upstream_assets ''t'' 5 (quiet 102) triangle_db = Some (r, ts', db') \<and>
     (\<forall>found. r = Inr found \<longrightarrow> length found \<le> 100)"
  by (rule discover_returns) (simp add: quiet_def)

theorem discover_exact_witness:
  "\<exists>found ts'. discover_upstream_assets ''t'' (- 1) (quiet 102) triangle_db = Some (Inr found, ts', triangle_db) \<and>
     distinct (map fst found)"
proof -
  have "''t'' \<notin> set (upstream_ids ''acme'' triangle_db ''t'')"
    by code_simp
  moreover have "card {n. \<exists>d. at_depth ''acme'' triangle_db ''t'' n d \<and> depth_limit (- 1) d} \<le> 100"
    by (rule order_trans [OF upstream_card]) (simp add: triangle_db_def)
  ultimately show ?thesis
    using discover_exact [OF quiet_calm, of 102 "- 1" "''t''" triangle_db] by (auto simp: quiet_def)
qed

text \<open>
  The order of the result is not the topological order that the comment promises. When the target
  depends on \<open>x\<close> and \<open>y\<close> and \<open>x\<close> depends on \<open>y\<close>, both have distance 1, and \<open>x\<close> is listed before the
  asset it depends on; the jobs of a backfill take their execution order from this depth.
\<close>

theorem discover_not_topological:
  "map_option fst (discover_upstream_assets ''t'' 2 (quiet 4) triangle_db) =
     Some (Inr [(''x'', ''x'', 1), (''y'', ''y'', 1)]) \<and>
   (''x'', ''y'') \<in> upstream_rel ''acme'' triangle_db"
proof
  show "map_option fst (discover_upstream_assets ''t'' 2 (quiet 4) triangle_db) =
     Some (Inr [(''x'', ''x'', 1), (''y'', ''y'', 1)])"
    by code_simp
  show "(''x'', ''y'') \<in> upstream_rel ''acme'' triangle_db"
    unfolding upstream_rel_def mem_Collect_eq split by code_simp
qed

section \<open>The lineage of an asset\<close>

definition dep_key :: "dependency_row \<Rightarrow> uuid \<times> uuid \<times> string" where
  "dep_key d = (dr_upstream_asset_id d, dr_downstream_asset_id d, dr_dependency_type d)"

fun collect_deps ::
  "dependency_row list \<Rightarrow> (uuid \<times> uuid \<times> string) set \<times> dependency_row list \<Rightarrow>
   (uuid \<times> uuid \<times> string) set \<times> dependency_row list" where
  "collect_deps [] ko = ko"
| "collect_deps (d # ds) (keys, out) =
     collect_deps ds (if dep_key d \<in> keys then (keys, out) else (insert (dep_key d) keys, out @ [d]))"

lemma multiset_shrinks:
  assumes "\<forall>y\<in>set ys. y < (x :: nat)"
  shows "(mset xs + mset ys, add_mset x (mset xs)) \<in> mult less_than"
proof -
  have "(mset xs + mset ys, mset xs + {#x#}) \<in> mult less_than"
    by (rule one_step_implies_mult) (use assms in auto)
  then show ?thesis by simp
qed

function lineage_loop ::
  "nat \<Rightarrow> uuid set \<Rightarrow> (uuid \<times> uuid \<times> string) set \<Rightarrow> (uuid \<times> nat) list \<Rightarrow> dependency_row list \<Rightarrow>
   (storage_error + dependency_row list) run" where
  "lineage_loop max_depth visited keys queue out =
     (case queue of
        [] \<Rightarrow> run_return (Inr out)
      | (i, d) # rest \<Rightarrow>
          if max_depth \<le> d then lineage_loop max_depth visited keys rest out
          else
            run_ok (perform (\<lambda>c. get_asset_dependencies c i))
              (\<lambda>(ups, downs).
                 case collect_deps ups (keys, out) of (keys1, out1) \<Rightarrow>
                 case push (Suc d) (map dr_upstream_asset_id ups) (visited, rest) of (visited1, rest1) \<Rightarrow>
                 case collect_deps downs (keys1, out1) of (keys2, out2) \<Rightarrow>
                 case push (Suc d) (map dr_downstream_asset_id downs) (visited1, rest1) of (visited2, rest2) \<Rightarrow>
                   lineage_loop max_depth visited2 keys2 rest2 out2))"
  by pat_completeness auto

termination
proof (relation "inv_image (mult less_than) (\<lambda>(m, _, _, queue, _). mset (map (\<lambda>(_, d). m - d) queue))",
    goal_cases)
  case 1
  then show ?case by (simp add: wf_mult)
next
  case (2 m V K queue out x rest i d)
  then show ?case
    using multiset_shrinks [of "[]" "m - d" "map (\<lambda>(_, d). m - d) rest"]
    by (cases x) (simp add: case_prod_beta)
next
  case (3 m V K queue out x rest i d ups downs k1 o1 V1 r1 k2 o2 V2 rest2)
  let ?f = "\<lambda>(_, d). m - d"
  obtain as bs where rest2: "rest2 = rest @ map (\<lambda>n. (n, Suc d)) as @ map (\<lambda>n. (n, Suc d)) bs"
    using 3 by (auto simp: push_fresh)
  have "\<forall>y\<in>set (map ?f (map (\<lambda>n. (n, Suc d)) as @ map (\<lambda>n. (n, Suc d)) bs)). y < m - d"
    using 3 by auto
  from multiset_shrinks [OF this, of "map ?f rest"] show ?case
    using 3 by (cases x) (simp add: rest2 case_prod_beta add.assoc multiset.map_comp comp_def)
qed

declare lineage_loop.simps [simp del]

definition get_asset_lineage :: "uuid \<Rightarrow> nat \<Rightarrow> (storage_error + dependency_row list) run" where
  "get_asset_lineage asset max_depth = lineage_loop max_depth {asset} {} [(asset, 0)] []"

text \<open>The neighbours of an asset in both directions, and its rows.\<close>

definition incident :: "tenant \<Rightarrow> db \<Rightarrow> uuid \<Rightarrow> dependency_row list" where
  "incident u db i = upstream_rows (call_of u 0) db i @ downstream_rows (call_of u 0) db i"

definition neighbours :: "tenant \<Rightarrow> db \<Rightarrow> uuid \<Rightarrow> uuid list" where
  "neighbours u db i = map dr_upstream_asset_id (upstream_rows (call_of u 0) db i) @
     map dr_downstream_asset_id (downstream_rows (call_of u 0) db i)"

definition adjacent :: "tenant \<Rightarrow> db \<Rightarrow> (uuid \<times> uuid) set" where
  "adjacent u db = {(m, n). n \<in> set (neighbours u db m)}"

interpretation lineage: search "neighbours u db" "[asset]" "{}" 0 "\<lambda>d. d < (m :: nat)" for u db asset m
  by unfold_locales auto

lemma lineage_reached: "n \<in> lineage.reached u db a k \<longleftrightarrow> (a, n) \<in> adjacent u db ^^ k"
proof -
  have "lineage.edge u db = adjacent u db" by (simp add: lineage.edge_def adjacent_def)
  then show ?thesis by (simp add: lineage.reached_def)
qed

lemma push_append: "push d (as @ bs) vq = push d bs (push d as vq)"
  by (induction d as vq rule: push.induct) auto

lemma collect_append: "collect_deps (as @ bs) ko = collect_deps bs (collect_deps as ko)"
  by (induction as ko rule: collect_deps.induct) auto

lemma collect_props:
  assumes "collect_deps ds (K, out) = (K', out')" "K = dep_key ` set out" "distinct (map dep_key out)"
  shows "K' = dep_key ` set out'" "distinct (map dep_key out')"
    "dep_key ` set out' = dep_key ` set out \<union> dep_key ` set ds" "set out' \<subseteq> set out \<union> set ds"
  using assms
  by (induction ds "(K, out)" arbitrary: K out rule: collect_deps.induct) (auto split: if_splits)

lemma perform_dependencies:
  assumes "list_all (calm u) ts" "ts \<noteq> []"
  shows "perform (\<lambda>c. get_asset_dependencies c i) ts db =
     Some (Inr (upstream_rows (call_of u 0) db i, downstream_rows (call_of u 0) db i), tl ts, db)"
proof -
  have rows: "upstream_rows c db i = upstream_rows (call_of u 0) db i"
    "downstream_rows c db i = downstream_rows (call_of u 0) db i" if "tenant c = u" for c
    by (simp_all add: upstream_rows_def downstream_rows_def my_dependencies_def dep_access_def my_assets_def
        visible_tenant [OF that])
  obtain t r where "ts = t # r" using assms(2) by (cases ts) auto
  with assms(1) rows [of "tk_call t"] show ?thesis
    by (simp add: perform_def calm_def get_asset_dependencies_def with_tenant_context_def)
qed

text \<open>One round of the loop on a calm schedule.\<close>

lemma lineage_round:
  assumes "list_all (calm u) ts" "ts \<noteq> []" "d < m"
  shows "lineage_loop m V K ((i, d) # rest) out ts db =
     (case push (Suc d) (neighbours u db i) (V, rest) of (V', rest') \<Rightarrow>
      case collect_deps (incident u db i) (K, out) of (K', out') \<Rightarrow>
        lineage_loop m V' K' rest' out' (tl ts) db)"
  by (subst lineage_loop.simps)
     (use assms perform_dependencies [OF assms(1,2)] in
      \<open>simp add: run_ok_def run_bind_def neighbours_def incident_def push_append collect_append
         case_prod_beta\<close>)

text \<open>The rows collected so far are those of the assets popped within the limit.\<close>

definition collected :: "tenant \<Rightarrow> db \<Rightarrow> nat \<Rightarrow> (uuid \<times> nat) list \<Rightarrow> (uuid \<times> uuid \<times> string) set \<Rightarrow>
    dependency_row list \<Rightarrow> bool" where
  "collected u db m popped K out \<longleftrightarrow>
     K = dep_key ` set out \<and> distinct (map dep_key out) \<and>
     (\<forall>x\<in>set out. \<exists>(n, d)\<in>set popped. d < m \<and> x \<in> set (incident u db n)) \<and>
     (\<forall>(n, d)\<in>set popped. d < m \<longrightarrow> dep_key ` set (incident u db n) \<subseteq> dep_key ` set out)"

lemma finite_adjacent: "(a, n) \<in> adjacent u db ^^ k \<Longrightarrow>
    n \<in> insert a (dr_upstream_asset_id ` set (t_dependencies db) \<union> dr_downstream_asset_id ` set (t_dependencies db))"
  by (cases k) (auto simp: adjacent_def neighbours_def upstream_rows_def downstream_rows_def my_dependencies_def)

lemma lineage_inv_length:
  assumes "lineage.inv u db a m V q popped" "distinct (map fst (popped @ q))"
  shows "length (popped @ q) \<le> 1 + 2 * length (t_dependencies db)"
proof -
  let ?N = "insert a (dr_upstream_asset_id ` set (t_dependencies db) \<union> dr_downstream_asset_id ` set (t_dependencies db))"
  have "fst ` set (popped @ q) \<subseteq> ?N"
  proof
    fix n assume "n \<in> fst ` set (popped @ q)"
    with lineage.inv_nodes [OF assms(1)] obtain k where "n \<in> lineage.reached u db a k" by blast
    then show "n \<in> ?N" by (intro finite_adjacent) (simp add: lineage_reached)
  qed
  then have "card (fst ` set (popped @ q)) \<le> card ?N" by (intro card_mono) simp_all
  also have "\<dots> \<le> Suc (card (dr_upstream_asset_id ` set (t_dependencies db) \<union>
      dr_downstream_asset_id ` set (t_dependencies db)))" by (rule card_insert_le_m1) simp_all
  also have "\<dots> \<le> Suc (card (dr_upstream_asset_id ` set (t_dependencies db)) +
      card (dr_downstream_asset_id ` set (t_dependencies db)))" by (simp add: card_Un_le)
  also have "\<dots> \<le> 1 + 2 * length (t_dependencies db)"
  proof -
    have "card (f ` set xs) \<le> length xs" for f :: "dependency_row \<Rightarrow> uuid" and xs
      using card_image_le [of "set xs" f] card_length [of xs] by simp
    from this [of dr_upstream_asset_id "t_dependencies db"] this [of dr_downstream_asset_id "t_dependencies db"]
    show ?thesis by simp
  qed
  finally show ?thesis using distinct_card [OF assms(2)] by (simp add: image_Un)
qed

lemma collected_step:
  assumes "collected u db m popped K out" "collect_deps (incident u db i) (K, out) = (K', out')" "d < m"
  shows "collected u db m (popped @ [(i, d)]) K' out'"
proof -
  have c: "K = dep_key ` set out" "distinct (map dep_key out)"
    "\<forall>x\<in>set out. \<exists>(n, d)\<in>set popped. d < m \<and> x \<in> set (incident u db n)"
    "\<forall>(n, d)\<in>set popped. d < m \<longrightarrow> dep_key ` set (incident u db n) \<subseteq> dep_key ` set out"
    using assms(1) by (simp_all add: collected_def)
  note p = collect_props [OF assms(2) c(1,2)]
  have "\<exists>(n, d)\<in>set (popped @ [(i, d)]). d < m \<and> x \<in> set (incident u db n)" if "x \<in> set out'" for x
  proof (cases "x \<in> set out")
    case True
    with c(3) show ?thesis by auto
  next
    case False
    with p(4) that assms(3) show ?thesis by auto
  qed
  moreover have "\<forall>(n, d)\<in>set (popped @ [(i, d)]). d < m \<longrightarrow> dep_key ` set (incident u db n) \<subseteq> dep_key ` set out'"
    using c(4) p(3) by (simp add: split_beta) blast
  ultimately show ?thesis using p(1,2) by (simp add: collected_def)
qed

lemma lineage_loop_result:
  assumes "list_all (calm u) ts" "1 + 2 * length (t_dependencies db) \<le> length ts + length popped"
    and "lineage.inv u db a m V q popped" "distinct (map fst (popped @ q))"
    and "collected u db m popped K out"
  shows "\<exists>V' popped' K' out' ts'. lineage_loop m V K q out ts db = Some (Inr out', ts', db) \<and>
     lineage.inv u db a m V' [] popped' \<and> distinct (map fst popped') \<and> collected u db m popped' K' out'"
  using assms
proof (induction "1 + 2 * length (t_dependencies db) - length popped" arbitrary: V K q out ts popped
    rule: less_induct)
  case (less popped V K q out ts)
  show ?case
  proof (cases q)
    case Nil
    then have "lineage_loop m V K q out ts db = Some (Inr out, ts, db)"
      by (subst lineage_loop.simps) (simp add: run_return_def)
    moreover have "lineage.inv u db a m V [] popped" "distinct (map fst popped)"
      using less.prems(3,4) by (simp_all add: Nil)
    ultimately show ?thesis using less.prems(5) by blast
  next
    case (Cons x rest)
    obtain i d where x: "x = (i, d)" by fastforce
    note inv = less.prems(3) [unfolded Cons x] and dist = less.prems(4) [unfolded Cons x]
    have short: "length popped < 1 + 2 * length (t_dependencies db)"
      using lineage_inv_length [OF inv dist] by simp
    then have shrinks: "1 + 2 * length (t_dependencies db) - length (popped @ [(i, d)]) <
        1 + 2 * length (t_dependencies db) - length popped" by simp
    show ?thesis
    proof (cases "d < m")
      case False
      have "lineage_loop m V K q out ts db = lineage_loop m V K rest out ts db"
        by (subst lineage_loop.simps) (simp add: Cons x False [unfolded not_less])
      moreover have "collected u db m (popped @ [(i, d)]) K out"
        using less.prems(5) False unfolding collected_def by simp
      moreover have "1 + 2 * length (t_dependencies db) \<le> length ts + length (popped @ [(i, d)])"
        using less.prems(2) by simp
      moreover have "distinct (map fst ((popped @ [(i, d)]) @ rest))" using dist by simp
      ultimately show ?thesis
        using less.hyps [OF shrinks less.prems(1) _ lineage.inv_leaf [OF inv False]] by simp
    next
      case True
      from short have ts: "ts \<noteq> []" using less.prems(2) by auto
      obtain V' rest' where push: "push (Suc d) (neighbours u db i) (V, rest) = (V', rest')" by fastforce
      obtain K' out' where coll: "collect_deps (incident u db i) (K, out) = (K', out')" by fastforce
      have eq: "lineage_loop m V K q out ts db = lineage_loop m V' K' rest' out' (tl ts) db"
        using lineage_round [OF less.prems(1) ts True, of V K i rest out db] push coll by (simp add: Cons x)
      have "list_all (calm u) (tl ts)" using less.prems(1) by (cases ts) simp_all
      moreover have "1 + 2 * length (t_dependencies db) \<le> length (tl ts) + length (popped @ [(i, d)])"
        using less.prems(2) ts by (cases ts) simp_all
      ultimately show ?thesis
        unfolding eq
        by (rule less.hyps [OF shrinks _ _ lineage.inv_expand [OF inv True push]
              lineage.distinct_expand [OF inv dist push] collected_step [OF less.prems(5) coll True]])
    qed
  qed
qed

text \<open>
  The lineage is exact. On a schedule without interference and failures, the lineage of an asset to
  a depth consists of the dependencies that touch an asset at a distance below the depth, where
  dependencies are followed in both directions; of several rows with the same ends and type one is
  returned, and nothing else.
\<close>

theorem lineage_exact:
  assumes "list_all (calm u) ts" "1 + 2 * length (t_dependencies db) \<le> length ts"
  shows "\<exists>rows ts'. get_asset_lineage asset m ts db = Some (Inr rows, ts', db) \<and>
     distinct (map dep_key rows) \<and>
     (\<forall>x\<in>set rows. \<exists>k<m. \<exists>n. (asset, n) \<in> adjacent u db ^^ k \<and> x \<in> set (incident u db n)) \<and>
     (\<forall>k<m. \<forall>n. (asset, n) \<in> adjacent u db ^^ k \<longrightarrow>
        dep_key ` set (incident u db n) \<subseteq> dep_key ` set rows)"
proof -
  have inv: "lineage.inv u db asset m {asset} [(asset, 0)] []"
    using lineage.inv_start [of u db asset m] by simp
  have "collected u db m [] {} []" by (simp add: collected_def)
  from lineage_loop_result [OF assms(1) _ inv _ this] assms(2) obtain V' popped K rows ts' where
    run: "lineage_loop m {asset} {} [(asset, 0)] [] ts db = Some (Inr rows, ts', db)"
    and inv': "lineage.inv u db asset m V' [] popped" and dist: "distinct (map fst popped)"
    and coll: "collected u db m popped K rows"
    by auto
  have within: "lineage.within m k \<longleftrightarrow> k \<le> m" for k
    by (auto simp: lineage.within_def) (metis le_less_linear less_irrefl)
  have "\<exists>k<m. \<exists>n. (asset, n) \<in> adjacent u db ^^ k \<and> x \<in> set (incident u db n)" if x: "x \<in> set rows" for x
  proof -
    from coll x obtain n d where "(n, d) \<in> set popped" "d < m" "x \<in> set (incident u db n)"
      unfolding collected_def by fastforce
    with lineage.inv_final(1) [OF inv' _ distinct_single_depth [OF dist]] show ?thesis by (fastforce simp: lineage_reached)
  qed
  moreover have "dep_key ` set (incident u db n) \<subseteq> dep_key ` set rows"
    if k: "k < m" "(asset, n) \<in> adjacent u db ^^ k" for k n
  proof -
    obtain e where e: "e \<le> k" "(n, e) \<in> set popped"
      using lineage.inv_complete [OF inv', of n k] k by (auto simp: lineage_reached within)
    have "\<forall>(n, d)\<in>set popped. d < m \<longrightarrow> dep_key ` set (incident u db n) \<subseteq> dep_key ` set rows"
      using coll by (simp add: collected_def)
    from bspec [OF this e(2)] e(1) k(1) show ?thesis by simp
  qed
  moreover have "distinct (map dep_key rows)" using coll by (simp add: collected_def)
  ultimately show ?thesis using run unfolding get_asset_lineage_def by blast
qed

theorem lineage_exact_witness:
  "\<exists>rows ts'. get_asset_lineage ''x'' 1 (quiet 7) triangle_db = Some (Inr rows, ts', triangle_db) \<and>
     distinct (map dep_key rows)"
proof -
  have "1 + 2 * length (t_dependencies triangle_db) \<le> length (quiet 7)"
    by (simp add: quiet_def triangle_db_def)
  from lineage_exact [OF quiet_calm this, of "''x''" 1] show ?thesis by blast
qed

end
