(* ===== verification/Lineage.thy ===== *)
theory Lineage
  imports Assets Bfs
begin

text \<open>
  The lineage graph, its queries and the impact analysis (\<open>servo-lineage/src/graph.rs\<close>,
  \<open>queries.rs\<close>, \<open>impact.rs\<close>).

  The graph itself is the directed graph of the library \<open>petgraph\<close>, which is not part of the
  repository: its functions are the fields of the record \<open>petgraph\<close>, an argument of every
  definition, and \<open>graph_laws\<close> states what its documentation says of them. The order in which it
  lists neighbours is left open.
\<close>

section \<open>The graph library\<close>

datatype direction = Outgoing | Incoming

record lineage_node =
  node_asset :: uuid
  node_name :: string
  node_type :: string

record lineage_edge =
  edge_type :: string

record 'g petgraph =
  pg_new :: 'g
  pg_add_node :: "'g \<Rightarrow> lineage_node \<Rightarrow> nat \<times> 'g"
  pg_add_edge :: "'g \<Rightarrow> nat \<Rightarrow> nat \<Rightarrow> lineage_edge \<Rightarrow> 'g"
  pg_neighbors :: "'g \<Rightarrow> nat \<Rightarrow> direction \<Rightarrow> nat list"
  pg_weight :: "'g \<Rightarrow> nat \<Rightarrow> lineage_node"
  pg_node_indices :: "'g \<Rightarrow> nat list"
  pg_node_count :: "'g \<Rightarrow> nat"
  pg_edge_count :: "'g \<Rightarrow> nat"
  pg_is_cyclic :: "'g \<Rightarrow> bool"

text \<open>
  The documented meaning over a view of the graph as the list of its nodes and the list of its edges;
  an index is the position of its node, and parallel edges repeat a neighbour.
\<close>

definition graph_laws :: "'g petgraph \<Rightarrow> ('g \<Rightarrow> lineage_node list \<times> (nat \<times> nat) list) \<Rightarrow> bool" where
  "graph_laws pg view \<longleftrightarrow>
     view (pg_new pg) = ([], []) \<and>
     (\<forall>g w. fst (pg_add_node pg g w) = length (fst (view g)) \<and>
        view (snd (pg_add_node pg g w)) = (fst (view g) @ [w], snd (view g))) \<and>
     (\<forall>g a b e. a < length (fst (view g)) \<longrightarrow> b < length (fst (view g)) \<longrightarrow>
        view (pg_add_edge pg g a b e) = (fst (view g), snd (view g) @ [(a, b)])) \<and>
     (\<forall>g a. set (pg_neighbors pg g a Outgoing) = {b. (a, b) \<in> set (snd (view g))} \<and>
        set (pg_neighbors pg g a Incoming) = {b. (b, a) \<in> set (snd (view g))}) \<and>
     (\<forall>g a. a < length (fst (view g)) \<longrightarrow> pg_weight pg g a = fst (view g) ! a) \<and>
     (\<forall>g. pg_node_indices pg g = [0..<length (fst (view g))]) \<and>
     (\<forall>g. pg_node_count pg g = length (fst (view g)) \<and> pg_edge_count pg g = length (snd (view g))) \<and>
     (\<forall>g. pg_is_cyclic pg g \<longleftrightarrow> \<not> acyclic (set (snd (view g))))"

section \<open>The lineage graph\<close>

datatype lineage_error = Node_not_found uuid

record 'g lineage_graph =
  lg_graph :: 'g
  lg_index :: "uuid \<rightharpoonup> nat"

definition lineage_new :: "'g petgraph \<Rightarrow> 'g lineage_graph" where
  "lineage_new pg = \<lparr>lg_graph = pg_new pg, lg_index = Map.empty\<rparr>"

definition lineage_add_node :: "'g petgraph \<Rightarrow> lineage_node \<Rightarrow> 'g lineage_graph \<Rightarrow> nat \<times> 'g lineage_graph" where
  "lineage_add_node pg w lg =
     (case pg_add_node pg (lg_graph lg) w of
        (i, g) \<Rightarrow> (i, \<lparr>lg_graph = g, lg_index = (lg_index lg)(node_asset w \<mapsto> i)\<rparr>))"

definition lineage_add_edge ::
  "'g petgraph \<Rightarrow> uuid \<Rightarrow> uuid \<Rightarrow> lineage_edge \<Rightarrow> 'g lineage_graph \<Rightarrow> lineage_error + 'g lineage_graph" where
  "lineage_add_edge pg a b e lg =
     (case lg_index lg a of
        None \<Rightarrow> Inl (Node_not_found a)
      | Some i \<Rightarrow>
          (case lg_index lg b of
             None \<Rightarrow> Inl (Node_not_found b)
           | Some j \<Rightarrow> Inr (lg\<lparr>lg_graph := pg_add_edge pg (lg_graph lg) i j e\<rparr>)))"

definition get_directed :: "'g petgraph \<Rightarrow> direction \<Rightarrow> 'g lineage_graph \<Rightarrow> uuid \<Rightarrow> lineage_node list" where
  "get_directed pg dir lg a =
     (case lg_index lg a of
        Some i \<Rightarrow> map (pg_weight pg (lg_graph lg)) (pg_neighbors pg (lg_graph lg) i dir)
      | None \<Rightarrow> [])"

definition get_upstream :: "'g petgraph \<Rightarrow> 'g lineage_graph \<Rightarrow> uuid \<Rightarrow> lineage_node list" where
  "get_upstream pg = get_directed pg Incoming"

definition get_downstream :: "'g petgraph \<Rightarrow> 'g lineage_graph \<Rightarrow> uuid \<Rightarrow> lineage_node list" where
  "get_downstream pg = get_directed pg Outgoing"

definition has_cycles :: "'g petgraph \<Rightarrow> 'g lineage_graph \<Rightarrow> bool" where
  "has_cycles pg lg = pg_is_cyclic pg (lg_graph lg)"

definition lineage_node_count :: "'g petgraph \<Rightarrow> 'g lineage_graph \<Rightarrow> nat" where
  "lineage_node_count pg lg = pg_node_count pg (lg_graph lg)"

definition lineage_edge_count :: "'g petgraph \<Rightarrow> 'g lineage_graph \<Rightarrow> nat" where
  "lineage_edge_count pg lg = pg_edge_count pg (lg_graph lg)"

definition nodes_without :: "'g petgraph \<Rightarrow> direction \<Rightarrow> 'g lineage_graph \<Rightarrow> uuid list" where
  "nodes_without pg dir lg =
     map (\<lambda>i. node_asset (pg_weight pg (lg_graph lg) i))
       (filter (\<lambda>i. pg_neighbors pg (lg_graph lg) i dir = []) (pg_node_indices pg (lg_graph lg)))"

definition roots :: "'g petgraph \<Rightarrow> 'g lineage_graph \<Rightarrow> uuid list" where
  "roots pg = nodes_without pg Incoming"

definition leaves :: "'g petgraph \<Rightarrow> 'g lineage_graph \<Rightarrow> uuid list" where
  "leaves pg = nodes_without pg Outgoing"

definition get_node :: "'g petgraph \<Rightarrow> 'g lineage_graph \<Rightarrow> uuid \<Rightarrow> lineage_node option" where
  "get_node pg lg a = map_option (pg_weight pg (lg_graph lg)) (lg_index lg a)"

section \<open>Impact analysis\<close>

record change_impact =
  source_asset :: uuid
  affected_count :: nat
  affected_assets :: "uuid list"

definition analyze_change :: "'g petgraph \<Rightarrow> 'g lineage_graph \<Rightarrow> uuid \<Rightarrow> change_impact" where
  "analyze_change pg lg a =
     (let down = get_downstream pg lg a in
      \<lparr>source_asset = a, affected_count = length down, affected_assets = map node_asset down\<rparr>)"

section \<open>Queries\<close>

definition ancestors :: "'g petgraph \<Rightarrow> 'g lineage_graph \<Rightarrow> uuid \<Rightarrow> uuid list" where
  "ancestors pg lg a = map node_asset (get_upstream pg lg a)"

definition descendants :: "'g petgraph \<Rightarrow> 'g lineage_graph \<Rightarrow> uuid \<Rightarrow> uuid list" where
  "descendants pg lg a = map node_asset (get_downstream pg lg a)"

text \<open>
  The loop of \<open>traverse_with_depth\<close>; it is defined as a partial function, so \<open>None\<close> would be a loop
  that never ends. An entry keeps its node next to the depth; the asset is read off at the end.
\<close>

partial_function (option) traverse_loop ::
  "('n \<Rightarrow> 'n list) \<Rightarrow> nat option \<Rightarrow> 'n set \<Rightarrow> ('n \<times> nat) list \<Rightarrow> ('n \<times> nat) list \<Rightarrow> ('n \<times> nat) list option"
where
  "traverse_loop succ max_depth visited queue result =
     (case queue of
        [] \<Rightarrow> Some result
      | (n, d) # rest \<Rightarrow>
          if (case max_depth of Some m \<Rightarrow> m < d | None \<Rightarrow> False)
          then traverse_loop succ max_depth visited rest result
          else
            (let result' = result @ [(n, d)] in
             if (case max_depth of Some m \<Rightarrow> d < m | None \<Rightarrow> True)
             then (case push (Suc d) (succ n) (visited, rest) of
                     (visited', rest') \<Rightarrow> traverse_loop succ max_depth visited' rest' result')
             else traverse_loop succ max_depth visited rest result'))"

definition traverse_with_depth ::
  "'g petgraph \<Rightarrow> 'g lineage_graph \<Rightarrow> uuid \<Rightarrow> direction \<Rightarrow> nat option \<Rightarrow> (uuid \<times> nat) list option" where
  "traverse_with_depth pg lg a dir max_depth =
     (case lg_index lg a of
        None \<Rightarrow> Some []
      | Some i \<Rightarrow>
          let ns = pg_neighbors pg (lg_graph lg) i dir in
          map_option
            (\<lambda>found. sort_key snd (map (\<lambda>(n, d). (node_asset (pg_weight pg (lg_graph lg) n), d)) found))
            (traverse_loop (\<lambda>n. pg_neighbors pg (lg_graph lg) n dir) max_depth (set ns)
               (map (\<lambda>n. (n, 1)) ns) []))"

definition ancestors_with_depth where
  "ancestors_with_depth pg lg a max_depth = traverse_with_depth pg lg a Incoming max_depth"

definition descendants_with_depth where
  "descendants_with_depth pg lg a max_depth = traverse_with_depth pg lg a Outgoing max_depth"

record lineage_info =
  info_asset :: uuid
  upstream_count :: nat
  downstream_count :: nat
  upstream_assets :: "(uuid \<times> nat) list"
  downstream_assets :: "(uuid \<times> nat) list"
  max_upstream_depth :: nat
  max_downstream_depth :: nat

definition max_depth_of :: "(uuid \<times> nat) list \<Rightarrow> nat" where
  "max_depth_of xs = foldl max 0 (map snd xs)"

definition full_lineage :: "'g petgraph \<Rightarrow> 'g lineage_graph \<Rightarrow> uuid \<Rightarrow> lineage_info option" where
  "full_lineage pg lg a =
     Option.bind (ancestors_with_depth pg lg a None) (\<lambda>up.
     Option.bind (descendants_with_depth pg lg a None) (\<lambda>down.
       Some \<lparr>info_asset = a, upstream_count = length up, downstream_count = length down,
             upstream_assets = up, downstream_assets = down,
             max_upstream_depth = max_depth_of up, max_downstream_depth = max_depth_of down\<rparr>))"

text \<open>The search for a shortest path, with the loop that follows the parents back.\<close>

partial_function (option) walk_back :: "('n \<rightharpoonup> 'n) \<Rightarrow> 'n \<Rightarrow> 'n list \<Rightarrow> 'n list option" where
  "walk_back parent cur path =
     (case parent cur of
        Some prev \<Rightarrow> walk_back parent prev (path @ [prev])
      | None \<Rightarrow> Some path)"

fun push_parent :: "'n \<Rightarrow> 'n list \<Rightarrow> 'n set \<times> ('n \<rightharpoonup> 'n) \<times> 'n list \<Rightarrow> 'n set \<times> ('n \<rightharpoonup> 'n) \<times> 'n list" where
  "push_parent cur [] st = st"
| "push_parent cur (n # ns) (visited, parent, queue) =
     push_parent cur ns
       (if n \<in> visited then (visited, parent, queue)
        else (insert n visited, parent(n \<mapsto> cur), queue @ [n]))"

partial_function (option) path_loop ::
  "('n \<Rightarrow> 'n list) \<Rightarrow> 'n \<Rightarrow> 'n set \<Rightarrow> ('n \<rightharpoonup> 'n) \<Rightarrow> 'n list \<Rightarrow> 'n list option option" where
  "path_loop succ to visited parent queue =
     (case queue of
        [] \<Rightarrow> Some None
      | cur # rest \<Rightarrow>
          if cur = to then map_option (\<lambda>p. Some (rev p)) (walk_back parent to [to])
          else (case push_parent cur (succ cur) (visited, parent, rest) of
                  (visited', parent', rest') \<Rightarrow> path_loop succ to visited' parent' rest'))"

definition lineage_path :: "'g petgraph \<Rightarrow> 'g lineage_graph \<Rightarrow> uuid \<Rightarrow> uuid \<Rightarrow> uuid list option option" where
  "lineage_path pg lg a b =
     (case (lg_index lg a, lg_index lg b) of
        (Some i, Some j) \<Rightarrow>
          map_option (map_option (map (\<lambda>n. node_asset (pg_weight pg (lg_graph lg) n))))
            (path_loop (\<lambda>n. pg_neighbors pg (lg_graph lg) n Outgoing) j {i} Map.empty [i])
      | _ \<Rightarrow> Some None)"

definition is_reachable :: "'g petgraph \<Rightarrow> 'g lineage_graph \<Rightarrow> uuid \<Rightarrow> uuid \<Rightarrow> bool option" where
  "is_reachable pg lg a b = map_option (\<lambda>p. p \<noteq> None) (lineage_path pg lg a b)"

definition distance :: "'g petgraph \<Rightarrow> 'g lineage_graph \<Rightarrow> uuid \<Rightarrow> uuid \<Rightarrow> nat option option" where
  "distance pg lg a b = map_option (map_option (\<lambda>p. length p - 1)) (lineage_path pg lg a b)"

text \<open>The two intersections; the order of a hash set is open, so the result is a set.\<close>

definition common_in ::
  "'g petgraph \<Rightarrow> direction \<Rightarrow> 'g lineage_graph \<Rightarrow> uuid \<Rightarrow> uuid \<Rightarrow> uuid set option" where
  "common_in pg dir lg a b =
     Option.bind (traverse_with_depth pg lg a dir None) (\<lambda>xs.
     Option.bind (traverse_with_depth pg lg b dir None) (\<lambda>ys.
       Some (set (map fst xs) \<inter> set (map fst ys))))"

definition common_ancestors where
  "common_ancestors pg lg a b = common_in pg Incoming lg a b"

definition common_descendants where
  "common_descendants pg lg a b = common_in pg Outgoing lg a b"

section \<open>Graphs that are built through the interface\<close>

datatype lineage_op = Add_node lineage_node | Add_edge uuid uuid lineage_edge

fun lineage_step :: "'g petgraph \<Rightarrow> 'g lineage_graph \<Rightarrow> lineage_op \<Rightarrow> 'g lineage_graph" where
  "lineage_step pg lg (Add_node w) = snd (lineage_add_node pg w lg)"
| "lineage_step pg lg (Add_edge a b e) = (case lineage_add_edge pg a b e lg of Inl _ \<Rightarrow> lg | Inr lg' \<Rightarrow> lg')"

definition built :: "'g petgraph \<Rightarrow> lineage_op list \<Rightarrow> 'g lineage_graph" where
  "built pg ops = foldl (lineage_step pg) (lineage_new pg) ops"

definition lineage_ok :: "('g \<Rightarrow> lineage_node list \<times> (nat \<times> nat) list) \<Rightarrow> 'g lineage_graph \<Rightarrow> bool" where
  "lineage_ok view lg \<longleftrightarrow>
     (\<forall>a i. lg_index lg a = Some i \<longrightarrow>
        i < length (fst (view (lg_graph lg))) \<and> node_asset (fst (view (lg_graph lg)) ! i) = a) \<and>
     (\<forall>(a, b)\<in>set (snd (view (lg_graph lg))).
        a < length (fst (view (lg_graph lg))) \<and> b < length (fst (view (lg_graph lg))))"

lemma step_lineage_ok:
  assumes "graph_laws pg view" "lineage_ok view lg"
  shows "lineage_ok view (lineage_step pg lg op)"
proof (cases op)
  case (Add_node w)
  have "fst (pg_add_node pg (lg_graph lg) w) = length (fst (view (lg_graph lg)))"
    "view (snd (pg_add_node pg (lg_graph lg) w)) = (fst (view (lg_graph lg)) @ [w], snd (view (lg_graph lg)))"
    using assms(1) by (simp_all add: graph_laws_def)
  with assms(2) show ?thesis
    by (auto simp: Add_node lineage_add_node_def lineage_ok_def case_prod_beta nth_append less_Suc_eq
        split: if_splits)
next
  case (Add_edge a b e)
  show ?thesis
  proof (cases "lg_index lg a"; cases "lg_index lg b")
    fix i j assume ij: "lg_index lg a = Some i" "lg_index lg b = Some j"
    then have "i < length (fst (view (lg_graph lg)))" "j < length (fst (view (lg_graph lg)))"
      using assms(2) by (auto simp: lineage_ok_def)
    with assms(1) have "view (pg_add_edge pg (lg_graph lg) i j e) =
        (fst (view (lg_graph lg)), snd (view (lg_graph lg)) @ [(i, j)])"
      unfolding graph_laws_def by blast
    with assms(2) ij show ?thesis by (auto simp: Add_edge lineage_add_edge_def lineage_ok_def)
  qed (use assms(2) in \<open>simp_all add: Add_edge lineage_add_edge_def\<close>)
qed

lemma built_ok:
  assumes "graph_laws pg view"
  shows "lineage_ok view (built pg ops)"
proof -
  have "lineage_ok view lg \<Longrightarrow> lineage_ok view (foldl (lineage_step pg) lg ops)" for lg
    by (induction ops arbitrary: lg) (auto intro: step_lineage_ok [OF assms])
  moreover have "lineage_ok view (lineage_new pg)"
    using assms by (simp add: lineage_ok_def lineage_new_def graph_laws_def)
  ultimately show ?thesis by (simp add: built_def)
qed

text \<open>The edges in a direction.\<close>

definition edges_in :: "('g \<Rightarrow> lineage_node list \<times> (nat \<times> nat) list) \<Rightarrow> 'g lineage_graph \<Rightarrow> direction \<Rightarrow> (nat \<times> nat) set" where
  "edges_in view lg dir =
     (case dir of Outgoing \<Rightarrow> set (snd (view (lg_graph lg))) | Incoming \<Rightarrow> (set (snd (view (lg_graph lg))))\<inverse>)"

lemma neighbors_edges:
  assumes "graph_laws pg view"
  shows "n \<in> set (pg_neighbors pg (lg_graph lg) m dir) \<longleftrightarrow> (m, n) \<in> edges_in view lg dir"
  using assms by (cases dir) (simp_all add: graph_laws_def edges_in_def)

lemma edges_valid:
  "lineage_ok view lg \<Longrightarrow> (m, n) \<in> edges_in view lg dir \<Longrightarrow> n < length (fst (view (lg_graph lg)))"
  by (cases dir) (auto simp: lineage_ok_def edges_in_def)

section \<open>Depth-limited traversal\<close>

definition deeper_than :: "nat option \<Rightarrow> nat \<Rightarrow> bool" where
  "deeper_than m d \<longleftrightarrow> (case m of Some k \<Rightarrow> d < k | None \<Rightarrow> True)"

interpretation traverse: search succ seeds "{}" "Suc 0" "deeper_than m" for succ seeds m
  by unfold_locales (auto simp: deeper_than_def split: option.splits)

lemma push_measure:
  assumes "finite U" "V \<subseteq> U" "set ns \<subseteq> U" "push d ns (V, q) = (V', q')"
  shows "card (U - V') + length q' = card (U - V) + length q" and "V' \<subseteq> U"
    and "fst ` set q' \<subseteq> fst ` set q \<union> U"
proof -
  have p: "V' = V \<union> set (fresh_of V ns)" "q' = q @ map (\<lambda>n. (n, d)) (fresh_of V ns)"
    using assms(4) by (auto simp: push_fresh set_fresh)
  have "card (U - V) = card (U - V') + card (set (fresh_of V ns))"
  proof -
    have "U - V = (U - V') \<union> set (fresh_of V ns)" using assms(3) by (auto simp: p set_fresh)
    moreover have "(U - V') \<inter> set (fresh_of V ns) = {}" by (auto simp: p)
    ultimately show ?thesis using assms(1) by (simp add: card_Un_disjoint)
  qed
  then show "card (U - V') + length q' = card (U - V) + length q"
    by (simp add: p distinct_card distinct_fresh)
  show "V' \<subseteq> U" "fst ` set q' \<subseteq> fst ` set q \<union> U" using assms(2,3) by (auto simp: p set_fresh)
qed

lemma traverse_loop_result:
  assumes "finite U" "\<forall>n\<in>U. set (succ n) \<subseteq> U" "V \<subseteq> U" "fst ` set q \<subseteq> U" "m \<noteq> Some 0"
    and "traverse.inv succ seeds m V q out" "single_depth (out @ q)"
  shows "\<exists>V' out'. traverse_loop succ m V q out = Some out' \<and>
     traverse.inv succ seeds m V' [] out' \<and> single_depth out'"
  using assms(3-)
proof (induction "card (U - V) + length q" arbitrary: V q out rule: less_induct)
  case (less V q out)
  show ?case
  proof (cases q)
    case Nil
    then show ?thesis using less.prems(4,5) by (subst traverse_loop.simps) auto
  next
    case (Cons x rest)
    obtain n d where x: "x = (n, d)" by fastforce
    note inv = less.prems(4) [unfolded Cons x] and single = less.prems(5) [unfolded Cons x]
    have n: "n \<in> U" using less.prems(2) by (simp add: Cons x)
    have kept: "\<not> (case m of Some k \<Rightarrow> k < d | None \<Rightarrow> False)"
    proof -
      obtain k where k: "d = Suc 0 + k" "traverse.within m k" using inv by (auto simp: traverse.inv_def)
      show ?thesis
      proof (cases k)
        case 0
        with k(1) less.prems(3) show ?thesis by (auto split: option.splits)
      next
        case (Suc j)
        with k show ?thesis
          unfolding Suc traverse.within_Suc by (auto simp: deeper_than_def split: option.splits)
      qed
    qed
    show ?thesis
    proof (cases "deeper_than m d")
      case True
      obtain V' rest' where push: "push (Suc d) (succ n) (V, rest) = (V', rest')" by fastforce
      have "set (succ n) \<subseteq> U" using assms(2) n by blast
      note meas = push_measure [OF assms(1) less.prems(1) this push]
      have "traverse_loop succ m V q out = traverse_loop succ m V' rest' (out @ [(n, d)])"
        using kept True by (subst traverse_loop.simps) (simp add: Cons x push Let_def deeper_than_def)
      moreover have "card (U - V') + length rest' < card (U - V) + length q" using meas(1) by (simp add: Cons)
      moreover have "fst ` set rest' \<subseteq> U" using meas(3) less.prems(2) by (auto simp: Cons)
      ultimately show ?thesis
        using less.hyps [OF _ meas(2) _ less.prems(3) traverse.inv_expand [OF inv True push]
            traverse.single_depth_expand [OF inv single push]] by simp
    next
      case False
      have "traverse_loop succ m V q out = traverse_loop succ m V rest (out @ [(n, d)])"
        using kept False by (subst traverse_loop.simps) (simp add: Cons x Let_def deeper_than_def)
      moreover have "single_depth ((out @ [(n, d)]) @ rest)" using single by simp
      ultimately show ?thesis
        using less.hyps [OF _ less.prems(1) _ less.prems(3) traverse.inv_leaf [OF inv False]] less.prems(2)
        by (simp add: Cons)
    qed
  qed
qed

lemma traverse_reached:
  assumes "\<And>m. set (succ m) = {n. (m, n) \<in> E}"
  shows "n \<in> traverse.reached succ (succ i) k \<longleftrightarrow> (i, n) \<in> E ^^ Suc k"
proof -
  have "traverse.edge succ = E" using assms by (auto simp: traverse.edge_def)
  then have "n \<in> traverse.reached succ (succ i) k \<longleftrightarrow> (\<exists>s. (i, s) \<in> E \<and> (s, n) \<in> E ^^ k)"
    using assms [of i] by (auto simp: traverse.reached_def)
  also have "\<dots> \<longleftrightarrow> (i, n) \<in> E ^^ Suc k"
    by (metis relpow_Suc_D2 relpow_Suc_I2)
  finally show ?thesis .
qed

lemma traverse_within: "m \<noteq> Some 0 \<Longrightarrow> traverse.within m k \<longleftrightarrow> (\<forall>b. m = Some b \<longrightarrow> Suc k \<le> b)"
proof (cases k)
  case 0
  assume "m \<noteq> Some 0"
  with 0 show ?thesis unfolding traverse.within_def by (cases m) auto
next
  case (Suc j)
  then show ?thesis
    unfolding Suc traverse.within_Suc by (auto simp: deeper_than_def split: option.splits)
qed

lemma traverse_none: "traverse_loop succ (Some 0) V (map (\<lambda>n. (n, Suc 0)) ns) [] = Some []"
  by (induction ns) (subst traverse_loop.simps; simp)+

text \<open>
  C36: the depth-limited traversal is exact. On a graph built through the interface, for a registered
  asset, the loop ends and the result pairs the assets of all nodes reachable in the direction with
  the least positive number of edges that leads to them, up to the limit, the closest first. An asset
  on a cycle through the start is among its own ancestors.
\<close>

theorem traverse_exact:
  assumes laws: "graph_laws pg view" and lg: "lg = built pg ops" and i: "lg_index lg a = Some i"
  shows "\<exists>xs. traverse_with_depth pg lg a dir m = Some xs \<and> sorted (map snd xs) \<and>
     set xs = {(node_asset (fst (view (lg_graph lg)) ! n), d) | n d.
       1 \<le> d \<and> (\<forall>b. m = Some b \<longrightarrow> d \<le> b) \<and> (i, n) \<in> edges_in view lg dir ^^ d \<and>
       (\<forall>k. 1 \<le> k \<longrightarrow> k < d \<longrightarrow> (i, n) \<notin> edges_in view lg dir ^^ k)}"
proof (cases "m = Some 0")
  case True
  have "traverse_with_depth pg lg a dir m = Some []"
    by (simp add: traverse_with_depth_def i True traverse_none)
  moreover have "{(node_asset (fst (view (lg_graph lg)) ! n), d) | n d.
       1 \<le> d \<and> (\<forall>b. m = Some b \<longrightarrow> d \<le> b) \<and> (i, n) \<in> edges_in view lg dir ^^ d \<and>
       (\<forall>k. 1 \<le> k \<longrightarrow> k < d \<longrightarrow> (i, n) \<notin> edges_in view lg dir ^^ k)} = {}"
    using True by auto
  ultimately show ?thesis by simp
next
  case False
  let ?E = "edges_in view lg dir" and ?nodes = "fst (view (lg_graph lg))"
  let ?succ = "\<lambda>n. pg_neighbors pg (lg_graph lg) n dir"
  have ok: "lineage_ok view lg" unfolding lg by (rule built_ok [OF laws])
  have succ: "set (?succ n) = {n'. (n, n') \<in> ?E}" for n using neighbors_edges [OF laws] by blast
  have valid: "n \<in> set (?succ k) \<Longrightarrow> n < length ?nodes" for n k
    using succ edges_valid [OF ok] by blast
  have single: "single_depth (map (\<lambda>n. (n, Suc 0)) (?succ i))" by (auto simp: single_depth_def)
  have start: "set (?succ i) \<subseteq> {..<length ?nodes}"
    "fst ` set (map (\<lambda>n. (n, Suc 0)) (?succ i)) \<subseteq> {..<length ?nodes}"
    using valid by auto
  have closed: "\<forall>n\<in>{..<length ?nodes}. set (?succ n) \<subseteq> {..<length ?nodes}" using valid by blast
  have inv0: "traverse.inv ?succ (?succ i) m (set (?succ i)) (map (\<lambda>n. (n, Suc 0)) (?succ i)) []"
    using traverse.inv_start [of ?succ "?succ i" m] by simp
  obtain V out where loop: "traverse_loop ?succ m (set (?succ i)) (map (\<lambda>n. (n, Suc 0)) (?succ i)) [] = Some out"
    and inv: "traverse.inv ?succ (?succ i) m V [] out" "single_depth out"
    using traverse_loop_result [OF finite_lessThan closed start False inv0] single by auto
  have out: "(n, d) \<in> set out \<longleftrightarrow> 1 \<le> d \<and> (\<forall>b. m = Some b \<longrightarrow> d \<le> b) \<and> (i, n) \<in> ?E ^^ d \<and>
       (\<forall>k. 1 \<le> k \<longrightarrow> k < d \<longrightarrow> (i, n) \<notin> ?E ^^ k)" for n d
  proof (cases d)
    case 0
    with traverse.inv_final(1) [OF inv(1) _ inv(2), of n 0] show ?thesis by auto
  next
    case (Suc k)
    have "(n, d) \<in> set out \<longleftrightarrow> traverse.within m k \<and> n \<in> traverse.reached ?succ (?succ i) k \<and>
        (\<forall>j<k. n \<notin> traverse.reached ?succ (?succ i) j)"
      unfolding Suc using traverse.inv_final(1) [OF inv(1) _ inv(2), of n "Suc k"]
        traverse.inv_final(2) [OF inv(1), of n k] by (metis add_left_cancel plus_1_eq_Suc One_nat_def)
    also have "\<dots> \<longleftrightarrow> (\<forall>b. m = Some b \<longrightarrow> d \<le> b) \<and> (i, n) \<in> ?E ^^ d \<and> (\<forall>j<k. (i, n) \<notin> ?E ^^ Suc j)"
      unfolding traverse_reached [OF succ] traverse_within [OF False] Suc by (rule refl)
    also have "(\<forall>j<k. (i, n) \<notin> ?E ^^ Suc j) \<longleftrightarrow> (\<forall>k. 1 \<le> k \<longrightarrow> k < d \<longrightarrow> (i, n) \<notin> ?E ^^ k)"
      unfolding Suc by (metis One_nat_def Suc_le_D Suc_less_eq le_add1 plus_1_eq_Suc)
    finally show ?thesis by (simp add: Suc)
  qed
  have weight: "pg_weight pg (lg_graph lg) n = ?nodes ! n" if "(n, d) \<in> set out" for n d
  proof -
    from that have "(i, n) \<in> ?E ^^ d" "1 \<le> d" by (simp_all add: out)
    then have "n < length ?nodes" by (cases d) (auto dest: edges_valid [OF ok])
    with laws show ?thesis by (simp add: graph_laws_def)
  qed
  let ?xs = "sort_key snd (map (\<lambda>(n, d). (node_asset (pg_weight pg (lg_graph lg) n), d)) out)"
  have "traverse_with_depth pg lg a dir m = Some ?xs"
    by (simp add: traverse_with_depth_def i Let_def loop)
  moreover have "set ?xs = {(node_asset (?nodes ! n), d) | n d. (n, d) \<in> set out}"
    using weight by force
  ultimately show ?thesis unfolding out by (intro exI [of _ ?xs]) simp
qed

section \<open>The shortest path\<close>

interpretation shortest: search succ "[i]" "{}" 0 "\<lambda>_. True" for succ i
  by unfold_locales auto

lemma shortest_reached:
  assumes "\<And>m. set (succ m) = {n. (m, n) \<in> E}"
  shows "n \<in> shortest.reached succ i k \<longleftrightarrow> (i, n) \<in> E ^^ k"
proof -
  have "shortest.edge succ = E" using assms by (auto simp: shortest.edge_def)
  then show ?thesis by (simp add: shortest.reached_def)
qed

lemma shortest_within [simp]: "shortest.within k"
  by (simp add: shortest.within_def)

lemma push_parent_fresh:
  "push_parent c ns (V, par, q) =
     (V \<union> set ns, (\<lambda>n. if n \<in> set (fresh_of V ns) then Some c else par n), q @ fresh_of V ns)"
  by (induction ns arbitrary: V par q) (auto simp: fun_eq_iff set_fresh)

text \<open>Every node that was found has as its parent a node found before it, one edge nearer.\<close>

definition parents_ok :: "('n \<Rightarrow> 'n list) \<Rightarrow> 'n \<Rightarrow> ('n \<rightharpoonup> 'n) \<Rightarrow> ('n \<times> nat) list \<Rightarrow> ('n \<times> nat) list \<Rightarrow> bool" where
  "parents_ok succ i par q out \<longleftrightarrow>
     par i = None \<and>
     (\<forall>(n, d)\<in>set (out @ q). n = i \<and> d = 0 \<or>
        (\<exists>p d'. par n = Some p \<and> d = Suc d' \<and> (p, d') \<in> set out \<and> n \<in> set (succ p)))"

lemma parents_start: "parents_ok succ i Map.empty [(i, 0)] []"
  by (simp add: parents_ok_def)

lemma parents_expand:
  assumes ok: "parents_ok succ i par ((c, d) # q) out" and V: "V = fst ` set (out @ (c, d) # q)"
    and i: "i \<in> V"
  shows "parents_ok succ i (\<lambda>n. if n \<in> set (fresh_of V (succ c)) then Some c else par n)
           (q @ map (\<lambda>n. (n, Suc d)) (fresh_of V (succ c))) (out @ [(c, d)])"
    (is "parents_ok _ _ ?par ?q ?out")
proof -
  have i': "i \<notin> set (fresh_of V (succ c))" using i by (simp add: set_fresh)
  have all: "\<forall>(n, e)\<in>set (out @ (c, d) # q). n = i \<and> e = 0 \<or>
      (\<exists>p d'. par n = Some p \<and> e = Suc d' \<and> (p, d') \<in> set out \<and> n \<in> set (succ p))"
    and "par i = None"
    using ok by (simp_all add: parents_ok_def)
  have "n = i \<and> e = 0 \<or>
      (\<exists>p d'. ?par n = Some p \<and> e = Suc d' \<and> (p, d') \<in> set ?out \<and> n \<in> set (succ p))"
    if "(n, e) \<in> set (?out @ ?q)" for n e
  proof (cases "n \<in> set (fresh_of V (succ c)) \<and> (n, e) \<notin> set (out @ (c, d) # q)")
    case True
    with that have "e = Suc d" "n \<in> set (succ c)" by (auto simp: set_fresh)
    with True show ?thesis by simp
  next
    case False
    with that have old: "(n, e) \<in> set (out @ (c, d) # q)" by auto
    then have "n \<in> V" unfolding V by force
    then have "n \<notin> set (fresh_of V (succ c))" by (simp add: set_fresh)
    with bspec [OF all old] show ?thesis by auto
  qed
  with \<open>par i = None\<close> i' show ?thesis unfolding parents_ok_def by auto
qed

lemma walk_back_path:
  assumes "parents_ok succ i par q out"
  shows "(n, d) \<in> set (out @ q) \<Longrightarrow>
    \<exists>ps. walk_back par n path = Some (path @ ps) \<and> length ps = d \<and> last (n # ps) = i \<and>
         successively (\<lambda>b a. b \<in> set (succ a)) (n # ps)"
proof (induction d arbitrary: n path)
  case 0
  then have "n = i" "par i = None" using assms by (auto simp: parents_ok_def)
  then show ?case by (subst walk_back.simps) simp
next
  case (Suc d)
  have "\<forall>(n, d)\<in>set (out @ q). n = i \<and> d = 0 \<or>
        (\<exists>p d'. par n = Some p \<and> d = Suc d' \<and> (p, d') \<in> set out \<and> n \<in> set (succ p))"
    using assms by (simp add: parents_ok_def)
  from bspec [OF this Suc.prems(1)] obtain p where p: "par n = Some p" "(p, d) \<in> set out" "n \<in> set (succ p)"
    by auto
  from p(2) have "(p, d) \<in> set (out @ q)" by simp
  from Suc.IH [OF this, of "path @ [p]"] obtain ps where ps:
    "walk_back par p (path @ [p]) = Some ((path @ [p]) @ ps)" "length ps = d" "last (p # ps) = i"
    "successively (\<lambda>b a. b \<in> set (succ a)) (p # ps)"
    by blast
  have "walk_back par n path = Some (path @ p # ps)"
    using ps(1) by (subst walk_back.simps) (simp add: p(1))
  with ps p(3) show ?case by (intro exI [of _ "p # ps"]) simp
qed

text \<open>The search from any point where the invariants hold.\<close>

definition shortest_to :: "('n \<times> 'n) set \<Rightarrow> 'n \<Rightarrow> 'n \<Rightarrow> 'n list option \<Rightarrow> bool" where
  "shortest_to E i j r \<longleftrightarrow>
     (case r of
        None \<Rightarrow> (i, j) \<notin> E\<^sup>*
      | Some p \<Rightarrow> p \<noteq> [] \<and> hd p = i \<and> last p = j \<and> successively (\<lambda>a b. (a, b) \<in> E) p \<and>
          (\<forall>k. (i, j) \<in> E ^^ k \<longrightarrow> length p \<le> Suc k))"

lemma path_loop_result:
  assumes U: "finite U" "\<forall>n\<in>U. set (succ n) \<subseteq> U" and E: "\<And>m. set (succ m) = {n. (m, n) \<in> E}"
    and "V \<subseteq> U" "fst ` set q \<subseteq> U" "j \<notin> fst ` set out"
    and "shortest.inv succ i V q out" "distinct (map fst (out @ q))" "parents_ok succ i par q out"
  shows "\<exists>r. path_loop succ j V par (map fst q) = Some r \<and> shortest_to E i j r"
  using assms(4-)
proof (induction "card (U - V) + length q" arbitrary: V q out par rule: less_induct)
  case (less V q out par)
  note inv = less.prems(4) and dist = less.prems(5) and par = less.prems(6)
  show ?case
  proof (cases q)
    case Nil
    have "(i, j) \<notin> E ^^ k" for k
    proof
      assume "(i, j) \<in> E ^^ k"
      then have "j \<in> shortest.reached succ i k" by (simp add: shortest_reached [OF E])
      with shortest.inv_complete [OF inv [unfolded Nil]] obtain e where "(j, e) \<in> set out" by auto
      with less.prems(3) show False by force
    qed
    then have "shortest_to E i j None" by (simp add: shortest_to_def rtrancl_power)
    moreover have "path_loop succ j V par (map fst q) = Some None" by (subst path_loop.simps) (simp add: Nil)
    ultimately show ?thesis by blast
  next
    case (Cons x rest)
    obtain c d where x: "x = (c, d)" by fastforce
    show ?thesis
    proof (cases "c = j")
      case True
      have jd: "(j, d) \<in> set (out @ q)" by (simp add: Cons x True)
      from walk_back_path [OF par this, of "[j]"] obtain ps where ps:
        "walk_back par j [j] = Some (j # ps)" "length ps = d" "last (j # ps) = i"
        "successively (\<lambda>b a. b \<in> set (succ a)) (j # ps)"
        by auto
      have "path_loop succ j V par (map fst q) = Some (Some (rev (j # ps)))"
        by (subst path_loop.simps) (simp add: Cons x True ps(1))
      moreover have "d \<le> k" if "(i, j) \<in> E ^^ k" for k
      proof (rule ccontr)
        assume "\<not> d \<le> k"
        moreover have "\<forall>y\<in>set q. d \<le> snd y"
          using inv by (auto simp: shortest.inv_def Cons x sorted_append)
        ultimately have "\<forall>y\<in>set q. 0 + k \<le> snd y" by fastforce
        moreover have "j \<in> shortest.reached succ i k" using that by (simp add: shortest_reached [OF E])
        ultimately obtain e where "e \<le> k" "(j, e) \<in> set (out @ q)"
          using shortest.inv_found_near [OF inv, of j k] by auto
        moreover have "e = d"
          using distinct_single_depth [OF dist] jd \<open>(j, e) \<in> set (out @ q)\<close>
          unfolding single_depth_def by blast
        ultimately show False using \<open>\<not> d \<le> k\<close> by simp
      qed
      moreover have "successively (\<lambda>a b. (a, b) \<in> E) (rev (j # ps))"
        using ps(4) unfolding successively_rev by (simp add: E)
      moreover have "hd (rev (j # ps)) = i" using ps(3) unfolding hd_rev .
      ultimately have "shortest_to E i j (Some (rev (j # ps)))"
        using ps(2) by (simp add: shortest_to_def)
      with \<open>path_loop _ _ _ _ _ = _\<close> show ?thesis by blast
    next
      case False
      let ?f = "fresh_of V (succ c)"
      let ?V = "V \<union> set (succ c)" and ?q = "rest @ map (\<lambda>n. (n, Suc d)) ?f" and ?out = "out @ [(c, d)]"
      let ?par = "\<lambda>n. if n \<in> set ?f then Some c else par n"
      have push: "push (Suc d) (succ c) (V, rest) = (?V, ?q)" by (simp add: push_fresh)
      have V: "V = fst ` set (out @ (c, d) # rest)" and "(i, 0) \<in> set (out @ (c, d) # rest)"
        using inv by (simp_all add: shortest.inv_def Cons x)
      then have i: "i \<in> V" by force
      have "set (succ c) \<subseteq> U" using U(2) less.prems(2) by (auto simp: Cons x)
      note meas = push_measure [OF U(1) less.prems(1) this push]
      have "card (U - ?V) + length ?q < card (U - V) + length q" using meas(1) by (simp add: Cons)
      moreover have "fst ` set ?q \<subseteq> U" using meas(3) less.prems(2) by (auto simp: Cons)
      moreover have "j \<notin> fst ` set ?out" using False less.prems(3) by simp
      ultimately obtain r where "path_loop succ j ?V ?par (map fst ?q) = Some r" "shortest_to E i j r"
        using less.hyps [OF _ meas(2) _ _ shortest.inv_expand [OF inv [unfolded Cons x] TrueI push]
            shortest.distinct_expand [OF inv [unfolded Cons x] dist [unfolded Cons x] push]
            parents_expand [OF par [unfolded Cons x] V i]] by blast
      moreover have "path_loop succ j V par (map fst q) = path_loop succ j ?V ?par (map fst ?q)"
        using False by (subst path_loop.simps) (simp add: Cons x push_parent_fresh comp_def)
      ultimately show ?thesis by simp
    qed
  qed
qed

text \<open>
  C19: the path query is exact. On a graph built through the interface, for two registered assets, the
  search and the walk back along the parents end; the answer is no path exactly when none exists, and
  otherwise the assets along a path whose steps are edges and that no other path undercuts.
\<close>

theorem path_shortest:
  assumes laws: "graph_laws pg view" and lg: "lg = built pg ops"
    and ij: "lg_index lg a = Some i" "lg_index lg b = Some j"
  shows "\<exists>r. lineage_path pg lg a b = Some (map_option (map (\<lambda>n. node_asset (fst (view (lg_graph lg)) ! n))) r) \<and>
     (case r of
        None \<Rightarrow> (i, j) \<notin> (edges_in view lg Outgoing)\<^sup>*
      | Some p \<Rightarrow> p \<noteq> [] \<and> hd p = i \<and> last p = j \<and>
          successively (\<lambda>m n. (m, n) \<in> edges_in view lg Outgoing) p \<and>
          (\<forall>k. (i, j) \<in> edges_in view lg Outgoing ^^ k \<longrightarrow> length p \<le> Suc k))"
proof -
  let ?E = "edges_in view lg Outgoing" and ?nodes = "fst (view (lg_graph lg))"
  let ?succ = "\<lambda>n. pg_neighbors pg (lg_graph lg) n Outgoing"
  have ok: "lineage_ok view lg" unfolding lg by (rule built_ok [OF laws])
  have succ: "set (?succ n) = {n'. (n, n') \<in> ?E}" for n using neighbors_edges [OF laws] by blast
  have closed: "\<forall>n\<in>{..<length ?nodes}. set (?succ n) \<subseteq> {..<length ?nodes}"
    using succ edges_valid [OF ok] by blast
  have i: "i < length ?nodes" using ok ij(1) by (auto simp: lineage_ok_def)
  have inv: "shortest.inv ?succ i {i} [(i, 0)] []" using shortest.inv_start [of ?succ i] by simp
  have start: "{i} \<subseteq> {..<length ?nodes}" "fst ` set [(i, 0::nat)] \<subseteq> {..<length ?nodes}"
    "j \<notin> fst ` set ([] :: (nat \<times> nat) list)" "distinct (map fst ([] @ [(i, 0::nat)]))"
    using i by simp_all
  have "\<exists>r. path_loop ?succ j {i} Map.empty (map fst [(i, 0::nat)]) = Some r \<and> shortest_to ?E i j r"
    by (rule path_loop_result [of "{..<length ?nodes}" ?succ ?E "{i}" "[(i, 0)]" j "[]" i Map.empty,
          OF finite_lessThan closed succ start(1-3) inv start(4) parents_start])
  then obtain r where r: "path_loop ?succ j {i} Map.empty [i] = Some r" "shortest_to ?E i j r"
    unfolding list.map fst_conv by blast
  have nodes: "\<forall>n\<in>set p. n < length ?nodes" if "r = Some p" for p
  proof -
    have "p \<noteq> []" "hd p = i" "successively (\<lambda>m n. (m, n) \<in> ?E) p"
      using r(2) that by (simp_all add: shortest_to_def)
    then show ?thesis using i
    proof (induction p arbitrary: i)
      case (Cons n p)
      show ?case
      proof (cases p)
        case Nil
        with Cons.prems show ?thesis by simp
      next
        case (Cons n' p')
        have "(n, n') \<in> ?E" using Cons.prems(3) by (simp add: Cons)
        then have "n' < length ?nodes" by (rule edges_valid [OF ok])
        then show ?thesis using Cons.IH [of n'] Cons.prems by (simp add: Cons)
      qed
    qed simp
  qed
  have weight: "pg_weight pg (lg_graph lg) n = ?nodes ! n" if "n < length ?nodes" for n
    using laws that by (simp add: graph_laws_def)
  have "lineage_path pg lg a b = Some (map_option (map (\<lambda>n. node_asset (?nodes ! n))) r)"
    using nodes weight by (cases r) (auto simp: lineage_path_def ij r(1))
  with r(2) show ?thesis unfolding shortest_to_def by blast
qed

section \<open>A concrete graph\<close>

definition list_pg :: "(lineage_node list \<times> (nat \<times> nat) list) petgraph" where
  "list_pg =
     \<lparr>pg_new = ([], []),
      pg_add_node = (\<lambda>g w. (length (fst g), fst g @ [w], snd g)),
      pg_add_edge = (\<lambda>g a b e. (fst g, snd g @ [(a, b)])),
      pg_neighbors = (\<lambda>g a dir. case dir of
         Outgoing \<Rightarrow> map snd (filter (\<lambda>e. fst e = a) (rev (snd g)))
       | Incoming \<Rightarrow> map fst (filter (\<lambda>e. snd e = a) (rev (snd g)))),
      pg_weight = (\<lambda>g a. fst g ! a),
      pg_node_indices = (\<lambda>g. [0..<length (fst g)]),
      pg_node_count = (\<lambda>g. length (fst g)),
      pg_edge_count = (\<lambda>g. length (snd g)),
      pg_is_cyclic = (\<lambda>g. \<not> acyclic (set (snd g)))\<rparr>"

lemma list_pg_laws: "graph_laws list_pg id"
  by (force simp: graph_laws_def list_pg_def)

definition diamond :: "lineage_op list" where
  "diamond =
     map (\<lambda>u. Add_node \<lparr>node_asset = u, node_name = [], node_type = []\<rparr>) [''a'', ''b'', ''c'', ''d''] @
     map (\<lambda>(u, v). Add_edge u v \<lparr>edge_type = []\<rparr>) [(''a'', ''b''), (''a'', ''c''), (''b'', ''d''), (''c'', ''d''), (''d'', ''d'')]"

lemma diamond_index: "lg_index (built list_pg diamond) u =
  (if u = ''a'' then Some 0 else if u = ''b'' then Some 1 else if u = ''c'' then Some 2 else if u = ''d'' then Some 3 else None)"
  by (simp add: built_def diamond_def lineage_new_def lineage_add_node_def lineage_add_edge_def list_pg_def)

lemma traverse_exact_witness:
  "\<exists>xs. traverse_with_depth list_pg (built list_pg diamond) ''d'' Incoming (Some 1) = Some xs \<and>
     sorted (map snd xs)"
  using traverse_exact [OF list_pg_laws refl, of diamond "''d''" 3 Incoming "Some 1"]
  by (auto simp: diamond_index)

lemma path_shortest_witness:
  "\<exists>r. lineage_path list_pg (built list_pg diamond) ''a'' ''d'' = Some r"
  using path_shortest [OF list_pg_laws refl, of diamond "''a''" 0 "''d''" 3]
  by (auto simp: diamond_index)

end
