(* ===== verification/Partitions.thy ===== *)
theory Partitions
  imports Assets Contexts
begin

text \<open>
  Partition keys and the mapping between the partitions of dependent assets
  (\<open>servo-core/src/partition_mapping.rs\<close>, \<open>partition_validator.rs\<close>, \<open>partition_context.rs\<close> and
  \<open>servo-runtime/src/partition_resolver.rs\<close>).

  Dates come from the library \<open>chrono\<close>, which is not part of the repository: its functions are the
  record \<open>chrono\<close>, an argument of the definitions, and \<open>calendar_laws\<close> states what they rely on. An
  addition that leaves the range of the dates panics; a definition that can panic answers an option.
\<close>

section \<open>The date library\<close>

record ('d, 't) chrono =
  parse_date :: "string \<Rightarrow> string \<Rightarrow> 'd option"  \<comment> \<open>text and format\<close>
  show_date :: "'d \<Rightarrow> string \<Rightarrow> string"
  plus_days :: "'d \<Rightarrow> int \<Rightarrow> 'd option"
  from_ymd :: "int \<Rightarrow> nat \<Rightarrow> nat \<Rightarrow> 'd option"
  monday_of_week :: "int \<Rightarrow> nat \<Rightarrow> 'd option"
  parse_datetime :: "string \<Rightarrow> string \<Rightarrow> 't option"
  show_datetime :: "'t \<Rightarrow> string \<Rightarrow> string"
  plus_hours :: "'t \<Rightarrow> int \<Rightarrow> 't option"

definition ymd_format :: string where
  "ymd_format = ''%Y-%m-%d''"

section \<open>Partition keys\<close>

definition parse_daily_key :: "('d, 't) chrono \<Rightarrow> string \<Rightarrow> 'd option" where
  "parse_daily_key ch key = parse_date ch key ymd_format"

definition first_some :: "'a option \<Rightarrow> 'a option \<Rightarrow> 'a option" where
  "first_some a b = (case a of Some x \<Rightarrow> Some x | None \<Rightarrow> b)"

definition parse_hourly_key :: "('d, 't) chrono \<Rightarrow> string \<Rightarrow> 't option" where
  "parse_hourly_key ch key =
     first_some (first_some (parse_datetime ch key ''%Y-%m-%d %H:%M:%S'') (parse_datetime ch key ''%Y-%m-%d %H:00:00''))
       (parse_datetime ch key ''%Y-%m-%dT%H:%M:%S'')"

definition parse_weekly_key :: "('d, 't) chrono \<Rightarrow> string \<Rightarrow> 'd option" where
  "parse_weekly_key ch key =
     (case (if str_contains ''-W'' key then split_str ''-W'' key else []) of
        [y, w] \<Rightarrow>
          (case (parse_signed 32 y, parse_unsigned 32 w) of
             (Some year, Some week) \<Rightarrow> monday_of_week ch year week
           | _ \<Rightarrow> parse_daily_key ch key)
      | _ \<Rightarrow> parse_daily_key ch key)"

definition parse_monthly_key :: "string \<Rightarrow> (int \<times> nat) option" where
  "parse_monthly_key key =
     (case split_char (CHR ''-'') key of
        y # m # _ \<Rightarrow>
          (case (parse_signed 32 y, parse_unsigned 32 m) of
             (Some year, Some month) \<Rightarrow> if 1 \<le> month \<and> month \<le> 12 then Some (year, month) else None
           | _ \<Rightarrow> None)
      | _ \<Rightarrow> None)"

definition is_leap_year :: "int \<Rightarrow> bool" where
  "is_leap_year year \<longleftrightarrow> year mod 4 = 0 \<and> year mod 100 \<noteq> 0 \<or> year mod 400 = 0"

definition days_in_month :: "int \<Rightarrow> nat \<Rightarrow> nat" where
  "days_in_month year month =
     (if month \<in> {1, 3, 5, 7, 8, 10, 12} then 31
      else if month \<in> {4, 6, 9, 11} then 30
      else if month = 2 then (if is_leap_year year then 29 else 28)
      else 30)"

fun granularity_order :: "time_granularity \<Rightarrow> nat" where
  "granularity_order Hourly = 0"
| "granularity_order Daily = 1"
| "granularity_order Weekly = 2"
| "granularity_order Monthly = 3"
| "granularity_order Yearly = 4"

definition is_finer_granularity :: "time_granularity \<Rightarrow> time_granularity \<Rightarrow> bool" where
  "is_finer_granularity finer coarser \<longleftrightarrow> granularity_order finer < granularity_order coarser"

section \<open>Mappings\<close>

datatype partition_mapping =
    Identity
  | Time_aggregation nat time_granularity time_granularity  \<comment> \<open>factor, upstream, downstream\<close>
  | Time_window nat time_granularity
  | Time_offset int time_granularity
  | Custom_mapping string

text \<open>The errors carry the types whose \<open>Debug\<close> text the messages show.\<close>

datatype mapping_error =
    Incompatible_types partition_type partition_type  \<comment> \<open>upstream, downstream\<close>
  | Invalid_aggregation time_granularity time_granularity

definition date_keys :: "('d, 't) chrono \<Rightarrow> 'd \<Rightarrow> int list \<Rightarrow> string list option" where
  "date_keys ch d offsets =
     those (map (\<lambda>k. map_option (\<lambda>d'. show_date ch d' ymd_format) (plus_days ch d k)) offsets)"

definition hour_keys :: "('d, 't) chrono \<Rightarrow> 't \<Rightarrow> int list \<Rightarrow> string list option" where
  "hour_keys ch t offsets =
     those (map (\<lambda>k. map_option (\<lambda>t'. show_datetime ch t' ''%Y-%m-%d %H:00:00'') (plus_hours ch t k)) offsets)"

fun map_time_aggregation ::
  "('d, 't) chrono \<Rightarrow> string \<Rightarrow> time_granularity \<Rightarrow> time_granularity \<Rightarrow> string list option" where
  "map_time_aggregation ch key Daily Weekly =
     (case parse_weekly_key ch key of
        Some monday \<Rightarrow> date_keys ch monday (map int [0..<7])
      | None \<Rightarrow> Some [key])"
| "map_time_aggregation ch key Daily Monthly =
     (case parse_monthly_key key of
        Some (year, month) \<Rightarrow>
          Option.bind (from_ymd ch year month 1)
            (\<lambda>start. date_keys ch start (map int [0..<days_in_month year month]))
      | None \<Rightarrow> Some [key])"
| "map_time_aggregation ch key Hourly Daily =
     (case parse_daily_key ch key of
        Some date \<Rightarrow>
          Some (map (\<lambda>h. show_date ch date ymd_format @ '' '' @ show_pad2 h @ '':00:00'') [0..<24])
      | None \<Rightarrow> Some [key])"
| "map_time_aggregation ch key Monthly Yearly =
     (case parse_signed 32 key of
        Some year \<Rightarrow> Some (map (\<lambda>m. show_int year @ ''-'' @ show_pad2 m) [1..<13])
      | None \<Rightarrow> Some [key])"
| "map_time_aggregation ch key _ _ = Some [key]"

fun map_time_window :: "('d, 't) chrono \<Rightarrow> string \<Rightarrow> nat \<Rightarrow> time_granularity \<Rightarrow> string list option" where
  "map_time_window ch key window Daily =
     (case parse_daily_key ch key of
        Some date \<Rightarrow> date_keys ch date (map (\<lambda>i. - int i) [0..<window])
      | None \<Rightarrow> Some [key])"
| "map_time_window ch key window Hourly =
     (case parse_hourly_key ch key of
        Some dt \<Rightarrow> hour_keys ch dt (map (\<lambda>i. - int i) [0..<window])
      | None \<Rightarrow> Some [key])"
| "map_time_window ch key window _ = Some [key]"

fun map_time_offset :: "('d, 't) chrono \<Rightarrow> string \<Rightarrow> int \<Rightarrow> time_granularity \<Rightarrow> string list option" where
  "map_time_offset ch key offset Daily =
     (case parse_daily_key ch key of
        Some date \<Rightarrow> date_keys ch date [offset]
      | None \<Rightarrow> Some [key])"
| "map_time_offset ch key offset Hourly =
     (case parse_hourly_key ch key of
        Some dt \<Rightarrow> hour_keys ch dt [offset]
      | None \<Rightarrow> Some [key])"
| "map_time_offset ch key offset _ = Some [key]"

fun map_partition :: "('d, 't) chrono \<Rightarrow> partition_mapping \<Rightarrow> string \<Rightarrow> string list option" where
  "map_partition ch Identity key = Some [key]"
| "map_partition ch (Time_aggregation _ up down) key = map_time_aggregation ch key up down"
| "map_partition ch (Time_window window g) key = map_time_window ch key window g"
| "map_partition ch (Time_offset offset g) key = map_time_offset ch key offset g"
| "map_partition ch (Custom_mapping _) key = Some [key]"

text \<open>\<open>validate_compatibility\<close>, the two granularities expected of the configurations apart.\<close>

definition require_granularities ::
  "time_granularity \<Rightarrow> time_granularity \<Rightarrow> partition_config \<Rightarrow> partition_config \<Rightarrow> mapping_error + unit" where
  "require_granularities gu gd up down =
     (case (partition_type up, partition_type down) of
        (PTime u, PTime d) \<Rightarrow>
          if u \<noteq> gu \<or> d \<noteq> gd then Inl (Incompatible_types (partition_type up) (partition_type down)) else Inr ()
      | _ \<Rightarrow> Inl (Incompatible_types (partition_type up) (partition_type down)))"

fun validate_compatibility ::
  "partition_mapping \<Rightarrow> partition_config \<Rightarrow> partition_config \<Rightarrow> mapping_error + unit" where
  "validate_compatibility Identity up down =
     (if partition_type up \<noteq> partition_type down
      then Inl (Incompatible_types (partition_type up) (partition_type down)) else Inr ())"
| "validate_compatibility (Time_aggregation _ gu gd) up down =
     (if \<not> is_finer_granularity gu gd then Inl (Invalid_aggregation gu gd)
      else require_granularities gu gd up down)"
| "validate_compatibility (Time_window _ g) up down = require_granularities g g up down"
| "validate_compatibility (Time_offset _ g) up down = require_granularities g g up down"
| "validate_compatibility (Custom_mapping _) up down = Inr ()"

fun infer_mapping :: "partition_type \<Rightarrow> partition_type \<Rightarrow> mapping_error + partition_mapping" where
  "infer_mapping (PTime up) (PTime down) =
     (if up = down then Inr Identity
      else if up = Daily \<and> down = Weekly then Inr (Time_aggregation 7 Daily Weekly)
      else if up = Daily \<and> down = Monthly then Inr (Time_aggregation 30 Daily Monthly)
      else if up = Hourly \<and> down = Daily then Inr (Time_aggregation 24 Hourly Daily)
      else if up = Monthly \<and> down = Yearly then Inr (Time_aggregation 12 Monthly Yearly)
      else Inl (Incompatible_types (PTime up) (PTime down)))"
| "infer_mapping (PCustom _) (PCustom _) = Inr Identity"
| "infer_mapping (PRange _ _) (PRange _ _) = Inr Identity"
| "infer_mapping up down = Inl (Incompatible_types up down)"

section \<open>Validation\<close>

datatype validation_error =
    Invalid_key_format string partition_type
  | Missing_partition_config string
  | Mapping_inference_error mapping_error

definition validate_dependency :: "partition_config \<Rightarrow> partition_config \<Rightarrow> validation_error + unit" where
  "validate_dependency up down =
     (case infer_mapping (partition_type up) (partition_type down) of
        Inr _ \<Rightarrow> Inr ()
      | Inl e \<Rightarrow> Inl (Mapping_inference_error e))"

definition validate_dependency_with_mapping ::
  "partition_config \<Rightarrow> partition_config \<Rightarrow> partition_mapping \<Rightarrow> validation_error + unit" where
  "validate_dependency_with_mapping up down mapping =
     (case validate_compatibility mapping up down of
        Inr _ \<Rightarrow> Inr ()
      | Inl e \<Rightarrow> Inl (Mapping_inference_error e))"

definition valid_monthly_key :: "string \<Rightarrow> bool" where
  "valid_monthly_key key \<longleftrightarrow>
     (case split_char (CHR ''-'') key of
        [y, m] \<Rightarrow> parse_signed 32 y \<noteq> None \<and>
          (case parse_unsigned 32 m of Some n \<Rightarrow> 1 \<le> n \<and> n \<le> 12 | None \<Rightarrow> False)
      | _ \<Rightarrow> False)"

fun valid_time_key :: "('d, 't) chrono \<Rightarrow> string \<Rightarrow> time_granularity \<Rightarrow> bool" where
  "valid_time_key ch key Hourly \<longleftrightarrow>
     parse_datetime ch key ''%Y-%m-%d %H:%M:%S'' \<noteq> None \<or>
     parse_datetime ch key ''%Y-%m-%dT%H:%M:%S'' \<noteq> None \<or>
     parse_datetime ch key ''%Y-%m-%d %H:00:00'' \<noteq> None"
| "valid_time_key ch key Daily \<longleftrightarrow> parse_date ch key ymd_format \<noteq> None"
| "valid_time_key ch key Weekly \<longleftrightarrow>
     str_contains ''-W'' key \<and> 7 \<le> length key \<or> parse_date ch key ymd_format \<noteq> None"
| "valid_time_key ch key Monthly \<longleftrightarrow> valid_monthly_key key"
| "valid_time_key ch key Yearly \<longleftrightarrow> parse_signed 32 key \<noteq> None \<and> length key = 4"

definition validate_time_key :: "('d, 't) chrono \<Rightarrow> string \<Rightarrow> time_granularity \<Rightarrow> validation_error + unit" where
  "validate_time_key ch key g =
     (if valid_time_key ch key g then Inr () else Inl (Invalid_key_format key (PTime g)))"

definition validate_range_key :: "string \<Rightarrow> string \<Rightarrow> string \<Rightarrow> validation_error + unit" where
  "validate_range_key key lower upper =
     (if lower \<le> key \<and> key < upper then Inr () else Inl (Invalid_key_format key (PRange lower upper)))"

fun validate_key_format :: "('d, 't) chrono \<Rightarrow> string \<Rightarrow> partition_type \<Rightarrow> validation_error + unit" where
  "validate_key_format ch key (PTime g) = validate_time_key ch key g"
| "validate_key_format ch key (PRange lower upper) = validate_range_key key lower upper"
| "validate_key_format ch key (PCustom _) = Inr ()"

definition validate_backfill_range ::
  "('d, 't) chrono \<Rightarrow> string \<Rightarrow> string \<Rightarrow> partition_config \<Rightarrow> validation_error + unit" where
  "validate_backfill_range ch start_key end_key cfg =
     (case validate_key_format ch start_key (partition_type cfg) of
        Inl e \<Rightarrow> Inl e
      | Inr _ \<Rightarrow>
          (case validate_key_format ch end_key (partition_type cfg) of
             Inl e \<Rightarrow> Inl e
           | Inr _ \<Rightarrow>
               if end_key \<le> start_key
               then Inl (Invalid_key_format (start_key @ '' to '' @ end_key) (partition_type cfg))
               else Inr ()))"

fun expected_format :: "partition_type \<Rightarrow> string" where
  "expected_format (PTime Hourly) = ''YYYY-MM-DD HH:00:00 or YYYY-MM-DDTHH:00:00''"
| "expected_format (PTime Daily) = ''YYYY-MM-DD''"
| "expected_format (PTime Weekly) = ''YYYY-Www or YYYY-MM-DD (Monday)''"
| "expected_format (PTime Monthly) = ''YYYY-MM''"
| "expected_format (PTime Yearly) = ''YYYY''"
| "expected_format (PRange _ _) = ''value within [lower_bound, upper_bound)''"
| "expected_format (PCustom _) = ''custom format''"

definition can_auto_map :: "partition_type \<Rightarrow> partition_type \<Rightarrow> bool" where
  "can_auto_map up down = (case infer_mapping up down of Inr _ \<Rightarrow> True | Inl _ \<Rightarrow> False)"

definition validate_config :: "partition_config \<Rightarrow> validation_error + unit" where
  "validate_config cfg =
     (if partition_key cfg = [] then Inl (Missing_partition_config ''unknown'') else Inr ())"

definition validate_config_key :: "('d, 't) chrono \<Rightarrow> partition_config \<Rightarrow> string \<Rightarrow> validation_error + unit" where
  "validate_config_key ch cfg key = validate_key_format ch key (partition_type cfg)"

section \<open>Ranges of a backfill\<close>

text \<open>The resolver holds the mapping used when none can be inferred.\<close>

definition resolver_new :: partition_mapping where
  "resolver_new = Identity"

fun with_default_mapping :: "partition_mapping \<Rightarrow> partition_mapping" where
  "with_default_mapping (Custom_mapping _) = resolver_new"
| "with_default_mapping mapping = mapping"

definition choose_mapping ::
  "partition_mapping \<Rightarrow> partition_config option \<Rightarrow> partition_config option \<Rightarrow> partition_mapping" where
  "choose_mapping fallback up down =
     (case (up, down) of
        (Some u, Some d) \<Rightarrow>
          (case infer_mapping (partition_type u) (partition_type d) of Inr m \<Rightarrow> m | Inl _ \<Rightarrow> fallback)
      | _ \<Rightarrow> fallback)"

definition first_or :: "string \<Rightarrow> string list \<Rightarrow> string" where
  "first_or d xs = (case xs of x # _ \<Rightarrow> x | [] \<Rightarrow> d)"

definition last_or :: "string \<Rightarrow> string list \<Rightarrow> string" where
  "last_or d xs = (if xs = [] then d else last xs)"

definition resolve_upstream_range ::
  "('d, 't) chrono \<Rightarrow> partition_mapping \<Rightarrow> string \<Rightarrow> string \<Rightarrow> partition_config option \<Rightarrow>
   partition_config option \<Rightarrow> (string \<times> string) option" where
  "resolve_upstream_range ch fallback start_key end_key up down =
     (let mapping = choose_mapping fallback up down in
      case mapping of
        Identity \<Rightarrow> Some (start_key, end_key)
      | Time_aggregation _ _ _ \<Rightarrow>
          Option.bind (map_partition ch mapping start_key) (\<lambda>ss.
          Option.bind (map_partition ch mapping end_key) (\<lambda>es.
            Some (first_or start_key ss, last_or end_key es)))
      | Time_window _ _ \<Rightarrow>
          map_option (\<lambda>ss. (last_or start_key ss, end_key)) (map_partition ch mapping start_key)
      | Time_offset _ _ \<Rightarrow>
          Option.bind (map_partition ch mapping start_key) (\<lambda>ss.
          Option.bind (map_partition ch mapping end_key) (\<lambda>es.
            Some (first_or start_key ss, first_or end_key es)))
      | Custom_mapping _ \<Rightarrow> Some (start_key, end_key))"

section \<open>The context of a partition type\<close>

fun type_name :: "partition_type \<Rightarrow> string" where
  "type_name (PTime Hourly) = ''hourly''"
| "type_name (PTime Daily) = ''daily''"
| "type_name (PTime Weekly) = ''weekly''"
| "type_name (PTime Monthly) = ''monthly''"
| "type_name (PTime Yearly) = ''yearly''"
| "type_name (PCustom _) = ''custom''"
| "type_name (PRange _ _) = ''range''"

definition from_partition_type :: "string \<Rightarrow> partition_type \<Rightarrow> partition_context" where
  "from_partition_type key t = with_partition_type (type_name t) (context_new key)"

section \<open>The calendar\<close>

text \<open>
  The number of a day of the proleptic Gregorian calendar, from the years, months and days before it;
  it does not mention the length of a month.
\<close>

fun days_before_month :: "nat \<Rightarrow> int" where
  "days_before_month m =
     (if m \<le> 1 then 0 else if m = 2 then 31 else if m = 3 then 59 else if m = 4 then 90
      else if m = 5 then 120 else if m = 6 then 151 else if m = 7 then 181 else if m = 8 then 212
      else if m = 9 then 243 else if m = 10 then 273 else if m = 11 then 304 else 334)"

definition month_start :: "int \<Rightarrow> nat \<Rightarrow> int" where
  "month_start y m =
     365 * y + (y - 1) div 4 - (y - 1) div 100 + (y - 1) div 400 + days_before_month m +
     (if 2 < m \<and> is_leap_year y then 1 else 0)"

fun next_month :: "int \<times> nat \<Rightarrow> int \<times> nat" where
  "next_month (y, m) = (if m = 12 then (y + 1, 1) else (y, m + 1))"

lemma div_step: "y div k = (y - 1) div k + (if y mod k = 0 then 1 else 0)" if "0 < k" for y k :: int
proof (cases "y mod k = 0")
  case True
  then obtain q where y: "y = k * q" by (auto elim: dvdE simp: mod_eq_0_iff_dvd)
  have "(k * q - 1) div k = q - 1"
    by (rule int_div_pos_eq [where r = "k - 1"]) (use that in \<open>auto simp: algebra_simps\<close>)
  then show ?thesis using that by (simp add: y)
next
  case False
  have "0 < y mod k" using that False by (metis pos_mod_sign order_le_less)
  moreover have "y mod k < k" using that by (rule pos_mod_bound)
  moreover have "y - 1 = k * (y div k) + (y mod k - 1)" using mult_div_mod_eq [of k y] by linarith
  ultimately have "(y - 1) div k = y div k"
    by (intro int_div_pos_eq [where r = "y mod k - 1"]) linarith+
  then show ?thesis using False by simp
qed

lemma leap_days:
  "y div 4 - y div 100 + y div 400 =
     (y - 1) div 4 - (y - 1) div 100 + (y - 1) div 400 + (if is_leap_year y then 1 else 0)" for y :: int
proof -
  have "y mod 100 = 0" if "y mod 400 = 0"
    using that mod_mod_cancel [of 100 400 y] by simp
  moreover have "y mod 4 = 0" if "y mod 100 = 0"
    using that mod_mod_cancel [of 4 100 y] by simp
  moreover have combine: "A + (if p then 1 else 0) - (B + (if q then 1 else 0)) + (C + (if r then 1 else 0)) =
      A - B + C + (if p \<and> \<not> q \<or> r then 1 else 0)" if "r \<Longrightarrow> q" "q \<Longrightarrow> p" for p q r and A B C :: int
    using that by auto
  ultimately show ?thesis
    unfolding is_leap_year_def div_step [of 4 y, OF zero_less_numeral] div_step [of 100 y, OF zero_less_numeral]
      div_step [of 400 y, OF zero_less_numeral] by (intro combine)
qed

text \<open>The code's table of month lengths is the distance between the starts of two months.\<close>

lemma days_in_month_start:
  assumes "1 \<le> m" "m \<le> 12"
  shows "month_start y m + int (days_in_month y m) = (case next_month (y, m) of (y', m') \<Rightarrow> month_start y' m')"
proof -
  have m: "m \<in> {1, 2, 3, 4, 5, 6, 7, 8, 9, 10, 11, 12}" using assms by simp arith
  show ?thesis
  proof (cases "m = 12")
    case True
    then show ?thesis
      using leap_days [of y] by (simp add: month_start_def days_in_month_def)
  next
    case False
    with m show ?thesis
      by (auto simp: month_start_def days_in_month_def)
  qed
qed

text \<open>
  What the code relies on, over the numbering \<open>num\<close> of the dates: a date is determined by its number,
  the numbers have no gap, adding days fails only outside the range, a month starts where the calendar
  says, and the text of a date with a year of four digits parses to it.
\<close>

definition in_four_digits :: "int \<Rightarrow> bool" where
  "in_four_digits n \<longleftrightarrow> month_start 0 1 < n \<and> n \<le> month_start 10000 1"

definition calendar_laws :: "('d, 't) chrono \<Rightarrow> ('d \<Rightarrow> int) \<Rightarrow> bool" where
  "calendar_laws ch num \<longleftrightarrow>
     inj num \<and>
     (\<forall>a b n. num a \<le> n \<longrightarrow> n \<le> num b \<longrightarrow> (\<exists>d. num d = n)) \<and>
     (\<forall>d k. case plus_days ch d k of Some d' \<Rightarrow> num d' = num d + k | None \<Rightarrow> \<not> (\<exists>d'. num d' = num d + k)) \<and>
     (\<forall>y m. 0 \<le> y \<longrightarrow> y \<le> 10000 \<longrightarrow> 1 \<le> m \<longrightarrow> m \<le> 12 \<longrightarrow>
        (\<exists>d. from_ymd ch y m 1 = Some d \<and> num d = month_start y m + 1)) \<and>
     (\<forall>d. in_four_digits (num d) \<longrightarrow> parse_date ch (show_date ch d ymd_format) ymd_format = Some d)"

lemma those_Some: "those (map (\<lambda>k. Some (f k)) xs) = Some (map f xs)"
  by (induction xs) auto

lemma date_keys_days:
  assumes laws: "calendar_laws ch num" and ex: "\<And>k. k < n \<Longrightarrow> \<exists>d'. num d' = num d + int k"
    and four: "\<And>k. k < n \<Longrightarrow> in_four_digits (num d + int k)"
  shows "\<exists>keys ds. date_keys ch d (map int [0..<n]) = Some keys \<and>
     map (\<lambda>k. parse_date ch k ymd_format) keys = map Some ds \<and> map num ds = map (\<lambda>k. num d + int k) [0..<n]"
proof -
  have "\<exists>d'. plus_days ch d (int k) = Some d' \<and> num d' = num d + int k" if "k < n" for k
  proof -
    have "case plus_days ch d (int k) of Some d' \<Rightarrow> num d' = num d + int k | None \<Rightarrow> \<not> (\<exists>d'. num d' = num d + int k)"
      using laws by (simp add: calendar_laws_def)
    with ex [OF that] show ?thesis by (cases "plus_days ch d (int k)") auto
  qed
  then obtain f where f: "\<And>k. k < n \<Longrightarrow> plus_days ch d (int k) = Some (f k) \<and> num (f k) = num d + int k"
    by metis
  have "date_keys ch d (map int [0..<n]) = those (map (\<lambda>k. Some (show_date ch (f k) ymd_format)) [0..<n])"
    unfolding date_keys_def map_map comp_def using f by (intro arg_cong [of _ _ those] map_cong) auto
  then have "date_keys ch d (map int [0..<n]) = Some (map (\<lambda>k. show_date ch (f k) ymd_format) [0..<n])"
    by (simp add: those_Some)
  moreover have "parse_date ch (show_date ch (f k) ymd_format) ymd_format = Some (f k)" if "k < n" for k
    using laws four [OF that] f [OF that] by (simp add: calendar_laws_def)
  ultimately show ?thesis
    using f by (intro exI [of _ "map (\<lambda>k. show_date ch (f k) ymd_format) [0..<n]"] exI [of _ "map f [0..<n]"]) simp
qed

lemma month_start_bounds:
  assumes "1 \<le> m" "m \<le> 12"
  shows "month_start y 1 \<le> month_start y m" and "month_start y m + 28 \<le> month_start (y + 1) 1"
proof -
  have before: "0 \<le> days_before_month m" "days_before_month m \<le> 334" "days_before_month (Suc 0) = 0" by simp_all
  then show "month_start y 1 \<le> month_start y m" by (simp add: month_start_def del: days_before_month.simps)
  have "month_start (y + 1) 1 = 365 * y + (y - 1) div 4 - (y - 1) div 100 + (y - 1) div 400 + 365 +
      (if is_leap_year y then 1 else 0)"
    using leap_days [of y] by (simp add: month_start_def)
  with before show "month_start y m + 28 \<le> month_start (y + 1) 1"
    by (simp add: month_start_def del: days_before_month.simps)
qed

lemma month_start_years: "0 \<le> y \<Longrightarrow> y \<le> y' \<Longrightarrow> month_start y 1 \<le> month_start y' 1"
proof -
  assume y: "0 \<le> y" "y \<le> y'"
  have "month_start (int n) 1 \<le> month_start (int (Suc n)) 1" for n
    using month_start_bounds [of 1 "int n"] by (simp add: add.commute)
  from lift_Suc_mono_le [of "\<lambda>n. month_start (int n) 1", OF this, of "nat y" "nat y'"] y
  show ?thesis by simp
qed

lemma days_in_month_range: "28 \<le> days_in_month y m \<and> days_in_month y m \<le> 31"
  by (simp add: days_in_month_def)

lemma next_month_start:
  assumes "next_month (y, m) = (y', m')" "1 \<le> m" "m \<le> 12" "0 \<le> y" "y \<le> 9999"
  shows "month_start y' m' = month_start y m + int (days_in_month y m)"
    and "month_start 0 1 \<le> month_start y m" and "month_start y' m' \<le> month_start 10000 1"
    and "0 \<le> y'" "y' \<le> 10000" "1 \<le> m'" "m' \<le> 12"
proof -
  show r: "0 \<le> y'" "y' \<le> 10000" "1 \<le> m'" "m' \<le> 12" using assms by (auto split: if_splits)
  show s: "month_start y' m' = month_start y m + int (days_in_month y m)"
    using days_in_month_start [of m y] assms by (simp del: next_month.simps)
  show "month_start 0 1 \<le> month_start y m"
    using month_start_years [of 0 y] month_start_bounds(1) [of m y] assms by linarith
  show "month_start y' m' \<le> month_start 10000 1"
  proof (cases "y' = 10000")
    case True
    with assms show ?thesis by (auto split: if_splits)
  next
    case False
    with r month_start_years [of "y' + 1" 10000] month_start_bounds(2) [of m' y'] show ?thesis by linarith
  qed
qed

text \<open>The keys of a month.\<close>

lemma monthly_days:
  assumes laws: "calendar_laws ch num" and key: "parse_monthly_key key = Some (y, m)"
    and y: "0 \<le> y" "y \<le> 9999" and nxt: "next_month (y, m) = (y', m')"
  shows "\<exists>keys ds. map_time_aggregation ch key Daily Monthly = Some keys \<and>
     map (\<lambda>k. parse_date ch k ymd_format) keys = map Some ds \<and>
     map num ds = [month_start y m + 1..month_start y' m']"
proof -
  have m: "1 \<le> m" "m \<le> 12" using key by (auto simp: parse_monthly_key_def split: list.splits option.splits if_splits)
  note nm = next_month_start [OF nxt m y]
  have starts: "\<exists>d. from_ymd ch y m 1 = Some d \<and> num d = month_start y m + 1"
    if "0 \<le> y" "y \<le> 10000" "1 \<le> m" "m \<le> 12" for y m
    using laws that by (simp add: calendar_laws_def)
  obtain d where d: "from_ymd ch y m 1 = Some d" "num d = month_start y m + 1" using starts [of y m] y m by auto
  obtain e where e: "num e = month_start y' m' + 1" using starts [OF nm(4-7)] by blast
  let ?n = "days_in_month y m"
  have gap: "\<forall>a b n. num a \<le> n \<longrightarrow> n \<le> num b \<longrightarrow> (\<exists>d. num d = n)"
    using laws by (simp add: calendar_laws_def)
  have "\<exists>d'. num d' = num d + int k" if "k < ?n" for k
  proof -
    have "num d \<le> num d + int k" "num d + int k \<le> num e" using that nm(1) by (simp_all add: d(2) e)
    with gap show ?thesis by blast
  qed
  moreover have "in_four_digits (num d + int k)" if "k < ?n" for k
    using that nm(1-3) by (simp add: in_four_digits_def d(2))
  ultimately obtain keys ds where k: "date_keys ch d (map int [0..<?n]) = Some keys"
    "map (\<lambda>k. parse_date ch k ymd_format) keys = map Some ds" "map num ds = map (\<lambda>k. num d + int k) [0..<?n]"
    using date_keys_days [OF laws, of ?n d] by blast
  have "map (\<lambda>k. num d + int k) [0..<?n] = [month_start y m + 1..month_start y' m']"
    by (rule nth_equalityI) (auto simp: nm(1) d(2))
  with k show ?thesis by (auto simp: key d(1) [unfolded One_nat_def])
qed

lemma weekly_days:
  assumes laws: "calendar_laws ch num" and key: "parse_weekly_key ch key = Some d"
    and four: "in_four_digits (num d)" "in_four_digits (num d + 6)" and ex: "num e = num d + 6"
  shows "\<exists>keys ds. map_time_aggregation ch key Daily Weekly = Some keys \<and>
     map (\<lambda>k. parse_date ch k ymd_format) keys = map Some ds \<and> map num ds = [num d..num d + 6]"
proof -
  have gap: "\<forall>a b n. num a \<le> n \<longrightarrow> n \<le> num b \<longrightarrow> (\<exists>d. num d = n)"
    using laws by (simp add: calendar_laws_def)
  have "\<exists>d'. num d' = num d + int k" if "k < 7" for k
  proof -
    have "num d \<le> num d + int k" "num d + int k \<le> num e" using that ex by simp_all
    with gap show ?thesis by blast
  qed
  moreover have "in_four_digits (num d + int k)" if "k < 7" for k
    using that four by (simp add: in_four_digits_def)
  ultimately obtain keys ds where k: "date_keys ch d (map int [0..<7]) = Some keys"
    "map (\<lambda>k. parse_date ch k ymd_format) keys = map Some ds" "map num ds = map (\<lambda>k. num d + int k) [0..<7]"
    using date_keys_days [OF laws, of 7 d] by blast
  have "map (\<lambda>k. num d + int k) [0..<7] = [num d..num d + 6]"
    by (rule nth_equalityI) auto
  with k show ?thesis by (auto simp: key)
qed

lemma yearly_months:
  assumes "parse_signed 32 key = Some y" "0 \<le> y"
  shows "\<exists>keys. map_time_aggregation ch key Monthly Yearly = Some keys \<and>
     map parse_monthly_key keys = map (\<lambda>m. Some (y, m)) [1..<13]"
proof -
  have y: "nat y < 2 ^ 31" using assms
    by (auto simp: parse_signed_def parse_unsigned_def Let_def split: list.splits if_splits)
  have dash: "CHR ''-'' \<notin> set (show_nat n)" for n
    using show_nat_digits [of n] not_digit(2) by (auto simp: list_all_iff)
  have "parse_monthly_key (show_int y @ ''-'' @ show_pad2 m) = Some (y, m)" if "1 \<le> m" "m < 13" for m
  proof -
    have "split_char (CHR ''-'') (show_pad2 m) = [show_pad2 m]"
      using dash [of m] by (intro split_char_none) (simp add: show_pad2_def)
    then have "split_char (CHR ''-'') (show_int y @ ''-'' @ show_pad2 m) = [show_nat (nat y), show_pad2 m]"
      using split_char_append [OF dash, of "nat y" "show_pad2 m"] assms(2) by (simp add: show_int_def)
    then show ?thesis
      using parse_show_signed [of "nat y" 32] parse_show_pad2 [of m 32] y assms(2) that
      by (simp add: parse_monthly_key_def)
  qed
  then show ?thesis by (simp add: assms(1))
qed

section \<open>Properties\<close>

text \<open>
  C21: the daily partitions behind a monthly partition are exactly the days of the month. For a key
  of the years 0 to 9999, the mapping inferred between a daily and a monthly asset answers without a
  panic, and the keys it lists parse to the dates from the first of the month to the day before the
  first of the next month, in order and each once, leap years included.
\<close>

theorem monthly_exact:
  assumes "calendar_laws ch num" "infer_mapping (PTime Daily) (PTime Monthly) = Inr mapping"
    and "parse_monthly_key key = Some (y, m)" "0 \<le> y" "y \<le> 9999" "next_month (y, m) = (y', m')"
  shows "\<exists>keys ds. map_partition ch mapping key = Some keys \<and>
     map (\<lambda>k. parse_date ch k ymd_format) keys = map Some ds \<and>
     map num ds = [month_start y m + 1..month_start y' m']"
  using monthly_days [OF assms(1,3-6)] assms(2) by auto

text \<open>
  An inferred mapping passes the compatibility check of the same two configurations, except when
  both types are custom expressions or both are ranges and the two differ: the inference accepts
  these, the check of the identity mapping it infers refuses them.
\<close>

theorem inferred_compatible:
  assumes "infer_mapping (partition_type up) (partition_type down) = Inr mapping"
  shows "validate_compatibility mapping up down = Inr () \<longleftrightarrow>
     partition_type up = partition_type down \<or> (\<exists>gu gd. partition_type up = PTime gu \<and> partition_type down = PTime gd)"
proof (cases "partition_type up"; cases "partition_type down")
  fix gu gd assume "partition_type up = PTime gu" "partition_type down = PTime gd"
  with assms show ?thesis
    by (auto simp: require_granularities_def is_finer_granularity_def split: if_splits)
qed (use assms in auto)

text \<open>
  The range of an upstream child of a monthly job runs to the last day of the end month although
  the end of a range is exclusive. For a daily asset above a monthly one, the range from month
  \<open>(y, m)\<close> to \<open>(y', m')\<close> resolves to the first day of the start month and the last day of the end
  month, at least 27 days behind the exclusive end that the range means.
\<close>

theorem resolved_range_overshoots:
  assumes laws: "calendar_laws ch num"
    and types: "partition_type up = PTime Daily" "partition_type down = PTime Monthly"
    and keys: "parse_monthly_key s = Some (y, m)" "parse_monthly_key e = Some (y', m')"
    and years: "0 \<le> y" "y \<le> 9999" "0 \<le> y'" "y' \<le> 9999"
  shows "\<exists>a b da db. resolve_upstream_range ch resolver_new s e (Some up) (Some down) = Some (a, b) \<and>
     parse_date ch a ymd_format = Some da \<and> num da = month_start y m + 1 \<and>
     parse_date ch b ymd_format = Some db \<and> month_start y' m' + 1 + 27 \<le> num db"
proof -
  obtain z n where n1: "next_month (y, m) = (z, n)" by fastforce
  obtain z' n' where n2: "next_month (y', m') = (z', n')" by fastforce
  have m: "1 \<le> m" "m \<le> 12" "1 \<le> m'" "m' \<le> 12"
    using keys by (auto simp: parse_monthly_key_def split: list.splits option.splits if_splits)
  have ends: "month_start z n = month_start y m + int (days_in_month y m)"
    "month_start z' n' = month_start y' m' + int (days_in_month y' m')"
    using next_month_start(1) [OF n1 m(1,2) years(1,2)] next_month_start(1) [OF n2 m(3,4) years(3,4)] .
  obtain ks ds where k: "map_time_aggregation ch s Daily Monthly = Some ks"
    "map (\<lambda>k. parse_date ch k ymd_format) ks = map Some ds" "map num ds = [month_start y m + 1..month_start z n]"
    using monthly_days [OF laws keys(1) years(1,2) n1] by blast
  obtain ks' ds' where k': "map_time_aggregation ch e Daily Monthly = Some ks'"
    "map (\<lambda>k. parse_date ch k ymd_format) ks' = map Some ds'" "map num ds' = [month_start y' m' + 1..month_start z' n']"
    using monthly_days [OF laws keys(2) years(3,4) n2] by blast
  have len: "28 \<le> days_in_month y m" "28 \<le> days_in_month y' m'" using days_in_month_range by simp_all
  have hd: "\<exists>a as da. ks = a # as \<and> parse_date ch a ymd_format = Some da \<and> num da = month_start y m + 1"
    using k(2,3) ends(1) len(1) by (cases ks; cases ds) (auto simp: upto.simps [of "month_start y m + 1"])
  have "[month_start y' m' + 1..month_start z' n'] = [month_start y' m' + 1..month_start z' n' - 1] @ [month_start z' n']"
    using ends(2) len(2) by (intro upto_rec2) simp
  with k'(3) have ds': "map num ds' = [month_start y' m' + 1..month_start z' n' - 1] @ [month_start z' n']" by simp
  then have "ds' \<noteq> []" by auto
  moreover from this ds' have "num (last ds') = month_start z' n'"
    by (metis last_map last_snoc)
  moreover have "ks' \<noteq> []" using k'(2) \<open>ds' \<noteq> []\<close> by auto
  moreover from this have "parse_date ch (last ks') ymd_format = Some (last ds')"
    using k'(2) \<open>ds' \<noteq> []\<close> by (metis last_map)
  ultimately have "ks' \<noteq> [] \<and> parse_date ch (last ks') ymd_format = Some (last ds') \<and>
      month_start y' m' + 1 + 27 \<le> num (last ds')"
    using ends(2) len(2) by simp
  with hd show ?thesis
    by (auto simp: resolve_upstream_range_def choose_mapping_def types k(1) k'(1) first_or_def last_or_def
        simp del: map_time_aggregation.simps)
qed

section \<open>A concrete calendar\<close>

text \<open>Dates as day numbers, written in decimal.\<close>

definition day_calendar :: "(int, int) chrono" where
  "day_calendar =
     \<lparr>parse_date = (\<lambda>s _. parse_signed 32 s), show_date = (\<lambda>d _. show_int d),
      plus_days = (\<lambda>d k. Some (d + k)), from_ymd = (\<lambda>y m d. Some (month_start y m + int d)),
      monday_of_week = (\<lambda>y w. Some (month_start y 1 + 7 * int w)),
      parse_datetime = (\<lambda>s _. parse_signed 32 s), show_datetime = (\<lambda>t _. show_int t),
      plus_hours = (\<lambda>t k. Some (t + k))\<rparr>"

lemma day_calendar_laws: "calendar_laws day_calendar id"
proof -
  have "parse_signed 32 (show_int n) = Some n" if "in_four_digits n" for n
  proof -
    from that have "-1 < n" "n < 2 ^ 31" by (simp_all add: in_four_digits_def month_start_def is_leap_year_def)
    then have "0 \<le> n" "nat n < 2 ^ (32 - 1)" by (simp_all add: nat_less_iff)
    then show ?thesis using parse_show_signed [of "nat n" 32] by (simp add: show_int_def)
  qed
  then show ?thesis by (simp add: calendar_laws_def day_calendar_def)
qed

lemma february: "parse_monthly_key ''2024-02'' = Some (2024, 2)"
  by (simp add: parse_monthly_key_def parse_signed_def parse_unsigned_def digits_value_def is_digit_def)

lemma monthly_exact_witness:
  "\<exists>keys ds. map_partition day_calendar (Time_aggregation 30 Daily Monthly) ''2024-02'' = Some keys \<and>
     map (\<lambda>k. parse_date day_calendar k ymd_format) keys = map Some ds \<and> length ds = 29"
proof -
  have ends: "month_start 2024 3 = month_start 2024 2 + 29"
    by (simp add: month_start_def is_leap_year_def)
  have "infer_mapping (PTime Daily) (PTime Monthly) = Inr (Time_aggregation 30 Daily Monthly)"
    "next_month (2024, 2) = (2024, 3)" by simp_all
  from monthly_exact [OF day_calendar_laws this(1) february _ _ this(2)]
  obtain keys ds where "map_partition day_calendar (Time_aggregation 30 Daily Monthly) ''2024-02'' = Some keys"
    "map (\<lambda>k. parse_date day_calendar k ymd_format) keys = map Some ds"
    and ds: "map id ds = [month_start 2024 2 + 1..month_start 2024 3]"
    by auto
  moreover have "length (map id ds) = 29" unfolding ds ends length_upto by simp
  then have "length ds = 29" by simp
  ultimately show ?thesis by blast
qed

lemma inferred_compatible_witness:
  "validate_compatibility (Time_aggregation 24 Hourly Daily)
     \<lparr>partition_type = PTime Hourly, partition_key = ''h''\<rparr> \<lparr>partition_type = PTime Daily, partition_key = ''d''\<rparr> = Inr ()"
  by (rule inferred_compatible [THEN iffD2]) simp_all

lemma resolved_range_overshoots_witness:
  "\<exists>a b db. resolve_upstream_range day_calendar resolver_new ''2024-02'' ''2024-02''
       (Some \<lparr>partition_type = PTime Daily, partition_key = ''d''\<rparr>)
       (Some \<lparr>partition_type = PTime Monthly, partition_key = ''m''\<rparr>) = Some (a, b) \<and>
     parse_date day_calendar b ymd_format = Some db \<and> month_start 2024 2 + 28 \<le> db"
  using resolved_range_overshoots [OF day_calendar_laws _ _ february february,
      of "\<lparr>partition_type = PTime Daily, partition_key = ''d''\<rparr>" "\<lparr>partition_type = PTime Monthly, partition_key = ''m''\<rparr>"]
  by auto

end
