(* ===== verification/Executor.thy ===== *)
theory Executor
  imports Upstream Partitions Eta
begin

text \<open>
  The backfill executor (\<open>servo-runtime/src/backfill_executor.rs\<close>). Every storage call is one tick of
  a schedule, and other processes write to the database before each; a call to the orchestrator is one
  storage call and one call to the queue. What is not under the repository's control is in the record
  \<open>executor\<close>: the clocks and the random identifiers as functions of the point of the schedule, the
  queue, the date and float operations, the decoding of stored JSON, and the order in which a hash map
  is iterated. A run answers \<open>None\<close> when the schedule ends first or the code panics.
\<close>

section \<open>Environment\<close>

record executor_config =
  poll_interval :: time
  max_concurrent_jobs :: nat
  heartbeat_interval :: time
  max_partition_retries :: int
  partition_delay :: time
  stale_heartbeat_threshold :: time
  partition_timeout :: time
  upstream_wait_delay :: time

definition executor_config_default :: executor_config where
  "executor_config_default =
     \<lparr>poll_interval = 5000, max_concurrent_jobs = 1, heartbeat_interval = 30000,
      max_partition_retries = 3, partition_delay = 100, stale_heartbeat_threshold = 120000,
      partition_timeout = 300000, upstream_wait_delay = 30000\<rparr>"

record upstream_asset_info =
  ui_asset_id :: uuid
  ui_name :: string
  ui_config :: "partition_config option"

text \<open>A JSON value, as far as the code looks into one.\<close>

datatype json = JNull | JString string | JObject "(string \<times> json) list" | JOther

fun json_get :: "string \<Rightarrow> json \<Rightarrow> json option" where
  "json_get k (JObject kvs) = map_of kvs k"
| "json_get k _ = None"

fun json_str :: "json \<Rightarrow> string option" where
  "json_str (JString s) = Some s"
| "json_str _ = None"

record ('d, 't, 'f) executor =
  xe_config :: executor_config
  xe_chrono :: "('d, 't) chrono"
  xe_float :: "'f float_ops"
  xe_sx :: "sqlx_error \<Rightarrow> string"
  xe_json :: "string \<Rightarrow> json"  \<comment> \<open>the stored text of a JSON column\<close>
  xe_decode :: "string \<Rightarrow> partition_config option"  \<comment> \<open>\<open>serde_json::from_value\<close>\<close>
  xe_dimensions :: "string \<Rightarrow> (string \<times> string) list option"  \<comment> \<open>\<open>serde_json::from_str\<close>\<close>
  xe_order :: "upstream_asset_info list \<Rightarrow> upstream_asset_info list"
  xe_queue :: "tick list \<Rightarrow> (task \<Rightarrow> string option) option"
  xe_fresh :: "tick list \<Rightarrow> uuid"
  xe_instant :: "tick list \<Rightarrow> time"
  xe_now :: "tick list \<Rightarrow> time"

text \<open>The error of a storage call.\<close>

definition internal :: "('d, 't, 'f) executor \<Rightarrow> storage_error \<Rightarrow> runtime_error" where
  "internal ex e = InternalR (show_storage_error (xe_sx ex) e)"

section \<open>Upstream partitions\<close>

definition cache_insert :: "upstream_asset_info \<Rightarrow> upstream_asset_info list \<Rightarrow> upstream_asset_info list" where
  "cache_insert u cache = filter (\<lambda>v. ui_name v \<noteq> ui_name u) cache @ [u]"

fun load_assets ::
  "('d, 't, 'f) executor \<Rightarrow> dependency_row list \<Rightarrow> upstream_asset_info list \<Rightarrow> upstream_asset_info list run" where
  "load_assets ex [] cache = run_return cache"
| "load_assets ex (d # deps) cache =
     run_bind (perform (\<lambda>c. get_asset c (dr_upstream_asset_id d)))
       (\<lambda>r. case r of
          Inr a \<Rightarrow> load_assets ex deps (cache_insert
            \<lparr>ui_asset_id = ar_id a, ui_name = ar_name a,
             ui_config = Option.bind (ar_partition_config a) (xe_decode ex)\<rparr> cache)
        | Inl _ \<Rightarrow> load_assets ex deps cache)"

definition load_upstream_dependency_cache ::
  "('d, 't, 'f) executor \<Rightarrow> uuid \<Rightarrow> (runtime_error + upstream_asset_info list) run" where
  "load_upstream_dependency_cache ex asset =
     run_ok (try_db (internal ex) (\<lambda>c. get_upstream_dependencies c asset))
       (\<lambda>deps. run_bind (load_assets ex deps []) (\<lambda>cache. run_return (Inr cache)))"

definition upstream_keys ::
  "('d, 't, 'f) executor \<Rightarrow> string \<Rightarrow> partition_config option \<Rightarrow> upstream_asset_info \<Rightarrow> string list option" where
  "upstream_keys ex key down u =
     (case (ui_config u, down) of
        (Some up, Some d) \<Rightarrow>
          (case infer_mapping (partition_type up) (partition_type d) of
             Inr mapping \<Rightarrow> map_partition (xe_chrono ex) mapping key
           | Inl _ \<Rightarrow> Some [key])
      | _ \<Rightarrow> Some [key])"

text \<open>The hash map from names to keys, as the list of its entries in iteration order.\<close>

definition resolve_upstream_partitions ::
  "('d, 't, 'f) executor \<Rightarrow> string \<Rightarrow> partition_config option \<Rightarrow> upstream_asset_info list \<Rightarrow>
   (string \<times> string list) list option" where
  "resolve_upstream_partitions ex key down cache =
     those (map (\<lambda>u. map_option (Pair (ui_name u)) (upstream_keys ex key down u)) (xe_order ex cache))"

fun all_completed ::
  "('d, 't, 'f) executor \<Rightarrow> (uuid \<times> string) list \<Rightarrow> (runtime_error + bool) run" where
  "all_completed ex [] = run_return (Inr True)"
| "all_completed ex ((asset, key) # needed) =
     run_ok (try_db (internal ex) (\<lambda>c. is_partition_completed c asset key))
       (\<lambda>completed. if \<not> completed then run_return (Inr False) else all_completed ex needed)"

definition check_upstream_ready ::
  "('d, 't, 'f) executor \<Rightarrow> string \<Rightarrow> partition_config option \<Rightarrow> upstream_asset_info list option \<Rightarrow>
   (runtime_error + bool) run" where
  "check_upstream_ready ex key cfg cache =
     (case cache of
        None \<Rightarrow> run_return (Inr True)
      | Some us \<Rightarrow>
          if us = [] then run_return (Inr True)
          else (case resolve_upstream_partitions ex key cfg us of
                  None \<Rightarrow> (\<lambda>ts db. None)
                | Some keys \<Rightarrow>
                    all_completed ex (concat (map (\<lambda>u. case map_of keys (ui_name u) of
                        Some ks \<Rightarrow> map (Pair (ui_asset_id u)) ks | None \<Rightarrow> []) (xe_order ex us)))))"

text \<open>The context handed to the worker.\<close>

definition context_dimensions :: "('d, 't, 'f) executor \<Rightarrow> string \<Rightarrow> partition_context \<Rightarrow> partition_context" where
  "context_dimensions ex key ctx =
     (if starts_with ''{'' key
      then (case xe_dimensions ex key of
              Some dims \<Rightarrow> foldl (\<lambda>ctx (n, v). with_dimension n v ctx) ctx dims
            | None \<Rightarrow> ctx)
      else ctx)"

definition context_type :: "json \<Rightarrow> partition_context \<Rightarrow> partition_context" where
  "context_type cfg ctx =
     (case Option.bind (json_get ''partition_type'' cfg) json_str of
        Some t \<Rightarrow> with_partition_type t ctx
      | None \<Rightarrow>
          (case Option.bind (Option.bind (Option.bind (json_get ''partition_type'' cfg)
                  (json_get ''Time'')) (json_get ''granularity'')) json_str of
             Some g \<Rightarrow> with_partition_type (to_lowercase g) ctx
           | None \<Rightarrow> ctx))"

definition context_text ::
  "string \<Rightarrow> (string \<Rightarrow> partition_context \<Rightarrow> partition_context) \<Rightarrow> json \<Rightarrow> partition_context \<Rightarrow> partition_context" where
  "context_text k set_text cfg ctx =
     (case Option.bind (json_get k cfg) json_str of Some s \<Rightarrow> set_text s ctx | None \<Rightarrow> ctx)"

definition build_partition_context ::
  "('d, 't, 'f) executor \<Rightarrow> string \<Rightarrow> string option \<Rightarrow> upstream_asset_info list option \<Rightarrow> partition_context option" where
  "build_partition_context ex key cfg cache =
     (let ctx = context_dimensions ex key (context_new key);
          ctx = (case cfg of
                   None \<Rightarrow> ctx
                 | Some c \<Rightarrow>
                     context_text ''format'' with_format (xe_json ex c)
                       (context_text ''timezone'' with_timezone (xe_json ex c)
                         (context_type (xe_json ex c) ctx))) in
      case cache of
        None \<Rightarrow> Some ctx
      | Some us \<Rightarrow>
          if us = [] then Some ctx
          else map_option (\<lambda>keys. foldl (\<lambda>ctx (n, ks). with_upstream_partition n ks ctx) ctx keys)
                 (resolve_upstream_partitions ex key (Option.bind cfg (xe_decode ex)) us))"

section \<open>Executing a partition\<close>

text \<open>The polling loop; every round uses up a tick, so it ends with the schedule.\<close>

function wait_loop ::
  "('d, 't, 'f) executor \<Rightarrow> tick list \<Rightarrow> uuid \<Rightarrow> time \<Rightarrow> (runtime_error + bool) run" where
  "wait_loop ex start i limit ts db =
     (if limit < xe_instant ex ts - xe_instant ex start
      then Some (Inl (Timeout (''Execution '' @ i @ '' timed out after '' @ debug_duration (nat limit))), ts, db)
      else
        (case try_db (internal ex) (\<lambda>c. get_execution c i) ts db of
           None \<Rightarrow> None
         | Some (Inl e, ts', db') \<Rightarrow> Some (Inl e, ts', db')
         | Some (Inr x, ts', db') \<Rightarrow>
             if x_state x = ''succeeded'' then Some (Inr True, ts', db')
             else if x_state x = ''failed'' \<or> x_state x = ''cancelled'' then Some (Inr False, ts', db')
             else wait_loop ex start i limit ts' db'))"
  by pat_completeness auto
termination
  by (relation "measure (\<lambda>(_, _, _, _, ts, _). length ts)") (auto dest: try_shorter)

declare wait_loop.simps [simp del]

definition wait_for_execution ::
  "('d, 't, 'f) executor \<Rightarrow> uuid \<Rightarrow> time \<Rightarrow> (runtime_error + bool) run" where
  "wait_for_execution ex i limit = run_bind run_point (\<lambda>start. wait_loop ex start i limit)"

definition not_found_asset :: "('d, 't, 'f) executor \<Rightarrow> storage_error \<Rightarrow> runtime_error" where
  "not_found_asset ex e = NotFoundR (''Asset not found: '' @ show_storage_error (xe_sx ex) e)"

definition start_tick ::
  "('d, 't, 'f) executor \<Rightarrow> uuid \<Rightarrow> string \<Rightarrow> partition_context \<Rightarrow> (runtime_error + uuid) run" where
  "start_tick ex w key ctx ts =
     perform (\<lambda>c db. case start_execution_with_partition (xe_sx ex) (xe_queue ex ts) (xe_fresh ex ts) c w
                (Some key) ctx db of (r, _, db') \<Rightarrow> (r, db')) ts"

definition execute_asset_partition ::
  "('d, 't, 'f) executor \<Rightarrow> uuid \<Rightarrow> string \<Rightarrow> string \<Rightarrow> upstream_asset_info list option \<Rightarrow>
   (runtime_error + uuid) run" where
  "execute_asset_partition ex asset key idem cache =
     run_ok (try_db (not_found_asset ex) (\<lambda>c. get_asset c asset)) (\<lambda>a.
     run_ok (try_db (internal ex) (\<lambda>c. list_workflows c 100 0)) (\<lambda>ws.
       case find (\<lambda>w. wr_name w = ar_name a) ws of
         None \<Rightarrow> run_return (Inl (NotFoundR (''No workflow found for asset '' @ quoted (ar_name a))))
       | Some w \<Rightarrow>
           (case build_partition_context ex key (ar_partition_config a) cache of
              None \<Rightarrow> (\<lambda>ts db. None)
            | Some ctx \<Rightarrow>
                run_ok (run_bind (start_tick ex (wr_id w) idem ctx)
                    (\<lambda>r. run_return (case r of Inl e \<Rightarrow> Inl (Execution (show_error e)) | Inr i \<Rightarrow> Inr i)))
                  (\<lambda>i. run_ok (wait_for_execution ex i (partition_timeout (xe_config ex)))
                         (\<lambda>ok. run_return (if ok then Inr i else Inl (Execution ''Execution failed'')))))))"

definition execute_partition ::
  "('d, 't, 'f) executor \<Rightarrow> job \<Rightarrow> part \<Rightarrow> upstream_asset_info list option \<Rightarrow> (runtime_error + unit) run" where
  "execute_partition ex job p cache =
     run_ok (try_db (not_found_asset ex) (\<lambda>c. get_asset c (j_asset_id job))) (\<lambda>a.
     run_ok (check_upstream_ready ex (bp_key p) (Option.bind (ar_partition_config a) (xe_decode ex)) cache) (\<lambda>ready.
       if \<not> ready then try_db (internal ex) (\<lambda>c. requeue_backfill_partition c (bp_id p))
       else
         run_bind run_point (\<lambda>start.
         run_bind (execute_asset_partition ex (j_asset_id job) (bp_key p)
             (''backfill:'' @ j_id job @ '':'' @ bp_key p @ '':'' @ show_int (bp_attempt_count p)) cache) (\<lambda>r.
         run_bind run_point (\<lambda>stop.
           let duration = xe_instant ex stop - xe_instant ex start in
           case r of
             Inr i \<Rightarrow> try_db (internal ex) (\<lambda>c. complete_backfill_partition c (bp_id p) (Some i) duration)
           | Inl e \<Rightarrow>
               run_bind (perform (\<lambda>c. fail_backfill_partition c (bp_id p) (show_error e) duration))
                 (\<lambda>_. run_return (Inl e)))))))"

section \<open>Child jobs\<close>

definition handle_child_job_completion ::
  "('d, 't, 'f) executor \<Rightarrow> job \<Rightarrow> uuid \<Rightarrow> string \<Rightarrow> (runtime_error + unit) run" where
  "handle_child_job_completion ex child parent final_state =
     (if final_state = ''completed'' then
        run_ok (try_db (internal ex) (\<lambda>c. increment_completed_upstream c parent)) (\<lambda>_.
        run_ok (try_db (internal ex) (\<lambda>c. try_transition_parent_to_pending c parent)) (\<lambda>_.
          run_return (Inr ())))
      else if final_state = ''failed'' then
        run_ok (try_db (internal ex) (\<lambda>c. fail_parent_on_child_failure c parent (j_id child) (j_asset_name child)))
          (\<lambda>_. run_return (Inr ()))
      else run_return (Inr ()))"

definition stored_config :: "('d, 't, 'f) executor \<Rightarrow> uuid \<Rightarrow> partition_config option run" where
  "stored_config ex asset =
     run_bind (perform (\<lambda>c. get_asset_partition_config c asset))
       (\<lambda>r. run_return (case r of Inl _ \<Rightarrow> None | Inr j \<Rightarrow> Option.bind j (xe_decode ex)))"

text \<open>\<open>partition_resolver.resolve_upstream_range\<close> never fails; it can only panic.\<close>

definition child_range ::
  "('d, 't, 'f) executor \<Rightarrow> job \<Rightarrow> partition_config option \<Rightarrow> partition_config option \<Rightarrow>
   (string option \<times> string option) option" where
  "child_range ex job up down =
     (case (j_partition_start job, j_partition_end job) of
        (Some s, Some e) \<Rightarrow>
          map_option (\<lambda>(a, b). (Some a, Some b))
            (resolve_upstream_range (xe_chrono ex) resolver_new s e up down)
      | r \<Rightarrow> Some r)"

definition child_key :: "job \<Rightarrow> uuid \<Rightarrow> int \<Rightarrow> string" where
  "child_key job asset depth = ''upstream:'' @ j_idempotency_key job @ '':'' @ asset @ '':'' @ show_int depth"

fun create_children ::
  "('d, 't, 'f) executor \<Rightarrow> job \<Rightarrow> int \<Rightarrow> (uuid \<times> string \<times> int) list \<Rightarrow> int \<Rightarrow> (runtime_error + int) run" where
  "create_children ex job max_depth [] created = run_return (Inr created)"
| "create_children ex job max_depth ((asset, nm, depth) # assets) created =
     run_bind (stored_config ex asset) (\<lambda>up.
     run_bind (stored_config ex (j_asset_id job)) (\<lambda>down.
       case child_range ex job up down of
         None \<Rightarrow> (\<lambda>ts db. None)
       | Some (s, e) \<Rightarrow>
           run_bind run_point (\<lambda>pt.
           run_bind (perform (\<lambda>c. create_upstream_child_job c (xe_fresh ex pt)
               \<lparr>cp_parent_job_id = j_id job, cp_asset_id = asset, cp_asset_name = nm,
                cp_idempotency_key = child_key job asset depth,
                cp_partition_start = s, cp_partition_end = e, cp_execution_order = max_depth - depth\<rparr>)) (\<lambda>r.
             create_children ex job max_depth assets
               (case r of
                  Inr _ \<Rightarrow> created + 1
                | Inl err \<Rightarrow>
                    (let t = show_storage_error (xe_sx ex) err in
                     if str_contains ''duplicate'' t \<or> str_contains ''unique'' t then created + 1 else created))))))"

definition create_upstream_child_jobs ::
  "('d, 't, 'f) executor \<Rightarrow> job \<Rightarrow> (uuid \<times> string \<times> int) list \<Rightarrow> (runtime_error + int) run" where
  "create_upstream_child_jobs ex job assets =
     create_children ex job (foldl max 0 (map (\<lambda>(_, _, d). d) assets)) assets 0"

definition handle_upstream_propagation :: "('d, 't, 'f) executor \<Rightarrow> job \<Rightarrow> (runtime_error + unit) run" where
  "handle_upstream_propagation ex job =
     run_bind (discover_upstream_assets (j_asset_id job) (j_max_upstream_depth job)) (\<lambda>found.
       case found of
         Inl e \<Rightarrow>
           run_ok (try_db (internal ex) (\<lambda>c. transition_backfill_job_state c (j_id job) ''running'' ''failed''
               (Some (''Upstream discovery failed: '' @ show_storage_error (xe_sx ex) e))))
             (\<lambda>_. run_return (Inr ()))
       | Inr assets \<Rightarrow>
           if assets = [] then run_return (Inr ())
           else
             run_ok (create_upstream_child_jobs ex job assets) (\<lambda>created.
             run_ok (try_db (internal ex) (\<lambda>c. update_backfill_upstream_count c (j_id job) created)) (\<lambda>_.
             run_ok (try_db (internal ex) (\<lambda>c. transition_backfill_job_state c (j_id job) ''running''
                 ''waiting_upstream'' None))
               (\<lambda>_. run_return (Inr ())))))"

section \<open>Processing a job\<close>

record 'f progress =
  pr_completed :: int
  pr_failed :: int
  pr_last :: "string option"
  pr_eta :: "'f eta"

datatype 'f round = Stopped | Finished | Again "'f progress"

definition as_u32 :: "int \<Rightarrow> 32 word" where
  "as_u32 i = word_of_int i"

definition remaining_of :: "job \<Rightarrow> 'f progress \<Rightarrow> int" where
  "remaining_of job p = j_total_partitions job - pr_completed p - pr_failed p - j_skipped_partitions job"

text \<open>One round of the loop: the checks, the claim, the execution and the progress of the job.\<close>

definition after_execution ::
  "('d, 't, 'f) executor \<Rightarrow> part \<Rightarrow> time \<Rightarrow> 'f progress \<Rightarrow> (runtime_error + unit) \<Rightarrow> 'f progress" where
  "after_execution ex p duration pr r =
     (case r of
        Inr _ \<Rightarrow> pr\<lparr>pr_completed := pr_completed pr + 1, pr_last := Some (bp_key p),
                   pr_eta := eta_update (xe_float ex) duration (pr_eta pr)\<rparr>
      | Inl _ \<Rightarrow>
          if max_partition_retries (xe_config ex) \<le> bp_attempt_count p
          then pr\<lparr>pr_failed := pr_failed pr + 1\<rparr> else pr)"

definition report_progress ::
  "('d, 't, 'f) executor \<Rightarrow> job \<Rightarrow> 'f progress \<Rightarrow> (runtime_error + unit) run" where
  "report_progress ex job pr =
     run_bind run_point (\<lambda>pt.
       try_db (internal ex) (\<lambda>c. update_backfill_job_progress_with_eta c (j_id job)
         \<lparr>pu_completed = pr_completed pr, pu_failed = pr_failed pr, pu_skipped = j_skipped_partitions job,
          pu_avg_partition_duration_ms = Some (eta_avg_duration_ms (xe_float ex) (pr_eta pr)),
          pu_estimated_completion_at =
            eta_completion_time (xe_float ex) (xe_now ex pt) (as_u32 (remaining_of job pr)) (pr_eta pr),
          pu_checkpoint_partition_key = pr_last pr\<rparr>))"

definition process_round ::
  "('d, 't, 'f) executor \<Rightarrow> job \<Rightarrow> upstream_asset_info list option \<Rightarrow> 'f progress \<Rightarrow>
   (runtime_error + 'f round) run" where
  "process_round ex job cache pr =
     run_ok (try_db (internal ex) (\<lambda>c. is_backfill_job_cancelled c (j_id job))) (\<lambda>cancelled.
       if cancelled then run_return (Inr Stopped)
       else
         run_ok (try_db (internal ex) (\<lambda>c. is_backfill_job_paused c (j_id job))) (\<lambda>paused.
           if paused then run_return (Inr Stopped)
           else
             run_ok (try_db (internal ex) (\<lambda>c. update_backfill_job_heartbeat c (j_id job))) (\<lambda>_.
             run_ok (try_db (internal ex) (\<lambda>c. claim_pending_partition c (j_id job)
                 (max_partition_retries (xe_config ex)))) (\<lambda>claimed.
               case claimed of
                 None \<Rightarrow> run_return (Inr Finished)
               | Some p \<Rightarrow>
                   run_bind run_point (\<lambda>start.
                   run_bind (execute_partition ex job p cache) (\<lambda>r.
                   run_bind run_point (\<lambda>stop.
                     let pr' = after_execution ex p (xe_instant ex stop - xe_instant ex start) pr r in
                     run_ok (report_progress ex job pr') (\<lambda>_. run_return (Inr (Again pr'))))))))))"

lemma writes_pair_eq: "(\<And>a b. (a, b) = p \<Longrightarrow> writes (f a b)) \<Longrightarrow> writes (case p of (a, b) \<Rightarrow> f a b)"
  by (cases p) auto

text \<open>The runs of a round write what is recorded of them.\<close>

lemma writes_discover_loop: "writes (discover_loop m names V q out)"
proof (induction m names V q out rule: discover_loop.induct)
  case (1 m names V queue out)
  show ?case
  proof (cases queue)
    case Nil
    then show ?thesis by (subst discover_loop.simps) (simp add: writes_return)
  next
    case (Cons x rest)
    obtain n d where x: "x = (n, d)" by fastforce
    note IH = 1 [OF Cons [unfolded x] refl]
    show ?thesis
      by (subst discover_loop.simps)
         (use IH in \<open>auto simp: Cons x Let_def writes_return intro!: writes_ok writes_perform step_reads writes_pair_eq\<close>)
  qed
qed

lemma writes_discover [run_intros]: "writes (discover_upstream_assets asset m)"
  unfolding discover_upstream_assets_def by (intro run_intros writes_discover_loop)

lemma writes_load_assets [run_intros]: "writes (load_assets ex deps cache)"
  by (induction deps arbitrary: cache) (auto intro!: run_intros)

lemma writes_load_cache [run_intros]: "writes (load_upstream_dependency_cache ex asset)"
  unfolding load_upstream_dependency_cache_def by (intro run_intros)

lemma writes_all_completed [run_intros]: "writes (all_completed ex needed)"
  by (induction needed) (auto intro!: run_intros)

lemma writes_check_ready [run_intros]: "writes (check_upstream_ready ex key cfg cache)"
  unfolding check_upstream_ready_def by (intro run_intros)

lemma writes_wait_loop [run_intros]: "writes (wait_loop ex start i limit)"
proof -
  have "length ts' \<le> length ts \<and> (\<exists>ops. db' = foldl db_step db ops)"
    if "wait_loop ex start i limit ts db = Some (a, ts', db')" for a ts db ts' db'
    using that
  proof (induction ex start i limit ts db rule: wait_loop.induct)
    case (1 ex start i limit ts db)
    show ?case
    proof (cases "limit < xe_instant ex ts - xe_instant ex start")
      case True
      with 1(2) show ?thesis by (subst (asm) wait_loop.simps) (auto intro: exI [of _ "[]"])
    next
      case False
      obtain r ts1 db1 where got: "try_db (internal ex) (\<lambda>c. get_execution c i) ts db = Some (r, ts1, db1)"
        using 1(2) False by (subst (asm) wait_loop.simps) (auto split: option.splits)
      have w: "writes (try_db (internal ex) (\<lambda>c. get_execution c i))" by (intro run_intros)
      from writesD [OF w got] obtain ops where ops: "length ts1 \<le> length ts" "db1 = foldl db_step db ops" by blast
      show ?thesis
      proof (cases "\<exists>x. r = Inr x \<and> x_state x \<notin> {''succeeded'', ''failed'', ''cancelled''}")
        case True
        then obtain x where x: "r = Inr x" "x_state x \<notin> {''succeeded'', ''failed'', ''cancelled''}" by blast
        with 1(2) False got have "wait_loop ex start i limit ts1 db1 = Some (a, ts', db')"
          by (subst (asm) wait_loop.simps) simp
        then have "length ts' \<le> length ts1 \<and> (\<exists>ops. db' = foldl db_step db1 ops)"
          using 1(1) [OF False got] x by simp
        then obtain ops' where "length ts' \<le> length ts1" "db' = foldl db_step db1 ops'" by blast
        with ops have "length ts' \<le> length ts" "db' = foldl db_step db (ops @ ops')" by simp_all
        then show ?thesis by blast
      next
        case stop: False
        with 1(2) False got have "ts' = ts1" "db' = db1"
          by (subst (asm) wait_loop.simps; auto split: sum.splits if_splits)+
        with ops show ?thesis by blast
      qed
    qed
  qed
  then show ?thesis by (simp add: writes_def)
qed

lemma writes_wait [run_intros]: "writes (wait_for_execution ex i limit)"
  unfolding wait_for_execution_def by (intro run_intros)

lemma step_start [run_intros]:
  "step_op (\<lambda>c db. case start_execution_with_partition sx q fresh c w (Some key) ctx db of (r, _, db') \<Rightarrow> (r, db'))"
  by (rule step_write [of _ "\<lambda>c. Meta c (Create_execution_once (new_execution fresh c w (Some key)))"])
     (auto simp: start_execution_with_partition_def start_execution_with_def Let_def
        split: prod.splits sum.splits option.splits)

lemma writes_start [run_intros]: "writes (start_tick ex w key ctx)"
  unfolding start_tick_def by (rule writes_at) (intro run_intros)

lemma writes_execute_asset [run_intros]: "writes (execute_asset_partition ex asset key idem cache)"
  unfolding execute_asset_partition_def by (intro run_intros)

lemma writes_execute [run_intros]: "writes (execute_partition ex job p cache)"
  unfolding execute_partition_def Let_def by (intro run_intros)

lemma process_round_shorter:
  "process_round ex job cache pr ts db = Some (r, ts', db') \<Longrightarrow> length ts' < length ts"
proof -
  have "uses_tick (process_round ex job cache pr)"
    unfolding process_round_def report_progress_def Let_def by (intro uses_tick_ok uses_tick_try run_intros)
  then show "process_round ex job cache pr ts db = Some (r, ts', db') \<Longrightarrow> length ts' < length ts"
    by (rule uses_tickD)
qed

function process_loop ::
  "('d, 't, 'f) executor \<Rightarrow> job \<Rightarrow> upstream_asset_info list option \<Rightarrow> 'f progress \<Rightarrow>
   (runtime_error + 'f progress option) run" where
  "process_loop ex job cache pr ts db =
     (case process_round ex job cache pr ts db of
        None \<Rightarrow> None
      | Some (Inl e, ts', db') \<Rightarrow> Some (Inl e, ts', db')
      | Some (Inr Stopped, ts', db') \<Rightarrow> Some (Inr None, ts', db')
      | Some (Inr Finished, ts', db') \<Rightarrow> Some (Inr (Some pr), ts', db')
      | Some (Inr (Again pr'), ts', db') \<Rightarrow> process_loop ex job cache pr' ts' db')"
  by pat_completeness auto
termination
  by (relation "measure (\<lambda>(_, _, _, _, ts, _). length ts)") (auto dest: process_round_shorter)

declare process_loop.simps [simp del]

definition final_state :: "job \<Rightarrow> 'f progress \<Rightarrow> string" where
  "final_state job pr =
     (if 0 < pr_failed pr \<and> pr_completed pr = 0 then ''failed''
      else if j_total_partitions job \<le> pr_completed pr + pr_failed pr + j_skipped_partitions job then ''completed''
      else ''completed'')"

definition final_message :: "('d, 't, 'f) executor \<Rightarrow> job \<Rightarrow> 'f progress \<Rightarrow> string option" where
  "final_message ex job pr =
     (if 0 < pr_failed pr
      then Some (show_int (pr_failed pr) @ '' of '' @ show_int (j_total_partitions job) @
             '' partitions failed after '' @ show_int (max_partition_retries (xe_config ex)) @ '' retries each'')
      else None)"

definition initial_progress :: "('d, 't, 'f) executor \<Rightarrow> job \<Rightarrow> 'f progress" where
  "initial_progress ex job =
     (let fl = xe_float ex; alpha = fl_decimal fl 3 1 in
      \<lparr>pr_completed = j_completed_partitions job, pr_failed = j_failed_partitions job,
       pr_last = j_checkpoint_partition_key job,
       pr_eta = (case j_avg_partition_duration_ms job of
                   Some avg \<Rightarrow> eta_with_initial_avg fl alpha avg | None \<Rightarrow> eta_new fl alpha)\<rparr>)"

definition process_job :: "('d, 't, 'f) executor \<Rightarrow> job \<Rightarrow> (runtime_error + unit) run" where
  "process_job ex job =
     (if j_include_upstream job \<and> j_parent_job_id job = None \<and> j_upstream_job_count job = 0
      then handle_upstream_propagation ex job
      else
        run_bind (load_upstream_dependency_cache ex (j_asset_id job)) (\<lambda>loaded.
        run_ok (process_loop ex job (case loaded of Inr us \<Rightarrow> Some us | Inl _ \<Rightarrow> None) (initial_progress ex job))
          (\<lambda>outcome. case outcome of
             None \<Rightarrow> run_return (Inr ())
           | Some pr \<Rightarrow>
               run_ok (try_db (internal ex) (\<lambda>c. transition_backfill_job_state c (j_id job) ''running''
                   (final_state job pr) (final_message ex job pr)))
                 (\<lambda>_. case j_parent_job_id job of
                    None \<Rightarrow> run_return (Inr ())
                  | Some parent \<Rightarrow> handle_child_job_completion ex job parent (final_state job pr)))))"

text \<open>One tick of the poll interval; the count is the number of jobs processed.\<close>

fun poll_jobs :: "('d, 't, 'f) executor \<Rightarrow> nat \<Rightarrow> nat \<Rightarrow> (runtime_error + nat) run" where
  "poll_jobs ex 0 processed = run_return (Inr processed)"
| "poll_jobs ex (Suc n) processed =
     run_ok (try_db (internal ex) (\<lambda>c. claim_pending_backfill_job c
         (stale_heartbeat_threshold (xe_config ex) div 1000)))
       (\<lambda>claimed. case claimed of
          None \<Rightarrow> run_return (Inr processed)
        | Some job \<Rightarrow>
            run_bind (process_job ex job) (\<lambda>r.
              poll_jobs ex n (case r of Inr _ \<Rightarrow> processed + 1 | Inl _ \<Rightarrow> processed)))"

definition poll_and_process_jobs :: "('d, 't, 'f) executor \<Rightarrow> (runtime_error + nat) run" where
  "poll_and_process_jobs ex = poll_jobs ex (max_concurrent_jobs (xe_config ex)) 0"

text \<open>The executor loop never ends; its first \<open>n\<close> rounds ignore the results of the polls.\<close>

fun run_executor :: "('d, 't, 'f) executor \<Rightarrow> nat \<Rightarrow> unit run" where
  "run_executor ex 0 = run_return ()"
| "run_executor ex (Suc n) = run_bind (poll_and_process_jobs ex) (\<lambda>_. run_executor ex n)"

end
