(* ===== verification/ExecutorLife.thy ===== *)
theory ExecutorLife
  imports Executor
begin

text \<open>
  What the backfill executor does to the database: it keeps its integrity under any schedule, a child
  that completes counts for its parent exactly once, and a partition that has to wait for its upstream
  is counted as completed.
\<close>

section \<open>Integrity\<close>

lemma writes_report [run_intros]: "writes (report_progress ex job pr)"
  unfolding report_progress_def by (intro run_intros)

lemma writes_round [run_intros]: "writes (process_round ex job cache pr)"
  unfolding process_round_def Let_def by (intro run_intros)

lemma writes_loop [run_intros]: "writes (process_loop ex job cache pr)"
proof -
  have "length ts' \<le> length ts \<and> (\<exists>ops. db' = foldl db_step db ops)"
    if "process_loop ex job cache pr ts db = Some (a, ts', db')" for a ts db ts' db'
    using that
  proof (induction ex job cache pr ts db rule: process_loop.induct)
    case (1 ex job cache pr ts db)
    obtain r ts1 db1 where got: "process_round ex job cache pr ts db = Some (r, ts1, db1)"
      using 1(2) by (subst (asm) process_loop.simps) (auto split: option.splits)
    from writesD [OF writes_round got] obtain ops where
      ops: "length ts1 \<le> length ts" "db1 = foldl db_step db ops" by blast
    show ?case
    proof (cases "\<exists>pr'. r = Inr (Again pr')")
      case True
      then obtain pr' where r: "r = Inr (Again pr')" by blast
      with 1(2) got have "process_loop ex job cache pr' ts1 db1 = Some (a, ts', db')"
        by (subst (asm) process_loop.simps) simp
      then have "length ts' \<le> length ts1 \<and> (\<exists>ops. db' = foldl db_step db1 ops)"
        using 1(1) [OF got] r by simp
      then obtain ops' where "length ts' \<le> length ts1" "db' = foldl db_step db1 ops'" by blast
      with ops have "length ts' \<le> length ts" "db' = foldl db_step db (ops @ ops')" by simp_all
      then show ?thesis by blast
    next
      case False
      with 1(2) got have "ts' = ts1" "db' = db1"
        by (subst (asm) process_loop.simps; auto split: sum.splits round.splits)+
      with ops show ?thesis by blast
    qed
  qed
  then show ?thesis by (simp add: writes_def)
qed

lemma writes_child_completion [run_intros]: "writes (handle_child_job_completion ex child parent s)"
  unfolding handle_child_job_completion_def by (intro run_intros)

lemma writes_stored_config [run_intros]: "writes (stored_config ex asset)"
  unfolding stored_config_def by (intro run_intros)

lemma writes_create_children [run_intros]: "writes (create_children ex job m assets n)"
proof (induction assets arbitrary: n)
  case (Cons x assets)
  obtain a nm d where "x = (a, nm, d)" by (cases x) auto
  then show ?case by (simp only: create_children.simps, intro run_intros Cons)
qed (simp add: writes_return)

lemma writes_propagation [run_intros]: "writes (handle_upstream_propagation ex job)"
  unfolding handle_upstream_propagation_def create_upstream_child_jobs_def by (intro run_intros)

lemma writes_process_job [run_intros]: "writes (process_job ex job)"
  unfolding process_job_def by (intro run_intros)

lemma writes_poll_jobs [run_intros]: "writes (poll_jobs ex n k)"
  by (induction n arbitrary: k) (auto intro!: run_intros)

lemma writes_executor [run_intros]: "writes (run_executor ex n)"
  by (induction n) (auto simp: poll_and_process_jobs_def intro!: run_intros)

lemma executor_keeps_db:
  assumes "db_ok db" "run_executor ex n ts db = Some (u, ts', db')"
  shows "db_ok db'"
proof -
  obtain ops where "db' = foldl db_step db ops" using writesD [OF writes_executor assms(2)] by blast
  with steps_db_ok [OF assms(1)] show ?thesis by simp
qed

section \<open>A completed child\<close>

lemma one_row_update:
  assumes ok: "backfill_ok db" and j: "find_job c i db = Some j"
    and ck: "Q j \<Longrightarrow> job_check (f j) = None"
  shows "update_jobs c (\<lambda>j. j_id j = i \<and> Q j) f db =
     Inr (if Q j then 1 else 0, db\<lparr>t_jobs := map (\<lambda>k. if k = j \<and> Q j then f j else k) (t_jobs db)\<rparr>)"
proof -
  have m: "j \<in> set (t_jobs db)" "j_id j = i" "j_tenant_id j = tenant c" using find_job_Some [OF j] by auto
  have only: "k \<in> set (t_jobs db) \<Longrightarrow> j_tenant_id k = tenant c \<and> j_id k = i \<and> Q k \<longleftrightarrow> k = j \<and> Q j" for k
    using job_unique [OF ok _ m(1), of k] m by auto
  have "distinct (t_jobs db)" using ok by (simp add: backfill_ok_def jobs_ok_def distinct_map)
  then have "hits (\<lambda>k. k = j \<and> Q j) (t_jobs db) = (if Q j then 1 else 0)"
    using m(1) by (auto simp: hits_def distinct_length_filter)
  moreover have "hits (\<lambda>k. j_tenant_id k = tenant c \<and> j_id k = i \<and> Q k) (t_jobs db) = hits (\<lambda>k. k = j \<and> Q j) (t_jobs db)"
    unfolding hits_def using only by (intro arg_cong [of _ _ length] filter_cong) auto
  moreover have "upd_where (\<lambda>k. j_tenant_id k = tenant c \<and> j_id k = i \<and> Q k) f (t_jobs db) =
      map (\<lambda>k. if k = j \<and> Q j then f j else k) (t_jobs db)"
    unfolding upd_where_def using only by (intro map_cong) auto
  ultimately show ?thesis
    using only ck m by (subst update_jobs_Inr) auto
qed

definition counted :: "job \<Rightarrow> job" where
  "counted p = p\<lparr>j_completed_upstream_jobs := j_completed_upstream_jobs p + 1, j_version := j_version p + 1\<rparr>"

definition released :: "job \<Rightarrow> job" where
  "released p =
     (if j_state p = ''waiting_upstream'' \<and> 0 < j_upstream_job_count p \<and>
         j_upstream_job_count p \<le> j_completed_upstream_jobs p
      then p\<lparr>j_state := ''pending'', j_version := j_version p + 1\<rparr> else p)"

lemma find_job_tenant: "tenant c = tenant c' \<Longrightarrow> find_job c i db = find_job c' i db"
  by (simp add: find_job_def my_jobs_def)

lemma find_job_map:
  assumes ok: "backfill_ok db" and j: "find_job c i db = Some j" and same: "same_job j j'"
    and ok': "backfill_ok (db\<lparr>t_jobs := map (\<lambda>k. if k = j \<and> b then j' else k) (t_jobs db)\<rparr>)"
  shows "find_job c i (db\<lparr>t_jobs := map (\<lambda>k. if k = j \<and> b then j' else k) (t_jobs db)\<rparr>) = Some (if b then j' else j)"
  using same find_job_Some [OF j] by (subst find_job_unique [OF ok']) (auto simp: same_job_def image_iff)

lemma increment_calm:
  assumes ok: "backfill_ok db" and p: "find_job c parent db = Some p" and calm: "calm u t" "c = tk_call t"
    and v: "j_version p + 2 < 2 ^ 31"
  shows "j_completed_upstream_jobs p < j_upstream_job_count p \<Longrightarrow>
      \<exists>db'. increment_completed_upstream c parent db = (Inr (), db') \<and> backfill_ok db' \<and>
        find_job c parent db' = Some (counted p)"
    and "\<not> j_completed_upstream_jobs p < j_upstream_job_count p \<Longrightarrow>
      \<exists>e. increment_completed_upstream c parent db = (Inl e, db)"
proof -
  have ck: "job_check p = None" using ok find_job_Some [OF p] by (simp add: backfill_ok_def jobs_ok_def)
  have def: "increment_completed_upstream c parent = with_tenant_context c
      (must_hit (update_jobs c (\<lambda>j. j_id j = parent) counted) (''Parent backfill job '' @ parent @ '' not found''))"
    unfolding increment_completed_upstream_def counted_def [abs_def] by simp
  show "\<exists>db'. increment_completed_upstream c parent db = (Inr (), db') \<and> backfill_ok db' \<and>
      find_job c parent db' = Some (counted p)" if less: "j_completed_upstream_jobs p < j_upstream_job_count p"
  proof -
    let ?db = "db\<lparr>t_jobs := map (\<lambda>k. if k = p \<and> True then counted p else k) (t_jobs db)\<rparr>"
    have "job_check (counted p) = None" using ck v less by (auto simp: job_check_None counted_def int4_def)
    then have "update_jobs c (\<lambda>j. j_id j = parent) counted db = Inr (1, ?db)"
      using one_row_update [OF ok p, of "\<lambda>_. True" counted] by simp
    then have eq: "increment_completed_upstream c parent db = (Inr (), ?db)"
      unfolding def unfolding calm(2) calm_commit [OF calm(1)] by (simp add: must_hit_def tx_bind_def)
    then have ok': "backfill_ok ?db" using step_ok [OF ok, of "(c, Incr_upstream parent)"] by simp
    have "find_job c parent ?db = Some (counted p)"
      using find_job_map [OF ok p, of "counted p" True] ok' by (simp add: same_job_def counted_def)
    with eq ok' show ?thesis by blast
  qed
  show "\<exists>e. increment_completed_upstream c parent db = (Inl e, db)"
    if "\<not> j_completed_upstream_jobs p < j_upstream_job_count p"
  proof (cases "update_jobs c (\<lambda>j. j_id j = parent) counted db")
    case (Inl e)
    then show ?thesis unfolding def unfolding calm(2) calm_commit [OF calm(1)] by (simp add: must_hit_def tx_bind_def)
  next
    case (Inr r)
    then have "job_check (counted p) = None"
      using find_job_Some [OF p] by (cases r) (auto simp: update_jobs_Inr)
    with that show ?thesis by (simp add: job_check_None counted_def)
  qed
qed

lemma try_parent_calm:
  assumes ok: "backfill_ok db" and p: "find_job c parent db = Some p" and calm: "calm u t" "c = tk_call t"
    and v: "j_version p + 1 < 2 ^ 31"
  shows "\<exists>b db'. try_transition_parent_to_pending c parent db = (Inr b, db') \<and>
      find_job c parent db' = Some (released p)"
proof -
  let ?Q = "\<lambda>j. j_state j = ''waiting_upstream'' \<and> j_upstream_job_count j > 0 \<and>
     j_completed_upstream_jobs j \<ge> j_upstream_job_count j"
  let ?f = "\<lambda>j. j\<lparr>j_state := ''pending'', j_version := j_version j + 1\<rparr>"
  let ?db = "db\<lparr>t_jobs := map (\<lambda>k. if k = p \<and> ?Q p then ?f p else k) (t_jobs db)\<rparr>"
  have "job_check p = None" using ok find_job_Some [OF p] by (simp add: backfill_ok_def jobs_ok_def)
  then have "job_check (?f p) = None" using v by (auto simp: job_check_None int4_def backfill_states_def)
  then have "update_jobs c (\<lambda>j. j_id j = parent \<and> ?Q j) ?f db = Inr (if ?Q p then 1 else 0, ?db)"
    using one_row_update [OF ok p, of ?Q ?f] by simp
  then have eq: "try_transition_parent_to_pending c parent db = (Inr (?Q p), ?db)"
    unfolding try_transition_parent_to_pending_def unfolding calm(2) calm_commit [OF calm(1)] by (simp add: tx_bind_def)
  then have ok': "backfill_ok ?db" using step_ok [OF ok, of "(c, Try_parent parent)"] by simp
  have "find_job c parent ?db = Some (released p)"
    using find_job_map [OF ok p, of "?f p" "?Q p"] ok' by (auto simp: same_job_def released_def)
  with eq show ?thesis by blast
qed

text \<open>
  C23: a completed child is counted by its parent exactly once, or not at all. On a schedule without
  interference, when the parent expects more children than have completed, the count goes up by one
  and the parent returns to pending exactly with the last child it waits for. When it expects no
  more, in particular while the executor that creates the children has not yet stored their number,
  the call fails and the child is never counted.
\<close>

theorem child_completion_exact:
  assumes ok: "backfill_ok db" and p: "find_job (call_of u 0) parent db = Some p"
    and calm: "calm u t1" "calm u t2" and v: "j_version p + 2 < 2 ^ 31"
  shows "if j_completed_upstream_jobs p < j_upstream_job_count p
    then \<exists>db'. handle_child_job_completion ex child parent ''completed'' (t1 # t2 # ts) db = Some (Inr (), ts, db') \<and>
       find_job (call_of u 0) parent db' = Some (released (counted p))
    else \<exists>e. handle_child_job_completion ex child parent ''completed'' (t1 # t2 # ts) db = Some (Inl e, t2 # ts, db)"
proof (cases "j_completed_upstream_jobs p < j_upstream_job_count p")
  case True
  have c: "find_job (tk_call t) i db = find_job (call_of u 0) i db" if "calm u t" for t i db
    using that by (intro find_job_tenant) (simp add: calm_def)
  obtain db1 where 1: "increment_completed_upstream (tk_call t1) parent db = (Inr (), db1)" "backfill_ok db1"
    "find_job (call_of u 0) parent db1 = Some (counted p)"
    using increment_calm(1) [OF ok _ calm(1) refl v True] p by (auto simp: c [OF calm(1)])
  have "j_version (counted p) + 1 < 2 ^ 31" using v by (simp add: counted_def)
  then obtain b db2 where 2: "try_transition_parent_to_pending (tk_call t2) parent db1 = (Inr b, db2)"
    "find_job (call_of u 0) parent db2 = Some (released (counted p))"
    using try_parent_calm [OF 1(2) _ calm(2) refl, of parent "counted p"] 1(3)
    unfolding c [OF calm(2)] by blast
  have "handle_child_job_completion ex child parent ''completed'' (t1 # t2 # ts) db = Some (Inr (), ts, db2)"
    using try_calm [where h = "internal ex" and f = "\<lambda>c. increment_completed_upstream c parent", OF calm(1) 1(1)]
      try_calm [where h = "internal ex" and f = "\<lambda>c. try_transition_parent_to_pending c parent", OF calm(2) 2(1)]
    by (simp add: handle_child_job_completion_def run_ok_def run_bind_def run_return_def)
  with 2(2) True show ?thesis by auto
next
  case False
  have "find_job (tk_call t1) parent db = Some p"
    using p calm(1) find_job_tenant [of "tk_call t1" "call_of u 0"] by (simp add: calm_def)
  then obtain e where "increment_completed_upstream (tk_call t1) parent db = (Inl e, db)"
    using increment_calm(2) [OF ok _ calm(1) refl v False] by blast
  from try_calm [where h = "internal ex" and f = "\<lambda>c. increment_completed_upstream c parent", OF calm(1) this]
  show ?thesis using False
    by (simp add: handle_child_job_completion_def run_ok_def run_bind_def run_return_def)
qed

section \<open>A partition that waits\<close>

text \<open>An environment in which every clock stands still.\<close>

definition still_floats :: "int float_ops" where
  "still_floats = \<lparr>fl_of_int = id, fl_decimal = (\<lambda>m d. m), fl_add = (+), fl_sub = (-), fl_mul = (*),
     fl_div = (div), fl_less = (<), fl_le = (\<le>), fl_round = id\<rparr>"

definition still_executor :: "(int, int, int) executor" where
  "still_executor =
     \<lparr>xe_config = executor_config_default, xe_chrono = day_calendar, xe_float = still_floats,
      xe_sx = (\<lambda>_. ''error''), xe_json = (\<lambda>_. JOther), xe_decode = (\<lambda>_. None),
      xe_dimensions = (\<lambda>_. None), xe_order = id, xe_queue = (\<lambda>_. None), xe_fresh = (\<lambda>_. ''e''),
      xe_instant = (\<lambda>_. 0), xe_now = (\<lambda>_. 0)\<rparr>"

text \<open>A job with one partition on \<open>b\<close>, which depends on \<open>a\<close>; nothing of \<open>a\<close> has been built.\<close>

definition waiting_job :: job where
  "waiting_job = (sample_job ''j'' ''running'')\<lparr>j_asset_id := ''b'', j_total_partitions := 1\<rparr>"

definition waiting_db :: db where
  "waiting_db = empty_db\<lparr>t_assets := map asset_named [''a'', ''b''], t_dependencies := [depends ''b'' ''a''],
     t_jobs := [waiting_job], t_parts := [sample_part ''p'' ''k'' ''pending'' 0]\<rparr>"

definition pausing_schedule :: "tick list" where
  "pausing_schedule = quiet 18 @
     [\<lparr>tk_call = sample_call, tk_ops = [Backfill sample_call (Pause_job ''j'')]\<rparr>] @ quiet 1"

text \<open>
  A partition that is put back because its upstream is not ready counts as completed, every time.
  A job with a single partition whose upstream has not been built runs until somebody pauses it; then
  its row says that two of one partitions are completed, with that partition as its checkpoint, while
  the partition itself is still pending.
\<close>

theorem requeue_counts_as_completed:
  "\<exists>db'. process_job still_executor waiting_job pausing_schedule waiting_db = Some (Inr (), [], db') \<and>
     map (\<lambda>j. (j_state j, j_completed_partitions j, j_total_partitions j, j_checkpoint_partition_key j)) (t_jobs db') =
       [(''paused'', 2, 1, Some ''k'')] \<and>
     map (\<lambda>p. (bp_state p, bp_attempt_count p)) (t_parts db') = [(''pending'', 2)]"
proof -
  have "map_option (\<lambda>(r, ts, db'). (r, ts,
      map (\<lambda>j. (j_state j, j_completed_partitions j, j_total_partitions j, j_checkpoint_partition_key j)) (t_jobs db'),
      map (\<lambda>p. (bp_state p, bp_attempt_count p)) (t_parts db')))
      (process_job still_executor waiting_job pausing_schedule waiting_db) =
    Some (Inr (), [], [(''paused'', 2, 1, Some ''k'')], [(''pending'', 2)])"
    by code_simp
  then show ?thesis by auto
qed

definition parent_job :: job where
  "parent_job = (sample_job ''r'' ''waiting_upstream'')\<lparr>j_upstream_job_count := 1\<rparr>"

theorem child_completion_exact_witness:
  "\<exists>db'. handle_child_job_completion still_executor waiting_job ''r'' ''completed'' (quiet 2)
       (empty_db\<lparr>t_jobs := [parent_job]\<rparr>) = Some (Inr (), [], db') \<and>
     find_job (call_of ''acme'' 0) ''r'' db' = Some (released (counted parent_job))"
proof -
  let ?db = "empty_db\<lparr>t_jobs := [parent_job]\<rparr>"
  have ok: "backfill_ok ?db"
    by (simp add: backfill_ok_def jobs_ok_def parts_ok_def job_check_None int4_def backfill_states_def
        parent_job_def sample_defs)
  have p: "find_job (call_of ''acme'' 0) ''r'' ?db = Some parent_job"
    by (simp add: find_job_def my_jobs_def parent_job_def sample_defs)
  have t: "calm ''acme'' (quiet_tick sample_call)"
    by (simp add: calm_quiet sample_call_def)
  have q: "quiet 2 = quiet_tick sample_call # quiet_tick sample_call # []" by (simp add: quiet_def numeral_2_eq_2)
  show ?thesis
    using child_completion_exact [OF ok p t t, of still_executor waiting_job "[]"]
    by (simp add: q parent_job_def sample_defs)
qed

end
