(* ===== verification/Cloud.thy ===== *)
theory Cloud
  imports Schedule Breaker Orchestrator
begin

text \<open>
  The clients of Google Cloud (\<open>servo-cloud-gcp/src\<close>): access tokens (\<open>auth.rs\<close>), the secrets of
  the signatures (\<open>secrets.rs\<close>, \<open>signing.rs\<close>) and the task queue (\<open>queue.rs\<close>). What the network
  answers is a list of exchanges, one for each request that is sent; a run that needs more of them
  than the list has is \<open>None\<close>. Times are in milliseconds. The texts of libraries, their codecs, keyed
  hashes and tokens are a parameter, the record \<open>cloud_lib\<close>. Metrics and logs are left out.
\<close>

section \<open>Exchanges\<close>

record http_reply =
  hr_status :: nat
  hr_body :: "string option"  \<comment> \<open>\<open>None\<close> when it cannot be read\<close>
  hr_retry_after :: "string option"

record exchange =
  ex_end :: time
  ex_result :: "string + http_reply"

type_synonym ('s, 'a) net = "(exchange list, 's, 'a) action"

datatype cloud_error = Api string | Auth string | Config string | Http string | Internal string

fun show_cloud_error :: "cloud_error \<Rightarrow> string" where
  "show_cloud_error (Api m) = ''GCP API error: '' @ m"
| "show_cloud_error (Auth m) = ''Authentication error: '' @ m"
| "show_cloud_error (Config m) = ''Configuration error: '' @ m"
| "show_cloud_error (Http m) = ''HTTP error: '' @ m"
| "show_cloud_error (Internal m) = ''Internal error: '' @ m"

definition is_success_status :: "nat \<Rightarrow> bool" where
  "is_success_status n \<longleftrightarrow> 200 \<le> n \<and> n < 300"

definition is_client_error :: "nat \<Rightarrow> bool" where
  "is_client_error n \<longleftrightarrow> 400 \<le> n \<and> n < 500"

definition is_server_error :: "nat \<Rightarrow> bool" where
  "is_server_error n \<longleftrightarrow> 500 \<le> n \<and> n < 600"

text \<open>One request, sent as it is or through a circuit breaker; the reply comes with its time.\<close>

definition send :: "('s, string + time \<times> http_reply) net" where
  "send xs s = (case xs of [] \<Rightarrow> None | x # xs' \<Rightarrow> Some (map_sum id (Pair (ex_end x)) (ex_result x), xs', s))"

definition send_guarded :: "breaker_config \<Rightarrow> time \<Rightarrow> (breaker, string breaker_error + time \<times> http_reply) net" where
  "send_guarded cfg n xs b =
     (case breaker_enter cfg n b of
        (None, b1) \<Rightarrow> Some (Inl Circuit_open, xs, b1)
      | (Some probe, b1) \<Rightarrow>
          (case xs of
             [] \<Rightarrow> None
           | x # xs' \<Rightarrow> Some (map_sum Failure (Pair (ex_end x)) (ex_result x), xs',
                              breaker_finish cfg (ex_end x) probe (ex_result x) b1)))"

text \<open>An action on a part of a state.\<close>

definition on_part :: "('s \<Rightarrow> 'u) \<Rightarrow> ('u \<Rightarrow> 's \<Rightarrow> 's) \<Rightarrow> ('t, 'u, 'a) action \<Rightarrow> ('t, 's, 'a) action" where
  "on_part part put f ts s = map_option (\<lambda>(a, ts', u). (a, ts', put u s)) (f ts (part s))"

definition run_get :: "('s \<Rightarrow> 'a) \<Rightarrow> ('t, 's, 'a) action" where
  "run_get f ts s = Some (f s, ts, s)"

definition run_modify :: "('s \<Rightarrow> 's) \<Rightarrow> ('t, 's, unit) action" where
  "run_modify f ts s = Some ((), ts, f s)"

section \<open>The libraries\<close>

record credentials =
  cd_client_email :: string
  cd_private_key_id :: string
  cd_private_key :: string

record cloud_lib =
  cl_status :: "nat \<Rightarrow> string"  \<comment> \<open>the text of a status\<close>
  cl_b64_encode :: "string \<Rightarrow> string"
  cl_b64_decode :: "string \<Rightarrow> string + string"
  cl_utf8 :: "string \<Rightarrow> string + string"
  cl_hmac :: "string \<Rightarrow> string \<Rightarrow> string"  \<comment> \<open>of a key and a message\<close>
  cl_hex :: "string \<Rightarrow> string"
  cl_assertion :: "credentials \<Rightarrow> string \<Rightarrow> time \<Rightarrow> cloud_error + string"
  cl_token :: "string option \<Rightarrow> string + string \<times> nat"  \<comment> \<open>the token and its seconds\<close>
  cl_secret :: "string option \<Rightarrow> string + string \<times> string"  \<comment> \<open>the name and the data\<close>
  cl_task_name :: "string option \<Rightarrow> string + string option"
  cl_payload_json :: "task \<Rightarrow> string + string"
  cl_jitter :: "nat \<Rightarrow> nat"

section \<open>Access tokens\<close>

record access_token =
  tok_value :: string
  tok_expires_at :: time

definition token_expired :: "time \<Rightarrow> access_token \<Rightarrow> bool" where
  "token_expired n t \<longleftrightarrow> tok_expires_at t \<le> n"

datatype auth_mode = ServiceAccount credentials | MetadataServer string

record gcp_auth =
  au_mode :: auth_mode
  au_cache :: "access_token option"
  au_config :: breaker_config
  au_breaker :: breaker

definition service_account_email :: "gcp_auth \<Rightarrow> string" where
  "service_account_email a = (case au_mode a of ServiceAccount c \<Rightarrow> cd_client_email c | MetadataServer e \<Rightarrow> e)"

definition body_text :: "http_reply \<Rightarrow> string" where
  "body_text r = (case hr_body r of Some b \<Rightarrow> b | None \<Rightarrow> [])"

text \<open>The token of a reply; its last five minutes are not used.\<close>

definition token_of_reply :: "cloud_lib \<Rightarrow> string \<Rightarrow> time \<Rightarrow> http_reply \<Rightarrow> cloud_error + access_token" where
  "token_of_reply lib what n r =
     (case cl_token lib (hr_body r) of
        Inl e \<Rightarrow> Inl (Auth (''Failed to parse token response'' @ what @ '': '' @ e))
      | Inr (v, secs) \<Rightarrow> Inr \<lparr>tok_value = v, tok_expires_at = n + int (secs - 300) * 1000\<rparr>)"

definition fetch_access_token_from_metadata :: "cloud_lib \<Rightarrow> (gcp_auth, cloud_error + time \<times> access_token) net" where
  "fetch_access_token_from_metadata lib =
     run_bind send (\<lambda>r. run_return (case r of
        Inl e \<Rightarrow> Inl (Auth (''Failed to fetch access token from metadata: '' @ e))
      | Inr (n, rep) \<Rightarrow>
          if \<not> is_success_status (hr_status rep)
          then Inl (Auth (''Metadata server returned status '' @ cl_status lib (hr_status rep) @ '' for access token''))
          else map_sum id (Pair n) (token_of_reply lib '' from metadata'' n rep)))"

definition fetch_access_token_via_jwt :: "cloud_lib \<Rightarrow> time \<Rightarrow> string \<Rightarrow> (gcp_auth, cloud_error + time \<times> access_token) net" where
  "fetch_access_token_via_jwt lib n scope =
     run_bind (run_get id) (\<lambda>a. case au_mode a of
        MetadataServer _ \<Rightarrow> run_return (Inl (Internal ''fetch_access_token_via_jwt called in metadata server mode''))
      | ServiceAccount c \<Rightarrow>
          (case cl_assertion lib c scope n of
             Inl e \<Rightarrow> run_return (Inl e)
           | Inr _ \<Rightarrow>
               run_bind (on_part au_breaker (\<lambda>b a. a\<lparr>au_breaker := b\<rparr>) (send_guarded (au_config a) n)) (\<lambda>r.
                 run_return (case r of
                   Inl Circuit_open \<Rightarrow> Inl (Auth ''OAuth2 token endpoint circuit breaker is open'')
                 | Inl (Failure e) \<Rightarrow> Inl (Auth (''Failed to request access token: '' @ e))
                 | Inr (m, rep) \<Rightarrow>
                     if \<not> is_success_status (hr_status rep)
                     then Inl (Auth (''Token endpoint returned '' @ cl_status lib (hr_status rep) @ '': '' @ body_text rep))
                     else map_sum id (Pair m) (token_of_reply lib [] m rep)))))"

text \<open>The token, with the time at which the call returns.\<close>

definition get_access_token :: "cloud_lib \<Rightarrow> time \<Rightarrow> string \<Rightarrow> (gcp_auth, cloud_error + time \<times> string) net" where
  "get_access_token lib n scope =
     run_bind (run_get id) (\<lambda>a.
       case (case au_cache a of Some t \<Rightarrow> if token_expired n t then None else Some t | None \<Rightarrow> None) of
         Some t \<Rightarrow> run_return (Inr (n, tok_value t))
       | None \<Rightarrow>
           run_ok (case au_mode a of ServiceAccount _ \<Rightarrow> fetch_access_token_via_jwt lib n scope
                   | MetadataServer _ \<Rightarrow> fetch_access_token_from_metadata lib) (\<lambda>(m, t).
             run_bind (run_modify (\<lambda>a. a\<lparr>au_cache := Some t\<rparr>)) (\<lambda>_. run_return (Inr (m, tok_value t)))))"

section \<open>Signatures\<close>

definition sign_payload :: "cloud_lib \<Rightarrow> string \<Rightarrow> string \<Rightarrow> string" where
  "sign_payload lib p secret = cl_hex lib (cl_hmac lib secret p)"

definition verify_payload :: "cloud_lib \<Rightarrow> string \<Rightarrow> string \<Rightarrow> string \<Rightarrow> bool" where
  "verify_payload lib p signature secret \<longleftrightarrow> sign_payload lib p secret = signature"

section \<open>Secrets\<close>

definition min_secret_length :: nat where
  "min_secret_length = 32"

definition refresh_interval :: time where
  "refresh_interval = 300 * 1000"

record secret_version =
  sv_value :: string
  sv_version :: string

record secret_manager =
  se_project :: string
  se_name :: string
  se_auth :: gcp_auth
  se_config :: breaker_config
  se_breaker :: breaker
  se_secrets :: "secret_version list"
  se_last_refresh :: time

definition secret_manager_new :: "time \<Rightarrow> string \<Rightarrow> string \<Rightarrow> gcp_auth \<Rightarrow> breaker_config \<Rightarrow> secret_manager" where
  "secret_manager_new n project nm auth cfg =
     \<lparr>se_project = project, se_name = nm, se_auth = auth, se_config = cfg, se_breaker = breaker_new,
      se_secrets = [], se_last_refresh = n - refresh_interval\<rparr>"

definition validate_secret :: "string \<Rightarrow> cloud_error + unit" where
  "validate_secret s =
     (if length s < min_secret_length
      then Inl (Config (''Secret is too short: '' @ show_nat (length s) @ '' bytes (minimum '' @ show_nat min_secret_length @ '')''))
      else if list_all (\<lambda>c. c = hd (utf8_chars s)) (utf8_chars s)
      then Inl (Config ''Secret has insufficient entropy (all same character)'')
      else Inr ())"

definition last_segment :: "string \<Rightarrow> string" where
  "last_segment s = rev (takeWhile (\<lambda>c. c \<noteq> CHR ''/'') (rev s))"

definition scope_cloud :: string where
  "scope_cloud = ''https://www.googleapis.com/auth/cloud-platform''"

text \<open>The version that a reply holds; its base64 data must be UTF-8.\<close>

definition secret_of_reply :: "cloud_lib \<Rightarrow> http_reply \<Rightarrow> cloud_error + secret_version" where
  "secret_of_reply lib r =
     (if \<not> is_success_status (hr_status r)
      then Inl (Internal (''Secret Manager returned '' @ cl_status lib (hr_status r) @ '': '' @ body_text r))
      else case cl_secret lib (hr_body r) of
        Inl e \<Rightarrow> Inl (Internal (''Failed to parse secret response: '' @ e))
      | Inr (nm, d) \<Rightarrow>
          (case cl_b64_decode lib d of
             Inl e \<Rightarrow> Inl (Internal (''Failed to decode secret: '' @ e))
           | Inr bytes \<Rightarrow>
               (case cl_utf8 lib bytes of
                  Inl e \<Rightarrow> Inl (Internal (''Secret is not valid UTF-8: '' @ e))
                | Inr v \<Rightarrow> Inr \<lparr>sv_value = v, sv_version = last_segment nm\<rparr>)))"

text \<open>The path of the request; which reply it gets is the network's choice.\<close>

definition secret_url :: "secret_manager \<Rightarrow> string \<Rightarrow> string" where
  "secret_url m version = ''https://secretmanager.googleapis.com/v1/projects/'' @ se_project m @ ''/secrets/''
     @ se_name m @ ''/versions/'' @ version @ '':access''"

definition fetch_secret_version :: "cloud_lib \<Rightarrow> time \<Rightarrow> string \<Rightarrow> (secret_manager, cloud_error + time \<times> secret_version) net" where
  "fetch_secret_version lib n version =
     run_bind (run_get id) (\<lambda>m.
       run_ok (on_part se_auth (\<lambda>a m. m\<lparr>se_auth := a\<rparr>) (get_access_token lib n scope_cloud)) (\<lambda>(t, _).
         run_bind (on_part se_breaker (\<lambda>b m. m\<lparr>se_breaker := b\<rparr>) (send_guarded (se_config m) t)) (\<lambda>r.
           run_return (case r of
             Inl Circuit_open \<Rightarrow> Inl (Internal ''Secret Manager API circuit breaker is open'')
           | Inl (Failure e) \<Rightarrow> Inl (Internal (''Secret Manager API call failed: '' @ e))
           | Inr (t, rep) \<Rightarrow> map_sum id (Pair t) (secret_of_reply lib rep)))))"

text \<open>The second request is for the version \<open>1\<close>; its failure, or an invalid secret, is ignored.\<close>

definition refresh_secrets :: "cloud_lib \<Rightarrow> time \<Rightarrow> (secret_manager, cloud_error + unit) net" where
  "refresh_secrets lib n =
     run_ok (fetch_secret_version lib n ''latest'') (\<lambda>(t, latest).
       case validate_secret (sv_value latest) of
         Inl e \<Rightarrow> run_return (Inl e)
       | Inr _ \<Rightarrow>
           run_bind (fetch_secret_version lib t ''1'') (\<lambda>r.
             let t' = (case r of Inl _ \<Rightarrow> t | Inr (t', _) \<Rightarrow> t');
                 older = (case r of
                   Inl _ \<Rightarrow> []
                 | Inr (_, p) \<Rightarrow> if sv_version p \<noteq> sv_version latest \<and> validate_secret (sv_value p) = Inr () then [p] else []) in
             run_bind (run_modify (\<lambda>m. m\<lparr>se_secrets := latest # older, se_last_refresh := t'\<rparr>)) (\<lambda>_.
               run_return (Inr ()))))"

definition initialize_secrets :: "cloud_lib \<Rightarrow> time \<Rightarrow> (secret_manager, cloud_error + unit) net" where
  "initialize_secrets lib n =
     run_ok (refresh_secrets lib n) (\<lambda>_. run_bind (run_get se_secrets) (\<lambda>ss.
       run_return (if ss = [] then Inl (Config ''No valid secrets found in Secret Manager'') else Inr ())))"

definition get_valid_secrets :: "cloud_lib \<Rightarrow> time \<Rightarrow> (secret_manager, string list) net" where
  "get_valid_secrets lib n =
     run_bind (run_get id) (\<lambda>m.
       run_bind (if refresh_interval < elapsed n (se_last_refresh m)
                 then refresh_secrets lib n else run_return (Inr ())) (\<lambda>_.
         run_get (\<lambda>m. map sv_value (se_secrets m))))"

definition get_current_secret :: "cloud_lib \<Rightarrow> time \<Rightarrow> (secret_manager, cloud_error + string) net" where
  "get_current_secret lib n =
     run_bind (get_valid_secrets lib n) (\<lambda>ss. run_return (case ss of
       [] \<Rightarrow> Inl (Internal ''No secrets available'') | s # _ \<Rightarrow> Inr s))"

text \<open>The function of the caller may fail for a secret; the next one is tried.\<close>

definition verify_with_any_secret ::
  "cloud_lib \<Rightarrow> time \<Rightarrow> string \<Rightarrow> string \<Rightarrow> (string \<Rightarrow> string \<Rightarrow> string \<Rightarrow> cloud_error + bool)
     \<Rightarrow> (secret_manager, cloud_error + bool) net" where
  "verify_with_any_secret lib n p signature verify =
     run_bind (get_valid_secrets lib n) (\<lambda>ss. run_return (
       if ss = [] then Inl (Internal ''No valid secrets available for verification'')
       else Inr (list_ex (\<lambda>s. verify p signature s = Inr True) ss)))"

section \<open>The task queue\<close>

record cloud_task =
  ct_url :: string
  ct_signature :: string
  ct_body :: string
  ct_email :: string

record queue =
  qu_project :: string
  qu_location :: string
  qu_name :: string
  qu_worker_url :: string
  qu_secret :: string
  qu_auth :: gcp_auth
  qu_config :: breaker_config
  qu_breaker :: breaker
  qu_posted :: "cloud_task list"  \<comment> \<open>the tasks sent to the service, failed requests included\<close>

definition queue_path :: "queue \<Rightarrow> string" where
  "queue_path q = ''projects/'' @ qu_project q @ ''/locations/'' @ qu_location q @ ''/queues/'' @ qu_name q"

definition max_retries :: nat where
  "max_retries = 3"

text \<open>\<open>secs * 1000\<close> on 64 bits, as in a build without overflow checks.\<close>

definition retry_after_ms :: "http_reply \<Rightarrow> nat option" where
  "retry_after_ms r = map_option (\<lambda>secs. (secs * 1000) mod 2 ^ 64) (Option.bind (hr_retry_after r) (parse_unsigned 64))"

text \<open>The attempts that are left, the wait before the next and the time of this one.\<close>

fun call_cloud_tasks_api :: "cloud_lib \<Rightarrow> cloud_task \<Rightarrow> nat \<Rightarrow> nat \<Rightarrow> time \<Rightarrow> (queue, cloud_error + string) net" where
  "call_cloud_tasks_api lib tsk left wait n =
     run_bind (run_get id) (\<lambda>q.
     run_bind (on_part qu_breaker (\<lambda>b q. q\<lparr>qu_breaker := b\<rparr>) (send_guarded (qu_config q) n)) (\<lambda>r.
     run_bind (run_modify (\<lambda>q. if r = Inl Circuit_open then q else q\<lparr>qu_posted := qu_posted q @ [tsk]\<rparr>)) (\<lambda>_.
       case r of
         Inl Circuit_open \<Rightarrow> run_return (Inl (Api ''Cloud Tasks API circuit breaker is open''))
       | Inl (Failure e) \<Rightarrow> run_return (Inl (Internal (''HTTP request failed: '' @ e)))
       | Inr (t, rep) \<Rightarrow>
           if is_success_status (hr_status rep) then
             run_return (case cl_task_name lib (hr_body rep) of
               Inl e \<Rightarrow> Inl (Api (''Failed to parse response: '' @ e))
             | Inr None \<Rightarrow> Inl (Api ''No task name in response'')
             | Inr (Some nm) \<Rightarrow> Inr nm)
           else if hr_status rep = 429 then
             (case left of
                0 \<Rightarrow> run_return (Inl (Api (''Cloud Tasks API failed after '' @ show_nat max_retries
                       @ '' attempts due to rate limiting. Last response: '' @ cl_status lib (hr_status rep) @ '' - '' @ body_text rep)))
              | Suc left' \<Rightarrow>
                  (case retry_after_ms rep of
                     Some d \<Rightarrow> call_cloud_tasks_api lib tsk left' wait (t + int d)
                   | None \<Rightarrow> call_cloud_tasks_api lib tsk left' (wait * 2) (t + int wait)))
           else if is_client_error (hr_status rep) then
             run_return (Inl (Api (''Cloud Tasks API returned '' @ cl_status lib (hr_status rep) @ '': '' @ body_text rep)))
           else if is_server_error (hr_status rep) then
             (case left of
                0 \<Rightarrow> run_return (Inl (Api (''Cloud Tasks API failed after '' @ show_nat max_retries
                       @ '' attempts. Last response: '' @ cl_status lib (hr_status rep) @ '' - '' @ body_text rep)))
              | Suc left' \<Rightarrow>
                  call_cloud_tasks_api lib tsk left' (wait * 2) (t + int (wait + cl_jitter lib left mod (wait div 2))))
           else run_return (Inl (Api (''Unexpected status from Cloud Tasks API: '' @ cl_status lib (hr_status rep)
                  @ '' - '' @ body_text rep))))))"

definition create_cloud_task :: "cloud_lib \<Rightarrow> time \<Rightarrow> string \<Rightarrow> string \<Rightarrow> string \<Rightarrow> (queue, cloud_error + string) net" where
  "create_cloud_task lib n url signature p =
     run_bind (run_get id) (\<lambda>q.
       run_ok (on_part qu_auth (\<lambda>a q. q\<lparr>qu_auth := a\<rparr>) (get_access_token lib n scope_cloud)) (\<lambda>(t, _).
         call_cloud_tasks_api lib
           \<lparr>ct_url = url, ct_signature = signature, ct_body = cl_b64_encode lib p,
            ct_email = service_account_email (qu_auth q)\<rparr> (max_retries - 1) 100 t))"

definition cloud_enqueue :: "cloud_lib \<Rightarrow> time \<Rightarrow> task \<Rightarrow> (queue, cloud_error + string) net" where
  "cloud_enqueue lib n tsk =
     (case cl_payload_json lib tsk of
        Inl e \<Rightarrow> run_return (Inl (Internal (''Failed to serialize payload: '' @ e)))
      | Inr p \<Rightarrow>
          run_bind (run_get id) (\<lambda>q.
            create_cloud_task lib n (qu_worker_url q @ ''/execute'') (sign_payload lib p (qu_secret q)) p))"

datatype enqueue_error = Authentication string | Configuration string | QueueApi string | EnqInternal string

fun enqueue_error_of :: "cloud_error \<Rightarrow> enqueue_error" where
  "enqueue_error_of (Auth m) = Authentication m"
| "enqueue_error_of (Config m) = Configuration m"
| "enqueue_error_of (Api m) = QueueApi m"
| "enqueue_error_of (Http m) = QueueApi m"
| "enqueue_error_of (Internal m) = EnqInternal m"

end
