(* ===== verification/Access.thy ===== *)
theory Access
  imports Cloud Worker
begin

text \<open>
  The entry of the worker (\<open>servo-worker/src\<close>): identity tokens (\<open>oidc.rs\<close>), signatures
  (\<open>security.rs\<close>), secrets (\<open>secrets_provider.rs\<close>), rate limits (\<open>rate_limiter.rs\<close>) and the two
  handlers that start executions (\<open>handler.rs\<close>). Tokens, keys, codecs and the limiter of a single
  tenant belong to libraries and are a parameter, the record \<open>entry_lib\<close>. A handler answers and
  says which execution it has handed to a background task. Traces and metrics are left out.
\<close>

section \<open>Identity\<close>

record oidc_config =
  oc_enabled :: bool
  oc_issuer :: string
  oc_jwks_url :: string
  oc_expected_audience :: string

definition derive_jwks_url :: "string \<Rightarrow> string" where
  "derive_jwks_url iss =
     (if iss = ''https://accounts.google.com'' then ''https://www.googleapis.com/oauth2/v3/certs''
      else rev (dropWhile (\<lambda>c. c = CHR ''/'') (rev iss)) @ ''/.well-known/jwks.json'')"

definition validate_oidc_config :: "oidc_config \<Rightarrow> string + unit" where
  "validate_oidc_config c =
     (if oc_enabled c then
        (if oc_expected_audience c = [] then Inl ''expected_audience cannot be empty''
         else if \<not> starts_with ''https://'' (oc_jwks_url c) then Inl ''jwks_url must use HTTPS''
         else if \<not> starts_with ''https://'' (oc_issuer c) then Inl ''issuer must use HTTPS''
         else Inr ())
      else Inr ())"

definition oidc_disabled :: oidc_config where
  "oidc_disabled = \<lparr>oc_enabled = False, oc_issuer = [], oc_jwks_url = [], oc_expected_audience = []\<rparr>"

definition oidc_from_env :: "(string \<Rightarrow> string option) \<Rightarrow> string + oidc_config" where
  "oidc_from_env env =
     (case (case env ''OIDC_ENABLE_VALIDATION'' of None \<Rightarrow> Some True
            | Some v \<Rightarrow> if v = ''true'' then Some True else if v = ''false'' then Some False else None) of
        None \<Rightarrow> Inl (''OIDC_ENABLE_VALIDATION must be '' @ quoted ''true'' @ '' or '' @ quoted ''false'')
      | Some False \<Rightarrow> Inr oidc_disabled
      | Some True \<Rightarrow>
          (let iss = (case env ''OIDC_ISSUER'' of None \<Rightarrow> ''https://accounts.google.com'' | Some i \<Rightarrow> i) in
           case env ''OIDC_EXPECTED_AUDIENCE'' of
             None \<Rightarrow> Inl ''OIDC_EXPECTED_AUDIENCE required when validation enabled''
           | Some aud \<Rightarrow>
               (let c = \<lparr>oc_enabled = True, oc_issuer = iss, oc_jwks_url = derive_jwks_url iss, oc_expected_audience = aud\<rparr> in
                map_sum id (\<lambda>_. c) (validate_oidc_config c))))"

record claims =
  cm_iss :: string
  cm_aud :: string
  cm_exp :: int
  cm_iat :: int
  cm_nbf :: "int option"
  cm_email :: string

type_synonym 'k jwks = "(string option \<times> 'k) list"

record 'k jwks_cache =
  jc_keys :: "'k jwks"
  jc_fetched_at :: time

definition jwks_ttl :: time where
  "jwks_ttl = 3600 * 1000"

definition jwks_expired :: "time \<Rightarrow> 'k jwks_cache \<Rightarrow> bool" where
  "jwks_expired n c \<longleftrightarrow> jwks_ttl < elapsed n (jc_fetched_at c)"

definition find_key :: "string \<Rightarrow> 'k jwks \<Rightarrow> 'k option" where
  "find_key kid ks = map_option snd (find (\<lambda>(i, k). i = Some kid) ks)"

record ('k, 'd, 'g) entry_lib =
  el_header :: "string \<Rightarrow> string + string option"  \<comment> \<open>the key id of a token\<close>
  el_jwks :: "string option \<Rightarrow> string + 'k jwks"
  el_key :: "'k \<Rightarrow> string + 'd"
  el_decode :: "string \<Rightarrow> 'd \<Rightarrow> string \<Rightarrow> string \<Rightarrow> time \<Rightarrow> string + claims"  \<comment> \<open>token, key, audience, issuer\<close>
  el_payload :: "string \<Rightarrow> string + payload"
  el_from_hex :: "string \<Rightarrow> string + string"
  el_limiter :: "nat \<Rightarrow> 'g"  \<comment> \<open>a limiter of so many requests per second\<close>
  el_check :: "time \<Rightarrow> 'g \<Rightarrow> bool \<times> 'g"
  el_cloud :: cloud_lib

text \<open>Fetching the keys; the cache is written only by a reply that can be read.\<close>

definition fetch_and_cache_jwks :: "('k, 'd, 'g) entry_lib \<Rightarrow> ('k jwks_cache option, string + time \<times> 'k jwks) net" where
  "fetch_and_cache_jwks lib =
     run_bind send (\<lambda>r. case r of
       Inl e \<Rightarrow> run_return (Inl (''Failed to fetch JWKS: '' @ e))
     | Inr (n, rep) \<Rightarrow>
         (case el_jwks lib (hr_body rep) of
            Inl e \<Rightarrow> run_return (Inl (''Failed to parse JWKS JSON: '' @ e))
          | Inr ks \<Rightarrow>
              run_bind (run_modify (\<lambda>_. Some \<lparr>jc_keys = ks, jc_fetched_at = n\<rparr>)) (\<lambda>_. run_return (Inr (n, ks)))))"

definition get_jwks :: "('k, 'd, 'g) entry_lib \<Rightarrow> time \<Rightarrow> string \<Rightarrow> ('k jwks_cache option, string + time \<times> 'k jwks) net" where
  "get_jwks lib n kid =
     run_bind (run_get id) (\<lambda>cache.
       case (case cache of Some c \<Rightarrow> if \<not> jwks_expired n c \<and> find_key kid (jc_keys c) \<noteq> None then Some c else None | None \<Rightarrow> None) of
         Some c \<Rightarrow> run_return (Inr (n, jc_keys c))
       | None \<Rightarrow> fetch_and_cache_jwks lib)"

text \<open>The checks beside those of the token library; the clock is in seconds.\<close>

definition verify_claims :: "time \<Rightarrow> claims \<Rightarrow> string + unit" where
  "verify_claims n c =
     (let s = n div 1000 in
      if cm_exp c < s then Inl (''Token expired (exp: '' @ show_int (cm_exp c) @ '', now: '' @ show_int s @ '')'')
      else case cm_nbf c of
        Some nbf \<Rightarrow>
          (if s < nbf then Inl (''Token not yet valid (nbf: '' @ show_int nbf @ '', now: '' @ show_int s @ '')'')
           else if cm_email c = [] then Inl (''Token missing '' @ quoted ''email'' @ '' claim'') else Inr ())
      | None \<Rightarrow> if cm_email c = [] then Inl (''Token missing '' @ quoted ''email'' @ '' claim'') else Inr ())"

definition validate_token :: "('k, 'd, 'g) entry_lib \<Rightarrow> oidc_config \<Rightarrow> time \<Rightarrow> string \<Rightarrow> ('k jwks_cache option, string + time \<times> claims) net" where
  "validate_token lib cfg n token =
     (if \<not> oc_enabled cfg then run_return (Inl ''OIDC validation is disabled'')
      else case el_header lib token of
        Inl e \<Rightarrow> run_return (Inl (''Invalid token header: '' @ e))
      | Inr None \<Rightarrow> run_return (Inl (''Token missing '' @ quoted ''kid'' @ '' (Key ID)''))
      | Inr (Some kid) \<Rightarrow>
          run_ok (get_jwks lib n kid) (\<lambda>(m, ks). run_return (
            case find_key kid ks of
              None \<Rightarrow> Inl (''Key ID '' @ quoted kid @ '' not found in JWKS'')
            | Some k \<Rightarrow>
                (case el_key lib k of
                   Inl e \<Rightarrow> Inl (''Failed to create decoding key: '' @ e)
                 | Inr d \<Rightarrow>
                     (case el_decode lib token d (oc_expected_audience cfg) (oc_issuer cfg) m of
                        Inl e \<Rightarrow> Inl (''Token validation failed: '' @ e)
                      | Inr c \<Rightarrow> map_sum id (\<lambda>_. (m, c)) (verify_claims m c))))))"

section \<open>Signatures and secrets\<close>

datatype security_error = InvalidFormat string | VerificationFailed | NoSignature

definition verify_signature :: "('k, 'd, 'g) entry_lib \<Rightarrow> string \<Rightarrow> string \<Rightarrow> string \<Rightarrow> security_error + unit" where
  "verify_signature lib p signature secret =
     (case el_from_hex lib signature of
        Inl e \<Rightarrow> Inl (InvalidFormat (''Failed to decode hex signature: '' @ e))
      | Inr bytes \<Rightarrow> if cl_hmac (el_cloud lib) secret p = bytes then Inr () else Inl VerificationFailed)"

definition extract_signature :: "string option \<Rightarrow> security_error + string" where
  "extract_signature h = (case h of None \<Rightarrow> Inl NoSignature | Some s \<Rightarrow> Inr s)"

record secrets_provider =
  sp_manager :: "secret_manager option"
  sp_hmac_fallback :: "string option"

datatype secrets_error =
  InitializationFailed string | SecretNotFound string | SecretInvalid string | AuthFailed string

definition secrets_from_env :: "(string \<Rightarrow> string option) \<Rightarrow> secrets_error + secrets_provider" where
  "secrets_from_env env =
     (case env ''SERVO_HMAC_SECRET'' of
        None \<Rightarrow> Inl (SecretNotFound ''SERVO_HMAC_SECRET environment variable not set'')
      | Some s \<Rightarrow>
          if length s < 32
          then Inl (SecretInvalid (''SERVO_HMAC_SECRET must be at least 32 bytes, got '' @ show_nat (length s)))
          else Inr \<lparr>sp_manager = None, sp_hmac_fallback = Some s\<rparr>)"

datatype runtime_environment = Production | Staging | Development

definition detect_environment :: "(string \<Rightarrow> string option) \<Rightarrow> runtime_environment" where
  "detect_environment env =
     (if env ''K_SERVICE'' \<noteq> None
      then (case env ''SERVO_ENVIRONMENT'' of
              Some v \<Rightarrow> if to_lowercase v = ''staging'' then Staging else Production
            | None \<Rightarrow> Production)
      else Development)"

definition should_use_secret_manager :: "runtime_environment \<Rightarrow> bool" where
  "should_use_secret_manager e \<longleftrightarrow> e = Production \<or> e = Staging"

definition all_valid_secrets :: "cloud_lib \<Rightarrow> time \<Rightarrow> (secrets_provider, string list) net" where
  "all_valid_secrets lib n =
     run_bind (run_get id) (\<lambda>p. case sp_manager p of
       Some m \<Rightarrow> on_part (\<lambda>p. m) (\<lambda>m p. p\<lparr>sp_manager := Some m\<rparr>) (get_valid_secrets lib n)
     | None \<Rightarrow> run_return (case sp_hmac_fallback p of Some s \<Rightarrow> [s] | None \<Rightarrow> []))"

section \<open>Rate limits\<close>

datatype rate_limit_error = TenantLimitExceeded string nat | IpLimitExceeded string nat

text \<open>The limiter of a tenant is made by its first request. A limit of zero is a panic.\<close>

record 'g tenant_limiter =
  tl_limit :: nat
  tl_limiters :: "tenant \<Rightarrow> 'g option"

definition check_tenant :: "('k, 'd, 'g) entry_lib \<Rightarrow> time \<Rightarrow> tenant \<Rightarrow> 'g tenant_limiter \<Rightarrow> ((rate_limit_error + unit) \<times> 'g tenant_limiter) option" where
  "check_tenant lib n u l =
     (let found = (case tl_limiters l u of
                     Some g \<Rightarrow> Some g
                   | None \<Rightarrow> if tl_limit l = 0 then None else Some (el_limiter lib (tl_limit l))) in
      case found of
        None \<Rightarrow> None
      | Some g \<Rightarrow>
          (case el_check lib n g of (ok, g') \<Rightarrow>
             Some (if ok then Inr () else Inl (TenantLimitExceeded u (tl_limit l)),
                   l\<lparr>tl_limiters := (tl_limiters l)(u \<mapsto> g')\<rparr>)))"

section \<open>The handlers\<close>

record request =
  rq_authorization :: "string option"  \<comment> \<open>a header that is text\<close>
  rq_signature :: "string option"
  rq_body :: string

record ('k, 'g) app_state =
  ap_oidc :: oidc_config
  ap_jwks :: "'k jwks_cache option"
  ap_secrets :: secrets_provider
  ap_limiter :: "'g tenant_limiter"

datatype execute_error =
    MissingOidcToken
  | InvalidOidcToken
  | MissingSignature
  | InvalidSignature
  | InvalidPayload string
  | RateLimitExceeded rate_limit_error

record execute_response =
  rs_execution_id :: uuid
  rs_status :: string
  rs_message :: "string option"

definition accepted :: "uuid \<Rightarrow> execute_response" where
  "accepted i = \<lparr>rs_execution_id = i, rs_status = ''accepted'', rs_message = None\<rparr>"

definition strip_prefix :: "string \<Rightarrow> string \<Rightarrow> string option" where
  "strip_prefix p s = (if starts_with p s then Some (drop (length p) s) else None)"

text \<open>The check of the caller, which both handlers make; it returns the time.\<close>

definition check_identity ::
  "('k, 'd, 'g) entry_lib \<Rightarrow> 'e \<Rightarrow> 'e \<Rightarrow> time \<Rightarrow> request \<Rightarrow> (('k, 'g) app_state, 'e + time) net" where
  "check_identity lib missing invalid n rq =
     run_bind (run_get id) (\<lambda>st.
       if \<not> oc_enabled (ap_oidc st) then run_return (Inr n)
       else case rq_authorization rq of
         None \<Rightarrow> run_return (Inl missing)
       | Some h \<Rightarrow>
           (case strip_prefix ''Bearer '' h of
              None \<Rightarrow> run_return (Inl invalid)
            | Some token \<Rightarrow>
                run_bind (on_part ap_jwks (\<lambda>c st. st\<lparr>ap_jwks := c\<rparr>) (validate_token lib (ap_oidc st) n token)) (\<lambda>r.
                  run_return (map_sum (\<lambda>_. invalid) fst r))))"

text \<open>The limit of a tenant; a panic has no result.\<close>

definition check_limit :: "('k, 'd, 'g) entry_lib \<Rightarrow> time \<Rightarrow> tenant \<Rightarrow> (('k, 'g) app_state, rate_limit_error + unit) net" where
  "check_limit lib n u xs st =
     (case check_tenant lib n u (ap_limiter st) of
        None \<Rightarrow> None
      | Some (r, l) \<Rightarrow> Some (r, xs, st\<lparr>ap_limiter := l\<rparr>))"

definition decode_payload :: "('k, 'd, 'g) entry_lib \<Rightarrow> string \<Rightarrow> execute_error + payload" where
  "decode_payload lib body =
     (case cl_b64_decode (el_cloud lib) body of
        Inl _ \<Rightarrow> Inl (InvalidPayload ''Invalid base64 encoding'')
      | Inr js \<Rightarrow> map_sum (\<lambda>e. InvalidPayload (''Invalid JSON: '' @ e)) id (el_payload lib js))"

text \<open>The answer, with the payload that is handed to the executor in the background.\<close>

definition execute_handler ::
  "('k, 'd, 'g) entry_lib \<Rightarrow> time \<Rightarrow> request \<Rightarrow> (('k, 'g) app_state, execute_error + execute_response \<times> payload) net" where
  "execute_handler lib n rq =
     run_ok (check_identity lib MissingOidcToken InvalidOidcToken n rq) (\<lambda>t.
       case extract_signature (rq_signature rq) of
         Inl _ \<Rightarrow> run_return (Inl MissingSignature)
       | Inr signature \<Rightarrow>
           run_bind (on_part ap_secrets (\<lambda>p st. st\<lparr>ap_secrets := p\<rparr>) (all_valid_secrets (el_cloud lib) t)) (\<lambda>secrets.
             if secrets = [] then run_return (Inl InvalidSignature)
             else if \<not> list_ex (\<lambda>s. verify_signature lib (rq_body rq) signature s = Inr ()) secrets
             then run_return (Inl InvalidSignature)
             else case decode_payload lib (rq_body rq) of
               Inl e \<Rightarrow> run_return (Inl e)
             | Inr pl \<Rightarrow>
                 run_ok (run_map_error RateLimitExceeded (check_limit lib t (pl_tenant_id pl))) (\<lambda>_.
                   run_return (Inr (accepted (pl_execution_id pl), pl)))))"

record scheduler_payload =
  sc_workflow_id :: uuid
  sc_tenant_id :: tenant
  sc_triggered_by :: string

datatype scheduler_execute_error =
    SchedMissingOidcToken
  | SchedInvalidOidcToken
  | WorkflowIdMismatch
  | SchedRateLimitExceeded rate_limit_error

text \<open>The background task executes the workflow of the path for the tenant of the payload.\<close>

definition scheduler_execute_handler ::
  "('k, 'd, 'g) entry_lib \<Rightarrow> time \<Rightarrow> uuid \<Rightarrow> request \<Rightarrow> scheduler_payload
     \<Rightarrow> (('k, 'g) app_state, scheduler_execute_error + execute_response \<times> uuid \<times> tenant) net" where
  "scheduler_execute_handler lib n w rq sp =
     run_ok (check_identity lib SchedMissingOidcToken SchedInvalidOidcToken n rq) (\<lambda>t.
       if sc_workflow_id sp \<noteq> w then run_return (Inl WorkflowIdMismatch)
       else run_ok (run_map_error SchedRateLimitExceeded (check_limit lib t (sc_tenant_id sp))) (\<lambda>_.
         run_return (Inr (\<lparr>rs_execution_id = w, rs_status = ''accepted'',
           rs_message = Some ''Scheduled execution started''\<rparr>, w, sc_tenant_id sp))))"

text \<open>The answers of the errors: the status and the seconds after which to try again.\<close>

definition retry_seconds :: "rate_limit_error \<Rightarrow> nat" where
  "retry_seconds e = (case e of TenantLimitExceeded _ _ \<Rightarrow> 1 | IpLimitExceeded _ _ \<Rightarrow> 60)"

fun execute_error_status :: "execute_error \<Rightarrow> nat \<times> nat option" where
  "execute_error_status MissingOidcToken = (401, None)"
| "execute_error_status InvalidOidcToken = (401, None)"
| "execute_error_status MissingSignature = (401, None)"
| "execute_error_status InvalidSignature = (401, None)"
| "execute_error_status (InvalidPayload _) = (400, None)"
| "execute_error_status (RateLimitExceeded e) = (429, Some (retry_seconds e))"

fun scheduler_error_status :: "scheduler_execute_error \<Rightarrow> nat \<times> nat option" where
  "scheduler_error_status SchedMissingOidcToken = (401, None)"
| "scheduler_error_status SchedInvalidOidcToken = (401, None)"
| "scheduler_error_status WorkflowIdMismatch = (400, None)"
| "scheduler_error_status (SchedRateLimitExceeded e) = (429, Some (retry_seconds e))"

end
