(* ===== verification/AccessLife.thy ===== *)
theory AccessLife
  imports Access
begin

text \<open>
  What the entry of the worker and the cloud clients guarantee: what a request has proved when an
  execution is started, that tenants do not share their rate limits, that the secrets in use have been
  validated, how often a task is posted, and two ways in which the parts do not fit together: no task
  of the queue passes the handler it is made for, and no answer of a service trips a breaker.
\<close>

lemmas action_simps = run_bind_Some run_ok_Some

lemma on_part_Some: "on_part part put f ts s = Some (a, ts', s') \<longleftrightarrow>
    (\<exists>u. f ts (part s) = Some (a, ts', u) \<and> s' = put u s)"
  by (auto simp: on_part_def)

lemma get_Some [simp]: "run_get f ts s = Some (a, ts', s') \<longleftrightarrow> a = f s \<and> ts' = ts \<and> s' = s"
  by (auto simp: run_get_def)

lemma modify_Some [simp]: "run_modify f ts s = Some (u, ts', s') \<longleftrightarrow> ts' = ts \<and> s' = f s"
  by (auto simp: run_modify_def)

lemma get_bind [simp]: "run_bind (run_get f) g ts s = g (f s) ts s"
  by (simp add: run_bind_def run_get_def)

lemma map_error_Inr: "run_map_error h f ts s = Some (Inr a, ts', s') \<longleftrightarrow> f ts s = Some (Inr a, ts', s')"
proof (cases "f ts s")
  case (Some p)
  then show ?thesis
    by (cases p; cases "fst p") (auto simp: run_map_error_def run_bind_def run_return_def)
qed (simp add: run_map_error_def run_bind_def)

section \<open>Tokens\<close>

text \<open>A token whose key was in a set of keys fetched within the last hour, or in this call.\<close>

definition proves_identity ::
  "('k, 'd, 'g) entry_lib \<Rightarrow> oidc_config \<Rightarrow> time \<Rightarrow> 'k jwks_cache option \<Rightarrow> 'k jwks_cache option \<Rightarrow> string \<Rightarrow> time \<Rightarrow> claims \<Rightarrow> bool" where
  "proves_identity lib cfg n old new token m c \<longleftrightarrow>
     (\<exists>kid ks k d. el_header lib token = Inr (Some kid) \<and> find_key kid (jc_keys ks) = Some k \<and> el_key lib k = Inr d \<and>
        el_decode lib token d (oc_expected_audience cfg) (oc_issuer cfg) m = Inr c \<and> verify_claims m c = Inr () \<and>
        (old = Some ks \<and> \<not> jwks_expired n ks \<and> m = n \<or> new = Some ks \<and> jc_fetched_at ks = m))"

lemma fetched_keys:
  assumes "fetch_and_cache_jwks lib xs old = Some (Inr (m, ks), xs', new)"
  shows "new = Some \<lparr>jc_keys = ks, jc_fetched_at = m\<rparr>"
proof -
  from assms obtain r :: "string + time \<times> http_reply" and xs1 s1 where "(case r of Inl e \<Rightarrow> run_return (Inl (''Failed to fetch JWKS: '' @ e))
     | Inr (n, rep) \<Rightarrow>
         (case el_jwks lib (hr_body rep) of
            Inl e \<Rightarrow> run_return (Inl (''Failed to parse JWKS JSON: '' @ e))
          | Inr ks \<Rightarrow>
              run_bind (run_modify (\<lambda>_. Some \<lparr>jc_keys = ks, jc_fetched_at = n\<rparr>)) (\<lambda>_. run_return (Inr (n, ks)))))
      xs1 s1 = Some (Inr (m, ks), xs', new)"
    unfolding fetch_and_cache_jwks_def run_bind_Some [of send] by blast
  then show ?thesis by (cases r) (auto simp: run_bind_Some split: sum.splits)
qed

lemma token_valid:
  assumes "validate_token lib cfg n token xs old = Some (Inr (m, c), xs', new)"
  shows "oc_enabled cfg \<and> proves_identity lib cfg n old new token m c"
proof -
  from assms obtain kid where en: "oc_enabled cfg" and kid: "el_header lib token = Inr (Some kid)"
    by (auto simp: validate_token_def split: if_splits sum.splits option.splits)
  let ?check = "\<lambda>(m, ks). run_return (
            case find_key kid ks of
              None \<Rightarrow> Inl (''Key ID '' @ quoted kid @ '' not found in JWKS'')
            | Some k \<Rightarrow>
                (case el_key lib k of
                   Inl e \<Rightarrow> Inl (''Failed to create decoding key: '' @ e)
                 | Inr d \<Rightarrow>
                     (case el_decode lib token d (oc_expected_audience cfg) (oc_issuer cfg) m of
                        Inl e \<Rightarrow> Inl (''Token validation failed: '' @ e)
                      | Inr c \<Rightarrow> map_sum id (\<lambda>_. (m, c)) (verify_claims m c))))"
  from assms en kid have "run_ok (get_jwks lib n kid) ?check xs old = Some (Inr (m, c), xs', new)"
    by (simp add: validate_token_def)
  then obtain m' ks where get: "get_jwks lib n kid xs old = Some (Inr (m', ks), xs', new)"
    and chk: "?check (m', ks) xs' new = Some (Inr (m, c), xs', new)"
    by (auto simp: run_ok_Some)
  from chk obtain k d c' where k: "find_key kid ks = Some k" "el_key lib k = Inr d"
      "el_decode lib token d (oc_expected_audience cfg) (oc_issuer cfg) m' = Inr c'"
      "map_sum id (\<lambda>_. (m', c')) (verify_claims m' c') = Inr (m, c)"
    by (auto split: option.splits sum.splits)
  then have "verify_claims m' c' = Inr ()" "m = m'" "c = c'" by (cases "verify_claims m' c'"; auto)+
  note k = k(1-3) this
  from get have "(\<exists>t. old = Some t \<and> jc_keys t = ks \<and> \<not> jwks_expired n t \<and> m' = n) \<or>
      new = Some \<lparr>jc_keys = ks, jc_fetched_at = m'\<rparr>"
    by (auto simp: get_jwks_def dest: fetched_keys split: option.splits if_splits)
  then obtain K where K: "jc_keys K = ks"
    "old = Some K \<and> \<not> jwks_expired n K \<and> m' = n \<or> new = Some K \<and> jc_fetched_at K = m'"
  proof (elim disjE exE conjE)
    assume "new = Some \<lparr>jc_keys = ks, jc_fetched_at = m'\<rparr>"
    then show thesis by (intro that [of "\<lparr>jc_keys = ks, jc_fetched_at = m'\<rparr>"]) simp_all
  qed (rule that, assumption, blast)
  show ?thesis
    unfolding proves_identity_def
    by (intro conjI en exI [of _ kid] exI [of _ K] exI [of _ k] exI [of _ d]) (use kid k K in auto)
qed

section \<open>What a started execution has proved\<close>

definition provider_secrets :: "secrets_provider \<Rightarrow> string list" where
  "provider_secrets p =
     (case sp_manager p of
        Some m \<Rightarrow> map sv_value (se_secrets m)
      | None \<Rightarrow> (case sp_hmac_fallback p of Some s \<Rightarrow> [s] | None \<Rightarrow> []))"

lemma valid_secrets_state:
  assumes "get_valid_secrets lib n xs m = Some (ss, xs', m')"
  shows "ss = map sv_value (se_secrets m')"
  using assms by (auto simp: get_valid_secrets_def run_bind_Some)

lemma provider_state:
  assumes "all_valid_secrets lib n xs p = Some (ss, xs', p')"
  shows "ss = provider_secrets p'"
  using assms
  by (auto simp: all_valid_secrets_def on_part_Some provider_secrets_def dest: valid_secrets_state split: option.splits)

lemma signature_valid: "verify_signature lib p sg s = Inr () \<longleftrightarrow> el_from_hex lib sg = Inr (cl_hmac (el_cloud lib) s p)"
  by (cases "el_from_hex lib sg") (auto simp: verify_signature_def)

lemma identity_checked:
  assumes "check_identity lib missing invalid n rq xs st = Some (Inr t, xs', st')"
  shows "ap_oidc st' = ap_oidc st \<and> ap_secrets st' = ap_secrets st \<and> ap_limiter st' = ap_limiter st \<and>
    (if oc_enabled (ap_oidc st)
     then \<exists>token c. rq_authorization rq = Some (''Bearer '' @ token) \<and>
       proves_identity lib (ap_oidc st) n (ap_jwks st) (ap_jwks st') token t c
     else t = n)"
proof (cases "oc_enabled (ap_oidc st)")
  case True
  with assms obtain h token where h: "rq_authorization rq = Some h" "strip_prefix ''Bearer '' h = Some token"
    by (auto simp: check_identity_def split: option.splits)
  with assms True obtain r new where r: "validate_token lib (ap_oidc st) n token xs (ap_jwks st) = Some (r, xs', new)"
    "st' = st\<lparr>ap_jwks := new\<rparr>" "Inr t = map_sum (\<lambda>_. invalid) fst r"
    by (auto simp: check_identity_def run_bind_Some on_part_Some)
  then obtain c where c: "r = Inr (t, c)" by (cases r) auto
  have "h = ''Bearer '' @ token" using h(2) by (auto simp: strip_prefix_def starts_with_iff split: if_splits)
  with token_valid [OF r(1) [unfolded c]] True h r(2) show ?thesis by auto
qed (use assms in \<open>simp add: check_identity_def\<close>)

lemma request_proved:
  assumes "execute_handler lib n rq xs st = Some (Inr (resp, pl), xs', st')"
  shows "\<exists>t secret signature js g g'.
    (oc_enabled (ap_oidc st) \<longrightarrow> (\<exists>token c. rq_authorization rq = Some (''Bearer '' @ token) \<and>
       proves_identity lib (ap_oidc st) n (ap_jwks st) (ap_jwks st') token t c)) \<and>
    rq_signature rq = Some signature \<and> secret \<in> set (provider_secrets (ap_secrets st')) \<and>
    el_from_hex lib signature = Inr (cl_hmac (el_cloud lib) secret (rq_body rq)) \<and>
    cl_b64_decode (el_cloud lib) (rq_body rq) = Inr js \<and> el_payload lib js = Inr pl \<and>
    tl_limiters (ap_limiter st') = (tl_limiters (ap_limiter st))(pl_tenant_id pl \<mapsto> g') \<and> el_check lib t g = (True, g') \<and>
    g = (case tl_limiters (ap_limiter st) (pl_tenant_id pl) of Some g \<Rightarrow> g | None \<Rightarrow> el_limiter lib (tl_limit (ap_limiter st))) \<and>
    resp = accepted (pl_execution_id pl)"
proof -
  from assms obtain t xs1 st1 where id: "check_identity lib MissingOidcToken InvalidOidcToken n rq xs st = Some (Inr t, xs1, st1)"
    and rest: "(case extract_signature (rq_signature rq) of
         Inl _ \<Rightarrow> run_return (Inl MissingSignature)
       | Inr signature \<Rightarrow>
           run_bind (on_part ap_secrets (\<lambda>p st. st\<lparr>ap_secrets := p\<rparr>) (all_valid_secrets (el_cloud lib) t)) (\<lambda>secrets.
             if secrets = [] then run_return (Inl InvalidSignature)
             else if \<not> list_ex (\<lambda>s. verify_signature lib (rq_body rq) signature s = Inr ()) secrets
             then run_return (Inl InvalidSignature)
             else case decode_payload lib (rq_body rq) of
               Inl e \<Rightarrow> run_return (Inl e)
             | Inr pl \<Rightarrow>
                 run_ok (run_map_error RateLimitExceeded (check_limit lib t (pl_tenant_id pl))) (\<lambda>_.
                   run_return (Inr (accepted (pl_execution_id pl), pl))))) xs1 st1 = Some (Inr (resp, pl), xs', st')"
    unfolding execute_handler_def run_ok_Some [of "check_identity _ _ _ _ _"] by blast
  from rest obtain signature where s: "rq_signature rq = Some signature"
    by (cases "rq_signature rq") (auto simp: extract_signature_def)
  with rest obtain ss xs2 p2 where ss: "all_valid_secrets (el_cloud lib) t xs1 (ap_secrets st1) = Some (ss, xs2, p2)"
    and sig: "list_ex (\<lambda>s. verify_signature lib (rq_body rq) signature s = Inr ()) ss"
    and fin: "(case decode_payload lib (rq_body rq) of
               Inl e \<Rightarrow> run_return (Inl e)
             | Inr pl \<Rightarrow>
                 run_ok (run_map_error RateLimitExceeded (check_limit lib t (pl_tenant_id pl))) (\<lambda>_.
                   run_return (Inr (accepted (pl_execution_id pl), pl)))) xs2 (st1\<lparr>ap_secrets := p2\<rparr>) = Some (Inr (resp, pl), xs', st')"
    by (auto simp: extract_signature_def run_bind_Some on_part_Some split: if_splits)
  from fin obtain pl' where pl': "decode_payload lib (rq_body rq) = Inr pl'"
    by (auto split: sum.splits)
  with fin have lim: "check_limit lib t (pl_tenant_id pl') xs2 (st1\<lparr>ap_secrets := p2\<rparr>) = Some (Inr (), xs', st')"
    and "resp = accepted (pl_execution_id pl')" "pl' = pl"
    by (auto simp: run_ok_Some map_error_Inr)
  note i = identity_checked [OF id]
  from lim have st': "ap_secrets st' = p2" "ap_jwks st' = ap_jwks st1"
    by (auto simp: check_limit_def split: option.splits)
  have "\<exists>g g'. tl_limiters (ap_limiter st') = (tl_limiters (ap_limiter st))(pl_tenant_id pl' \<mapsto> g') \<and> el_check lib t g = (True, g') \<and>
      g = (case tl_limiters (ap_limiter st) (pl_tenant_id pl') of Some g \<Rightarrow> g | None \<Rightarrow> el_limiter lib (tl_limit (ap_limiter st)))"
    using lim i by (auto simp: check_limit_def check_tenant_def Let_def split: option.splits if_splits prod.splits)
  moreover have "\<exists>js. cl_b64_decode (el_cloud lib) (rq_body rq) = Inr js \<and> el_payload lib js = Inr pl'"
  proof (cases "cl_b64_decode (el_cloud lib) (rq_body rq)")
    case (Inr js)
    with pl' show ?thesis by (cases "el_payload lib js") (auto simp: decode_payload_def)
  qed (use pl' in \<open>simp add: decode_payload_def\<close>)
  moreover have "\<exists>secret. secret \<in> set (provider_secrets (ap_secrets st')) \<and>
      el_from_hex lib signature = Inr (cl_hmac (el_cloud lib) secret (rq_body rq))"
    using sig provider_state [OF ss] st' by (auto simp: list_ex_iff signature_valid)
  ultimately show ?thesis
    using i s st' \<open>resp = accepted (pl_execution_id pl')\<close> \<open>pl' = pl\<close> by (auto split: if_splits)
qed

text \<open>
  C8: what a request has proved when an execution is started. The handler hands a payload to the
  executor only when the token proves the caller's identity (if tokens are required): it verifies
  with a key of a set of keys fetched within the last hour or just now, for the configured audience
  and issuer and not out of its time; the signature is the keyed hash of the body under a secret that
  is now in use; the body decodes to this payload; and the limiter of the payload's tenant admits it.
  The answer names the execution of the payload.
\<close>

theorem handler_authenticated:
  assumes "execute_handler lib n rq xs st = Some (Inr (resp, pl), xs', st')"
  shows "\<exists>t secret signature js g g'.
    (oc_enabled (ap_oidc st) \<longrightarrow> (\<exists>token c. rq_authorization rq = Some (''Bearer '' @ token) \<and>
       proves_identity lib (ap_oidc st) n (ap_jwks st) (ap_jwks st') token t c)) \<and>
    rq_signature rq = Some signature \<and> secret \<in> set (provider_secrets (ap_secrets st')) \<and>
    el_from_hex lib signature = Inr (cl_hmac (el_cloud lib) secret (rq_body rq)) \<and>
    cl_b64_decode (el_cloud lib) (rq_body rq) = Inr js \<and> el_payload lib js = Inr pl \<and>
    tl_limiters (ap_limiter st') = (tl_limiters (ap_limiter st))(pl_tenant_id pl \<mapsto> g') \<and> el_check lib t g = (True, g') \<and>
    g = (case tl_limiters (ap_limiter st) (pl_tenant_id pl) of Some g \<Rightarrow> g | None \<Rightarrow> el_limiter lib (tl_limit (ap_limiter st))) \<and>
    resp = accepted (pl_execution_id pl)"
  by (rule request_proved [OF assms])

section \<open>Rate limits\<close>

text \<open>The answers to a series of requests.\<close>

fun limiter_series :: "('k, 'd, 'g) entry_lib \<Rightarrow> 'g tenant_limiter \<Rightarrow> (time \<times> tenant) list \<Rightarrow> (tenant \<times> (rate_limit_error + unit)) list option" where
  "limiter_series lib l [] = Some []"
| "limiter_series lib l ((n, u) # rs) =
     (case check_tenant lib n u l of
        None \<Rightarrow> None
      | Some (r, l') \<Rightarrow> map_option (Cons (u, r)) (limiter_series lib l' rs))"

definition same_for :: "tenant \<Rightarrow> 'g tenant_limiter \<Rightarrow> 'g tenant_limiter \<Rightarrow> bool" where
  "same_for u l l' \<longleftrightarrow> tl_limit l = tl_limit l' \<and> tl_limiters l u = tl_limiters l' u"

lemma check_own:
  assumes "same_for u l k" "tl_limit l \<noteq> 0"
  shows "\<exists>r l' k'. check_tenant lib n u l = Some (r, l') \<and> check_tenant lib n u k = Some (r, k') \<and> same_for u l' k' \<and> tl_limit l' = tl_limit l"
  using assms by (auto simp: check_tenant_def same_for_def Let_def split: option.splits prod.splits)

lemma check_other:
  assumes "v \<noteq> u" "tl_limit l \<noteq> 0"
  shows "\<exists>r l'. check_tenant lib n v l = Some (r, l') \<and> same_for u l' l"
  using assms by (auto simp: check_tenant_def same_for_def Let_def split: option.splits prod.splits)

lemma series_same:
  assumes "same_for u l k" "tl_limit l \<noteq> 0"
  shows "map_option (filter (\<lambda>p. fst p = u)) (limiter_series lib l rs) = limiter_series lib k (filter (\<lambda>p. snd p = u) rs)"
  using assms
proof (induction rs arbitrary: l k)
  case (Cons p rs)
  obtain n v where p: "p = (n, v)" by (cases p)
  show ?case
  proof (cases "v = u")
    case True
    obtain r l' k' where c: "check_tenant lib n u l = Some (r, l')" "check_tenant lib n u k = Some (r, k')"
      "same_for u l' k'" "tl_limit l' = tl_limit l" using check_own [OF Cons.prems] by blast
    have "map_option (filter (\<lambda>p. fst p = u)) (limiter_series lib l' rs) = limiter_series lib k' (filter (\<lambda>p. snd p = u) rs)"
      by (rule Cons.IH [OF c(3)]) (use c(4) Cons.prems in simp)
    from this [symmetric] show ?thesis using True p c(1,2) by (cases "limiter_series lib l' rs") simp_all
  next
    case False
    obtain r l' where c: "check_tenant lib n v l = Some (r, l')" "same_for u l' l"
      using check_other [OF False Cons.prems(2)] by blast
    have "same_for u l' k" "tl_limit l' \<noteq> 0" using c(2) Cons.prems by (simp_all add: same_for_def)
    from Cons.IH [OF this] show ?thesis using False p c(1) by (cases "limiter_series lib l' rs") auto
  qed
qed simp

text \<open>
  C31: tenants do not share their limits. In any series of requests, the answers a tenant gets are those
  it would get if it were alone, whatever the others send and whatever the limiter of the library does.
\<close>

theorem rate_limit_isolation:
  assumes "tl_limit l \<noteq> 0"
  shows "map_option (filter (\<lambda>p. fst p = u)) (limiter_series lib l rs) = limiter_series lib l (filter (\<lambda>p. snd p = u) rs)"
  by (rule series_same) (use assms in \<open>simp_all add: same_for_def\<close>)

section \<open>Secrets\<close>

definition secrets_ok :: "secret_manager \<Rightarrow> bool" where
  "secrets_ok m \<longleftrightarrow> se_secrets m \<noteq> [] \<and> length (se_secrets m) \<le> 2 \<and>
     (\<forall>s\<in>set (se_secrets m). validate_secret (sv_value s) = Inr ())"

lemma fetch_keeps:
  assumes "fetch_secret_version lib n v xs m = Some (r, xs', m')"
  shows "se_secrets m' = se_secrets m \<and> se_last_refresh m' = se_last_refresh m"
  using assms by (auto simp: fetch_secret_version_def run_ok_Some run_bind_Some on_part_Some split: prod.splits)

lemma refresh_outcome:
  assumes "refresh_secrets lib n xs m = Some (r, xs', m')"
  shows "(case r of Inl _ \<Rightarrow> se_secrets m' = se_secrets m \<and> se_last_refresh m' = se_last_refresh m | Inr _ \<Rightarrow> secrets_ok m')"
proof -
  from assms consider
      (err) e where "fetch_secret_version lib n ''latest'' xs m = Some (Inl e, xs', m')" "r = Inl e"
    | (got) t latest xs1 m1 where "fetch_secret_version lib n ''latest'' xs m = Some (Inr (t, latest), xs1, m1)"
        "(case validate_secret (sv_value latest) of
           Inl e \<Rightarrow> run_return (Inl e)
         | Inr _ \<Rightarrow>
             run_bind (fetch_secret_version lib t ''1'') (\<lambda>r.
               let t' = (case r of Inl _ \<Rightarrow> t | Inr (t', _) \<Rightarrow> t');
                   older = (case r of
                     Inl _ \<Rightarrow> []
                   | Inr (_, p) \<Rightarrow> if sv_version p \<noteq> sv_version latest \<and> validate_secret (sv_value p) = Inr () then [p] else []) in
               run_bind (run_modify (\<lambda>m. m\<lparr>se_secrets := latest # older, se_last_refresh := t'\<rparr>)) (\<lambda>_.
                 run_return (Inr ())))) xs1 m1 = Some (r, xs', m')"
    unfolding refresh_secrets_def run_ok_Some by (auto split: prod.splits)
  then show ?thesis
  proof cases
    case err
    from fetch_keeps [OF err(1)] err(2) show ?thesis by simp
  next
    case got
    note keep = fetch_keeps [OF got(1)]
    show ?thesis
    proof (cases "validate_secret (sv_value latest)")
      case (Inl e)
      with got(2) have "r = Inl e" "m' = m1" by auto
      with keep show ?thesis by simp
    next
      case (Inr v)
      with got(2) obtain q m2 older where "r = Inr ()" "se_secrets m' = latest # older"
        "older = [] \<or> (\<exists>p. older = [p] \<and> validate_secret (sv_value p) = Inr ())"
        by (auto simp: run_bind_Some Let_def split: sum.splits prod.splits if_splits)
      with Inr show ?thesis by (auto simp: secrets_ok_def)
    qed
  qed
qed

lemma initialized:
  assumes "initialize_secrets lib n xs m = Some (Inr (), xs', m')"
  shows "secrets_ok m'"
proof (cases "refresh_secrets lib n xs m")
  case None
  with assms show ?thesis by (simp add: initialize_secrets_def run_ok_def run_bind_def)
next
  case (Some p)
  obtain r xs3 m3 where p: "p = (r, xs3, m3)" by (cases p)
  with Some assms show ?thesis
    using refresh_outcome [of lib n xs m r xs3 m3]
    by (cases r) (simp_all add: initialize_secrets_def run_ok_def run_bind_def run_get_def run_return_def)
qed

text \<open>Requests for the secrets at several times.\<close>

fun secret_series :: "cloud_lib \<Rightarrow> time list \<Rightarrow> (secret_manager, string list list) net" where
  "secret_series lib [] = run_return []"
| "secret_series lib (n # ns) = run_bind (get_valid_secrets lib n) (\<lambda>ss. run_bind (secret_series lib ns) (\<lambda>r. run_return (ss # r)))"

lemma valid_secrets_ok:
  assumes "secrets_ok m" "get_valid_secrets lib n xs m = Some (ss, xs', m')"
  shows "secrets_ok m'"
proof -
  from assms(2) obtain r where "m' = m \<or> refresh_secrets lib n xs m = Some (r, xs', m')"
    by (auto simp: get_valid_secrets_def run_bind_Some split: if_splits)
  then show ?thesis
    using assms(1) refresh_outcome [of lib n xs m r xs' m'] by (cases r) (auto simp: secrets_ok_def)
qed

text \<open>
  C30: the secrets in use have been validated. After a successful initialization, and after any further
  series of requests for the secrets, at any times and whatever the network answers, there are one or
  two secrets, each of at least 32 bytes and not made of one repeated character, and these are the
  secrets returned. A refresh that fails keeps the secrets as they are.
\<close>

theorem secrets_validated:
  assumes "initialize_secrets lib n xs m = Some (Inr (), xs1, m1)" "secret_series lib ns xs1 m1 = Some (rss, xs2, m2)"
  shows "secrets_ok m2 \<and> (\<forall>ss\<in>set rss. 1 \<le> length ss \<and> length ss \<le> 2 \<and>
    (\<forall>s\<in>set ss. 32 \<le> length s \<and> \<not> (\<exists>c. set (utf8_chars s) = {c})))"
proof -
  have good: "1 \<le> length ss \<and> length ss \<le> 2 \<and> (\<forall>s\<in>set ss. 32 \<le> length s \<and> \<not> (\<exists>c. set (utf8_chars s) = {c}))"
    if "secrets_ok m" "ss = map sv_value (se_secrets m)" for ss and m :: secret_manager
  proof -
    have "32 \<le> length s \<and> \<not> (\<exists>c. set (utf8_chars s) = {c})" if "validate_secret s = Inr ()" for s
    proof -
      from that have "32 \<le> length s" "\<not> list_all (\<lambda>c. c = hd (utf8_chars s)) (utf8_chars s)"
        by (auto simp: validate_secret_def min_secret_length_def split: if_splits)
      moreover have "list_all (\<lambda>c. c = hd xs) xs" if "set xs = {c}" for c and xs :: "string list"
        using that by (cases xs) (auto simp: list_all_iff)
      ultimately show ?thesis by blast
    qed
    with that show ?thesis by (cases "se_secrets m") (auto simp: secrets_ok_def)
  qed
  have "secrets_ok m1" by (rule initialized [OF assms(1)])
  then show ?thesis
    using assms(2)
  proof (induction ns arbitrary: xs1 m1 rss)
    case (Cons k ns)
    from Cons.prems(2) obtain ss xs3 m3 rss' where s: "get_valid_secrets lib k xs1 m1 = Some (ss, xs3, m3)"
      "secret_series lib ns xs3 m3 = Some (rss', xs2, m2)" "rss = ss # rss'"
      by (auto simp: run_bind_Some)
    note ok = valid_secrets_ok [OF Cons.prems(1) s(1)]
    from Cons.IH [OF ok s(2)] good [OF ok valid_secrets_state [OF s(1)]] s(3) show ?case by auto
  qed simp
qed

section \<open>Posting tasks\<close>

declare call_cloud_tasks_api.simps [simp del]


text \<open>
  No answer of a service trips a breaker. Whatever status an answer has, 5xx and 429 included, the
  request counts as a success: the breaker is closed afterwards and has counted no failure.
\<close>

lemma answers_reset_breaker:
  assumes "send_guarded cfg n xs b = Some (Inr (t, rep), xs', b')"
  shows "circuit b' = Closed \<and> consecutive_failures b' = 0 \<and> last_failure_time b' = None \<and> \<not> probe_in_progress b'"
proof -
  from assms obtain probe b1 where "b' = breaker_success b1"
    by (auto simp: send_guarded_def breaker_finish_def split: prod.splits option.splits list.splits sum.splits)
  then show ?thesis by (simp add: breaker_success_def)
qed

definition posts :: "cloud_task \<Rightarrow> nat \<Rightarrow> queue \<Rightarrow> queue \<Rightarrow> bool" where
  "posts tsk k q q' \<longleftrightarrow> qu_posted q' = qu_posted q @ replicate k tsk"

lemma posts_more: "posts tsk k (q\<lparr>qu_breaker := b, qu_posted := qu_posted q @ [tsk]\<rparr>) q' \<longleftrightarrow> posts tsk (Suc k) q q'"
  by (simp add: posts_def)

lemma call_posts:
  assumes "call_cloud_tasks_api lib tsk left wait n xs q = Some (r, xs', q')"
  shows "\<exists>k\<le>Suc left. posts tsk k q q' \<and> ((\<exists>nm. r = Inr nm) \<longrightarrow> 1 \<le> k)"
  using assms
proof (induction left arbitrary: wait n xs q)
  case (0 wait n xs q)
  obtain y xs1 b where y: "send_guarded (qu_config q) n xs (qu_breaker q) = Some (y, xs1, b)"
    using 0 by (auto simp: call_cloud_tasks_api.simps [of lib tsk 0] run_bind_Some on_part_Some)
  show ?case
  proof (cases "y = Inl Circuit_open")
    case True
    with 0 y have "posts tsk 0 q q'" "\<nexists>nm. r = Inr nm"
      by (auto simp: call_cloud_tasks_api.simps [of lib tsk 0] run_bind_Some on_part_Some posts_def)
    then show ?thesis by blast
  next
    case False
    with 0 y have "posts tsk 1 q q'"
      by (auto simp: call_cloud_tasks_api.simps [of lib tsk 0] run_bind_Some on_part_Some posts_def
          split: sum.splits breaker_error.splits prod.splits if_splits)
    then show ?thesis by (intro exI [of _ 1]) simp
  qed
next
  case (Suc left wait n xs q)
  obtain y xs1 b where y: "send_guarded (qu_config q) n xs (qu_breaker q) = Some (y, xs1, b)"
    using Suc.prems by (auto simp: call_cloud_tasks_api.simps [of lib tsk "Suc left"] run_bind_Some on_part_Some)
  let ?q = "q\<lparr>qu_breaker := b, qu_posted := qu_posted q @ [tsk]\<rparr>"
  show ?case
  proof (cases "y = Inl Circuit_open")
    case True
    with Suc.prems y have "posts tsk 0 q q'" "\<nexists>nm. r = Inr nm"
      by (auto simp: call_cloud_tasks_api.simps [of lib tsk "Suc left"] run_bind_Some on_part_Some posts_def)
    then show ?thesis by blast
  next
    case False
    with Suc.prems y have "q' = ?q \<or> (\<exists>wait n. call_cloud_tasks_api lib tsk left wait n xs1 ?q = Some (r, xs', q'))"
      by (auto simp: call_cloud_tasks_api.simps [of lib tsk "Suc left"] run_bind_Some on_part_Some
          split: sum.splits breaker_error.splits prod.splits if_splits option.splits)
    then have "\<exists>k\<le>Suc left. posts tsk k ?q q'"
    proof (elim disjE exE)
      fix wait n
      assume "call_cloud_tasks_api lib tsk left wait n xs1 ?q = Some (r, xs', q')"
      from Suc.IH [OF this] show ?thesis by blast
    qed (auto simp: posts_def)
    then obtain k where "k \<le> Suc left" "posts tsk k ?q q'" by blast
    then show ?thesis by (intro exI [of _ "Suc k"]) (simp add: posts_more)
  qed
qed

text \<open>A request uses one exchange at most.\<close>

lemma guarded_returns:
  "xs \<noteq> [] \<Longrightarrow> \<exists>r xs' b'. send_guarded cfg n xs b = Some (r, xs', b') \<and> length xs \<le> length xs' + 1"
  by (cases xs; cases "breaker_enter cfg n b") (auto simp: send_guarded_def split: option.splits)

lemma token_returns:
  assumes "xs \<noteq> []"
  shows "\<exists>r xs' a'. get_access_token lib n scope xs a = Some (r, xs', a') \<and> length xs \<le> length xs' + 1"
proof -
  have meta: "\<exists>r xs' a'. fetch_access_token_from_metadata lib xs a = Some (r, xs', a') \<and> length xs \<le> length xs' + 1"
    using assms by (cases xs) (simp_all add: fetch_access_token_from_metadata_def run_bind_def send_def run_return_def)
  have jwt: "\<exists>r xs' a'. fetch_access_token_via_jwt lib n scope xs a = Some (r, xs', a') \<and> length xs \<le> length xs' + 1"
  proof (cases "au_mode a")
    case (ServiceAccount c)
    obtain r xs' b' where "send_guarded (au_config a) n xs (au_breaker a) = Some (r, xs', b')" "length xs \<le> length xs' + 1"
      using guarded_returns [OF assms] by blast
    with ServiceAccount show ?thesis
      by (cases "cl_assertion lib c scope n")
        (simp_all add: fetch_access_token_via_jwt_def run_bind_def on_part_def run_return_def run_get_def)
  qed (simp add: fetch_access_token_via_jwt_def run_return_def)
  have step: "\<exists>r xs' a'. run_ok f g xs a = Some (r, xs', a') \<and> length xs \<le> length xs' + 1"
    if "\<exists>r xs' a'. f xs a = Some (r, xs', a') \<and> length xs \<le> length xs' + 1"
      and tail: "\<And>t xs a. \<exists>r a'. g t xs a = Some (r, xs, a')" for f :: "(gcp_auth, cloud_error + time \<times> access_token) net"
      and g :: "time \<times> access_token \<Rightarrow> (gcp_auth, cloud_error + time \<times> string) net"
  proof -
    from that(1) obtain r xs' a' where f: "f xs a = Some (r, xs', a')" "length xs \<le> length xs' + 1" by blast
    show ?thesis
    proof (cases r)
      case (Inr t)
      obtain r' a'' where "g t xs' a' = Some (r', xs', a'')" using tail by blast
      with f Inr show ?thesis by (simp add: run_ok_def run_bind_def)
    qed (use f in \<open>simp add: run_ok_def run_bind_def run_return_def\<close>)
  qed
  let ?g = "\<lambda>(m :: time, t). run_bind (run_modify (\<lambda>a. a\<lparr>au_cache := Some t\<rparr>)) (\<lambda>_. run_return (Inr (m, tok_value t)))"
  have tail: "\<exists>r a'. ?g p xs a = Some (r, xs, a')" for p and xs :: "exchange list" and a
    by (cases p) (simp add: run_bind_def run_modify_def run_return_def)
  show ?thesis
    unfolding get_access_token_def
    using step [of "fetch_access_token_from_metadata lib" ?g, OF meta tail]
      step [of "fetch_access_token_via_jwt lib n scope" ?g, OF jwt tail]
    by (auto simp: run_return_def split: option.splits auth_mode.splits)
qed

lemma call_returns:
  assumes "Suc left \<le> length xs"
  shows "\<exists>r xs' q'. call_cloud_tasks_api lib tsk left wait n xs q = Some (r, xs', q')"
  using assms
proof (induction left arbitrary: wait n xs q)
  case 0
  then have "xs \<noteq> []" by auto
  from guarded_returns [OF this] obtain y xs1 b where
    y: "send_guarded (qu_config q) n xs (qu_breaker q) = Some (y, xs1, b)" by blast
  then show ?case
    by (auto simp: call_cloud_tasks_api.simps [of lib tsk 0] run_bind_def on_part_def run_get_def run_modify_def run_return_def
        split: sum.splits breaker_error.splits)
next
  case (Suc left)
  then have "xs \<noteq> []" by auto
  from guarded_returns [OF this] obtain y xs1 b where
    y: "send_guarded (qu_config q) n xs (qu_breaker q) = Some (y, xs1, b)" "length xs \<le> length xs1 + 1" by blast
  from y(2) Suc.prems have "Suc left \<le> length xs1" by simp
  note IH = Suc.IH [OF this]
  show ?case
    using y(1) IH
    by (auto simp: call_cloud_tasks_api.simps [of lib tsk "Suc left"] run_bind_def on_part_def run_get_def run_modify_def
        run_return_def split: sum.splits breaker_error.splits option.splits)
qed

lemma enqueue_posts:
  assumes "4 \<le> length xs"
  shows "\<exists>r xs' q' k t. cloud_enqueue lib n tsk xs q = Some (r, xs', q') \<and> k \<le> 3 \<and>
    qu_posted q' = qu_posted q @ replicate k t \<and> ((\<exists>nm. r = Inr nm) \<longrightarrow> 1 \<le> k) \<and>
    (\<forall>p. cl_payload_json lib tsk = Inr p \<longrightarrow> t = \<lparr>ct_url = qu_worker_url q @ ''/execute'',
       ct_signature = sign_payload lib p (qu_secret q), ct_body = cl_b64_encode lib p,
       ct_email = service_account_email (qu_auth q)\<rparr>)"
proof (cases "cl_payload_json lib tsk")
  case (Inl e)
  then show ?thesis
    by (intro exI [of _ "Inl (Internal (''Failed to serialize payload: '' @ e))"] exI [of _ xs] exI [of _ q] exI [of _ 0])
      (simp add: cloud_enqueue_def run_return_def)
next
  case (Inr p)
  let ?t = "\<lparr>ct_url = qu_worker_url q @ ''/execute'', ct_signature = sign_payload lib p (qu_secret q),
    ct_body = cl_b64_encode lib p, ct_email = service_account_email (qu_auth q)\<rparr>"
  have "xs \<noteq> []" using assms by auto
  from token_returns [OF this] obtain y xs1 a where
    y: "get_access_token lib n scope_cloud xs (qu_auth q) = Some (y, xs1, a)" "length xs \<le> length xs1 + 1" by blast
  have "\<exists>r xs' q' k. cloud_enqueue lib n tsk xs q = Some (r, xs', q') \<and> k \<le> 3 \<and> posts ?t k q q' \<and> ((\<exists>nm. r = Inr nm) \<longrightarrow> 1 \<le> k)"
  proof (cases y)
    case (Inl e)
    with y(1) Inr show ?thesis
      by (intro exI [of _ "Inl e"] exI [of _ xs1] exI [of _ "q\<lparr>qu_auth := a\<rparr>"] exI [of _ 0])
        (simp add: cloud_enqueue_def create_cloud_task_def run_bind_def run_ok_def run_get_def on_part_def run_return_def posts_def)
  next
    case (Inr mt)
    obtain m v where mt: "mt = (m, v)" by (cases mt)
    let ?q = "q\<lparr>qu_auth := a\<rparr>"
    have "Suc 2 \<le> length xs1" using y(2) assms by simp
    from call_returns [OF this] obtain r xs' q' where
      r: "call_cloud_tasks_api lib ?t 2 100 m xs1 ?q = Some (r, xs', q')" by blast
    from call_posts [OF r] obtain k where "k \<le> Suc 2" "posts ?t k ?q q'" "(\<exists>nm. r = Inr nm) \<longrightarrow> 1 \<le> k" by blast
    moreover have "cloud_enqueue lib n tsk xs q = Some (r, xs', q')"
      using r y(1) Inr mt \<open>cl_payload_json lib tsk = Inr p\<close>
      by (simp add: cloud_enqueue_def create_cloud_task_def run_bind_def run_ok_def run_get_def on_part_def max_retries_def numeral_2_eq_2)
    ultimately show ?thesis by (intro exI [of _ r] exI [of _ xs'] exI [of _ q'] exI [of _ k]) (simp add: posts_def)
  qed
  with Inr show ?thesis by (auto simp: posts_def)
qed

text \<open>
  C26: enqueuing a task returns and posts it at most three times. One answer of the network for the
  access token and three for the task are enough, whatever they are. Every post is the same: the
  payload in base64, with the signature of the payload under the queue's secret, for the \<open>execute\<close>
  entry of the worker and with the identity of the queue's account. A name is returned only after a
  post.
\<close>

theorem enqueue_bounded:
  assumes "4 \<le> length xs"
  shows "\<exists>r xs' q' k t. cloud_enqueue lib n tsk xs q = Some (r, xs', q') \<and> k \<le> 3 \<and>
    qu_posted q' = qu_posted q @ replicate k t \<and> ((\<exists>nm. r = Inr nm) \<longrightarrow> 1 \<le> k) \<and>
    (\<forall>p. cl_payload_json lib tsk = Inr p \<longrightarrow> t = \<lparr>ct_url = qu_worker_url q @ ''/execute'',
       ct_signature = sign_payload lib p (qu_secret q), ct_body = cl_b64_encode lib p,
       ct_email = service_account_email (qu_auth q)\<rparr>)"
  by (rule enqueue_posts [OF assms])

section \<open>From the queue to the worker\<close>

text \<open>The secrets, the body and the signature of an accepted request.\<close>

lemma accepted_request:
  assumes "execute_handler lib n rq xs st = Some (Inr a, xs', st')"
  shows "\<exists>secret signature js. rq_signature rq = Some signature \<and> secret \<in> set (provider_secrets (ap_secrets st')) \<and>
    el_from_hex lib signature = Inr (cl_hmac (el_cloud lib) secret (rq_body rq)) \<and>
    cl_b64_decode (el_cloud lib) (rq_body rq) = Inr js"
proof -
  obtain resp pl where a: "a = (resp, pl)" by (cases a)
  from request_proved [OF assms [unfolded a]] show ?thesis by blast
qed

text \<open>
  C9: no task of the queue is accepted by the worker. The queue signs the JSON of the payload and posts
  it in base64; the worker verifies the signature of the very body that it then decodes from base64. So
  a task is rejected when it arrives with the decoded body, which is JSON and not base64, and when it
  arrives with the body as posted, which is not what was signed. The hypotheses are that base64 has no
  brace, that hexadecimal digits are decoded to what they encode, and that the keyed hash of the posted
  body differs, under the secrets in use, from that of the payload under the queue's secret.
\<close>

theorem tasks_never_accepted:
  assumes payload: "cl_payload_json (el_cloud lib) tsk = Inr (CHR ''{'' # p)"
    and base64: "\<And>s js. cl_b64_decode (el_cloud lib) s = Inr js \<Longrightarrow> CHR ''{'' \<notin> set s"
    and hex: "\<And>b. el_from_hex lib (cl_hex (el_cloud lib) b) = Inr b"
    and posted: "4 \<le> length ys" "cloud_enqueue (el_cloud lib) n tsk ys q = Some (r, ys', q')" "qu_posted q = []" "t \<in> set (qu_posted q')"
    and arrives: "rq_signature rq = Some (ct_signature t)" "rq_body rq \<in> {CHR ''{'' # p, ct_body t}"
    and handled: "execute_handler lib m rq xs st = Some (res, xs', st')"
    and hash: "\<And>s. s \<in> set (provider_secrets (ap_secrets st')) \<Longrightarrow>
      cl_hmac (el_cloud lib) s (ct_body t) \<noteq> cl_hmac (el_cloud lib) (qu_secret q) (CHR ''{'' # p)"
  shows "\<exists>e. res = Inl e"
proof (cases res)
  case (Inr a)
  from enqueue_posts [OF posted(1), of "el_cloud lib" n tsk q] posted payload
  have "ct_signature t = sign_payload (el_cloud lib) (CHR ''{'' # p) (qu_secret q)" by auto
  with arrives hex have sg: "rq_signature rq = Some signature \<Longrightarrow>
      el_from_hex lib signature = Inr (cl_hmac (el_cloud lib) (qu_secret q) (CHR ''{'' # p))" for signature
    by (auto simp: sign_payload_def)
  obtain secret signature js where a: "rq_signature rq = Some signature" "secret \<in> set (provider_secrets (ap_secrets st'))"
    "el_from_hex lib signature = Inr (cl_hmac (el_cloud lib) secret (rq_body rq))"
    "cl_b64_decode (el_cloud lib) (rq_body rq) = Inr js"
    using accepted_request [OF handled [unfolded Inr]] by blast
  from base64 [OF a(4)] arrives(2) have "rq_body rq = ct_body t" by auto
  with a(3) sg [OF a(1)] hash [OF a(2)] show ?thesis by simp
qed simp

section \<open>Concrete requests\<close>

text \<open>A codec without braces, a readable keyed hash and a limiter that counts down.\<close>

definition plain_encode :: "string \<Rightarrow> string" where
  "plain_encode s = concat (map (\<lambda>c. if c = CHR ''{'' then ''aa'' else [CHR ''b'', c]) s)"

fun plain_decode :: "string \<Rightarrow> string + string" where
  "plain_decode [] = Inr []"
| "plain_decode [c] = Inl ''odd''"
| "plain_decode (c # d # s) =
     (if c = CHR ''a'' \<and> d = CHR ''a'' then map_sum id (Cons (CHR ''{'')) (plain_decode s)
      else if c = CHR ''b'' \<and> d \<noteq> CHR ''{'' then map_sum id (Cons d) (plain_decode s)
      else Inl ''no digit'')"

lemma plain_decode_braces: "plain_decode s = Inr js \<Longrightarrow> CHR ''{'' \<notin> set s"
proof (induction s arbitrary: js rule: plain_decode.induct)
  case (3 c d s)
  then show ?case by (cases "plain_decode s") (auto split: if_splits)
qed simp_all

definition long_secret :: string where
  "long_secret = ''0123456789abcdef0123456789abcdef''"

definition plain_cloud :: cloud_lib where
  "plain_cloud = \<lparr>cl_status = show_nat, cl_b64_encode = plain_encode, cl_b64_decode = plain_decode, cl_utf8 = Inr,
     cl_hmac = (\<lambda>k p. k @ ''/'' @ p), cl_hex = id, cl_assertion = (\<lambda>_ _ _. Inr ''jwt''),
     cl_token = (\<lambda>_. Inr (''token'', 3600)),
     cl_secret = (\<lambda>_. Inr (''projects/p/secrets/s/versions/2'', plain_encode long_secret)),
     cl_task_name = (\<lambda>_. Inr (Some ''task'')), cl_payload_json = (\<lambda>_. Inr ''{}''), cl_jitter = id\<rparr>"

definition plain_payload :: payload where
  "plain_payload = \<lparr>pl_execution_id = ''x'', pl_workflow_id = ''w'', pl_tenant_id = ''acme'', pl_idempotency_key = None,
     pl_execution_plan = [], pl_partition_context = None\<rparr>"

definition plain_entry :: "(string, string, nat) entry_lib" where
  "plain_entry = \<lparr>el_header = Inr \<circ> Some, el_jwks = (\<lambda>_. Inr [(Some ''kid'', ''key'')]), el_key = Inr,
     el_decode = (\<lambda>_ _ aud iss n. Inr \<lparr>cm_iss = iss, cm_aud = aud, cm_exp = n, cm_iat = 0, cm_nbf = None, cm_email = ''me''\<rparr>),
     el_payload = (\<lambda>_. Inr plain_payload), el_from_hex = Inr, el_limiter = id, el_check = (\<lambda>_ g. (0 < g, g - 1)),
     el_cloud = plain_cloud\<rparr>"

definition fine :: exchange where
  "fine = \<lparr>ex_end = 5, ex_result = Inr \<lparr>hr_status = 200, hr_body = Some [], hr_retry_after = None\<rparr>\<rparr>"

definition busy :: exchange where
  "busy = \<lparr>ex_end = 7, ex_result = Inr \<lparr>hr_status = 429, hr_body = Some [], hr_retry_after = None\<rparr>\<rparr>"

definition plain_auth :: gcp_auth where
  "plain_auth = \<lparr>au_mode = MetadataServer ''me'', au_cache = None, au_config = breaker_config_default, au_breaker = breaker_new\<rparr>"

definition plain_queue :: queue where
  "plain_queue = \<lparr>qu_project = ''p'', qu_location = ''l'', qu_name = ''q'', qu_worker_url = ''https://w'',
     qu_secret = long_secret, qu_auth = plain_auth, qu_config = breaker_config_default, qu_breaker = breaker_new,
     qu_posted = []\<rparr>"

definition plain_task :: task where
  "plain_task = \<lparr>task_execution_id = ''x'', task_workflow_id = ''w'', task_tenant = ''acme'', task_idempotency_key = None,
     task_plan = [], task_partition = None\<rparr>"

definition open_state :: "(string, nat) app_state" where
  "open_state = \<lparr>ap_oidc = \<lparr>oc_enabled = True, oc_issuer = ''https://i'', oc_jwks_url = ''https://j'', oc_expected_audience = ''w''\<rparr>,
     ap_jwks = None, ap_secrets = \<lparr>sp_manager = None, sp_hmac_fallback = Some long_secret\<rparr>,
     ap_limiter = \<lparr>tl_limit = 1, tl_limiters = Map.empty\<rparr>\<rparr>"

text \<open>A request as the tests of the contract sign it, and one as the queue does.\<close>

definition signed_request :: request where
  "signed_request = \<lparr>rq_authorization = Some ''Bearer kid'',
     rq_signature = Some (long_secret @ ''/'' @ plain_encode ''{}''), rq_body = plain_encode ''{}''\<rparr>"

definition queued_request :: request where
  "queued_request = \<lparr>rq_authorization = Some ''Bearer kid'', rq_signature = Some (long_secret @ ''/{}''), rq_body = ''{}''\<rparr>"

definition answer_of :: "'e + execute_response \<times> payload \<Rightarrow> 'e + uuid" where
  "answer_of r = map_sum id (pl_execution_id \<circ> snd) r"

lemma signed_run: "map_option (\<lambda>(r, xs, st). answer_of r) (execute_handler plain_entry 0 signed_request [fine] open_state) =
    Some (Inr ''x'')"
  by code_simp

lemma queued_run: "map_option (\<lambda>(r, xs, st). (answer_of r, provider_secrets (ap_secrets st)))
    (execute_handler plain_entry 0 queued_request [fine] open_state) =
    Some (Inl (InvalidPayload ''Invalid base64 encoding''), [long_secret])"
  by code_simp

lemma run_fst: "map_option fst x = Some r \<longleftrightarrow> (\<exists>y. x = Some (r, y))"
  by auto

theorem handler_authenticated_witness:
  "\<exists>resp pl xs' st'. execute_handler plain_entry 0 signed_request [fine] open_state = Some (Inr (resp, pl), xs', st') \<and>
    resp = accepted ''x'' \<and> (\<exists>secret. secret \<in> set (provider_secrets (ap_secrets st')) \<and>
      el_from_hex plain_entry (long_secret @ ''/'' @ plain_encode ''{}'') = Inr (cl_hmac plain_cloud secret (plain_encode ''{}'')))"
proof -
  obtain r xs' st' where run: "execute_handler plain_entry 0 signed_request [fine] open_state = Some (r, xs', st')"
    "answer_of r = Inr ''x''"
    using signed_run by auto
  then obtain resp pl where r: "r = Inr (resp, pl)" "pl_execution_id pl = ''x''" by (cases r) (auto simp: answer_of_def)
  from handler_authenticated [OF run(1) [unfolded r(1)]] run(1) r show ?thesis
    by (auto simp: signed_request_def plain_entry_def)
qed

theorem rate_limit_isolation_witness:
  "map_option (filter (\<lambda>p. fst p = ''a'')) (limiter_series plain_entry \<lparr>tl_limit = 1, tl_limiters = Map.empty\<rparr>
      [(0, ''b''), (0, ''b''), (0, ''a''), (1, ''a'')]) =
    Some [(''a'', Inr ()), (''a'', Inl (TenantLimitExceeded ''a'' 1))]"
  by (subst rate_limit_isolation) (simp, code_simp)

definition plain_secrets :: secret_manager where
  "plain_secrets = secret_manager_new 0 ''p'' ''s'' plain_auth breaker_config_default"

definition spread :: "exchange list" where
  "spread = [fine, fine, fine]"

lemma secrets_run:
  "map_option fst (initialize_secrets plain_cloud 0 spread plain_secrets) = Some (Inr ())"
  "map_option (\<lambda>(_, xs, m). map_option fst (secret_series plain_cloud [10, 20] xs m))
     (initialize_secrets plain_cloud 0 spread plain_secrets) = Some (Some [[long_secret], [long_secret]])"
  by code_simp+

theorem secrets_validated_witness:
  "\<exists>xs1 m1 xs2 m2. initialize_secrets plain_cloud 0 spread plain_secrets = Some (Inr (), xs1, m1) \<and>
     secret_series plain_cloud [10, 20] xs1 m1 = Some ([[long_secret], [long_secret]], xs2, m2) \<and>
     secrets_ok m2 \<and> 32 \<le> length long_secret"
proof -
  obtain xs1 m1 where i: "initialize_secrets plain_cloud 0 spread plain_secrets = Some (Inr (), xs1, m1)"
    using secrets_run(1) by (auto simp: run_fst)
  with secrets_run(2) obtain xs2 m2 where s: "secret_series plain_cloud [10, 20] xs1 m1 = Some ([[long_secret], [long_secret]], xs2, m2)"
    by (auto simp: run_fst)
  from secrets_validated [OF i s] i s show ?thesis by auto
qed

lemma answers_reset_breaker_witness:
  "\<exists>t rep b'. send_guarded breaker_config_default 0 [busy] \<lparr>circuit = Closed, consecutive_failures = 4, last_failure_time = Some 0,
      probe_in_progress = False\<rparr> = Some (Inr (t, rep), [], b') \<and> hr_status rep = 429 \<and> consecutive_failures b' = 0"
proof -
  let ?b = "\<lparr>circuit = Closed, consecutive_failures = 4, last_failure_time = Some 0, probe_in_progress = False\<rparr>"
  obtain rep b' where run: "send_guarded breaker_config_default 0 [busy] ?b = Some (Inr (7, rep), [], b')" "hr_status rep = 429"
    by (simp add: send_guarded_def busy_def breaker_enter_def)
  from answers_reset_breaker [OF run(1)] run show ?thesis by blast
qed

lemma retry_after_code [code]:
  "retry_after_ms r = (case hr_retry_after r of None \<Rightarrow> None
     | Some s \<Rightarrow> (case parse_unsigned 64 s of None \<Rightarrow> None | Some secs \<Rightarrow> Some (nat ((int secs * 1000) mod 18446744073709551616))))"
  by (auto simp: retry_after_ms_def nat_mod_distrib nat_mult_distrib split: option.splits)

lemma queue_run:
  "map_option (\<lambda>(r, xs, q). (r, length xs, map (\<lambda>t. (ct_signature t, ct_body t)) (qu_posted q)))
     (cloud_enqueue plain_cloud 0 plain_task [fine, busy, busy, fine] plain_queue) =
   Some (Inr ''task'', 0, replicate 3 (long_secret @ ''/{}'', plain_encode ''{}''))"
  by code_simp

theorem enqueue_bounded_witness:
  "\<exists>q' k t. cloud_enqueue plain_cloud 0 plain_task [fine, busy, busy, fine] plain_queue = Some (Inr ''task'', [], q') \<and>
     qu_posted q' = replicate k t \<and> k = 3 \<and> ct_signature t = sign_payload plain_cloud ''{}'' long_secret"
proof -
  obtain r xs' q' k t where run: "cloud_enqueue plain_cloud 0 plain_task [fine, busy, busy, fine] plain_queue = Some (r, xs', q')"
    "qu_posted q' = qu_posted plain_queue @ replicate k t"
    "\<forall>p. cl_payload_json plain_cloud plain_task = Inr p \<longrightarrow> t = \<lparr>ct_url = qu_worker_url plain_queue @ ''/execute'',
       ct_signature = sign_payload plain_cloud p (qu_secret plain_queue), ct_body = cl_b64_encode plain_cloud p,
       ct_email = service_account_email (qu_auth plain_queue)\<rparr>"
proof -
    have "4 \<le> length [fine, busy, busy, fine]" by simp
    from enqueue_bounded [OF this, of plain_cloud 0 plain_task plain_queue] that show thesis by (elim exE conjE) blast
  qed
  from queue_run run show ?thesis by (auto simp: plain_queue_def plain_cloud_def dest!: arg_cong [of _ _ length])
qed

theorem tasks_never_accepted_witness:
  "\<exists>ys' q' t xs' st' e. cloud_enqueue plain_cloud 0 plain_task [fine, busy, busy, fine] plain_queue = Some (Inr ''task'', ys', q') \<and>
     t \<in> set (qu_posted q') \<and> rq_signature queued_request = Some (ct_signature t) \<and>
     execute_handler plain_entry 0 queued_request [fine] open_state = Some (Inl e, xs', st')"
proof -
  obtain ys' q' where q: "cloud_enqueue plain_cloud 0 plain_task [fine, busy, busy, fine] plain_queue = Some (Inr ''task'', ys', q')"
    "map (\<lambda>t. (ct_signature t, ct_body t)) (qu_posted q') = replicate 3 (long_secret @ ''/{}'', plain_encode ''{}'')"
    using queue_run by auto
  then obtain t where t: "t \<in> set (qu_posted q')" "ct_signature t = long_secret @ ''/{}''" "ct_body t = plain_encode ''{}''"
    by (cases "qu_posted q'") (auto simp: numeral_3_eq_3)
  obtain res xs' st' where h: "execute_handler plain_entry 0 queued_request [fine] open_state = Some (res, xs', st')"
    "provider_secrets (ap_secrets st') = [long_secret]"
    using queued_run by auto
  have "\<exists>e. res = Inl e"
  proof (rule tasks_never_accepted [where p = "''}''" and lib = plain_entry and t = t and rq = queued_request, OF _ _ _ _ _ _ t(1) _ _ h(1)])
    show "cloud_enqueue (el_cloud plain_entry) 0 plain_task [fine, busy, busy, fine] plain_queue = Some (Inr ''task'', ys', q')"
      using q by (simp add: plain_entry_def)
    show "\<And>s. s \<in> set (provider_secrets (ap_secrets st')) \<Longrightarrow> cl_hmac (el_cloud plain_entry) s (ct_body t) \<noteq>
        cl_hmac (el_cloud plain_entry) (qu_secret plain_queue) ''{}''"
      using t(3) h(2) by (simp add: plain_entry_def plain_cloud_def plain_queue_def plain_encode_def)
  qed (use t in \<open>auto simp: plain_entry_def plain_cloud_def plain_queue_def queued_request_def dest: plain_decode_braces\<close>)
  with q t h show ?thesis by (auto simp: queued_request_def)
qed

end
