(* ===== verification/CloudRun.thy ===== *)
theory CloudRun
  imports Cloud LocalRun
begin

text \<open>
  The executor that hands executions to the task queue (\<open>servo-cloud-gcp/src/executor.rs\<close>). A run
  takes the schedule of the storage calls and the answers of the network, and its state is the
  database with the queue. The clock at which the queue is called and the fresh identifiers are a
  parameter, the record \<open>cloud\<close>. Metrics and logs are left out.
\<close>

type_synonym 'a cloud_run = "(tick list \<times> exchange list, db \<times> queue, 'a) action"

text \<open>A part of the run: storage calls, or the use of a service.\<close>

definition on_db :: "'a run \<Rightarrow> (tick list \<times> exchange list, db \<times> 's, 'a) action" where
  "on_db f = (\<lambda>(ts, xs) (db, q). map_option (\<lambda>(a, ts', db'). (a, (ts', xs), (db', q))) (f ts db))"

definition on_queue :: "(tick list \<Rightarrow> ('s, 'a) net) \<Rightarrow> (tick list \<times> exchange list, db \<times> 's, 'a) action" where
  "on_queue f = (\<lambda>(ts, xs) (db, q). map_option (\<lambda>(a, xs', q'). (a, (ts, xs'), (db, q'))) (f ts xs q))"

record cloud =
  cx_tenant :: tenant
  cx_lib :: cloud_lib
  cx_sx :: "sqlx_error \<Rightarrow> string"
  cx_fresh :: "tick list \<Rightarrow> uuid"
  cx_clock :: "tick list \<Rightarrow> time"

definition as_cloud :: "cloud \<Rightarrow> (call \<Rightarrow> 'a) \<Rightarrow> call \<Rightarrow> 'a" where
  "as_cloud cx f = as_tenant (cx_tenant cx) f"

definition cloud_storage_error :: "cloud \<Rightarrow> string \<Rightarrow> storage_error \<Rightarrow> cloud_error" where
  "cloud_storage_error cx what e = Internal (what @ show_storage_error (cx_sx cx) e)"

definition cloud_create :: "cloud \<Rightarrow> uuid \<Rightarrow> string option \<Rightarrow> (cloud_error + uuid \<times> bool) run" where
  "cloud_create cx w key ts =
     try_db (cloud_storage_error cx ''Failed to create execution: '')
       (as_cloud cx (\<lambda>c. create_execution_or_get_existing c (new_execution (cx_fresh cx ts) c w key))) ts"

definition cloud_read :: "cloud \<Rightarrow> uuid \<Rightarrow> (cloud_error + execution_row) run" where
  "cloud_read cx i = try_db (cloud_storage_error cx ''Failed to get execution: '') (as_cloud cx (\<lambda>c. get_execution c i))"

text \<open>The task has an empty plan and no partition.\<close>

definition cloud_payload :: "cloud \<Rightarrow> uuid \<Rightarrow> uuid \<Rightarrow> string option \<Rightarrow> task" where
  "cloud_payload cx i w key =
     \<lparr>task_execution_id = i, task_workflow_id = w, task_tenant = cx_tenant cx, task_idempotency_key = key,
      task_plan = [], task_partition = None\<rparr>"

definition cloud_execute_with_idempotency :: "cloud \<Rightarrow> uuid \<Rightarrow> string option \<Rightarrow> (cloud_error + execution_result) cloud_run" where
  "cloud_execute_with_idempotency cx w key =
     run_ok (on_db (cloud_create cx w key)) (\<lambda>(i, was_created).
       if \<not> was_created
       then run_ok (on_db (cloud_read cx i)) (\<lambda>x.
              run_return (Inr \<lparr>er_execution_id = i, er_success = (x_state x = ''succeeded''), er_error = x_error_message x\<rparr>))
       else run_ok (run_map_error (\<lambda>e. Internal (''Failed to enqueue task: '' @ show_cloud_error e))
                (on_queue (\<lambda>ts. cloud_enqueue (cx_lib cx) (cx_clock cx ts) (cloud_payload cx i w key)))) (\<lambda>_.
              run_return (Inr \<lparr>er_execution_id = i, er_success = False, er_error = None\<rparr>)))"

definition cloud_execute :: "cloud \<Rightarrow> uuid \<Rightarrow> (runtime_error + execution_result) cloud_run" where
  "cloud_execute cx w = run_map_error (InternalR \<circ> show_cloud_error) (cloud_execute_with_idempotency cx w None)"

definition cloud_details :: "cloud \<Rightarrow> uuid \<Rightarrow> (cloud_error + execution_row) run" where
  "cloud_details cx i = cloud_read cx i"

text \<open>A state that is not one of the five is cancelled too, with a warning.\<close>

definition cloud_not_found :: "cloud \<Rightarrow> storage_error \<Rightarrow> runtime_error" where
  "cloud_not_found cx e = NotFoundR (''Execution not found: '' @ show_storage_error (cx_sx cx) e)"

definition cloud_cancel :: "cloud \<Rightarrow> uuid \<Rightarrow> (runtime_error + unit) run" where
  "cloud_cancel cx i =
     run_ok (try_db (cloud_not_found cx) (as_cloud cx (\<lambda>c. get_execution c i))) (\<lambda>x.
       if x_state x \<in> {''succeeded'', ''failed'', ''cancelled''} then run_return (Inr ())
       else try_db (\<lambda>e. InternalR (''Failed to update execution: '' @ show_storage_error (cx_sx cx) e))
              (as_cloud cx (\<lambda>c. update_execution c
                 (x\<lparr>x_state := ''cancelled'', x_completed_at := Some (now c), x_updated_at := now c\<rparr>))))"

definition cloud_status :: "cloud \<Rightarrow> uuid \<Rightarrow> (runtime_error + execution_result) run" where
  "cloud_status cx i =
     run_ok (try_db (cloud_not_found cx) (as_cloud cx (\<lambda>c. get_execution c i))) (\<lambda>x.
       run_return (Inr \<lparr>er_execution_id = i, er_success = (x_state x = ''succeeded''),
         er_error = (if x_state x = ''failed'' then x_error_message x else None)\<rparr>))"

end
