(* ===== verification/Pipeline.thy ===== *)
theory Pipeline
  imports CloudRun AccessLife LocalLife ExecutionLife
begin

text \<open>
  The parts together: from the start of an execution over the task to the worker. A task carries the
  payload with its fields unchanged, as the JSON of both sides has the same fields. What an execution
  goes through is exact: it is recorded as succeeded without any asset having been executed, since
  every plan that is handed over is empty and the worker executes the plan it is given.
\<close>

definition payload_of :: "task \<Rightarrow> payload" where
  "payload_of t = \<lparr>pl_execution_id = task_execution_id t, pl_workflow_id = task_workflow_id t, pl_tenant_id = task_tenant t,
     pl_idempotency_key = task_idempotency_key t, pl_execution_plan = task_plan t, pl_partition_context = task_partition t\<rparr>"

lemma empty_plan:
  assumes "db_ok db" "x \<in> set (t_executions db)" "x_tenant_id x = Some (pl_tenant_id pl)"
    and "x_id x = pl_execution_id pl" "x_state x = ''pending''" "x_started_at x = None" "x_completed_at x = None"
    and "list_all (calm (pl_tenant_id pl)) ts" "later (x_created_at x) ts"
    and "execute wk pl ts db = Some (r, ts', db')" "pl_execution_plan pl = []"
  shows "\<exists>y. db' = with_row x y db \<and> x_id y = x_id x \<and> x_state y = ''succeeded'' \<and> x_error_message y = x_error_message x \<and> r = Inr ()"
proof -
  from execution_ends [OF assms(1-10)] obtain rs y res where e:
    "db' = with_row x y (db\<lparr>t_check_results := t_check_results db @ rs\<rparr>)" "x_id y = x_id x" "recorded x res y r"
    "plan_done wk pl [] db res (db\<lparr>t_check_results := t_check_results db @ rs\<rparr>)" "res = Inr ()"
    unfolding assms(11) execute_workflow_def by auto
  from e(4) have "db\<lparr>t_check_results := t_check_results db @ rs\<rparr> = db" by (auto simp: plan_done_def Let_def)
  with e show ?thesis by (auto simp: recorded_def)
qed

section \<open>From the orchestrator to the worker\<close>

lemma step_start_with:
  "step_op (\<lambda>c db. case start_execution_with sx q fresh c w key part db of (r, _, db') \<Rightarrow> (r, db'))"
proof (cases key)
  case None
  show ?thesis
    by (rule step_write [of _ "\<lambda>c. Meta c (Create_execution (new_execution fresh c w key))"])
       (auto simp: start_execution_with_def None Let_def split: prod.splits sum.splits option.splits)
next
  case (Some k)
  show ?thesis
    by (rule step_write [of _ "\<lambda>c. Meta c (Create_execution_once (new_execution fresh c w key))"])
       (auto simp: start_execution_with_def Some Let_def split: prod.splits sum.splits option.splits)
qed

lemma started_ok:
  assumes "db_ok db" "start_execution_with sx q fresh c w key part db = (r, tasks, db')"
  shows "db_ok db'"
proof -
  have "snd (case start_execution_with sx q fresh c w key part db of (r, _, db') \<Rightarrow> (r, db')) = db'"
    using assms(2) by simp
  moreover from step_start_with [of sx q fresh w key part] obtain ops where
    "snd (case start_execution_with sx q fresh c w key part db of (r, _, db') \<Rightarrow> (r, db')) = foldl db_step db ops"
    unfolding step_op_def by blast
  ultimately have "db' = foldl db_step db ops" by simp
  then show ?thesis using steps_db_ok [OF assms(1)] by (simp only:)
qed

lemma started_task:
  assumes "start_execution_with sx queue fresh c w key part db = (Inr i, tsk # tasks, db')"
  shows "i = fresh \<and> tsk = \<lparr>task_execution_id = fresh, task_workflow_id = w, task_tenant = tenant c,
      task_idempotency_key = key, task_plan = [], task_partition = part\<rparr>"
proof (cases key)
  case None
  obtain r1 db1 where "create_execution c (new_execution fresh c w key) db = (r1, db1)" by fastforce
  with assms None show ?thesis
    by (cases r1) (auto simp: start_execution_with_def Let_def new_execution_def split: option.splits)
next
  case (Some k)
  obtain r1 db1 where cr: "create_execution_or_get_existing c (new_execution fresh c w key) db = (r1, db1)" by fastforce
  with assms Some obtain j b where r1: "r1 = Inr (j, b)"
    by (cases r1) (auto simp: start_execution_with_def Let_def)
  with cr assms Some have "b" by (cases b) (auto simp: start_execution_with_def Let_def)
  with create_once_result [OF cr] r1 have "j = fresh" by (auto simp: new_execution_def)
  with \<open>b\<close> r1 cr assms Some show ?thesis by (auto simp: start_execution_with_def Let_def split: option.splits)
qed

text \<open>
  C10: an execution that the orchestrator hands over is recorded as succeeded although nothing has run.
  When a start of an execution (with or without a key or a partition) has given a task to the queue,
  and the worker executes the payload of the task without interference, the call succeeds and the
  execution is marked as succeeded without an error; nothing else in the database changes, so no asset
  has been looked up, executed or checked. The orchestrator leaves the plan to the worker, and the
  worker executes the plan it is given.
\<close>

theorem dispatched_runs_nothing:
  assumes "db_ok db" "start_execution_with sx queue fresh c w key part db = (Inr i, tsk # tasks, db1)"
    and "list_all (calm (tenant c)) ts" "later (now c) ts" "execute wk (payload_of tsk) ts db1 = Some (r, ts', db2)"
  shows "r = Inr () \<and> (\<exists>y. db2 = with_row (new_execution i c w key) y db1 \<and> x_id y = i \<and>
    x_state y = ''succeeded'' \<and> x_error_message y = None)"
proof -
  let ?x = "new_execution fresh c w key"
  have t: "i = fresh" "tsk = \<lparr>task_execution_id = fresh, task_workflow_id = w, task_tenant = tenant c,
      task_idempotency_key = key, task_plan = [], task_partition = part\<rparr>"
    using started_task [OF assms(2)] by simp_all
  have new: "db1 = db\<lparr>t_executions := t_executions db @ [?x]\<rparr>" using start_db [OF assms(2)] by auto
  have "db_ok db1" by (rule started_ok [OF assms(1,2)])
  moreover have "?x \<in> set (t_executions db1)" using new by simp
  ultimately have "\<exists>y. db2 = with_row ?x y db1 \<and> x_id y = x_id ?x \<and> x_state y = ''succeeded'' \<and>
      x_error_message y = x_error_message ?x \<and> r = Inr ()"
    using assms(3-5) by (intro empty_plan [where pl = "payload_of tsk" and ts = ts])
      (simp_all add: t payload_of_def new_execution_def)
  then show ?thesis using t by (auto simp: new_execution_def)
qed

section \<open>The cloud executor\<close>

text \<open>
  C29: what an execution on the cloud does. Without interference by other writers, one storage call and
  four answers of the network are enough for it to return. It always adds exactly one execution of the
  workflow, which stays pending. All that it posts is one task, at most three times: addressed to the
  worker of the queue, signed with the queue's secret, and with the payload of exactly this execution,
  this workflow and this tenant, without key, plan and partition. The result is the execution,
  not yet successful, and then the task has been posted, or an error of the queue, and then the pending
  execution stays although the caller is told that the call has failed.
\<close>

theorem cloud_execute_exact:
  assumes ts: "list_all (calm (cx_tenant cx)) ts" "ts \<noteq> []" and xs: "4 \<le> length xs"
    and fresh: "\<forall>z\<in>set (t_executions db). x_id z \<noteq> cx_fresh cx ts"
    and w: "find (\<lambda>v. wr_id v = w) (my_workflows (call_of (cx_tenant cx) 0) db) = Some v"
  shows "\<exists>r xs' q' k t x. cloud_execute cx w (ts, xs) (db, q) =
      Some (r, (tl ts, xs'), (db\<lparr>t_executions := t_executions db @ [x]\<rparr>, q')) \<and>
    x = new_execution (cx_fresh cx ts) (tk_call (hd ts)) w None \<and> x_state x = ''pending'' \<and>
    k \<le> 3 \<and> qu_posted q' = qu_posted q @ replicate k t \<and>
    (\<forall>p. cl_payload_json (cx_lib cx)
        \<lparr>task_execution_id = cx_fresh cx ts, task_workflow_id = w, task_tenant = cx_tenant cx,
         task_idempotency_key = None, task_plan = [], task_partition = None\<rparr> = Inr p \<longrightarrow>
       t = \<lparr>ct_url = qu_worker_url q @ ''/execute'', ct_signature = sign_payload (cx_lib cx) p (qu_secret q),
            ct_body = cl_b64_encode (cx_lib cx) p, ct_email = service_account_email (qu_auth q)\<rparr>) \<and>
    (case r of
       Inr res \<Rightarrow> res = \<lparr>er_execution_id = cx_fresh cx ts, er_success = False, er_error = None\<rparr> \<and> 1 \<le> k
     | Inl e \<Rightarrow> \<exists>m. e = InternalR (''Internal error: Failed to enqueue task: '' @ m))"
proof -
  obtain t1 ts1 where t1: "ts = t1 # ts1" using ts(2) by (cases ts) auto
  have c1: "calm (cx_tenant cx) t1" using ts(1) t1 by simp
  let ?i = "cx_fresh cx ts" and ?x = "new_execution (cx_fresh cx ts) (tk_call t1) w None"
  let ?db = "db\<lparr>t_executions := t_executions db @ [?x]\<rparr>"
  have new: "cloud_create cx w None ts db = Some (Inr (?i, True), ts1, ?db)"
    using create_once_calm [OF c1 fresh w] c1 by (simp add: cloud_create_def try_calm_eq as_cloud_def t1)
  obtain r xs' q' k t where e: "cloud_enqueue (cx_lib cx) (cx_clock cx ts1) (cloud_payload cx ?i w None) xs q = Some (r, xs', q')"
    "k \<le> 3" "qu_posted q' = qu_posted q @ replicate k t" "(\<exists>nm. r = Inr nm) \<longrightarrow> 1 \<le> k"
    "\<forall>p. cl_payload_json (cx_lib cx) (cloud_payload cx ?i w None) = Inr p \<longrightarrow>
       t = \<lparr>ct_url = qu_worker_url q @ ''/execute'', ct_signature = sign_payload (cx_lib cx) p (qu_secret q),
            ct_body = cl_b64_encode (cx_lib cx) p, ct_email = service_account_email (qu_auth q)\<rparr>"
    using enqueue_posts [OF xs, of "cx_lib cx" "cx_clock cx ts1" "cloud_payload cx ?i w None" q] by (elim exE conjE) (rule that)
  let ?r = "case r of Inl e \<Rightarrow> Inl (InternalR (''Internal error: Failed to enqueue task: '' @ show_cloud_error e))
    | Inr _ \<Rightarrow> Inr \<lparr>er_execution_id = ?i, er_success = False, er_error = None\<rparr>"
  have run: "cloud_execute cx w (ts, xs) (db, q) = Some (?r, (tl ts, xs'), (?db, q'))"
    using new e(1) by (cases r) (simp_all add: cloud_execute_def cloud_execute_with_idempotency_def run_map_error_def run_ok_def
        run_bind_def run_return_def on_db_def on_queue_def t1)
  show ?thesis
  proof (intro exI conjI)
    show "qu_posted q' = qu_posted q @ replicate k t" by (rule e(3))
    show "cloud_execute cx w (ts, xs) (db, q) = Some (?r, (tl ts, xs'), (?db, q'))" by (rule run)
    show "case ?r of Inr res \<Rightarrow> res = \<lparr>er_execution_id = cx_fresh cx ts, er_success = False, er_error = None\<rparr> \<and> 1 \<le> k
     | Inl e \<Rightarrow> \<exists>m. e = InternalR (''Internal error: Failed to enqueue task: '' @ m)"
      using e(4) by (cases r) auto
    show "\<forall>p. cl_payload_json (cx_lib cx)
        \<lparr>task_execution_id = cx_fresh cx ts, task_workflow_id = w, task_tenant = cx_tenant cx,
         task_idempotency_key = None, task_plan = [], task_partition = None\<rparr> = Inr p \<longrightarrow>
       t = \<lparr>ct_url = qu_worker_url q @ ''/execute'', ct_signature = sign_payload (cx_lib cx) p (qu_secret q),
            ct_body = cl_b64_encode (cx_lib cx) p, ct_email = service_account_email (qu_auth q)\<rparr>"
      using e(5) by (simp only: cloud_payload_def)
  qed (use e(2,3) in \<open>simp_all add: t1 new_execution_def\<close>)
qed

section \<open>Concrete runs\<close>

definition spelled_task :: "task \<Rightarrow> string" where
  "spelled_task t = ''{'' @ task_execution_id t @ '','' @ task_workflow_id t @ '','' @ task_tenant t @ ''}''"

definition plain_execution :: cloud where
  "plain_execution = \<lparr>cx_tenant = ''acme'', cx_lib = plain_cloud\<lparr>cl_payload_json := Inr \<circ> spelled_task\<rparr>, cx_sx = (\<lambda>_. ''failed''), cx_fresh = (\<lambda>_. ''y''), cx_clock = (\<lambda>_. 0)\<rparr>"

theorem cloud_execute_exact_witness:
  "\<exists>r xs' db' q' k t. cloud_execute plain_execution ''w'' (worker_ticks 1, [fine, busy, busy, fine]) (local_db, plain_queue) =
      Some (r, ([], xs'), (db', q')) \<and> length (t_executions db') = length (t_executions local_db) + 1 \<and>
    qu_posted q' = replicate k t \<and> k \<le> 3 \<and> ct_url t = ''https://w/execute'' \<and>
    ct_body t = plain_encode ''{y,w,acme}''"
proof -
  have s: "cx_tenant plain_execution = ''acme''" "cx_fresh plain_execution (worker_ticks 1) = ''y''"
    by (simp_all add: plain_execution_def)
  have "list_all (\<lambda>z. x_id z \<noteq> ''y'') (t_executions local_db)" by code_simp
  then have fresh: "\<forall>z\<in>set (t_executions local_db). x_id z \<noteq> cx_fresh plain_execution (worker_ticks 1)"
    unfolding s(2) list_all_iff .
  obtain v where v: "find (\<lambda>v. wr_id v = ''w'') (my_workflows (call_of (cx_tenant plain_execution) 0) local_db) = Some v"
    using local_facts(1) s by auto
  have calm: "list_all (calm (cx_tenant plain_execution)) (worker_ticks 1)" using worker_ticks_calm(1) s by simp
  have n: "worker_ticks 1 \<noteq> []" "tl (worker_ticks 1) = []" by (simp_all add: worker_ticks_def)
  have l: "4 \<le> length [fine, busy, busy, fine]" by simp
  obtain r xs' q' k t x where run: "cloud_execute plain_execution ''w'' (worker_ticks 1, [fine, busy, busy, fine]) (local_db, plain_queue) =
      Some (r, ([], xs'), (local_db\<lparr>t_executions := t_executions local_db @ [x]\<rparr>, q'))"
    "qu_posted q' = qu_posted plain_queue @ replicate k t" "k \<le> 3"
    "\<forall>p. cl_payload_json (cx_lib plain_execution)
        \<lparr>task_execution_id = cx_fresh plain_execution (worker_ticks 1), task_workflow_id = ''w'', task_tenant = cx_tenant plain_execution,
         task_idempotency_key = None, task_plan = [], task_partition = None\<rparr> = Inr p \<longrightarrow>
       t = \<lparr>ct_url = qu_worker_url plain_queue @ ''/execute'', ct_signature = sign_payload (cx_lib plain_execution) p (qu_secret plain_queue),
            ct_body = cl_b64_encode (cx_lib plain_execution) p, ct_email = service_account_email (qu_auth plain_queue)\<rparr>"
    using cloud_execute_exact [OF calm n(1) l fresh v, of plain_queue, unfolded n(2)] by (elim exE conjE) (rule that)
  have "cl_payload_json (cx_lib plain_execution)
        \<lparr>task_execution_id = cx_fresh plain_execution (worker_ticks 1), task_workflow_id = ''w'', task_tenant = cx_tenant plain_execution,
         task_idempotency_key = None, task_plan = [], task_partition = None\<rparr> = Inr ''{y,w,acme}''"
    by (simp add: plain_execution_def spelled_task_def)
  from run(4) [rule_format, OF this] have t: "ct_url t = ''https://w/execute''" "ct_body t = plain_encode ''{y,w,acme}''"
    by (simp_all add: plain_queue_def plain_execution_def plain_cloud_def)
  have "qu_posted q' = replicate k t" using run(2) by (simp add: plain_queue_def)
  show ?thesis
    by (intro exI conjI, rule run(1), simp, rule \<open>qu_posted q' = replicate k t\<close>, rule run(3), rule t(1), rule t(2))
qed

lemma dispatched_run:
  "(case start_execution_with (\<lambda>_. []) (Some (\<lambda>_. None)) ''z'' sample_call ''w'' None None worker_db of (r, tasks, db1) \<Rightarrow>
     (r, length tasks, map_option (\<lambda>(q, _, db2). (q, map x_state (t_executions db2)))
       (execute strict_worker (payload_of (hd tasks)) (worker_ticks 5) db1))) =
   (Inr ''z'', 1, Some (Inr (), [''pending'', ''succeeded'']))"
  by code_simp

theorem dispatched_runs_nothing_witness:
  "\<exists>tsk db1 ts' db2. start_execution_with (\<lambda>_. []) (Some (\<lambda>_. None)) ''z'' sample_call ''w'' None None worker_db = (Inr ''z'', [tsk], db1) \<and>
     execute strict_worker (payload_of tsk) (worker_ticks 5) db1 = Some (Inr (), ts', db2) \<and>
     (\<exists>y. db2 = with_row (new_execution ''z'' sample_call ''w'' None) y db1 \<and> x_state y = ''succeeded'')"
proof -
  obtain tasks db1 where st: "start_execution_with (\<lambda>_. []) (Some (\<lambda>_. None)) ''z'' sample_call ''w'' None None worker_db =
      (Inr ''z'', tasks, db1)" "length tasks = 1"
    "map_option (\<lambda>(q, _, db2). (q, map x_state (t_executions db2)))
       (execute strict_worker (payload_of (hd tasks)) (worker_ticks 5) db1) = Some (Inr (), [''pending'', ''succeeded''])"
    using dispatched_run by (auto split: prod.splits)
  then obtain tsk where tsk: "tasks = [tsk]" by (cases tasks) auto
  with st(3) obtain ts' db2 where run: "execute strict_worker (payload_of tsk) (worker_ticks 5) db1 = Some (Inr (), ts', db2)"
    by auto
  have c: "tenant sample_call = ''acme''" "now sample_call = 1000" by (simp_all add: sample_call_def)
  from dispatched_runs_nothing [OF worker_db_ok st(1) [unfolded tsk] _ _ run] worker_ticks_calm c st(1) tsk run
  show ?thesis by auto
qed

end
