(* ===== verification/Typing.thy ===== *)
theory Typing
  imports Database Orchestrator Quality
begin

text \<open>
  The types of what the tables hold: every text that the storage keeps for a state, a severity or an
  outcome is the text of a value of the data model, so that the components that read it do not meet a
  text they cannot parse.
\<close>

definition typed_job :: "job \<Rightarrow> bool" where
  "typed_job j \<longleftrightarrow> validate_backfill_state (j_state j) = Inr () \<and> list_all int4 [j_version j, j_completed_upstream_jobs j, j_upstream_job_count j] \<and>
     j_max_upstream_depth j \<in> {0..10} \<and> j_priority j \<in> {- 10..10} \<and>
     0 \<le> j_completed_upstream_jobs j \<and> j_completed_upstream_jobs j \<le> j_upstream_job_count j"

definition typed_part :: "part \<Rightarrow> bool" where
  "typed_part p \<longleftrightarrow> validate_partition_state (bp_state p) = Inr () \<and> int4 (bp_attempt_count p)"

definition typed_execution :: "execution_row \<Rightarrow> bool" where
  "typed_execution x \<longleftrightarrow> (\<exists>s. parse_state (x_state x) = Inr s \<and> state_string s = x_state x)"

definition typed_check :: "check_row \<Rightarrow> bool" where
  "typed_check k \<longleftrightarrow> ck_severity k \<in> range severity_string"

definition typed_result :: "check_result_row \<Rightarrow> bool" where
  "typed_result r \<longleftrightarrow> cr_outcome r \<in> range outcome_string \<and> cr_severity r \<in> range severity_string"

lemma severity_texts: "s \<in> {''info'', ''warning'', ''error''} \<Longrightarrow> s \<in> range severity_string"
  by (auto intro: range_eqI [of _ _ Info] range_eqI [of _ _ Warning] range_eqI [of _ _ SevError])

lemma outcome_texts: "s \<in> {''passed'', ''failed'', ''skipped'', ''error''} \<Longrightarrow> s \<in> range outcome_string"
  by (auto intro: range_eqI [of _ _ Passed] range_eqI [of _ _ Quality.Failed] range_eqI [of _ _ Skipped] range_eqI [of _ _ OutError])

lemma state_texts: "s \<in> set execution_states \<Longrightarrow> \<exists>t. parse_state s = Inr t \<and> state_string t = s"
  by (auto simp: execution_states_def parse_state_def)

text \<open>
  The schema does not check the severity of a result; the validators of the two writes keep it.
\<close>

definition severities_ok :: "db \<Rightarrow> bool" where
  "severities_ok db \<longleftrightarrow> (\<forall>r\<in>set (t_check_results db). cr_severity r \<in> {''info'', ''warning'', ''error''})"

lemma severities_fewer:
  "severities_ok db \<Longrightarrow> set (t_check_results db') \<subseteq> set (t_check_results db) \<Longrightarrow> severities_ok db'"
  by (auto simp: severities_ok_def)

lemma checked_call_inv:
  assumes "I db" "\<And>a db'. \<forall>v\<in>set vs. \<not> isl v \<Longrightarrow> f db = Inr (a, db') \<Longrightarrow> I db'"
  shows "I (snd (checked vs (with_tenant_context c f) db))"
proof (cases "checked vs (with_tenant_context c f) db")
  case (Pair r db')
  show ?thesis
  proof (cases r)
    case (Inl e)
    with Pair assms(1) show ?thesis by (auto dest!: checked_Inl with_tenant_context_Inl)
  next
    case (Inr a)
    with Pair have "checked vs (with_tenant_context c f) db = (Inr a, db')" by simp
    then have "\<forall>v\<in>set vs. \<not> isl v" "f db = Inr (a, db')"
      unfolding checked_Inr with_tenant_context_Inr by simp_all
    with assms(2) Pair show ?thesis by simp
  qed
qed

lemma insert_severities:
  "insert_check_results c rs db = Inr (u, db') \<Longrightarrow> severities_ok db \<Longrightarrow>
   \<forall>r\<in>set rs. cr_severity r \<in> {''info'', ''warning'', ''error''} \<Longrightarrow> severities_ok db'"
proof (induction rs arbitrary: db)
  case (Cons r rs)
  from Cons.prems(1) obtain u1 db1 where first: "insert_check_result c r db = Inr (u1, db1)"
    and rest: "insert_check_results c rs db1 = Inr (u, db')" by (auto simp: tx_bind_Inr)
  have "severities_ok db1"
    using first Cons.prems(2,3) by (simp add: insert_check_result_Inr severities_ok_def)
  with Cons.IH [OF rest] Cons.prems(3) show ?case by simp
qed simp

lemma validated_severity: "isl (validate_check_severity s) \<longleftrightarrow> s \<notin> {''info'', ''warning'', ''error''}"
  by (simp add: validate_check_severity_def)

lemma check_severities:
  assumes "severities_ok db"
  shows "severities_ok (check_step (c, op) db)"
proof (cases op)
  case (Create_check k)
  show ?thesis unfolding Create_check check_step.simps create_asset_check_def
    by (rule checked_call_inv [where I = severities_ok, OF assms])
       (use assms in \<open>auto simp: severities_ok_def split: sum.splits\<close>)
next
  case (Update_check k)
  show ?thesis unfolding Update_check check_step.simps update_asset_check_def
    by (rule checked_call_inv [where I = severities_ok, OF assms])
       (use assms in \<open>auto simp: severities_ok_def must_hit_Inr split: sum.splits\<close>)
next
  case (Delete_check i)
  show ?thesis unfolding Delete_check check_step.simps delete_asset_check_def
    by (rule call_inv [where I = severities_ok, OF assms])
       (use assms in \<open>auto simp: severities_ok_def split: if_splits\<close>)
next
  case (Create_result r)
  show ?thesis unfolding Create_result check_step.simps create_check_result_def
    by (rule checked_call_inv [where I = severities_ok, OF assms])
       (use assms in \<open>auto simp: severities_ok_def insert_check_result_Inr validated_severity\<close>)
next
  case (Create_results rs)
  show ?thesis
  proof (cases "rs = []")
    case True
    with assms show ?thesis by (simp add: Create_results create_check_results_batch_def)
  next
    case False
    have "severities_ok (snd (checked (concat (map (\<lambda>r. [validate_check_outcome (cr_outcome r), validate_check_severity (cr_severity r)]) rs))
             (with_tenant_context c (insert_check_results c rs)) db))"
      by (rule checked_call_inv [where I = severities_ok, OF assms], erule insert_severities [OF _ assms])
         (simp add: validated_severity)
    with False show ?thesis by (simp add: Create_results create_check_results_batch_def)
  qed
qed

text \<open>The writes to the other tables create no result.\<close>

lemma meta_results: "set (t_check_results (meta_step (c, op) db)) \<subseteq> set (t_check_results db)" (is "?I (meta_step (c, op) db)")
proof (cases op)
  case (Create_asset a)
  show ?thesis unfolding Create_asset meta_step.simps create_asset_def
    by (intro checked_inv [where I = ?I] call_inv [where I = ?I]) (auto split: sum.splits)
next
  case (Update_asset a)
  show ?thesis unfolding Update_asset meta_step.simps update_asset_def
    by (intro checked_inv [where I = ?I] call_inv [where I = ?I]) (auto simp: must_hit_Inr split: sum.splits)
next
  case (Delete_asset i)
  show ?thesis unfolding Delete_asset meta_step.simps delete_asset_def
    by (intro call_inv [where I = ?I]) (auto simp: drop_asset_rows_def delete_jobs_def Let_def split: if_splits)
next
  case (Create_workflow w)
  show ?thesis unfolding Create_workflow meta_step.simps create_workflow_def
    by (intro checked_inv [where I = ?I] call_inv [where I = ?I]) (auto split: sum.splits)
next
  case (Update_workflow w)
  show ?thesis unfolding Update_workflow meta_step.simps update_workflow_def
    by (intro checked_inv [where I = ?I] call_inv [where I = ?I]) (auto simp: must_hit_Inr split: sum.splits)
next
  case (Delete_workflow i)
  show ?thesis unfolding Delete_workflow meta_step.simps delete_workflow_def
    by (intro call_inv [where I = ?I]) (auto simp: delete_executions_def Let_def split: if_splits)
next
  case (Create_execution x)
  show ?thesis unfolding Create_execution meta_step.simps create_execution_def
    by (intro checked_inv [where I = ?I] call_inv [where I = ?I]) (auto simp: insert_execution_Inr)
next
  case (Create_execution_once x)
  obtain r db' where once: "create_execution_or_get_existing c x db = (r, db')" by fastforce
  from create_once_result [OF once] once show ?thesis unfolding Create_execution_once meta_step.simps by auto
next
  case (Update_execution x)
  show ?thesis unfolding Update_execution meta_step.simps update_execution_def
    by (intro checked_inv [where I = ?I] call_inv [where I = ?I]) (auto simp: must_hit_Inr split: sum.splits)
next
  case (Delete_execution i)
  show ?thesis unfolding Delete_execution meta_step.simps delete_execution_def
    by (intro call_inv [where I = ?I]) (auto simp: delete_executions_def Let_def split: if_splits)
next
  case (Create_dependency i u d t)
  show ?thesis unfolding Create_dependency meta_step.simps create_asset_dependency_def
    by (intro checked_inv [where I = ?I] call_inv [where I = ?I]) (auto split: sum.splits)
next
  case (Delete_dependency i)
  obtain r db' where del: "delete_asset_dependencies_where c (\<lambda>d. dr_id d = i) db = (r, db')" by fastforce
  have "?I (snd (delete_asset_dependencies_where c (\<lambda>d. dr_id d = i) db))"
    unfolding delete_asset_dependencies_where_def by (intro call_inv [where I = ?I]) auto
  then show ?thesis unfolding Delete_dependency meta_step.simps delete_asset_dependency_def del
    by (cases r) simp_all
next
  case (Delete_dependencies_of i)
  show ?thesis unfolding Delete_dependencies_of meta_step.simps delete_asset_dependencies_for_asset_def
      delete_asset_dependencies_where_def
    by (intro call_inv [where I = ?I]) auto
qed

lemma step_severities:
  assumes "db_ok db" "severities_ok db"
  shows "severities_ok (db_step db op)"
proof (cases op)
  case (Meta c mop)
  with severities_fewer [OF assms(2) meta_results] show ?thesis by simp
next
  case (Backfill c bop)
  have "t_check_results (backfill_step (c, bop) db) = t_check_results db"
    using stmts_tables [OF step_stmts [OF db_okD(1) [OF assms(1)]], of c bop] by simp
  with Backfill assms(2) show ?thesis by (simp add: severities_ok_def)
next
  case (Check c cop)
  with check_severities [OF assms(2)] show ?thesis by simp
qed

text \<open>No reader of the state of an execution meets a text it cannot parse.\<close>

lemma map_storage_error_state: "map_storage_error sx ctx e \<noteq> InvalidState m"
  by (cases e) simp_all

lemma typed_reads:
  assumes "db_ok db" "get_execution c i db = (Inr x, db')"
  shows "\<exists>s. parse_state (x_state x) = Inr s"
proof -
  have "x \<in> set (t_executions db)"
    using assms(2) by (auto simp: get_execution_Inr my_executions_def dest: find_Some_in)
  with db_okD(2) [OF assms(1)] have "x_state x \<in> set execution_states"
    by (auto simp: executions_ok_def execution_check_None)
  then show ?thesis using state_texts by blast
qed

lemma transition_parses:
  assumes "db_ok db"
  shows "fst (transition_state sx c1 between c2 i s t db) \<noteq> Inl (InvalidState m)"
proof (cases "get_execution c1 i db")
  case (Pair r db1)
  show ?thesis
  proof (cases r)
    case (Inl e)
    with Pair show ?thesis by (simp add: transition_state_def map_storage_error_state)
  next
    case (Inr x)
    with typed_reads [OF assms] Pair obtain u where "parse_state (x_state x) = Inr u" by blast
    with Pair Inr show ?thesis
      by (simp add: transition_state_def map_storage_error_state Let_def split: prod.splits sum.splits)
  qed
qed

lemma failure_parses:
  assumes "db_ok db"
  shows "fst (record_failure sx c1 between c2 i err db) \<noteq> Inl (InvalidState m)"
proof (cases "get_execution c1 i db")
  case (Pair r db1)
  show ?thesis
  proof (cases r)
    case (Inl e)
    with Pair show ?thesis by (simp add: record_failure_def map_storage_error_state)
  next
    case (Inr x)
    with typed_reads [OF assms] Pair obtain u where "parse_state (x_state x) = Inr u" by blast
    with Pair Inr show ?thesis
      by (simp add: record_failure_def map_storage_error_state split: prod.splits sum.splits)
  qed
qed

lemma steps_severities: "db_ok db \<and> severities_ok db \<Longrightarrow> severities_ok (foldl db_step db ops)"
proof (induction ops arbitrary: db)
  case (Cons op ops)
  then have "db_ok (db_step db op) \<and> severities_ok (db_step db op)"
    using step_severities [of db op] db_step_ok [of db op] by simp
  from Cons.IH [OF this] show ?case by simp
qed simp

lemma typed_rows:
  assumes "db_ok db" "severities_ok db"
  shows "list_all typed_job (t_jobs db) \<and> list_all typed_part (t_parts db) \<and> list_all typed_execution (t_executions db) \<and>
    list_all typed_check (t_checks db) \<and> list_all typed_result (t_check_results db)"
proof (intro conjI)
  from db_okD [OF assms(1)] have ok: "jobs_ok (t_jobs db)" "parts_ok (t_parts db)" "executions_ok db" "checks_ok db"
    by (simp_all add: backfill_ok_def)
  show "list_all typed_job (t_jobs db)"
    using ok(1) by (auto simp: list_all_iff typed_job_def jobs_ok_def job_check_None validate_backfill_state_def backfill_states_def)
  show "list_all typed_part (t_parts db)"
    using ok(2) by (auto simp: list_all_iff typed_part_def parts_ok_def part_check_None validate_partition_state_def partition_states_def)
  show "list_all typed_execution (t_executions db)"
    using ok(3) state_texts by (auto simp: list_all_iff typed_execution_def executions_ok_def execution_check_None)
  have "\<forall>k\<in>set (t_checks db). check_row_check k = None" using ok(4) by (simp add: checks_ok_def)
  then show "list_all typed_check (t_checks db)"
    unfolding list_all_iff typed_check_def
    by (intro ballI severity_texts; force simp: check_row_check_def split: if_splits)
  have "cr_outcome r \<in> range outcome_string" if "r \<in> set (t_check_results db)" for r
    by (rule outcome_texts) (use ok(4) that in \<open>force simp: checks_ok_def result_row_check_def split: if_splits\<close>)
  moreover have "cr_severity r \<in> range severity_string" if "r \<in> set (t_check_results db)" for r
    using assms(2) that severity_texts by (simp only: severities_ok_def)
  ultimately show "list_all typed_result (t_check_results db)" unfolding list_all_iff typed_result_def by blast
qed

text \<open>
  C1: the stored values are typed, and their readers never stumble. Whatever sequence of writes is made,
  by any tenants and with any failures, every stored state of an execution parses to the state whose
  text it is, every state of a job and of a partition is one that the storage accepts, every
  severity of a check and every outcome and severity of a result is the text of a value of the data
  model, although the schema has no check on the severity of a result and only the validators of the
  two writes keep it; the version, the attempts and the counters of upstream jobs fit their columns,
  and depths and priorities are in their ranges. Hence neither a transition of the orchestrator nor
  the recording of a failure ever ends with the error for an unknown state, whatever is written
  between its read and its write.
\<close>

theorem stored_values_typed:
  "let db = foldl db_step empty_db ops in
     list_all typed_job (t_jobs db) \<and> list_all typed_part (t_parts db) \<and> list_all typed_execution (t_executions db) \<and>
     list_all typed_check (t_checks db) \<and> list_all typed_result (t_check_results db) \<and>
     (\<forall>m. fst (transition_state sx c1 between c2 i s t db) \<noteq> Inl (InvalidState m)) \<and>
     (\<forall>m. fst (record_failure sx c1 between c2 i err db) \<noteq> Inl (InvalidState m))"
proof -
  have "severities_ok (foldl db_step empty_db ops)"
    by (rule steps_severities) (simp add: empty_db_ok, simp add: severities_ok_def empty_db_def)
  from typed_rows [OF db_steps_ok this] transition_parses [OF db_steps_ok] failure_parses [OF db_steps_ok]
  show ?thesis unfolding Let_def by blast
qed

end
