(* ===== verification/CliBackfill.thy ===== *)
theory CliBackfill
  imports Executor Worker
begin

text \<open>
  The commands for backfills (\<open>servo-cli/src/commands/backfill.rs\<close>). A storage call is one tick of a
  schedule. The environment, the connection, the clocks, the random identifiers and the date library
  are a parameter, the record \<open>command\<close>; dates are compared by their number. What the commands print
  is left out, except for the numbers they compute. A panic has no result.
\<close>

section \<open>Environment\<close>

record ('d, 't) command =
  bc_env :: "string \<Rightarrow> string option"
  bc_connect :: "storage_error option"  \<comment> \<open>the error of the connection\<close>
  bc_chrono :: "('d, 't) chrono"
  bc_number :: "'d \<Rightarrow> int"
  bc_rfc3339 :: "string \<Rightarrow> time option"
  bc_stamp :: "time \<Rightarrow> string"  \<comment> \<open>to the second\<close>
  bc_uuid :: "string \<Rightarrow> uuid option"
  bc_now :: "tick list \<Rightarrow> nat \<Rightarrow> time"
  bc_fresh :: "tick list \<Rightarrow> uuid"

text \<open>An error with a text of its own, or one of the storage.\<close>

datatype command_error = Told string | Stored storage_error

section \<open>Partition keys\<close>

definition invalid_date :: "string \<Rightarrow> string \<Rightarrow> string" where
  "invalid_date what s = ''Invalid '' @ what @ '' date '' @ quoted s @ ''. Expected YYYY-MM-DD format.''"

definition max_partitions :: int where
  "max_partitions = 366"

text \<open>The loop over the days; the fuel is enough for one more than the limit.\<close>

fun days_until :: "('d, 't) command \<Rightarrow> nat \<Rightarrow> 'd \<Rightarrow> 'd \<Rightarrow> string list option" where
  "days_until cm 0 cur final = None"
| "days_until cm (Suc n) cur final =
     (if bc_number cm cur \<le> bc_number cm final then
        (case plus_days (bc_chrono cm) cur 1 of
           None \<Rightarrow> None
         | Some nxt \<Rightarrow> map_option (Cons (show_date (bc_chrono cm) cur ymd_format)) (days_until cm n nxt final))
      else Some [])"

definition generate_date_range_partitions ::
  "('d, 't) command \<Rightarrow> string \<Rightarrow> string \<Rightarrow> (command_error + string list) option" where
  "generate_date_range_partitions cm s e =
     (case parse_date (bc_chrono cm) s ymd_format of
        None \<Rightarrow> Some (Inl (Told (invalid_date ''start'' s)))
      | Some d1 \<Rightarrow>
     (case parse_date (bc_chrono cm) e ymd_format of
        None \<Rightarrow> Some (Inl (Told (invalid_date ''end'' e)))
      | Some d2 \<Rightarrow>
         (let n = bc_number cm d2 - bc_number cm d1 + 1 in
          if bc_number cm d2 < bc_number cm d1
          then Some (Inl (Told (''End date '' @ quoted e @ '' is before start date '' @ quoted s @ ''. End must be >= start.'')))
          else if n > max_partitions
          then Some (Inl (Told (''Date range spans '' @ show_int n @ '' days, which exceeds maximum of ''
                 @ show_int max_partitions @ '' partitions. Please use smaller date ranges.'')))
          else map_option Inr (days_until cm (nat max_partitions + 1) d1 d2))))"

definition nth_char :: "nat \<Rightarrow> string \<Rightarrow> string option" where
  "nth_char n s = (case drop n (utf8_chars s) of c # _ \<Rightarrow> Some c | [] \<Rightarrow> None)"

text \<open>A date with an hour: thirteen bytes whose eleventh character is a \<open>T\<close>.\<close>

definition hour_key :: "('d, 't) command \<Rightarrow> string \<Rightarrow> bool option" where
  "hour_key cm s =
     (if length s = 13 \<and> nth_char 10 s = Some ''T'' then
        (case str_slice s 0 10 of
           None \<Rightarrow> None
         | Some d \<Rightarrow>
             if parse_date (bc_chrono cm) d ymd_format = None then Some False
             else map_option (\<lambda>h. case parse_unsigned 32 h of Some n \<Rightarrow> n < 24 | None \<Rightarrow> False) (str_slice s 11 13))
      else Some False)"

text \<open>Every other key is accepted too, with a warning.\<close>

definition validate_partition_key :: "('d, 't) command \<Rightarrow> string \<Rightarrow> (command_error + string) option" where
  "validate_partition_key cm key =
     (let s = trim_text key in
      if s = [] then Some (Inl (Told ''Partition key cannot be empty''))
      else if length s > 64 then Some (Inl (Told ''Partition key too long (max 64 characters)''))
      else if parse_date (bc_chrono cm) s ymd_format \<noteq> None then Some (Inr s)
      else map_option (\<lambda>_. Inr s) (hour_key cm s))"

section \<open>Creating backfills\<close>

definition tenant_of :: "('d, 't) command \<Rightarrow> command_error + tenant" where
  "tenant_of cm =
     (case bc_env cm ''TENANT_ID'' of
        None \<Rightarrow> Inl (Told ''TENANT_ID environment variable not set'')
      | Some u \<Rightarrow> Inr u)"

text \<open>The tenant and the connection, which every command begins with.\<close>

definition connected ::
  "('d, 't) command \<Rightarrow> (tenant \<Rightarrow> ('ts, 's, command_error + 'a) action) \<Rightarrow> ('ts, 's, command_error + 'a) action" where
  "connected cm f =
     (case tenant_of cm of
        Inl e \<Rightarrow> run_return (Inl e)
      | Inr u \<Rightarrow> (case bc_connect cm of Some e \<Rightarrow> run_return (Inl (Stored e)) | None \<Rightarrow> f u))"

definition stored :: "tenant \<Rightarrow> (call \<Rightarrow> db \<Rightarrow> (storage_error + 'a) \<times> db) \<Rightarrow> (command_error + 'a) run" where
  "stored u f = try_db Stored (as_tenant u f)"

text \<open>Only the hundred newest assets are looked at.\<close>

definition find_asset_by_name :: "tenant \<Rightarrow> string \<Rightarrow> (command_error + asset_row) run" where
  "find_asset_by_name u nm =
     run_ok (stored u (\<lambda>c. list_assets_page c 100 0)) (\<lambda>as. run_return (
       case find (\<lambda>a. ar_name a = nm) as of
         None \<Rightarrow> Inl (Told (''Asset '' @ quoted nm @ '' not found''))
       | Some a \<Rightarrow> Inr a))"

definition parse_deadline :: "('d, 't) command \<Rightarrow> string option \<Rightarrow> command_error + time option" where
  "parse_deadline cm d =
     (case d of
        None \<Rightarrow> Inr None
      | Some s \<Rightarrow>
          (case bc_rfc3339 cm s of
             None \<Rightarrow> Inl (Told (''Invalid SLA deadline '' @ quoted s @ ''. Expected ISO 8601 format (e.g., ''
                       @ quoted ''2024-01-16T00:00:00Z'' @ '')''))
           | Some t \<Rightarrow> Inr (Some t)))"

record request_options =
  ro_include_upstream :: bool
  ro_max_upstream_depth :: int
  ro_sla_deadline :: "string option"
  ro_priority :: int

definition requested_job ::
  "('d, 't) command \<Rightarrow> tick list \<Rightarrow> tenant \<Rightarrow> asset_row \<Rightarrow> string \<Rightarrow> string \<Rightarrow> string \<Rightarrow> string list \<Rightarrow> request_options \<Rightarrow> time option \<Rightarrow> job" where
  "requested_job cm ts u a key s e keys ro deadline =
     \<lparr>j_id = bc_fresh cm ts, j_tenant_id = u, j_asset_id = ar_id a, j_asset_name = ar_name a, j_idempotency_key = key,
      j_state = ''pending'', j_execution_strategy = ''{'' @ dquoted ''type'' @ '':'' @ dquoted ''sequential'' @ ''}'',
      j_partition_start = Some s, j_partition_end = Some e, j_partition_keys = keys, j_total_partitions = int (length keys),
      j_completed_partitions = 0, j_failed_partitions = 0, j_skipped_partitions = 0,
      j_include_upstream = ro_include_upstream ro, j_error_message = None, j_created_by = bc_env cm ''USER'',
      j_created_at = bc_now cm ts 1, j_started_at = None, j_completed_at = None, j_heartbeat_at = None, j_version = 1,
      j_paused_at = None, j_checkpoint_partition_key = None, j_estimated_completion_at = None,
      j_avg_partition_duration_ms = None, j_parent_job_id = None, j_max_upstream_depth = ro_max_upstream_depth ro,
      j_upstream_job_count = 0, j_completed_upstream_jobs = 0, j_execution_order = 0, j_sla_deadline_at = deadline,
      j_priority = ro_priority ro\<rparr>"

definition requested_partition :: "('d, 't) command \<Rightarrow> tick list \<Rightarrow> tenant \<Rightarrow> uuid \<Rightarrow> string \<Rightarrow> part" where
  "requested_partition cm ts u i key =
     \<lparr>bp_id = bc_fresh cm ts, bp_job_id = i, bp_key = key, bp_state = ''pending'', bp_attempt_count = 0,
      bp_execution_id = None, bp_error_message = None, bp_duration_ms = None, bp_started_at = None,
      bp_completed_at = None, bp_tenant_id = u\<rparr>"

text \<open>One call for each partition.\<close>

fun create_partitions :: "('d, 't) command \<Rightarrow> tenant \<Rightarrow> uuid \<Rightarrow> string list \<Rightarrow> (command_error + unit) run" where
  "create_partitions cm u i [] = run_return (Inr ())"
| "create_partitions cm u i (k # ks) =
     run_ok (run_bind run_point (\<lambda>ts. stored u (\<lambda>c. create_backfill_partition c (requested_partition cm ts u i k))))
       (\<lambda>_. create_partitions cm u i ks)"

definition colons :: "string list \<Rightarrow> string" where
  "colons xs = join_with '':'' xs"

text \<open>The job and its partitions, which both commands create; the key of the request ends with the second.\<close>

definition create_requested ::
  "('d, 't) command \<Rightarrow> tenant \<Rightarrow> asset_row \<Rightarrow> string list \<Rightarrow> string \<Rightarrow> string \<Rightarrow> string list \<Rightarrow> request_options \<Rightarrow> (command_error + uuid) run" where
  "create_requested cm u a what s e keys ro =
     (case parse_deadline cm (ro_sla_deadline ro) of
        Inl err \<Rightarrow> run_return (Inl err)
      | Inr deadline \<Rightarrow>
          run_bind run_point (\<lambda>ts.
            let j = requested_job cm ts u a (colons (ar_id a # what @ [bc_stamp cm (bc_now cm ts 0)])) s e keys ro deadline in
            run_ok (stored u (\<lambda>c. create_backfill_job c j)) (\<lambda>_.
            run_ok (create_partitions cm u (j_id j) keys) (\<lambda>_. run_return (Inr (j_id j))))))"

definition execute_single_partition ::
  "('d, 't) command \<Rightarrow> string \<Rightarrow> string \<Rightarrow> request_options \<Rightarrow> (command_error + uuid) run" where
  "execute_single_partition cm nm key ro =
     (case validate_partition_key cm key of
        None \<Rightarrow> run_panic
      | Some (Inl e) \<Rightarrow> run_return (Inl e)
      | Some (Inr k) \<Rightarrow>
          connected cm (\<lambda>u.
            run_ok (find_asset_by_name u nm) (\<lambda>a.
            run_ok (stored u (\<lambda>c. find_active_backfill_for_partition c (ar_id a) k)) (\<lambda>active.
              case active of
                Some j \<Rightarrow> run_return (Inr (j_id j))
              | None \<Rightarrow> create_requested cm u a [k] k k [k] ro))))"

fun no_overlap :: "tenant \<Rightarrow> uuid \<Rightarrow> string list \<Rightarrow> (command_error + unit) run" where
  "no_overlap u a [] = run_return (Inr ())"
| "no_overlap u a (k # ks) =
     run_ok (stored u (\<lambda>c. find_active_backfill_for_partition c a k)) (\<lambda>active.
       case active of
         Some j \<Rightarrow> run_return (Inl (Told (''Cannot start range backfill: partition '' @ quoted k
                     @ '' is already being backfilled by job '' @ j_id j)))
       | None \<Rightarrow> no_overlap u a ks)"

definition execute_range_backfill ::
  "('d, 't) command \<Rightarrow> string \<Rightarrow> string \<Rightarrow> string \<Rightarrow> request_options \<Rightarrow> (command_error + uuid) run" where
  "execute_range_backfill cm nm s e ro =
     (case generate_date_range_partitions cm s e of
        None \<Rightarrow> run_panic
      | Some (Inl err) \<Rightarrow> run_return (Inl err)
      | Some (Inr keys) \<Rightarrow>
          connected cm (\<lambda>u.
            run_ok (find_asset_by_name u nm) (\<lambda>a.
            run_ok (no_overlap u (ar_id a) keys) (\<lambda>_. create_requested cm u a [s, e] s e keys ro))))"

section \<open>Managing backfills\<close>

definition list_jobs :: "('d, 't) command \<Rightarrow> string option \<Rightarrow> (command_error + job list) run" where
  "list_jobs cm state_filter = connected cm (\<lambda>u. stored u (\<lambda>c. list_backfill_jobs c state_filter 100 0))"

definition with_job_id :: "('d, 't) command \<Rightarrow> string \<Rightarrow> (tenant \<Rightarrow> uuid \<Rightarrow> (command_error + 'a) run) \<Rightarrow> (command_error + 'a) run" where
  "with_job_id cm s f =
     (case tenant_of cm of
        Inl e \<Rightarrow> run_return (Inl e)
      | Inr _ \<Rightarrow>
          (case bc_uuid cm s of
             None \<Rightarrow> run_return (Inl (Told ''job_id must be a valid UUID''))
           | Some i \<Rightarrow> connected cm (\<lambda>u. f u i)))"

definition cancel_job :: "('d, 't) command \<Rightarrow> string \<Rightarrow> string option \<Rightarrow> (command_error + unit) run" where
  "cancel_job cm s reason = with_job_id cm s (\<lambda>u i. stored u (\<lambda>c. cancel_backfill_job c i reason))"

text \<open>What the progress line shows: the completed, all and the remaining partitions.\<close>

definition remaining_partitions :: "job \<Rightarrow> int" where
  "remaining_partitions j = j_total_partitions j - j_completed_partitions j - j_failed_partitions j - j_skipped_partitions j"

definition progress_of :: "job \<Rightarrow> int \<times> int \<times> int" where
  "progress_of j = (j_completed_partitions j, j_total_partitions j, remaining_partitions j)"

definition pause_job :: "('d, 't) command \<Rightarrow> string \<Rightarrow> (command_error + int \<times> int \<times> int) run" where
  "pause_job cm s =
     with_job_id cm s (\<lambda>u i.
       run_ok (stored u (\<lambda>c. pause_backfill_job c i)) (\<lambda>_.
       run_ok (stored u (\<lambda>c. get_backfill_job c i)) (\<lambda>j. run_return (Inr (progress_of j)))))"

definition resume_job :: "('d, 't) command \<Rightarrow> string \<Rightarrow> (command_error + int \<times> int \<times> int) run" where
  "resume_job cm s =
     with_job_id cm s (\<lambda>u i.
       run_ok (stored u (\<lambda>c. get_backfill_job c i)) (\<lambda>j.
         if j_state j \<noteq> ''paused''
         then run_return (Inl (Told (''Cannot resume job in state '' @ quoted (j_state j) @ ''. Only paused jobs can be resumed.'')))
         else run_ok (stored u (\<lambda>c. resume_backfill_job c i)) (\<lambda>_. run_return (Inr (progress_of j)))))"

text \<open>The status is the job, with the partitions that are listed.\<close>

definition job_status :: "('d, 't) command \<Rightarrow> string \<Rightarrow> (command_error + job \<times> part list) run" where
  "job_status cm s =
     with_job_id cm s (\<lambda>u i.
       run_ok (stored u (\<lambda>c. get_backfill_job c i)) (\<lambda>j.
       run_ok (stored u (\<lambda>c. list_backfill_partitions c i)) (\<lambda>ps. run_return (Inr (j, ps)))))"

end
