(* ===== verification/CliBackfillLife.thy ===== *)
theory CliBackfillLife
  imports CliBackfill ExecutorLife LocalLife
begin

text \<open>
  What the commands for backfills guarantee: the keys of a range of dates, the exact effect of a
  successful command on the database without interference, and what an executor that works at the
  same time can make of it.
\<close>

section \<open>Ranges of dates\<close>

lemma days_until_exact:
  assumes laws: "calendar_laws (bc_chrono cm) (bc_number cm)"
    and ex: "\<And>k. bc_number cm d \<le> k \<Longrightarrow> k \<le> bc_number cm final + 1 \<Longrightarrow> \<exists>x. bc_number cm x = k"
    and four: "\<And>k. bc_number cm d \<le> k \<Longrightarrow> k \<le> bc_number cm final \<Longrightarrow> in_four_digits k"
    and fuel: "bc_number cm final + 1 - bc_number cm d < int n" "0 < n"
  shows "\<exists>keys ds. days_until cm n d final = Some keys \<and>
    map (\<lambda>k. parse_date (bc_chrono cm) k ymd_format) keys = map Some ds \<and>
    map (bc_number cm) ds = [bc_number cm d..bc_number cm final]"
  using ex four fuel
proof (induction n arbitrary: d)
  case (Suc n)
  let ?num = "bc_number cm" and ?ch = "bc_chrono cm"
  show ?case
  proof (cases "?num d \<le> ?num final")
    case True
    from Suc.prems(1) [of "?num d + 1"] True obtain x where x: "?num x = ?num d + 1" by auto
    have plus: "case plus_days ?ch d 1 of Some d' \<Rightarrow> ?num d' = ?num d + 1 | None \<Rightarrow> \<not> (\<exists>d'. ?num d' = ?num d + 1)"
      using laws by (simp add: calendar_laws_def)
    with x obtain d' where d': "plus_days ?ch d 1 = Some d'" "?num d' = ?num d + 1"
      by (cases "plus_days ?ch d 1") auto
    have parse: "parse_date ?ch (show_date ?ch d ymd_format) ymd_format = Some d"
      using laws Suc.prems(2) [of "?num d"] True by (simp add: calendar_laws_def)
    have "\<exists>keys ds. days_until cm n d' final = Some keys \<and> map (\<lambda>k. parse_date ?ch k ymd_format) keys = map Some ds \<and>
        map ?num ds = [?num d'..?num final]"
      by (rule Suc.IH) (use Suc.prems d'(2) True in auto)
    then obtain keys ds where "days_until cm n d' final = Some keys" "map (\<lambda>k. parse_date ?ch k ymd_format) keys = map Some ds"
      "map ?num ds = [?num d'..?num final]" by blast
    with True d' parse show ?thesis
      by (intro exI [of _ "show_date ?ch d ymd_format # keys"] exI [of _ "d # ds"]) (simp add: upto_rec1)
  qed simp
qed simp

lemma four_digits_next:
  assumes "calendar_laws ch num" "in_four_digits (num d)" "num a \<le> k" "k \<le> num d + 1"
  shows "\<exists>x. num x = k"
proof -
  from assms(1) have "\<exists>x. from_ymd ch 10000 1 1 = Some x \<and> num x = month_start 10000 1 + 1"
    unfolding calendar_laws_def by (elim conjE) (drule spec [of _ 10000], drule spec [of _ 1], simp)
  then obtain x where x: "num x = month_start 10000 1 + 1" by blast
  moreover have "k \<le> num x" using x assms(2,4) by (simp add: in_four_digits_def)
  moreover have "\<forall>a b n. num a \<le> n \<longrightarrow> n \<le> num b \<longrightarrow> (\<exists>d. num d = n)"
    using assms(1) by (simp add: calendar_laws_def)
  ultimately show ?thesis using assms(3) by blast
qed

text \<open>
  C37: the partitions of a range of dates. For two dates of the years 0 to 9999 the answer is never a
  panic. It is an error exactly when the end is before the start or the range has more than 366 days;
  otherwise it is the list of the keys that parse to the days from the start to the end, both
  included, in order and each once.
\<close>

theorem date_range_exact:
  assumes "calendar_laws (bc_chrono cm) (bc_number cm)"
    and "parse_date (bc_chrono cm) s ymd_format = Some a" "parse_date (bc_chrono cm) e ymd_format = Some b"
    and "in_four_digits (bc_number cm a)" "in_four_digits (bc_number cm b)"
  shows "case generate_date_range_partitions cm s e of
      None \<Rightarrow> False
    | Some (Inl err) \<Rightarrow> bc_number cm b < bc_number cm a \<or> 366 \<le> bc_number cm b - bc_number cm a
    | Some (Inr keys) \<Rightarrow> bc_number cm a \<le> bc_number cm b \<and> bc_number cm b - bc_number cm a < 366 \<and>
        (\<exists>ds. map (\<lambda>k. parse_date (bc_chrono cm) k ymd_format) keys = map Some ds \<and>
          map (bc_number cm) ds = [bc_number cm a..bc_number cm b])"
proof (cases "bc_number cm b < bc_number cm a \<or> 366 \<le> bc_number cm b - bc_number cm a")
  case True
  then show ?thesis using assms(2,3) by (auto simp: generate_date_range_partitions_def max_partitions_def Let_def)
next
  case False
  have four: "in_four_digits k" if "bc_number cm a \<le> k" "k \<le> bc_number cm b" for k
    using assms(4,5) that by (simp add: in_four_digits_def)
  have "\<exists>keys ds. days_until cm 367 a b = Some keys \<and>
    map (\<lambda>k. parse_date (bc_chrono cm) k ymd_format) keys = map Some ds \<and>
    map (bc_number cm) ds = [bc_number cm a..bc_number cm b]"
    by (rule days_until_exact [OF assms(1) four_digits_next [OF assms(1,5)] four]) (use False in auto)
  with False assms(2,3) show ?thesis
    by (auto simp: generate_date_range_partitions_def max_partitions_def Let_def)
qed

section \<open>What a command writes\<close>

lemma stored_calm:
  assumes "list_all (calm u) ts" "stored u f ts db = Some (Inr a, ts', db')"
  shows "\<exists>t. ts = t # ts' \<and> calm u t \<and> f (tk_call t) db = (Inr a, db') \<and> list_all (calm u) ts'"
proof -
  obtain t ts1 where t: "ts = t # ts1" using assms(2) by (cases ts) (auto simp: stored_def)
  obtain q db1 where q: "f (tk_call t) db = (q, db1)" by (cases "f (tk_call t) db")
  with assms t show ?thesis by (cases q) (auto simp: stored_def try_calm_eq)
qed

definition fresh_partitions :: "tenant \<Rightarrow> uuid \<Rightarrow> string list \<Rightarrow> part list \<Rightarrow> bool" where
  "fresh_partitions u i keys ps \<longleftrightarrow> map bp_key ps = keys \<and>
     list_all (\<lambda>p. bp_job_id p = i \<and> bp_tenant_id p = u \<and> bp_state p = ''pending'' \<and> bp_attempt_count p = 0) ps"

lemma partitions_calm:
  assumes "list_all (calm u) ts" "create_partitions cm u i keys ts db = Some (Inr (), ts', db')"
  shows "\<exists>ps. db' = db\<lparr>t_parts := t_parts db @ ps\<rparr> \<and> fresh_partitions u i keys ps"
  using assms
proof (induction keys arbitrary: ts db)
  case Nil
  then show ?case by (intro exI [of _ "[]"]) (simp add: fresh_partitions_def)
next
  case (Cons k ks)
  let ?p = "requested_partition cm ts u i k"
  from Cons.prems(2) obtain ts1 db1 where
    st: "stored u (\<lambda>c. create_backfill_partition c ?p) ts db = Some (Inr (), ts1, db1)"
    and rest: "create_partitions cm u i ks ts1 db1 = Some (Inr (), ts', db')"
    by (auto simp: run_ok_Some)
  from stored_calm [OF Cons.prems(1) st] obtain t :: tick where
    t: "create_backfill_partition (tk_call t) ?p db = (Inr (), db1)" "list_all (calm u) ts1"
    by (elim exE conjE) blast
  then have db1: "db1 = db\<lparr>t_parts := t_parts db @ [?p]\<rparr>"
    by (auto simp: create_backfill_partition_def checked_Inr with_tenant_context_Inr insert_part_Inr simp del: checked.simps)
  from Cons.IH [OF t(2) rest] obtain ps where "db' = db1\<lparr>t_parts := t_parts db1 @ ps\<rparr>" "fresh_partitions u i ks ps" by blast
  then show ?case unfolding db1
    by (intro exI [of _ "?p # ps"]) (simp add: fresh_partitions_def requested_partition_def)
qed

lemma overlap_calm:
  assumes "list_all (calm u) ts" "no_overlap u a keys ts db = Some (Inr (), ts', db')"
  shows "db' = db \<and> list_all (calm u) ts' \<and>
    (\<forall>k\<in>set keys. \<forall>j\<in>set (t_jobs db). j_tenant_id j = u \<longrightarrow> j_asset_id j = a \<longrightarrow> k \<in> set (j_partition_keys j) \<longrightarrow>
       j_state j \<notin> active_states)"
  using assms
proof (induction keys arbitrary: ts)
  case (Cons k ks)
  from Cons.prems(2) obtain ts1 db1 where
    st: "stored u (\<lambda>c. find_active_backfill_for_partition c a k) ts db = Some (Inr None, ts1, db1)"
    and rest: "no_overlap u a ks ts1 db1 = Some (Inr (), ts', db')"
    by (auto simp: run_ok_Some split: option.splits)
  from stored_calm [OF Cons.prems(1) st] obtain t :: tick where
    t: "calm u t" "find_active_backfill_for_partition (tk_call t) a k db = (Inr None, db1)" "list_all (calm u) ts1"
    by blast
  have u: "tenant (tk_call t) = u" using t(1) by (simp add: calm_def)
  from t(2) have db1: "db1 = db" and
    none: "\<forall>j\<in>set (t_jobs db). j_tenant_id j = u \<longrightarrow> \<not> (j_asset_id j = a \<and> j_state j \<in> active_states \<and> k \<in> set (j_partition_keys j))"
    by (auto simp: find_active_backfill_for_partition_def with_tenant_context_Inr first_min_None my_jobs_def u)
  from Cons.IH [OF t(3) rest [unfolded db1]] none db1 show ?case by auto
qed simp

lemma asset_calm_name:
  assumes "list_all (calm u) ts" "find_asset_by_name u nm ts db = Some (Inr a, ts', db')"
  shows "db' = db \<and> list_all (calm u) ts' \<and> ar_name a = nm \<and> a \<in> set (my_assets (call_of u 0) db)"
proof -
  from assms(2) obtain as where
    st: "stored u (\<lambda>c. list_assets_page c 100 0) ts db = Some (Inr as, ts', db')" and a: "find (\<lambda>a. ar_name a = nm) as = Some a"
    by (auto simp: find_asset_by_name_def run_ok_Some split: option.splits)
  from stored_calm [OF assms(1) st] obtain t :: tick where
    t: "calm u t" "list_assets_page (tk_call t) 100 0 db = (Inr as, db')" "list_all (calm u) ts'"
    by blast
  from t(1,2) have "db' = db" "as = page 100 0 (newest_first ar_created_at ar_id (my_assets (call_of u 0) db))"
    by (auto simp: list_assets_page_def checked_Inr with_tenant_context_Inr my_calm simp del: checked.simps)
  moreover from a have "a \<in> set as" "ar_name a = nm" by (auto dest: find_Some_in)
  moreover have "set (page 100 0 xs) \<subseteq> set xs" for xs :: "asset_row list"
    by (auto simp: page_def dest: in_set_takeD in_set_dropD)
  then have "a \<in> set (newest_first ar_created_at ar_id (my_assets (call_of u 0) db))"
    using calculation by blast
  ultimately show ?thesis using t(3) by (simp add: newest_first_def)
qed

lemma requested_calm:
  assumes ts: "list_all (calm u) ts" and run: "create_requested cm u a what s e keys ro ts db = Some (Inr i, ts', db')"
  shows "\<exists>j ps. db' = db\<lparr>t_jobs := t_jobs db @ [j], t_parts := t_parts db @ ps\<rparr> \<and>
    j_id j = i \<and> j_tenant_id j = u \<and> j_asset_id j = ar_id a \<and> j_state j = ''pending'' \<and>
    j_partition_keys j = keys \<and> j_total_partitions j = int (length keys) \<and> fresh_partitions u i keys ps"
proof -
  from run obtain deadline where deadline: "parse_deadline cm (ro_sla_deadline ro) = Inr deadline"
    by (cases "parse_deadline cm (ro_sla_deadline ro)") (auto simp: create_requested_def)
  let ?j = "requested_job cm ts u a (colons (ar_id a # what @ [bc_stamp cm (bc_now cm ts 0)])) s e keys ro deadline"
  have "run_ok (stored u (\<lambda>c. create_backfill_job c ?j)) (\<lambda>_.
      run_ok (create_partitions cm u (j_id ?j) keys) (\<lambda>_. run_return (Inr (j_id ?j)))) ts db = Some (Inr i, ts', db')"
    using run deadline by (simp add: create_requested_def Let_def)
  then obtain ts1 db1 where c: "stored u (\<lambda>c. create_backfill_job c ?j) ts db = Some (Inr (), ts1, db1)"
    and p: "create_partitions cm u (j_id ?j) keys ts1 db1 = Some (Inr (), ts', db')" and i: "i = j_id ?j"
    by (auto simp: run_ok_Some)
  from stored_calm [OF ts c] obtain t :: tick where
    t: "create_backfill_job (tk_call t) ?j db = (Inr (), db1)" "list_all (calm u) ts1"
    by blast
  then have db1: "db1 = db\<lparr>t_jobs := t_jobs db @ [?j]\<rparr>"
    by (auto simp: create_backfill_job_def checked_Inr with_tenant_context_Inr insert_job_Inr requested_job_def simp del: checked.simps)
  from partitions_calm [OF t(2) p] obtain ps where
    ps: "db' = db1\<lparr>t_parts := t_parts db1 @ ps\<rparr>" "fresh_partitions u (j_id ?j) keys ps" by blast
  show ?thesis
    using ps i db1 by (intro exI [of _ ?j] exI [of _ ps]) (simp add: requested_job_def)
qed

text \<open>
  C33: what a successful request for a range of dates has done. Without interference it adds one pending
  job for an asset of that name, with the keys of the range and their number as its total, and for each
  key one pending partition of the job, in the order of the keys; nothing else changes. Before it, no
  active job of the tenant on that asset had one of the keys.
\<close>

theorem range_backfill_exact:
  assumes tenant: "bc_env cm ''TENANT_ID'' = Some u" and ts: "list_all (calm u) ts"
    and run: "execute_range_backfill cm nm s e ro ts db = Some (Inr i, ts', db')"
  shows "\<exists>a keys j ps. generate_date_range_partitions cm s e = Some (Inr keys) \<and>
    a \<in> set (my_assets (call_of u 0) db) \<and> ar_name a = nm \<and>
    db' = db\<lparr>t_jobs := t_jobs db @ [j], t_parts := t_parts db @ ps\<rparr> \<and>
    j_id j = i \<and> j_tenant_id j = u \<and> j_asset_id j = ar_id a \<and> j_state j = ''pending'' \<and>
    j_partition_keys j = keys \<and> j_total_partitions j = int (length keys) \<and> fresh_partitions u i keys ps \<and>
    (\<forall>k\<in>set keys. \<forall>j\<in>set (t_jobs db). j_tenant_id j = u \<longrightarrow> j_asset_id j = ar_id a \<longrightarrow> k \<in> set (j_partition_keys j) \<longrightarrow>
       j_state j \<notin> active_states)"
proof -
  from run obtain keys where keys: "generate_date_range_partitions cm s e = Some (Inr keys)"
    by (auto simp: execute_range_backfill_def split: option.splits sum.splits)
  have conn: "bc_connect cm = None"
    using run keys tenant by (auto simp: execute_range_backfill_def connected_def tenant_of_def split: option.splits)
  from run keys tenant conn obtain a :: asset_row and ts1 db1 ts2 db2 where
    a: "find_asset_by_name u nm ts db = Some (Inr a, ts1, db1)"
    and o: "no_overlap u (ar_id a) keys ts1 db1 = Some (Inr (), ts2, db2)"
    and c: "create_requested cm u a [s, e] s e keys ro ts2 db2 = Some (Inr i, ts', db')"
    by (auto simp: execute_range_backfill_def connected_def tenant_of_def run_ok_Some)
  note a' = asset_calm_name [OF ts a]
  from a' have ts1: "list_all (calm u) ts1" and db1: "db1 = db" by simp_all
  note o' = overlap_calm [OF ts1 o, unfolded db1]
  from o' have ts2: "list_all (calm u) ts2" and db2: "db2 = db" by simp_all
  from requested_calm [OF ts2 c] keys a' o' db2 show ?thesis by blast
qed

section \<open>Concrete commands\<close>

definition plain_command :: "(int, int) command" where
  "plain_command = \<lparr>bc_env = (\<lambda>v. if v = ''TENANT_ID'' then Some ''acme'' else None), bc_connect = None,
     bc_chrono = day_calendar, bc_number = id, bc_rfc3339 = (\<lambda>_. None), bc_stamp = show_int, bc_uuid = Some,
     bc_now = (\<lambda>_ _. 1000), bc_fresh = (\<lambda>ts. replicate (length ts) (CHR ''u''))\<rparr>"

definition plain_options :: request_options where
  "plain_options = \<lparr>ro_include_upstream = False, ro_max_upstream_depth = 0, ro_sla_deadline = None, ro_priority = 0\<rparr>"

definition request_db :: db where
  "request_db = empty_db\<lparr>t_assets := [asset_named ''a'']\<rparr>"

lemma range_run:
  "map_option (\<lambda>(r, ts, db'). (r, ts, map (\<lambda>j. (j_state j, j_total_partitions j)) (t_jobs db'), map bp_key (t_parts db')))
     (execute_range_backfill plain_command ''a'' ''7'' ''9'' plain_options (quiet 8) request_db) =
   Some (Inr ''uuuu'', [], [(''pending'', 3)], [''7'', ''8'', ''9''])"
  by code_simp

theorem range_backfill_exact_witness:
  "\<exists>i ts' db' j ps. execute_range_backfill plain_command ''a'' ''7'' ''9'' plain_options (quiet 8) request_db = Some (Inr i, ts', db') \<and>
     db' = request_db\<lparr>t_jobs := [j], t_parts := ps\<rparr> \<and> j_state j = ''pending''"
proof -
  obtain i ts' db' where run: "execute_range_backfill plain_command ''a'' ''7'' ''9'' plain_options (quiet 8) request_db = Some (Inr i, ts', db')"
    using range_run by auto
  have u: "bc_env plain_command ''TENANT_ID'' = Some ''acme''" by (simp add: plain_command_def)
  from range_backfill_exact [OF u quiet_calm run] run show ?thesis
    by (auto simp: request_db_def empty_db_def)
qed

theorem date_range_exact_witness:
  "\<exists>keys. generate_date_range_partitions plain_command ''7'' ''9'' = Some (Inr keys) \<and>
     (\<exists>ds. map (\<lambda>k. parse_date day_calendar k ymd_format) keys = map Some ds \<and> map id ds = [7..9::int])"
proof -
  have c: "bc_chrono plain_command = day_calendar" "bc_number plain_command = id" by (simp_all add: plain_command_def)
  have p: "parse_date (bc_chrono plain_command) ''7'' ymd_format = Some 7" "parse_date (bc_chrono plain_command) ''9'' ymd_format = Some 9"
    by code_simp+
  have f: "in_four_digits (bc_number plain_command 7)" "in_four_digits (bc_number plain_command 9)"
    by (simp_all add: c in_four_digits_def month_start_def is_leap_year_def)
  have l: "calendar_laws (bc_chrono plain_command) (bc_number plain_command)" using day_calendar_laws by (simp add: c)
  have k: "generate_date_range_partitions plain_command ''7'' ''9'' = Some (Inr [''7'', ''8'', ''9''])" by code_simp
  from date_range_exact [OF l p f] show ?thesis unfolding k c by simp
qed

section \<open>An executor at work meanwhile\<close>

definition racing_ops :: "db_op list" where
  "racing_ops = map (Backfill sample_call) [Claim_job 120, Heartbeat ''uu'', Transition_job ''uu'' ''running'' ''completed'' None]"

definition racing_schedule :: "tick list" where
  "racing_schedule = quiet 3 @ [\<lparr>tk_call = sample_call, tk_ops = racing_ops\<rparr>]"

definition requested_db :: db where
  "requested_db = snd (create_backfill_job sample_call (requested_job plain_command (quiet 2) ''acme'' (asset_named ''a'')
     ''a:7:1000'' ''7'' ''7'' [''7''] plain_options None) request_db)"

lemma racing_run:
  "(let db1 = foldl db_step requested_db racing_ops in
    map_option (\<lambda>(r, ts, db2). (r, ts, t_jobs db2 = t_jobs db1, t_parts db2 = t_parts db1))
      (poll_and_process_jobs still_executor (quiet 7) requested_db)) = Some (Inr 1, [], True, True)"
  "map_option (\<lambda>(r, ts, db'). (r, ts, map j_state (t_jobs db'), map (\<lambda>p. (bp_key p, bp_state p)) (t_parts db'),
       map_option (\<lambda>(r, ts, db'). (r, ts)) (poll_and_process_jobs still_executor (quiet 1) db')))
     (execute_single_partition plain_command ''a'' ''7'' plain_options racing_schedule request_db) =
   Some (Inr ''uu'', [], [''completed''], [(''7'', ''pending'')], Some (Inr 0, []))"
  by code_simp+

text \<open>
  An executor that is quick loses the partition of a request. The command creates the job and its
  partition in two calls. When an executor polls in between, it claims the job, finds no partition and
  completes it; the command then adds the partition and succeeds. In the end the job is completed, its
  only partition is pending, and the next poll finds nothing to do. The writes of the executor between
  the calls are those of the racing schedule.
\<close>

theorem early_executor_loses_partition:
  "\<exists>db1 db' db''.
     poll_and_process_jobs still_executor (quiet 7) requested_db = Some (Inr 1, [], db1) \<and>
     t_jobs db1 = t_jobs (foldl db_step requested_db racing_ops) \<and>
     execute_single_partition plain_command ''a'' ''7'' plain_options racing_schedule request_db = Some (Inr ''uu'', [], db') \<and>
     map j_state (t_jobs db') = [''completed''] \<and> map (\<lambda>p. (bp_key p, bp_state p)) (t_parts db') = [(''7'', ''pending'')] \<and>
     poll_and_process_jobs still_executor (quiet 1) db' = Some (Inr 0, [], db'')"
  using racing_run by (auto simp: Let_def)

end
