(* ===== verification/Scheduler.thy ===== *)
theory Scheduler
  imports Cloud
begin

text \<open>
  The client of Cloud Scheduler (\<open>servo-cloud-gcp/src/scheduler.rs\<close>). The state of a manager is its
  authentication and the requests it has sent; a request is the method, the address and, for the
  creation and the update of a job, the job. The name in a reply is read by a library, a parameter.
\<close>

record schedule_config =
  sk_cron :: string
  sk_timezone :: string
  sk_enabled :: bool

text \<open>The target is called with a payload that names the workflow, the tenant and the scheduler.\<close>

record scheduler_job =
  sj_name :: "string option"
  sj_schedule :: string
  sj_timezone :: string
  sj_uri :: string
  sj_tenant :: string
  sj_workflow :: uuid
  sj_email :: string
  sj_audience :: string
  sj_state :: string

record scheduler_request =
  sq_method :: string
  sq_url :: string
  sq_job :: "scheduler_job option"

record scheduler_client =
  sm_project :: string
  sm_location :: string
  sm_worker_url :: string
  sm_auth :: gcp_auth
  sm_sent :: "scheduler_request list"

text \<open>The authentication by a key file; only the key of a service account is accepted.\<close>

definition from_service_account_json ::
  "(string \<Rightarrow> string + string \<times> credentials) \<Rightarrow> breaker_config \<Rightarrow> string \<Rightarrow> cloud_error + gcp_auth" where
  "from_service_account_json parse cfg content =
     (case parse content of
        Inl e \<Rightarrow> Inl (Auth (''Failed to parse service account JSON: '' @ e))
      | Inr (ty, cd) \<Rightarrow>
          if ty \<noteq> ''service_account''
          then Inl (Auth (''Invalid account type: expected '' @ quoted ''service_account'' @ '', got '' @ quoted ty))
          else Inr \<lparr>au_mode = ServiceAccount cd, au_cache = None, au_config = cfg, au_breaker = breaker_new\<rparr>)"

definition scheduler_new ::
  "(string \<Rightarrow> string + string \<times> credentials) \<Rightarrow> breaker_config \<Rightarrow> string \<Rightarrow> string \<Rightarrow> string \<Rightarrow> string \<Rightarrow> cloud_error + scheduler_client" where
  "scheduler_new parse cfg project location url content =
     map_sum id (\<lambda>a. \<lparr>sm_project = project, sm_location = location, sm_worker_url = url, sm_auth = a, sm_sent = []\<rparr>)
       (from_service_account_json parse cfg content)"

definition replace_chars :: "char set \<Rightarrow> string \<Rightarrow> string" where
  "replace_chars cs s = map (\<lambda>c. if c \<in> cs then CHR ''-'' else c) s"

definition job_name :: "uuid \<Rightarrow> tenant \<Rightarrow> string" where
  "job_name w u = ''servo-'' @ replace_chars {CHR ''.'', CHR ''/'', CHR 0x5C} u @ ''-'' @ filter (\<lambda>c. c \<noteq> CHR ''-'') w"

definition parent_path :: "scheduler_client \<Rightarrow> string" where
  "parent_path m = ''projects/'' @ sm_project m @ ''/locations/'' @ sm_location m"

definition scheduler_url :: "string \<Rightarrow> string" where
  "scheduler_url path = ''https://cloudscheduler.googleapis.com/v1/'' @ path"

definition job_path :: "scheduler_client \<Rightarrow> uuid \<Rightarrow> tenant \<Rightarrow> string" where
  "job_path m w u = parent_path m @ ''/jobs/'' @ job_name w u"

definition scheduler_job_of :: "scheduler_client \<Rightarrow> string option \<Rightarrow> uuid \<Rightarrow> tenant \<Rightarrow> schedule_config \<Rightarrow> scheduler_job" where
  "scheduler_job_of m nm w u sk =
     \<lparr>sj_name = nm, sj_schedule = sk_cron sk, sj_timezone = sk_timezone sk,
      sj_uri = sm_worker_url m @ ''/api/v1/workflows/'' @ w @ ''/execute'', sj_tenant = u, sj_workflow = w,
      sj_email = service_account_email (sm_auth m), sj_audience = sm_worker_url m,
      sj_state = (if sk_enabled sk then ''ENABLED'' else ''PAUSED'')\<rparr>"

text \<open>A token, then the request; what the reply means is the caller's.\<close>

definition scheduler_call ::
  "cloud_lib \<Rightarrow> time \<Rightarrow> (scheduler_client \<Rightarrow> scheduler_request) \<Rightarrow> (http_reply \<Rightarrow> cloud_error + 'a) \<Rightarrow> (scheduler_client, cloud_error + time \<times> 'a) net" where
  "scheduler_call lib n request answer =
     run_bind (run_get request) (\<lambda>rq.
     run_ok (on_part sm_auth (\<lambda>a m. m\<lparr>sm_auth := a\<rparr>) (get_access_token lib n scope_cloud)) (\<lambda>_.
     run_bind send (\<lambda>r.
     run_bind (run_modify (\<lambda>m. m\<lparr>sm_sent := sm_sent m @ [rq]\<rparr>)) (\<lambda>_.
       run_return (case r of
         Inl e \<Rightarrow> Inl (Internal (''HTTP request failed: '' @ e))
       | Inr (t, rep) \<Rightarrow> map_sum id (Pair t) (answer rep))))))"

definition scheduler_error :: "cloud_lib \<Rightarrow> http_reply \<Rightarrow> cloud_error" where
  "scheduler_error lib r = Api (''Cloud Scheduler API returned '' @ cl_status lib (hr_status r) @ '': '' @ body_text r)"

definition named_job :: "cloud_lib \<Rightarrow> (string option \<Rightarrow> string + string) \<Rightarrow> http_reply \<Rightarrow> cloud_error + string" where
  "named_job lib parse r =
     (if is_success_status (hr_status r)
      then map_sum (\<lambda>e. Api (''Failed to parse response: '' @ e)) id (parse (hr_body r))
      else Inl (scheduler_error lib r))"

definition job_done :: "cloud_lib \<Rightarrow> http_reply \<Rightarrow> cloud_error + unit" where
  "job_done lib r = (if is_success_status (hr_status r) then Inr () else Inl (scheduler_error lib r))"

definition create_job ::
  "cloud_lib \<Rightarrow> (string option \<Rightarrow> string + string) \<Rightarrow> time \<Rightarrow> uuid \<Rightarrow> tenant \<Rightarrow> schedule_config \<Rightarrow> (scheduler_client, cloud_error + time \<times> string) net" where
  "create_job lib parse n w u sk =
     scheduler_call lib n (\<lambda>m. \<lparr>sq_method = ''POST'', sq_url = scheduler_url (parent_path m @ ''/jobs''),
       sq_job = Some (scheduler_job_of m (Some (parent_path m @ ''/'' @ job_name w u)) w u sk)\<rparr>) (named_job lib parse)"

definition update_job ::
  "cloud_lib \<Rightarrow> (string option \<Rightarrow> string + string) \<Rightarrow> time \<Rightarrow> uuid \<Rightarrow> tenant \<Rightarrow> schedule_config \<Rightarrow> (scheduler_client, cloud_error + time \<times> string) net" where
  "update_job lib parse n w u sk =
     scheduler_call lib n (\<lambda>m. \<lparr>sq_method = ''PATCH'',
       sq_url = scheduler_url (job_path m w u) @ ''?updateMask=schedule,timeZone,state,httpTarget'',
       sq_job = Some (scheduler_job_of m None w u sk)\<rparr>) (named_job lib parse)"

text \<open>A job that is not there counts as deleted.\<close>

definition delete_job :: "cloud_lib \<Rightarrow> time \<Rightarrow> uuid \<Rightarrow> tenant \<Rightarrow> (scheduler_client, cloud_error + time \<times> unit) net" where
  "delete_job lib n w u =
     scheduler_call lib n (\<lambda>m. \<lparr>sq_method = ''DELETE'', sq_url = scheduler_url (job_path m w u), sq_job = None\<rparr>)
       (\<lambda>r. if is_success_status (hr_status r) \<or> hr_status r = 404 then Inr () else Inl (scheduler_error lib r))"

definition pause_scheduler_job :: "cloud_lib \<Rightarrow> time \<Rightarrow> uuid \<Rightarrow> tenant \<Rightarrow> (scheduler_client, cloud_error + time \<times> unit) net" where
  "pause_scheduler_job lib n w u =
     scheduler_call lib n (\<lambda>m. \<lparr>sq_method = ''POST'', sq_url = scheduler_url (job_path m w u @ '':pause''), sq_job = None\<rparr>) (job_done lib)"

definition resume_scheduler_job :: "cloud_lib \<Rightarrow> time \<Rightarrow> uuid \<Rightarrow> tenant \<Rightarrow> (scheduler_client, cloud_error + time \<times> unit) net" where
  "resume_scheduler_job lib n w u =
     scheduler_call lib n (\<lambda>m. \<lparr>sq_method = ''POST'', sq_url = scheduler_url (job_path m w u @ '':resume''), sq_job = None\<rparr>) (job_done lib)"

definition get_job ::
  "cloud_lib \<Rightarrow> (string option \<Rightarrow> string + string) \<Rightarrow> time \<Rightarrow> uuid \<Rightarrow> tenant \<Rightarrow> (scheduler_client, cloud_error + time \<times> string option) net" where
  "get_job lib parse n w u =
     scheduler_call lib n (\<lambda>m. \<lparr>sq_method = ''GET'', sq_url = scheduler_url (job_path m w u), sq_job = None\<rparr>)
       (\<lambda>r. if hr_status r = 404 then Inr None else map_sum id Some (named_job lib parse r))"

definition create_or_update_job ::
  "cloud_lib \<Rightarrow> (string option \<Rightarrow> string + string) \<Rightarrow> time \<Rightarrow> uuid \<Rightarrow> tenant \<Rightarrow> schedule_config \<Rightarrow> (scheduler_client, cloud_error + time \<times> string) net" where
  "create_or_update_job lib parse n w u sk =
     run_ok (get_job lib parse n w u) (\<lambda>(t, found). case found of
       Some _ \<Rightarrow> update_job lib parse t w u sk
     | None \<Rightarrow> create_job lib parse t w u sk)"

end
