(* ===== verification/Deploy.thy ===== *)
theory Deploy
  imports Scheduler CloudRun CliBackfill
begin

text \<open>
  The command that deploys a workflow (\<open>servo-cli/src/commands/deploy.rs\<close>) and the configuration of
  the commands (\<open>config.rs\<close>). The file system, the environment, the parsers of the definition formats,
  of cron expressions and time zones, the text of a partition configuration, the clocks and the random
  identifiers are a parameter, the record \<open>deploy\<close>. The definition file is read twice and is the same
  both times. What the command prints is left out.
\<close>

section \<open>Configuration\<close>

record config =
  cf_database_url :: string
  cf_cloud_provider :: "string option"
  cf_project_id :: "string option"
  cf_region :: "string option"
  cf_tenant_id :: "string option"
  cf_worker_url :: "string option"
  cf_service_account_file :: "string option"

definition cli_config_default :: config where
  "cli_config_default = \<lparr>cf_database_url = ''postgresql://localhost/servo'', cf_cloud_provider = None, cf_project_id = None,
     cf_region = None, cf_tenant_id = None, cf_worker_url = None, cf_service_account_file = None\<rparr>"

text \<open>An option over a default of lower priority.\<close>

definition or_lower :: "'a option \<Rightarrow> 'a option \<Rightarrow> 'a option" where
  "or_lower a b = (case a of Some x \<Rightarrow> Some x | None \<Rightarrow> b)"

definition merge_config :: "config \<Rightarrow> config \<Rightarrow> config" where
  "merge_config c d =
     \<lparr>cf_database_url = (if cf_database_url d \<noteq> cf_database_url cli_config_default then cf_database_url d else cf_database_url c),
      cf_cloud_provider = or_lower (cf_cloud_provider d) (cf_cloud_provider c),
      cf_project_id = or_lower (cf_project_id d) (cf_project_id c),
      cf_region = or_lower (cf_region d) (cf_region c),
      cf_tenant_id = or_lower (cf_tenant_id d) (cf_tenant_id c),
      cf_worker_url = or_lower (cf_worker_url d) (cf_worker_url c),
      cf_service_account_file = or_lower (cf_service_account_file d) (cf_service_account_file c)\<rparr>"

definition apply_env_overrides :: "(string \<Rightarrow> string option) \<Rightarrow> config \<Rightarrow> config" where
  "apply_env_overrides env c =
     \<lparr>cf_database_url = (case env ''DATABASE_URL'' of Some v \<Rightarrow> v | None \<Rightarrow> cf_database_url c),
      cf_cloud_provider = or_lower (env ''CLOUD_PROVIDER'') (cf_cloud_provider c),
      cf_project_id = or_lower (env ''PROJECT_ID'') (cf_project_id c),
      cf_region = or_lower (env ''REGION'') (cf_region c),
      cf_tenant_id = or_lower (env ''TENANT_ID'') (cf_tenant_id c),
      cf_worker_url = or_lower (env ''WORKER_URL'') (cf_worker_url c),
      cf_service_account_file = or_lower (env ''GOOGLE_APPLICATION_CREDENTIALS'') (cf_service_account_file c)\<rparr>"

definition validate_cli_config :: "config \<Rightarrow> string + unit" where
  "validate_cli_config c =
     (if cf_database_url c = [] then Inl ''database_url cannot be empty''
      else case cf_cloud_provider c of
        None \<Rightarrow> Inr ()
      | Some p \<Rightarrow>
          if p \<in> {''gcp'', ''aws'', ''local''} then Inr ()
          else Inl (''Invalid cloud_provider '' @ quoted p @ ''. Must be one of: gcp, aws, local''))"

text \<open>A path is read when it exists; the reading and the parsing may fail.\<close>

definition config_search_paths :: "(string \<Rightarrow> string option) \<Rightarrow> string option \<Rightarrow> string list" where
  "config_search_paths env dir =
     (case env ''SERVO_CONFIG'' of Some p \<Rightarrow> [p] | None \<Rightarrow> []) @ [''servo.toml''] @
     (case dir of Some d \<Rightarrow> [d @ ''/servo/config.toml''] | None \<Rightarrow> [])"

fun load_from_file :: "(string \<Rightarrow> (string + string) option) \<Rightarrow> (string \<Rightarrow> string + config) \<Rightarrow> string list \<Rightarrow> string + config option" where
  "load_from_file files parse [] = Inr None"
| "load_from_file files parse (p # ps) =
     (case files p of
        None \<Rightarrow> load_from_file files parse ps
      | Some (Inl e) \<Rightarrow> Inl e
      | Some (Inr content) \<Rightarrow>
          (case parse content of
             Inl e \<Rightarrow> Inl (''Failed to parse '' @ p @ '': '' @ e)
           | Inr c \<Rightarrow> Inr (Some c)))"

definition config_load ::
  "(string \<Rightarrow> string option) \<Rightarrow> string option \<Rightarrow> (string \<Rightarrow> (string + string) option) \<Rightarrow> (string \<Rightarrow> string + config) \<Rightarrow> string + config" where
  "config_load env dir files parse =
     (case load_from_file files parse (config_search_paths env dir) of
        Inl e \<Rightarrow> Inl e
      | Inr found \<Rightarrow>
          (let c = (case found of Some f \<Rightarrow> merge_config cli_config_default f | None \<Rightarrow> cli_config_default);
               c' = apply_env_overrides env c in
           map_sum id (\<lambda>_. c') (validate_cli_config c')))"

section \<open>Definitions of workflows\<close>

record schedule_definition =
  sd_cron :: string
  sd_timezone :: string
  sd_enabled :: "bool option"

record partition_definition =
  pd_type :: string
  pd_key :: string
  pd_expression :: "string option"
  pd_lower_bound :: "string option"
  pd_upper_bound :: "string option"

record dependency_definition =
  dd_asset :: string
  dd_type :: string

record asset_definition =
  ad_name :: string
  ad_type :: string
  ad_description :: "string option"
  ad_owner :: "string option"
  ad_tags :: "string list"
  ad_dependencies :: "dependency_definition list"
  ad_partition :: "partition_definition option"
  ad_module :: "string option"
  ad_function :: "string option"

record workflow_definition =
  wd_name :: string
  wd_description :: "string option"
  wd_owner :: "string option"
  wd_tags :: "string list"
  wd_schedule :: "schedule_definition option"
  wd_assets :: "asset_definition list"

text \<open>The partition type of a configuration; every unknown type is taken as daily.\<close>

datatype partition_json = Time_json string | Custom_json string | Range_json string string

definition or_empty :: "string option \<Rightarrow> string" where
  "or_empty s = (case s of Some t \<Rightarrow> t | None \<Rightarrow> [])"

definition to_partition_config_json :: "partition_definition \<Rightarrow> partition_json \<times> string" where
  "to_partition_config_json p =
     ((let ty = to_lowercase (pd_type p) in
       if ty = ''daily'' then Time_json ''Daily''
       else if ty = ''hourly'' then Time_json ''Hourly''
       else if ty = ''weekly'' then Time_json ''Weekly''
       else if ty = ''monthly'' then Time_json ''Monthly''
       else if ty = ''yearly'' then Time_json ''Yearly''
       else if ty = ''custom'' then Custom_json (or_empty (pd_expression p))
       else if ty = ''range'' then Range_json (or_empty (pd_lower_bound p)) (or_empty (pd_upper_bound p))
       else Time_json ''Daily''), pd_key p)"

record deploy =
  dp_env :: "string \<Rightarrow> string option"
  dp_config :: "string + config"
  dp_connect :: "storage_error option"
  dp_files :: "string \<Rightarrow> (string + string) option"
  dp_extension :: "string \<Rightarrow> string option"
  dp_yaml :: "string \<Rightarrow> string + workflow_definition"
  dp_toml :: "string \<Rightarrow> string + workflow_definition"
  dp_json :: "string \<Rightarrow> string + workflow_definition"
  dp_cron :: "string \<Rightarrow> bool"
  dp_timezone :: "string \<Rightarrow> bool"
  dp_partition_text :: "partition_json \<times> string \<Rightarrow> string"
  dp_sx :: "sqlx_error \<Rightarrow> string"
  dp_now :: "tick list \<Rightarrow> time"
  dp_fresh :: "tick list \<Rightarrow> uuid"
  dp_clock :: "tick list \<Rightarrow> time"
  dp_lib :: cloud_lib
  dp_job_name :: "string option \<Rightarrow> string + string"
  dp_service_account :: "string \<Rightarrow> string + string \<times> credentials"  \<comment> \<open>the type and the credentials of a key file\<close>
  dp_breaker :: breaker_config

definition validate_schedule :: "deploy \<Rightarrow> schedule_definition \<Rightarrow> string + unit" where
  "validate_schedule dp s =
     (if \<not> dp_cron dp (''0 '' @ sd_cron s)
      then Inl (''Invalid cron expression '' @ quoted (sd_cron s) @ ''. Expected format: ''
             @ quoted ''minute hour day month weekday'' @ '' (e.g., '' @ quoted ''0 2 * * *'' @ '' for daily at 2 AM)'')
      else if \<not> dp_timezone dp (sd_timezone s)
      then Inl (''Invalid timezone '' @ quoted (sd_timezone s) @ ''. Use IANA timezone format (e.g., '' @ quoted ''America/New_York''
             @ '', '' @ quoted ''UTC'' @ '', '' @ quoted ''Europe/London'' @ '')'')
      else Inr ())"

fun check_assets :: "string list \<Rightarrow> asset_definition list \<Rightarrow> string + string list" where
  "check_assets names [] = Inr names"
| "check_assets names (a # as) =
     (if ad_name a = [] then Inl ''Asset name cannot be empty''
      else if ad_name a \<in> set names then Inl (''Duplicate asset name: '' @ quoted (ad_name a))
      else if ad_type a = [] then Inl (''Asset '' @ quoted (ad_name a) @ '' must have a type'')
      else check_assets (ad_name a # names) as)"

definition asset_edges :: "workflow_definition \<Rightarrow> (string \<times> string) list" where
  "asset_edges d = concat (map (\<lambda>a. map (\<lambda>e. (ad_name a, dd_asset e)) (ad_dependencies a)) (wd_assets d))"

definition undefined_asset :: "string \<Rightarrow> string \<Rightarrow> string" where
  "undefined_asset a b = ''Asset '' @ quoted a @ '' depends on '' @ quoted b @ '' which is not defined in this workflow''"

definition validate_workflow_definition :: "deploy \<Rightarrow> workflow_definition \<Rightarrow> string + unit" where
  "validate_workflow_definition dp d =
     (if wd_name d = [] then Inl ''Workflow name cannot be empty''
      else case (case wd_schedule d of None \<Rightarrow> Inr () | Some s \<Rightarrow> validate_schedule dp s) of
        Inl e \<Rightarrow> Inl e
      | Inr _ \<Rightarrow>
          (case check_assets [] (wd_assets d) of
             Inl e \<Rightarrow> Inl e
           | Inr names \<Rightarrow>
               (case find (\<lambda>(a, b). b \<notin> set names) (asset_edges d) of
                  Some (a, b) \<Rightarrow> Inl (undefined_asset a b)
                | None \<Rightarrow>
                    (case find (\<lambda>(a, b). b = a) (asset_edges d) of
                       Some (a, _) \<Rightarrow> Inl (''Asset '' @ quoted a @ '' cannot depend on itself'')
                     | None \<Rightarrow> Inr ()))))"

definition parse_error :: "string \<Rightarrow> string + 'a \<Rightarrow> string + 'a" where
  "parse_error msg r = map_sum (\<lambda>_. msg) id r"

definition parse_definition :: "deploy \<Rightarrow> string \<Rightarrow> string \<Rightarrow> string + workflow_definition" where
  "parse_definition dp ext content =
     (if ext = ''yaml'' \<or> ext = ''yml'' then parse_error ''Failed to parse YAML workflow definition'' (dp_yaml dp content)
      else if ext = ''toml'' then parse_error ''Failed to parse TOML workflow definition'' (dp_toml dp content)
      else if ext = ''json'' then parse_error ''Failed to parse JSON workflow definition'' (dp_json dp content)
      else if starts_with ''{'' (trim_text content) then parse_error ''Failed to parse as JSON'' (dp_json dp content)
      else if CHR '':'' \<in> set content \<and> CHR ''='' \<notin> set content then parse_error ''Failed to parse as YAML'' (dp_yaml dp content)
      else parse_error ''Failed to parse as TOML'' (dp_toml dp content))"

definition parse_workflow_file :: "deploy \<Rightarrow> string \<Rightarrow> string + workflow_definition" where
  "parse_workflow_file dp path =
     (case dp_files dp path of
        None \<Rightarrow> Inl (''Workflow file not found: '' @ path)
      | Some (Inl _) \<Rightarrow> Inl (''Failed to read file: '' @ path)
      | Some (Inr content) \<Rightarrow>
          (case parse_definition dp (to_lowercase (or_empty (dp_extension dp path))) content of
             Inl e \<Rightarrow> Inl e
           | Inr d \<Rightarrow> map_sum id (\<lambda>_. d) (validate_workflow_definition dp d)))"

section \<open>Deploying a workflow\<close>

text \<open>An error with a text of its own, or one of the storage, with what was being done if that is told.\<close>

datatype deploy_error = Message string | Because string storage_error | Unexplained storage_error

definition told :: "string + 'a \<Rightarrow> deploy_error + 'a" where
  "told r = map_sum Message id r"

definition deploying :: "(storage_error \<Rightarrow> deploy_error) \<Rightarrow> tenant \<Rightarrow> (call \<Rightarrow> db \<Rightarrow> ('a, db) outcome) \<Rightarrow> (deploy_error + 'a) run" where
  "deploying h u f = try_db h (as_tenant u f)"

definition find_workflow_by_name :: "tenant \<Rightarrow> string \<Rightarrow> (deploy_error + workflow_row option) run" where
  "find_workflow_by_name u nm =
     run_ok (deploying Unexplained u (\<lambda>c. list_workflows c 1000 0)) (\<lambda>ws. run_return (Inr (find (\<lambda>w. wr_name w = nm) ws)))"

definition find_deployed_asset :: "tenant \<Rightarrow> string \<Rightarrow> (deploy_error + asset_row option) run" where
  "find_deployed_asset u nm =
     run_ok (deploying Unexplained u (\<lambda>c. list_assets_page c 10000 0)) (\<lambda>as. run_return (Inr (find (\<lambda>a. ar_name a = nm) as)))"

definition workflow_of_definition :: "deploy \<Rightarrow> tick list \<Rightarrow> tenant \<Rightarrow> workflow_definition \<Rightarrow> workflow_row option \<Rightarrow> workflow_row" where
  "workflow_of_definition dp ts u d existing =
     \<lparr>wr_id = (case existing of Some w \<Rightarrow> wr_id w | None \<Rightarrow> dp_fresh dp ts), wr_name = wd_name d,
      wr_description = wd_description d, wr_owner = wd_owner d, wr_tags = wd_tags d, wr_tenant_id = Some u,
      wr_version = (if existing \<noteq> None then 0 else 1), wr_schedule_cron = map_option sd_cron (wd_schedule d),
      wr_schedule_timezone = map_option sd_timezone (wd_schedule d),
      wr_schedule_enabled = map_option (\<lambda>s. case sd_enabled s of Some b \<Rightarrow> b | None \<Rightarrow> True) (wd_schedule d),
      wr_scheduler_job_name = None, wr_last_scheduled_run = None, wr_next_scheduled_run = None,
      wr_created_at = dp_now dp ts, wr_updated_at = dp_now dp ts\<rparr>"

definition asset_of_definition ::
  "deploy \<Rightarrow> time \<Rightarrow> uuid \<Rightarrow> tenant \<Rightarrow> string option \<Rightarrow> asset_definition \<Rightarrow> asset_row option \<Rightarrow> asset_row" where
  "asset_of_definition dp n fresh u by_default a existing =
     \<lparr>ar_id = (case existing of Some r \<Rightarrow> ar_id r | None \<Rightarrow> fresh), ar_name = ad_name a, ar_description = ad_description a,
      ar_asset_type = ad_type a, ar_owner = or_lower (ad_owner a) by_default, ar_tags = ad_tags a,
      ar_partition_config = map_option (\<lambda>p. dp_partition_text dp (to_partition_config_json p)) (ad_partition a),
      ar_compute_fn_module = ad_module a, ar_compute_fn_function = ad_function a, ar_tenant_id = Some u,
      ar_created_at = (case existing of Some r \<Rightarrow> ar_created_at r | None \<Rightarrow> n), ar_updated_at = n\<rparr>"

definition create_or_update_asset :: "deploy \<Rightarrow> tenant \<Rightarrow> string option \<Rightarrow> asset_definition \<Rightarrow> (deploy_error + uuid) run" where
  "create_or_update_asset dp u by_default a =
     run_bind run_point (\<lambda>ts.
     run_ok (find_deployed_asset u (ad_name a)) (\<lambda>existing.
     run_bind run_point (\<lambda>ts'.
       let row = asset_of_definition dp (dp_now dp ts) (dp_fresh dp ts') u by_default a existing in
       run_ok (if existing \<noteq> None
               then deploying (Because (''Failed to update asset '' @ quoted (ad_name a))) u (\<lambda>c. update_asset c row)
               else deploying (Because (''Failed to create asset '' @ quoted (ad_name a))) u (\<lambda>c. create_asset c row))
         (\<lambda>_. run_return (Inr (ar_id row))))))"

text \<open>The first pass: the identifiers of the assets by their names.\<close>

fun deploy_assets ::
  "deploy \<Rightarrow> tenant \<Rightarrow> string option \<Rightarrow> (string \<times> uuid) list \<Rightarrow> asset_definition list \<Rightarrow> (deploy_error + (string \<times> uuid) list) run" where
  "deploy_assets dp u by_default ids [] = run_return (Inr ids)"
| "deploy_assets dp u by_default ids (a # as) =
     run_ok (create_or_update_asset dp u by_default a) (\<lambda>i. deploy_assets dp u by_default ((ad_name a, i) # ids) as)"

definition deployed_dependency_type :: "string \<Rightarrow> deploy_error + string" where
  "deployed_dependency_type ty =
     (if ty \<in> {''data'', ''metadata'', ''control''} then Inr ty
      else Inl (Message (''Invalid dependency type '' @ quoted ty @ ''. Must be one of: data, metadata, control'')))"

text \<open>A dependency that is there already counts as an error that is forgiven.\<close>

definition is_duplicate :: "deploy \<Rightarrow> storage_error \<Rightarrow> bool" where
  "is_duplicate dp e \<longleftrightarrow>
     str_contains ''duplicate key'' (show_storage_error (dp_sx dp) e) \<or> str_contains ''already exists'' (show_storage_error (dp_sx dp) e)"

definition create_dependency ::
  "deploy \<Rightarrow> tenant \<Rightarrow> (string \<times> uuid) list \<Rightarrow> string \<Rightarrow> dependency_definition \<Rightarrow> (deploy_error + nat) run" where
  "create_dependency dp u ids nm e =
     (case map_of ids nm of
        None \<Rightarrow> run_panic
      | Some down \<Rightarrow>
     (case map_of ids (dd_asset e) of
        None \<Rightarrow> run_return (Inl (Message (undefined_asset nm (dd_asset e))))
      | Some up \<Rightarrow>
     (case deployed_dependency_type (dd_type e) of
        Inl x \<Rightarrow> run_return (Inl x)
      | Inr ty \<Rightarrow>
          run_bind run_point (\<lambda>ts.
          run_bind (try_db id (as_tenant u (\<lambda>c. create_asset_dependency c (dp_fresh dp ts) up down ty))) (\<lambda>r.
            run_return (case r of
              Inr _ \<Rightarrow> Inr 1
            | Inl x \<Rightarrow> if is_duplicate dp x then Inr 0
                else Inl (Because (''Failed to create dependency '' @ dd_asset e @ '' -> '' @ nm) x)))))))"

fun create_dependencies ::
  "deploy \<Rightarrow> tenant \<Rightarrow> (string \<times> uuid) list \<Rightarrow> nat \<Rightarrow> (string \<times> dependency_definition) list \<Rightarrow> (deploy_error + nat) run" where
  "create_dependencies dp u ids n [] = run_return (Inr n)"
| "create_dependencies dp u ids n ((nm, e) # es) =
     run_ok (create_dependency dp u ids nm e) (\<lambda>k. create_dependencies dp u ids (n + k) es)"

record deployment =
  dm_workflow :: uuid
  dm_assets :: "(string \<times> uuid) list"
  dm_count :: nat
  dm_was_update :: bool

definition definition_edges :: "workflow_definition \<Rightarrow> (string \<times> dependency_definition) list" where
  "definition_edges d = concat (map (\<lambda>a. map (Pair (ad_name a)) (ad_dependencies a)) (wd_assets d))"

definition put_workflow :: "tenant \<Rightarrow> bool \<Rightarrow> workflow_row \<Rightarrow> (deploy_error + unit) run" where
  "put_workflow u was_update w =
     (if was_update then deploying (Because ''Failed to update workflow'') u (\<lambda>c. update_workflow c w)
      else deploying (Because ''Failed to create workflow'') u (\<lambda>c. create_workflow c w))"

definition deploy_workflow :: "deploy \<Rightarrow> string \<Rightarrow> tenant \<Rightarrow> (deploy_error + deployment) run" where
  "deploy_workflow dp path u =
     run_ok (run_return (told (parse_workflow_file dp path))) (\<lambda>d.
     run_ok (find_workflow_by_name u (wd_name d)) (\<lambda>existing.
     run_bind run_point (\<lambda>ts.
       let w = workflow_of_definition dp ts u d existing in
       run_ok (put_workflow u (existing \<noteq> None) w) (\<lambda>_.
       run_ok (deploy_assets dp u (wd_owner d) [] (wd_assets d)) (\<lambda>ids.
       run_ok (create_dependencies dp u ids 0 (definition_edges d)) (\<lambda>n.
         run_return (Inr \<lparr>dm_workflow = wr_id w, dm_assets = ids, dm_count = n, dm_was_update = (existing \<noteq> None)\<rparr>)))))))"

section \<open>The schedule of a workflow\<close>

text \<open>The state is the database with the requests that the scheduler has been sent.\<close>

type_synonym 'a deploy_run = "(tick list \<times> exchange list, db \<times> scheduler_request list, 'a) action"

definition required :: "string \<Rightarrow> 'a option \<Rightarrow> deploy_error + 'a" where
  "required nm v = (case v of Some x \<Rightarrow> Inr x | None \<Rightarrow> Inl (Message (nm @ '' required for Cloud Scheduler'')))"

text \<open>The client that both the creation and the deletion of a job begin with.\<close>

definition scheduler_of_config :: "deploy \<Rightarrow> config \<Rightarrow> deploy_error + scheduler_client" where
  "scheduler_of_config dp cf =
     (case required ''project_id'' (cf_project_id cf) of Inl e \<Rightarrow> Inl e | Inr project \<Rightarrow>
     (case required ''region'' (cf_region cf) of Inl e \<Rightarrow> Inl e | Inr region \<Rightarrow>
     (case required ''worker_url'' (cf_worker_url cf) of Inl e \<Rightarrow> Inl e | Inr url \<Rightarrow>
     (case required ''service_account_file'' (cf_service_account_file cf) of Inl e \<Rightarrow> Inl e | Inr path \<Rightarrow>
     (case dp_files dp path of
        Some (Inr content) \<Rightarrow>
          map_sum (\<lambda>e. Message (''Failed to create Cloud Scheduler client: '' @ show_cloud_error e)) id
            (scheduler_new (dp_service_account dp) (dp_breaker dp) project region url content)
      | _ \<Rightarrow> Inl (Message ''Failed to read service account file''))))))"

definition on_scheduler :: "scheduler_client \<Rightarrow> string \<Rightarrow> (tick list \<Rightarrow> (scheduler_client, cloud_error + 'a) net) \<Rightarrow> (deploy_error + 'a) deploy_run" where
  "on_scheduler m what f =
     run_map_error (\<lambda>e. Message (what @ show_cloud_error e))
       (on_queue (\<lambda>ts. on_part (\<lambda>sent. m\<lparr>sm_sent := sent\<rparr>) (\<lambda>m' _. sm_sent m') (f ts)))"

text \<open>A workflow that is read, changed and written back.\<close>

definition change_workflow :: "deploy \<Rightarrow> tenant \<Rightarrow> uuid \<Rightarrow> string \<Rightarrow> string \<Rightarrow> (workflow_row \<Rightarrow> workflow_row) \<Rightarrow> (deploy_error + unit) run" where
  "change_workflow dp u i getting updating f =
     run_ok (deploying (Because getting) u (\<lambda>c. get_workflow c i)) (\<lambda>w.
     run_bind run_point (\<lambda>ts.
       deploying (Because updating) u (\<lambda>c. update_workflow c ((f w)\<lparr>wr_updated_at := dp_now dp ts\<rparr>))))"

definition sync_scheduler :: "deploy \<Rightarrow> config \<Rightarrow> tenant \<Rightarrow> workflow_definition \<Rightarrow> uuid \<Rightarrow> (deploy_error + unit) deploy_run" where
  "sync_scheduler dp cf u d i =
     run_ok (run_return (scheduler_of_config dp cf)) (\<lambda>m.
       case wd_schedule d of
         None \<Rightarrow> run_return (Inl (Message ''No schedule defined''))
       | Some s \<Rightarrow>
           run_ok (on_scheduler m ''Cloud Scheduler API error: '' (\<lambda>ts.
                     create_or_update_job (dp_lib dp) (dp_job_name dp) (dp_clock dp ts) i u
                       \<lparr>sk_cron = sd_cron s, sk_timezone = sd_timezone s,
                        sk_enabled = (case sd_enabled s of Some b \<Rightarrow> b | None \<Rightarrow> True)\<rparr>)) (\<lambda>(_, nm).
             on_db (change_workflow dp u i ''Failed to get workflow for job name update'' ''Failed to update workflow scheduler_job_name''
                      (\<lambda>w. w\<lparr>wr_scheduler_job_name := Some nm\<rparr>))))"

definition delete_scheduler_job :: "deploy \<Rightarrow> config \<Rightarrow> tenant \<Rightarrow> uuid \<Rightarrow> (deploy_error + unit) deploy_run" where
  "delete_scheduler_job dp cf u i =
     run_ok (run_return (scheduler_of_config dp cf)) (\<lambda>m.
     run_ok (on_scheduler m ''Cloud Scheduler delete failed: '' (\<lambda>ts. delete_job (dp_lib dp) (dp_clock dp ts) i u))
       (\<lambda>_. run_return (Inr ())))"

definition clear_schedule_metadata :: "deploy \<Rightarrow> tenant \<Rightarrow> uuid \<Rightarrow> (deploy_error + unit) run" where
  "clear_schedule_metadata dp u i =
     change_workflow dp u i ''Failed to get workflow for schedule metadata clear'' ''Failed to clear workflow schedule metadata''
       (\<lambda>w. w\<lparr>wr_schedule_cron := None, wr_schedule_timezone := None, wr_schedule_enabled := None,
               wr_scheduler_job_name := None, wr_last_scheduled_run := None, wr_next_scheduled_run := None\<rparr>)"

definition disable_schedule_on_sync_failure :: "deploy \<Rightarrow> tenant \<Rightarrow> uuid \<Rightarrow> (deploy_error + unit) run" where
  "disable_schedule_on_sync_failure dp u i =
     change_workflow dp u i ''Failed to get workflow for schedule disable'' ''Failed to update workflow schedule_enabled''
       (\<lambda>w. w\<lparr>wr_schedule_enabled := Some False\<rparr>)"

section \<open>The command\<close>

text \<open>A result that is only logged.\<close>

definition run_logged :: "('t, 's, 'e + 'a) action \<Rightarrow> ('t, 's, unit) action" where
  "run_logged f = run_bind f (\<lambda>_. run_return ())"

definition sync_or_disable :: "deploy \<Rightarrow> config \<Rightarrow> tenant \<Rightarrow> workflow_definition \<Rightarrow> uuid \<Rightarrow> unit deploy_run" where
  "sync_or_disable dp cf u d i =
     run_bind (sync_scheduler dp cf u d i) (\<lambda>r. case r of
       Inr _ \<Rightarrow> run_return ()
     | Inl _ \<Rightarrow> run_logged (on_db (disable_schedule_on_sync_failure dp u i)))"

definition delete_and_clear :: "deploy \<Rightarrow> config \<Rightarrow> tenant \<Rightarrow> uuid \<Rightarrow> unit deploy_run" where
  "delete_and_clear dp cf u i =
     run_bind (delete_scheduler_job dp cf u i) (\<lambda>r. case r of
       Inl _ \<Rightarrow> run_return ()
     | Inr _ \<Rightarrow> run_logged (on_db (clear_schedule_metadata dp u i)))"

definition deploy_tenant :: "deploy \<Rightarrow> config \<Rightarrow> tenant" where
  "deploy_tenant dp cf =
     (case or_lower (cf_tenant_id cf) (dp_env dp ''TENANT_ID'') of Some u \<Rightarrow> u | None \<Rightarrow> ''default'')"

definition had_schedule :: "workflow_row option \<Rightarrow> bool" where
  "had_schedule existing \<longleftrightarrow>
     (case existing of Some w \<Rightarrow> wr_schedule_cron w \<noteq> None \<and> wr_scheduler_job_name w \<noteq> None | None \<Rightarrow> False)"

definition deploy_connection :: "deploy \<Rightarrow> deploy_error + unit" where
  "deploy_connection dp =
     (case dp_connect dp of
        Some e \<Rightarrow> Inl (Because ''Failed to connect to database. Check DATABASE_URL environment variable or servo.toml'' e)
      | None \<Rightarrow> Inr ())"

definition settle_schedule :: "deploy \<Rightarrow> config \<Rightarrow> tenant \<Rightarrow> workflow_definition \<Rightarrow> bool \<Rightarrow> uuid \<Rightarrow> unit deploy_run" where
  "settle_schedule dp cf u d had i =
     (if wd_schedule d \<noteq> None then sync_or_disable dp cf u d i
      else if had then delete_and_clear dp cf u i
      else run_return ())"

definition deploy_execute :: "deploy \<Rightarrow> string \<Rightarrow> (deploy_error + deployment) deploy_run" where
  "deploy_execute dp path =
     run_ok (run_return (told (dp_config dp))) (\<lambda>cf.
     run_ok (run_return (deploy_connection dp)) (\<lambda>_.
     run_ok (run_return (told (parse_workflow_file dp path))) (\<lambda>d.
     run_ok (on_db (find_workflow_by_name (deploy_tenant dp cf) (wd_name d))) (\<lambda>existing.
     run_ok (on_db (deploy_workflow dp path (deploy_tenant dp cf))) (\<lambda>r.
     run_bind (settle_schedule dp cf (deploy_tenant dp cf) d (had_schedule existing) (dm_workflow r)) (\<lambda>_.
       run_return (Inr r)))))))"

end
