(* ===== verification/DeployLife.thy ===== *)
theory DeployLife
  imports Deploy LocalLife Pipeline
begin

text \<open>
  What the deployment of a workflow guarantees, and what it cannot do: which definitions it deploys at
  all, what a failed deployment leaves behind, and the agreement of a first deployment with the
  scheduler.
\<close>

section \<open>The calls\<close>

lemma deploying_Inr: "deploying h u f ts db = Some (Inr a, ts', db') \<longleftrightarrow>
    (\<exists>t. ts = t # ts' \<and> f ((tk_call t)\<lparr>tenant := u\<rparr>) (foldl db_step db (tk_ops t)) = (Inr a, db'))"
  by (auto simp: deploying_def try_Inr as_tenant_def)

lemma no_asset_is_found: "find_deployed_asset u nm ts db \<noteq> Some (Inr a, ts', db')"
  by (auto simp: find_deployed_asset_def run_ok_Some deploying_Inr list_assets_page_def validate_pagination_params_def)

lemma no_asset_is_deployed: "deploy_assets dp u by_default ids as ts db = Some (Inr ids', ts', db') \<Longrightarrow> as = [] \<and> ids' = ids"
  by (cases as) (auto simp: run_ok_Some create_or_update_asset_def run_bind_Some run_point_def no_asset_is_found)

lemma update_to_zero:
  assumes "wr_version w = 0"
  shows "update_workflow c w db \<noteq> (Inr (), db')"
proof
  let ?p = "\<lambda>r. visible c (wr_tenant_id r) \<and> wr_id r = wr_id w"
  assume "update_workflow c w db = (Inr (), db')"
  then have "hits ?p (t_workflows db) \<noteq> 0" "\<forall>r\<in>set (t_workflows db). \<not> ?p r"
    using assms by (auto simp: update_workflow_def checked_Inr with_tenant_context_Inr must_hit_Inr stmt_update_case
      workflow_check_row_def simp del: checked.simps split: if_splits)
  then show False by (auto simp: hits_def filter_empty_conv)
qed

lemma put_workflow_new:
  "put_workflow u was_update (workflow_of_definition dp ts0 u d existing) ts db = Some (Inr (), ts', db') \<Longrightarrow>
   was_update = (existing \<noteq> None) \<Longrightarrow> existing = None"
  by (auto simp: put_workflow_def deploying_Inr update_to_zero workflow_of_definition_def split: if_splits)

lemma deployed_parts:
  assumes "deploy_workflow dp path u ts db = Some (Inr r, ts', db')"
  shows "\<exists>d ts1 db1 n. parse_workflow_file dp path = Inr d \<and> wd_assets d = [] \<and>
     find_workflow_by_name u (wd_name d) ts db = Some (Inr None, ts1, db1) \<and>
     put_workflow u False (workflow_of_definition dp ts1 u d None) ts1 db1 = Some (Inr (), ts', db') \<and>
     r = \<lparr>dm_workflow = dp_fresh dp ts1, dm_assets = [], dm_count = 0, dm_was_update = False\<rparr>"
proof -
  from assms obtain d where d: "parse_workflow_file dp path = Inr d"
    by (cases "parse_workflow_file dp path") (auto simp: deploy_workflow_def run_ok_Some told_def)
  from assms d obtain existing ts1 db1 ts2 db2 ids ts3 db3 n where
    f: "find_workflow_by_name u (wd_name d) ts db = Some (Inr existing, ts1, db1)"
    and p: "put_workflow u (existing \<noteq> None) (workflow_of_definition dp ts1 u d existing) ts1 db1 = Some (Inr (), ts2, db2)"
    and a: "deploy_assets dp u (wd_owner d) [] (wd_assets d) ts2 db2 = Some (Inr ids, ts3, db3)"
    and e: "create_dependencies dp u ids 0 (definition_edges d) ts3 db3 = Some (Inr n, ts', db')"
    and r: "r = \<lparr>dm_workflow = wr_id (workflow_of_definition dp ts1 u d existing), dm_assets = ids, dm_count = n, dm_was_update = (existing \<noteq> None)\<rparr>"
    by (auto simp: deploy_workflow_def run_ok_Some told_def run_bind_Some run_point_def Let_def)
  from put_workflow_new [OF p] have none: "existing = None" by simp
  from no_asset_is_deployed [OF a] have as: "wd_assets d = []" "ids = []" by simp_all
  from a e as have "ts3 = ts2" "db3 = db2" "n = 0" "ts' = ts3" "db' = db3" by (simp_all add: definition_edges_def)
  with d f p none as r show ?thesis by (auto simp: workflow_of_definition_def)
qed

section \<open>Deployments that succeed, and those that fail\<close>

lemma on_db_Some: "on_db f (ts, xs) (db, q) = Some (a, (ts', xs'), (db', q')) \<longleftrightarrow>
    f ts db = Some (a, ts', db') \<and> xs' = xs \<and> q' = q"
  by (auto simp: on_db_def)

lemma execute_result:
  "deploy_execute dp path (ts, xs) (db, sent) = Some (Inr r, (ts', xs'), (db', sent')) \<longleftrightarrow>
     (\<exists>cf d existing ts1 db1 ts2 db2. dp_config dp = Inr cf \<and> deploy_connection dp = Inr () \<and> parse_workflow_file dp path = Inr d \<and>
        find_workflow_by_name (deploy_tenant dp cf) (wd_name d) ts db = Some (Inr existing, ts1, db1) \<and>
        deploy_workflow dp path (deploy_tenant dp cf) ts1 db1 = Some (Inr r, ts2, db2) \<and>
        settle_schedule dp cf (deploy_tenant dp cf) d (had_schedule existing) (dm_workflow r) (ts2, xs) (db2, sent) =
          Some ((), (ts', xs'), (db', sent')))"
proof (cases "dp_config dp")
  case (Inr cf)
  show ?thesis
    by (cases "deploy_connection dp"; cases "parse_workflow_file dp path")
       (auto simp: Inr deploy_execute_def run_ok_Some told_def run_bind_Some on_db_Some split_paired_Ex)
qed (simp add: deploy_execute_def run_ok_Some told_def)

text \<open>
  C11: the command deploys only new workflows without assets. Whatever the schedule of the storage calls,
  the answers of the network and the database, a deployment that succeeds is of a definition that has
  no assets, of a workflow that was not there, and it has no assets and no dependencies. The search for
  an asset asks for more rows than the storage gives, and the update of a workflow writes version zero,
  which the table does not take.
\<close>

theorem deploys_only_new_empty:
  assumes "deploy_execute dp path (ts, xs) (db, sent) = Some (Inr r, (ts', xs'), (db', sent'))"
  shows "\<exists>d. parse_workflow_file dp path = Inr d \<and> wd_assets d = [] \<and>
    \<not> dm_was_update r \<and> dm_assets r = [] \<and> dm_count r = 0"
proof -
  from assms obtain cf ts1 db1 ts2 db2 where
    "deploy_workflow dp path (deploy_tenant dp cf) ts1 db1 = Some (Inr r, ts2, db2)"
    unfolding execute_result by (elim exE conjE)
  from deployed_parts [OF this] show ?thesis by auto
qed

text \<open>One storage call without interference.\<close>

lemma deploying_calm:
  assumes "list_all (calm u) ts" "deploying h u f ts db = Some (r, ts', db')"
  shows "\<exists>t q. ts = t # ts' \<and> calm u t \<and> list_all (calm u) ts' \<and> f (tk_call t) db = (q, db') \<and> r = map_sum h id q"
proof -
  obtain t ts1 where t: "ts = t # ts1" using assms(2) by (cases ts) (auto simp: deploying_def try_db_def run_bind_def perform_def)
  obtain q db1 where q: "f (tk_call t) db = (q, db1)" by (cases "f (tk_call t) db")
  have u: "(tk_call t)\<lparr>tenant := u\<rparr> = tk_call t" "tk_ops t = []" using assms(1) t by (auto simp: calm_def)
  show ?thesis using assms t q u
    by (cases q) (auto simp: deploying_def try_db_def run_bind_def perform_def as_tenant_def)
qed

lemma list_workflows_reads: "snd (list_workflows c l n db) = db"
  by (auto simp: list_workflows_def with_tenant_context_def validate_pagination_params_def split: option.splits)

lemma find_workflow_calm:
  assumes "list_all (calm u) ts" "find_workflow_by_name u nm ts db = Some (r, ts', db')"
  shows "db' = db \<and> list_all (calm u) ts'"
proof -
  from assms(2) obtain q where q: "deploying Unexplained u (\<lambda>c. list_workflows c 1000 0) ts db = Some (q, ts', db')"
    by (auto simp: find_workflow_by_name_def run_ok_Some)
  from deploying_calm [OF assms(1) q] obtain t :: tick and z where
    "list_workflows (tk_call t) 1000 0 db = (z, db')" "list_all (calm u) ts'" by (elim exE conjE) blast
  then show ?thesis using list_workflows_reads [of "tk_call t" 1000 0 db] by simp
qed

lemma find_workflow_finds:
  assumes "list_all (calm u) ts" "find_workflow_by_name u nm ts db = Some (Inr found, ts', db')"
  shows "found = find (\<lambda>w. wr_name w = nm) (page 1000 0 (newest_first wr_created_at wr_id (my_workflows (call_of u 0) db)))"
proof -
  from assms(2) obtain ws where q: "deploying Unexplained u (\<lambda>c. list_workflows c 1000 0) ts db = Some (Inr ws, ts', db')"
    and found: "found = find (\<lambda>w. wr_name w = nm) ws"
    by (auto simp: find_workflow_by_name_def run_ok_Some)
  from deploying_calm [OF assms(1) q] obtain t :: tick and z where
    t: "calm u t" "list_workflows (tk_call t) 1000 0 db = (z, db')" "Inr ws = map_sum Unexplained id z"
    by (elim exE conjE) blast
  then have "list_workflows (tk_call t) 1000 0 db = (Inr ws, db')" by (cases z) simp_all
  moreover have "my_workflows (tk_call t) db = my_workflows (call_of u 0) db"
    using t(1) by (simp add: my_workflows_def visible_def calm_def cong: option.case_cong)
  ultimately show ?thesis unfolding found
    by (auto simp: list_workflows_def checked_Inr with_tenant_context_Inr simp del: checked.simps)
qed

lemma create_workflow_result:
  assumes "create_workflow c w db = (r, db')"
  shows "case r of Inl e \<Rightarrow> db' = db
    | Inr _ \<Rightarrow> db' = db\<lparr>t_workflows := t_workflows db @ [w\<lparr>wr_tenant_id := Some (tenant c)\<rparr>]\<rparr> \<and>
        workflow_check_row w = None \<and> (\<forall>x\<in>set (t_workflows db). wr_id x \<noteq> wr_id w \<and> \<not> same_workflow_name (w\<lparr>wr_tenant_id := Some (tenant c)\<rparr>) x) \<and>
        \<not> list_all is_whitespace (wr_name w)"
proof (cases r)
  case (Inl e)
  with assms show ?thesis
    by (auto simp: create_workflow_def validate_non_empty_string_def dest: with_tenant_context_Inl split: if_splits)
next
  case (Inr a)
  with assms show ?thesis
    by (auto simp: create_workflow_def checked_Inr with_tenant_context_Inr stmt_insert_case policy_def visible_def
      workflow_check_row_def validate_non_empty_string_def list_ex_iff simp del: checked.simps split: if_splits)
qed

lemma update_workflow_error:
  assumes "update_workflow c w db = (Inl e, db')"
  shows "db' = db"
  using assms by (auto simp: update_workflow_def validate_non_empty_string_def dest: with_tenant_context_Inl split: if_splits)

lemma put_workflow_calm:
  assumes ts: "list_all (calm u) ts"
    and p: "put_workflow u (existing \<noteq> None) (workflow_of_definition dp ts0 u d existing) ts db = Some (r, ts', db')"
  shows "list_all (calm u) ts' \<and> (case r of Inl e \<Rightarrow> db' = db
    | Inr _ \<Rightarrow> existing = None \<and> db' = db\<lparr>t_workflows := t_workflows db @ [workflow_of_definition dp ts0 u d None]\<rparr> \<and>
        workflow_check_row (workflow_of_definition dp ts0 u d None) = None \<and>
        (\<forall>x\<in>set (t_workflows db). wr_id x \<noteq> wr_id (workflow_of_definition dp ts0 u d None) \<and>
           \<not> same_workflow_name (workflow_of_definition dp ts0 u d None) x) \<and>
        \<not> list_all is_whitespace (wd_name d))"
proof (cases existing)
  case None
  let ?w = "workflow_of_definition dp ts0 u d None"
  from p None have "deploying (Because ''Failed to create workflow'') u (\<lambda>c. create_workflow c ?w) ts db = Some (r, ts', db')"
    by (simp add: put_workflow_def)
  from deploying_calm [OF ts this] obtain t :: tick and q where
    t: "calm u t" "list_all (calm u) ts'" "create_workflow (tk_call t) ?w db = (q, db')"
      "r = map_sum (Because ''Failed to create workflow'') id q" by (elim exE conjE) blast
  have own: "?w\<lparr>wr_tenant_id := Some (tenant (tk_call t))\<rparr> = ?w"
    using t(1) by (simp add: calm_def workflow_of_definition_def)
  from create_workflow_result [OF t(3)] t(2,4) None show ?thesis
    by (cases q) (simp_all add: own, simp add: workflow_of_definition_def)
next
  case (Some e)
  let ?w = "workflow_of_definition dp ts0 u d existing"
  from p Some have "deploying (Because ''Failed to update workflow'') u (\<lambda>c. update_workflow c ?w) ts db = Some (r, ts', db')"
    by (simp add: put_workflow_def)
  from deploying_calm [OF ts this] obtain t :: tick and q where
    t: "list_all (calm u) ts'" "update_workflow (tk_call t) ?w db = (q, db')"
      "r = map_sum (Because ''Failed to update workflow'') id q" by (elim exE conjE) blast
  have "wr_version ?w = 0" by (simp add: Some workflow_of_definition_def)
  with t show ?thesis
    by (cases q) (auto simp: update_to_zero dest: update_workflow_error)
qed

lemma assets_calm:
  assumes "list_all (calm u) ts" "deploy_assets dp u by_default ids as ts db = Some (Inl e, ts', db')"
  shows "as \<noteq> [] \<and> db' = db"
proof (cases as)
  case (Cons a rest)
  with assms(2) obtain r ts1 db1 where f: "find_deployed_asset u (ad_name a) ts db = Some (r, ts1, db1)"
    and end': "\<exists>e. r = Inl e \<and> db1 = db'"
    by (auto simp: run_ok_Some create_or_update_asset_def run_bind_Some run_point_def no_asset_is_found)
  from f end' obtain x where x: "deploying Unexplained u (\<lambda>c. list_assets_page c 10000 0) ts db = Some (Inl x, ts1, db')"
    by (auto simp: find_deployed_asset_def run_ok_Some)
  from deploying_calm [OF assms(1) x] Cons show ?thesis
    by (auto simp: list_assets_page_def validate_pagination_params_def)
qed (use assms in simp)

lemma failed_workflow:
  assumes ts: "list_all (calm u) ts" and d: "parse_workflow_file dp path = Inr d"
    and run: "deploy_workflow dp path u ts db = Some (Inl e, ts', db')"
  shows "db' = db \<or> (\<exists>ts0. wd_assets d \<noteq> [] \<and>
    db' = db\<lparr>t_workflows := t_workflows db @ [workflow_of_definition dp ts0 u d None]\<rparr>)"
proof -
  from d run have "run_ok (find_workflow_by_name u (wd_name d)) (\<lambda>existing.
     run_bind run_point (\<lambda>ts0.
       run_ok (put_workflow u (existing \<noteq> None) (workflow_of_definition dp ts0 u d existing)) (\<lambda>_.
       run_ok (deploy_assets dp u (wd_owner d) [] (wd_assets d)) (\<lambda>ids.
       run_ok (create_dependencies dp u ids 0 (definition_edges d)) (\<lambda>n.
         run_return (Inr \<lparr>dm_workflow = wr_id (workflow_of_definition dp ts0 u d existing), dm_assets = ids, dm_count = n, dm_was_update = (existing \<noteq> None)\<rparr>)))))) ts db = Some (Inl e, ts', db')"
    (is "run_ok ?f ?g ts db = _")
    by (simp add: deploy_workflow_def run_ok_def [of "run_return _"] told_def run_bind_def [of "run_return _"] run_return_def Let_def)
  then consider (no) "?f ts db = Some (Inl e, ts', db')"
    | (found) existing ts1 db1 where "?f ts db = Some (Inr existing, ts1, db1)" "?g existing ts1 db1 = Some (Inl e, ts', db')"
    by (auto simp: run_ok_Some [of ?f])
  then show ?thesis
  proof cases
    case no
    from find_workflow_calm [OF ts this] show ?thesis by simp
  next
    case found
    from find_workflow_calm [OF ts found(1)] have ts1: "list_all (calm u) ts1" and db1: "db1 = db" by simp_all
    let ?put = "put_workflow u (existing \<noteq> None) (workflow_of_definition dp ts1 u d existing)"
    from found(2) consider (fails) "?put ts1 db1 = Some (Inl e, ts', db')"
      | (puts) ts2 db2 r where "?put ts1 db1 = Some (Inr (), ts2, db2)"
          "deploy_assets dp u (wd_owner d) [] (wd_assets d) ts2 db2 = Some (r, ts', db') \<and> (\<exists>x. r = Inl x) \<or>
           (\<exists>ids ts3 db3. deploy_assets dp u (wd_owner d) [] (wd_assets d) ts2 db2 = Some (Inr ids, ts3, db3) \<and>
              create_dependencies dp u ids 0 (definition_edges d) ts3 db3 = Some (Inl e, ts', db'))"
      by (auto simp: run_bind_Some run_point_def run_ok_Some)
    then show ?thesis
    proof cases
      case fails
      from put_workflow_calm [OF ts1 fails] db1 show ?thesis by simp
    next
      case puts
      from put_workflow_calm [OF ts1 puts(1)] have ts2: "list_all (calm u) ts2" and
        db2: "db2 = db\<lparr>t_workflows := t_workflows db @ [workflow_of_definition dp ts1 u d None]\<rparr>" by (simp_all add: db1)
      have "create_dependencies dp u ids 0 (definition_edges d) ts3 db3 = Some (Inr 0, ts3, db3)"
        if "deploy_assets dp u (wd_owner d) [] (wd_assets d) ts2 db2 = Some (Inr ids, ts3, db3)" for ids ts3 db3
        using no_asset_is_deployed [OF that] by (simp add: definition_edges_def)
      with puts(2) obtain x where "deploy_assets dp u (wd_owner d) [] (wd_assets d) ts2 db2 = Some (Inl x, ts', db')" by auto
      from assets_calm [OF ts2 this] show ?thesis unfolding db2 by blast
    qed
  qed
qed

text \<open>
  C40: what a failed deployment leaves behind. Without interference nothing has been asked of the
  scheduler, and the database is as it was, or it has one more row, the workflow of a definition with
  assets, with its schedule marked as the definition says.
\<close>

theorem failed_deploy_leaves:
  assumes cf: "dp_config dp = Inr cf" and ts: "list_all (calm (deploy_tenant dp cf)) ts"
    and run: "deploy_execute dp path (ts, xs) (db, sent) = Some (Inl e, (ts', xs'), (db', sent'))"
  shows "xs' = xs \<and> sent' = sent \<and> (db' = db \<or> (\<exists>d ts0. parse_workflow_file dp path = Inr d \<and> wd_assets d \<noteq> [] \<and>
    db' = db\<lparr>t_workflows := t_workflows db @ [workflow_of_definition dp ts0 (deploy_tenant dp cf) d None]\<rparr>))"
proof (cases "deploy_connection dp = Inr () \<and> (\<exists>d. parse_workflow_file dp path = Inr d)")
  case False
  with cf run show ?thesis
    by (cases "deploy_connection dp"; cases "parse_workflow_file dp path") (auto simp: deploy_execute_def run_ok_Some told_def)
next
  case True
  then obtain d where c: "deploy_connection dp = Inr ()" and d: "parse_workflow_file dp path = Inr d" by blast
  let ?u = "deploy_tenant dp cf"
  from cf c d run consider
      (no) "find_workflow_by_name ?u (wd_name d) ts db = Some (Inl e, ts', db')" "xs' = xs" "sent' = sent"
    | (fails) existing ts1 db1 where "find_workflow_by_name ?u (wd_name d) ts db = Some (Inr existing, ts1, db1)"
        "deploy_workflow dp path ?u ts1 db1 = Some (Inl e, ts', db')" "xs' = xs" "sent' = sent"
    by (auto simp: deploy_execute_def run_ok_Some told_def run_bind_Some on_db_Some)
  then show ?thesis
  proof cases
    case no
    with find_workflow_calm [OF ts no(1)] show ?thesis by simp
  next
    case fails
    from find_workflow_calm [OF ts fails(1)] have ts1: "list_all (calm ?u) ts1" and db1: "db1 = db" by simp_all
    from failed_workflow [OF ts1 d fails(2)] fails(3,4) d show ?thesis unfolding db1 by blast
  qed
qed

section \<open>The schedule of a first deployment\<close>

lemma get_last:
  assumes "calm u t" "wr_tenant_id w = Some u" "t_workflows db = W @ [w]" "\<forall>x\<in>set W. wr_id x \<noteq> wr_id w"
  shows "get_workflow (tk_call t) (wr_id w) db = (Inr w, db)"
proof -
  have "find (\<lambda>x. wr_id x = wr_id w) (filter (\<lambda>x. visible c (wr_tenant_id x)) W @ [w]) = Some w" for c
    using assms(4) by (induction W) auto
  then show ?thesis
    using assms by (simp add: get_workflow_def with_tenant_context_def my_workflows_def calm_def visible_def)
qed

lemma update_last:
  assumes t: "calm u t" and u: "wr_tenant_id w = Some u" and W: "t_workflows db = W @ [w]"
    and new: "\<forall>x\<in>set W. wr_id x \<noteq> wr_id w \<and> \<not> same_workflow_name w x"
    and same: "wr_id v = wr_id w" "wr_name v = wr_name w" "wr_version v = wr_version w" "wr_description v = wr_description w"
      "wr_owner v = wr_owner w" "wr_tags v = wr_tags w" "wr_tenant_id v = wr_tenant_id w" "wr_created_at v = wr_created_at w"
    and ok: "workflow_check_row v = None" "\<not> list_all is_whitespace (wr_name w)"
  shows "update_workflow (tk_call t) v db = (Inr (), db\<lparr>t_workflows := W @ [v]\<rparr>)"
proof -
  let ?c = "tk_call t"
  let ?p = "\<lambda>r. visible ?c (wr_tenant_id r) \<and> wr_id r = wr_id v"
  let ?f = "\<lambda>r. r\<lparr>wr_name := wr_name v, wr_description := wr_description v, wr_owner := wr_owner v, wr_tags := wr_tags v,
    wr_version := wr_version v, wr_schedule_cron := wr_schedule_cron v, wr_schedule_timezone := wr_schedule_timezone v,
    wr_schedule_enabled := wr_schedule_enabled v, wr_scheduler_job_name := wr_scheduler_job_name v,
    wr_last_scheduled_run := wr_last_scheduled_run v, wr_next_scheduled_run := wr_next_scheduled_run v,
    wr_updated_at := wr_updated_at v\<rparr>"
  let ?ck = "\<lambda>r. case workflow_check_row r of Some e \<Rightarrow> Some e
    | None \<Rightarrow> key_clash [(''workflows_name_tenant_id_version_key'', \<lambda>r s. wr_id r \<noteq> wr_id s \<and> same_workflow_name r s)] r (t_workflows db)"
  have c: "tenant ?c = u" "begin_fault ?c = None" "commit_fault ?c = None" using t by (simp_all add: calm_def)
  have fw: "?f w = v" using same by (cases v; cases w) simp
  have pw: "?p w" using u same(1) c(1) by (simp add: visible_def)
  have miss: "\<forall>x\<in>set W. \<not> ?p x" using new same(1) by simp
  have ck: "?ck v = None"
    using ok(1) new same W by (auto simp: list_ex_iff same_workflow_name_def)
  have ckw: "?ck (?f w) = None" unfolding fw by (rule ck)
  have all: "\<forall>r\<in>set (t_workflows db). ?p r \<longrightarrow> ?ck (?f r) = None"
  proof (intro ballI impI)
    fix r assume "r \<in> set (t_workflows db)" "?p r"
    with miss W have "r = w" by auto
    then show "?ck (?f r) = None" using ckw by (simp only:)
  qed
  have one: "hits ?p (t_workflows db) = 1"
    using miss pw by (auto simp: hits_def filter_empty_conv W)
  have "map (\<lambda>r. if ?p r then ?f r else r) W = W"
    by (rule map_idI) (use miss in auto)
  then have upd: "upd_where ?p ?f (t_workflows db) = W @ [v]"
    using pw fw by (simp add: upd_where_def W)
  have "\<forall>x\<in>set [validate_non_empty_string (wr_name v) ''Workflow name'']. \<not> isl x"
    using ok(2) same(2) by (simp add: validate_non_empty_string_def)
  with all one upd c show ?thesis
    unfolding update_workflow_def checked_Inr with_tenant_context_Inr must_hit_Inr stmt_update_case
    by (intro conjI exI [of _ 1]) simp_all
qed

text \<open>A row of the workflows that the table takes, after rows that it does not clash with.\<close>

definition last_workflow :: "tenant \<Rightarrow> workflow_row list \<Rightarrow> workflow_row \<Rightarrow> bool" where
  "last_workflow u W w \<longleftrightarrow> wr_tenant_id w = Some u \<and> (\<forall>x\<in>set W. wr_id x \<noteq> wr_id w \<and> \<not> same_workflow_name w x) \<and>
     workflow_check_row w = None \<and> \<not> list_all is_whitespace (wr_name w)"

definition steady :: "deploy \<Rightarrow> bool" where
  "steady dp \<longleftrightarrow> (\<forall>ts ts'. length ts' \<le> length ts \<longrightarrow> dp_now dp ts \<le> dp_now dp ts')"

lemma change_calm:
  assumes ts: "list_all (calm u) ts" and db: "t_workflows db = W @ [w]" and w: "last_workflow u W w"
    and f: "f w = w\<lparr>wr_schedule_enabled := e, wr_scheduler_job_name := j\<rparr>"
    and clock: "\<forall>rest. length rest \<le> length ts \<longrightarrow> wr_created_at w \<le> dp_now dp rest"
    and run: "change_workflow dp u (wr_id w) getting updating f ts db = Some (r, ts', db')"
  shows "r = Inr () \<and> (\<exists>n. db' = db\<lparr>t_workflows := W @ [(f w)\<lparr>wr_updated_at := n\<rparr>]\<rparr>)"
proof -
  from run obtain q ts1 db1 where g: "deploying (Because getting) u (\<lambda>c. get_workflow c (wr_id w)) ts db = Some (q, ts1, db1)"
    unfolding change_workflow_def run_ok_Some by blast
  from deploying_calm [OF ts g] obtain t :: tick and z where
    t: "ts = t # ts1" "calm u t" "list_all (calm u) ts1" "get_workflow (tk_call t) (wr_id w) db = (z, db1)"
      "q = map_sum (Because getting) id z" by (elim exE conjE) blast
  from get_last [OF t(2) _ db] w t(4,5) have q: "q = Inr w" "db1 = db" by (simp_all add: last_workflow_def)
  let ?v = "(f w)\<lparr>wr_updated_at := dp_now dp ts1\<rparr>"
  from run g q have u: "deploying (Because updating) u (\<lambda>c. update_workflow c ?v) ts1 db = Some (r, ts', db')"
    by (auto simp: change_workflow_def run_ok_Some run_bind_Some run_point_def)
  from deploying_calm [OF t(3) u] obtain t2 :: tick and z2 where
    t2: "calm u t2" "update_workflow (tk_call t2) ?v db = (z2, db')" "r = map_sum (Because updating) id z2"
    by (elim exE conjE) blast
  have "update_workflow (tk_call t2) ?v db = (Inr (), db\<lparr>t_workflows := W @ [?v]\<rparr>)"
    by (rule update_last [OF t2(1) _ db])
       (use w f clock [rule_format, of ts1] t(1) in \<open>auto simp: last_workflow_def workflow_check_row_def split: if_splits\<close>)
  with t2 show ?thesis by auto
qed

lemma token_suffix: "get_access_token lib n scope xs a = Some (r, xs', a') \<Longrightarrow> suffix xs' xs"
  by (auto simp: get_access_token_def fetch_access_token_via_jwt_def fetch_access_token_from_metadata_def
      run_bind_def run_ok_def run_get_def run_modify_def run_return_def on_part_def send_def send_guarded_def suffix_def
      split: option.splits auth_mode.splits sum.splits prod.splits list.splits if_splits)

lemma scheduler_call_ends:
  assumes "scheduler_call lib n request answer xs m = Some (r, xs', m')"
  shows "\<exists>used. xs = used @ xs' \<and> ((\<exists>e. r = Inl e \<and> sm_sent m' = sm_sent m) \<or>
    used \<noteq> [] \<and> sm_sent m' = sm_sent m @ [request m] \<and>
    (case ex_result (last used) of Inl e \<Rightarrow> \<exists>d. r = Inl d
     | Inr rep \<Rightarrow> r = map_sum id (Pair (ex_end (last used))) (answer rep)))"
proof -
  from assms obtain q ts1 a1 where tok: "get_access_token lib n scope_cloud xs (sm_auth m) = Some (q, ts1, a1)"
    by (auto simp: scheduler_call_def run_bind_Some run_ok_def run_get_def on_part_def)
  from token_suffix [OF tok] obtain us where us: "xs = us @ ts1" by (auto simp: suffix_def)
  show ?thesis
  proof (cases q)
    case (Inl e)
    with assms tok us show ?thesis
      by (auto simp: scheduler_call_def run_bind_def run_ok_def run_get_def on_part_def)
  next
    case (Inr v)
    with assms tok obtain x where x: "ts1 = x # xs'"
      "sm_sent m' = sm_sent m @ [request m]"
      "r = (case map_sum id (Pair (ex_end x)) (ex_result x) of Inl e \<Rightarrow> Inl (Internal (''HTTP request failed: '' @ e))
       | Inr (t, rep) \<Rightarrow> map_sum id (Pair t) (answer rep))"
      by (auto simp: scheduler_call_def run_bind_def run_ok_def run_get_def run_modify_def run_return_def on_part_def send_def
          split: list.splits)
    then show ?thesis using us by (intro exI [of _ "us @ [x]"]) (auto split: sum.splits)
  qed
qed

text \<open>
  The agreement of a row with what was asked of the scheduler: an exchange acknowledges a job under a
  name when it brought a successful reply whose name is that one; a request places the
  job when it carries the schedule of the definition for the workflow and the tenant. A row names a
  job only when it was looked up, then placed, and the last exchange acknowledged this
  very name; it names none when the job was never placed, or when the last exchange did not
  acknowledge it.
\<close>

definition acknowledged :: "(string option \<Rightarrow> string + string) \<Rightarrow> exchange \<Rightarrow> string \<Rightarrow> bool" where
  "acknowledged parse x nm \<longleftrightarrow>
     (\<exists>rep. ex_result x = Inr rep \<and> 200 \<le> hr_status rep \<and> hr_status rep < 300 \<and> parse (hr_body rep) = Inr nm)"

definition places :: "schedule_config \<Rightarrow> uuid \<Rightarrow> tenant \<Rightarrow> scheduler_request \<Rightarrow> bool" where
  "places sk w u rq \<longleftrightarrow> sq_method rq \<in> {''POST'', ''PATCH''} \<and>
     (\<exists>j. sq_job rq = Some j \<and> sj_schedule j = sk_cron sk \<and> sj_timezone j = sk_timezone sk \<and> sj_workflow j = w \<and>
        sj_tenant j = u \<and> sj_state j = (if sk_enabled sk then ''ENABLED'' else ''PAUSED''))"

definition in_step :: "(string option \<Rightarrow> string + string) \<Rightarrow> schedule_config \<Rightarrow> uuid \<Rightarrow> tenant \<Rightarrow> exchange list \<Rightarrow>
    scheduler_request list \<Rightarrow> string option \<Rightarrow> bool" where
  "in_step parse sk w u used rqs j \<longleftrightarrow>
     (case j of
        Some nm \<Rightarrow> used \<noteq> [] \<and> acknowledged parse (last used) nm \<and>
          (\<exists>rq1 rq2. rqs = [rq1, rq2] \<and> sq_method rq1 = ''GET'' \<and> places sk w u rq2)
      | None \<Rightarrow> length rqs < 2 \<or> length rqs = 2 \<and> used \<noteq> [] \<and> (\<forall>nm. \<not> acknowledged parse (last used) nm))"

lemma named_acknowledged: "named_job lib parse rep = Inr nm \<Longrightarrow> ex_result x = Inr rep \<Longrightarrow> acknowledged parse x nm"
  by (cases "parse (hr_body rep)") (auto simp: named_job_def acknowledged_def is_success_status_def split: if_splits)

lemma named_refused: "named_job lib parse rep = Inl e \<Longrightarrow> ex_result x = Inr rep \<Longrightarrow> \<not> acknowledged parse x nm"
  by (cases "parse (hr_body rep)") (auto simp: named_job_def acknowledged_def is_success_status_def split: if_splits)

lemma placed_ends:
  assumes "scheduler_call lib n request (named_job lib parse) xs m = Some (r, xs', m')"
    and "places sk w u (request m)"
  shows "\<exists>used. xs = used @ xs' \<and> (case r of
     Inr (t, nm) \<Rightarrow> used \<noteq> [] \<and> acknowledged parse (last used) nm \<and> (\<exists>rq. sm_sent m' = sm_sent m @ [rq] \<and> places sk w u rq)
   | Inl e \<Rightarrow> sm_sent m' = sm_sent m \<or> (\<exists>rq. sm_sent m' = sm_sent m @ [rq]) \<and> used \<noteq> [] \<and> (\<forall>nm. \<not> acknowledged parse (last used) nm))"
proof -
  from scheduler_call_ends [OF assms(1)] obtain used where used: "xs = used @ xs'"
    "(\<exists>e. r = Inl e \<and> sm_sent m' = sm_sent m) \<or> used \<noteq> [] \<and> sm_sent m' = sm_sent m @ [request m] \<and>
    (case ex_result (last used) of Inl e \<Rightarrow> \<exists>d. r = Inl d
     | Inr rep \<Rightarrow> r = map_sum id (Pair (ex_end (last used))) (named_job lib parse rep))" by blast
  from used(2) show ?thesis
  proof (elim disjE conjE)
    assume "\<exists>e. r = Inl e \<and> sm_sent m' = sm_sent m"
    with used(1) show ?thesis by auto
  next
    assume sent: "used \<noteq> []" "sm_sent m' = sm_sent m @ [request m]"
      "case ex_result (last used) of Inl e \<Rightarrow> \<exists>d. r = Inl d
       | Inr rep \<Rightarrow> r = map_sum id (Pair (ex_end (last used))) (named_job lib parse rep)"
    show ?thesis
    proof (cases "ex_result (last used)")
      case (Inl e)
      with sent used(1) show ?thesis by (intro exI [of _ used]) (auto simp: acknowledged_def)
    next
      case (Inr rep)
      with sent used(1) assms(2) named_acknowledged [of lib parse rep _ "last used"] named_refused [of lib parse rep _ "last used"]
      show ?thesis by (intro exI [of _ used]) (cases "named_job lib parse rep", auto)
    qed
  qed
qed

lemma create_or_update_ends:
  assumes "create_or_update_job lib parse n w u sk xs m = Some (r, xs', m')"
  shows "\<exists>used rqs. xs = used @ xs' \<and> sm_sent m' = sm_sent m @ rqs \<and>
    in_step parse sk w u used rqs (case r of Inr (t, nm) \<Rightarrow> Some nm | Inl e \<Rightarrow> None)"
proof -
  from assms consider
      (ends) e where "get_job lib parse n w u xs m = Some (Inl e, xs', m')" "r = Inl e"
    | (goes) t found xs1 m1 where "get_job lib parse n w u xs m = Some (Inr (t, found), xs1, m1)"
        "(case found of Some _ \<Rightarrow> update_job lib parse t w u sk | None \<Rightarrow> create_job lib parse t w u sk) xs1 m1 = Some (r, xs', m')"
    by (auto simp: create_or_update_job_def run_ok_Some)
  then show ?thesis
  proof cases
    case ends
    from scheduler_call_ends [OF ends(1) [unfolded get_job_def]] ends(2) show ?thesis
      by (auto simp: in_step_def)
  next
    case goes
    from scheduler_call_ends [OF goes(1) [unfolded get_job_def]] obtain us where
      us: "xs = us @ xs1" "\<exists>rq. sm_sent m1 = sm_sent m @ [rq] \<and> sq_method rq = ''GET''" by auto
    have "\<exists>used. xs1 = used @ xs' \<and> (case r of
       Inr (t, nm) \<Rightarrow> used \<noteq> [] \<and> acknowledged parse (last used) nm \<and> (\<exists>rq. sm_sent m' = sm_sent m1 @ [rq] \<and> places sk w u rq)
     | Inl e \<Rightarrow> sm_sent m' = sm_sent m1 \<or> (\<exists>rq. sm_sent m' = sm_sent m1 @ [rq]) \<and> used \<noteq> [] \<and> (\<forall>nm. \<not> acknowledged parse (last used) nm))"
      using goes(2)
      by (cases found; simp only: option.case update_job_def create_job_def; elim placed_ends)
         (simp_all add: places_def scheduler_job_of_def)
    then obtain used where used: "xs1 = used @ xs'" "case r of
       Inr (t, nm) \<Rightarrow> used \<noteq> [] \<and> acknowledged parse (last used) nm \<and> (\<exists>rq. sm_sent m' = sm_sent m1 @ [rq] \<and> places sk w u rq)
     | Inl e \<Rightarrow> sm_sent m' = sm_sent m1 \<or> (\<exists>rq. sm_sent m' = sm_sent m1 @ [rq]) \<and> used \<noteq> [] \<and> (\<forall>nm. \<not> acknowledged parse (last used) nm)"
      by blast
    have "xs = (us @ used) @ xs'" using us(1) used(1) by simp
    moreover have "\<exists>rqs. sm_sent m' = sm_sent m @ rqs \<and>
      in_step parse sk w u (us @ used) rqs (case r of Inr (t, nm) \<Rightarrow> Some nm | Inl e \<Rightarrow> None)"
      using us(2) used(2) by (auto simp: in_step_def split: sum.splits prod.splits)
    ultimately show ?thesis by blast
  qed
qed

lemma on_queue_db: "on_queue f (ts, xs) (db, q) = Some (a, (ts', xs'), (db', q')) \<Longrightarrow> ts' = ts \<and> db' = db"
  by (auto simp: on_queue_def)

lemma on_scheduler_db: "on_scheduler m what f (ts, xs) (db, q) = Some (a, (ts', xs'), (db', q')) \<Longrightarrow> ts' = ts \<and> db' = db"
  by (auto simp: on_scheduler_def run_map_error_def run_bind_Some dest: on_queue_db)

lemma on_scheduler_Some:
  assumes "on_scheduler m what f (ts, xs) (db, sent) = Some (a, (ts', xs'), (db', sent'))"
  shows "\<exists>r m'. f ts xs (m\<lparr>sm_sent := sent\<rparr>) = Some (r, xs', m') \<and> sent' = sm_sent m' \<and>
    a = map_sum (\<lambda>e. Message (what @ show_cloud_error e)) id r \<and> ts' = ts \<and> db' = db"
  using assms by (auto simp: on_scheduler_def run_map_error_def run_bind_Some on_queue_def on_part_def)

lemma sync_calm:
  assumes ts: "list_all (calm u) ts" and db: "t_workflows db = W @ [w]" and w: "last_workflow u W w"
    and clock: "\<forall>rest. length rest \<le> length ts \<longrightarrow> wr_created_at w \<le> dp_now dp rest"
    and run: "sync_scheduler dp cf u d (wr_id w) (ts, xs) (db, sent) = Some (r, (ts', xs'), (db', sent'))"
    and s: "wd_schedule d = Some s"
  shows "\<exists>used rqs j. xs = used @ xs' \<and> sent' = sent @ rqs \<and>
    in_step (dp_job_name dp) \<lparr>sk_cron = sd_cron s, sk_timezone = sd_timezone s, sk_enabled = sd_enabled s \<noteq> Some False\<rparr>
      (wr_id w) u used rqs j \<and>
    (case r of Inl e \<Rightarrow> j = None \<and> ts' = ts \<and> db' = db
     | Inr _ \<Rightarrow> j \<noteq> None \<and> (\<exists>n. db' = db\<lparr>t_workflows := W @ [w\<lparr>wr_scheduler_job_name := j, wr_updated_at := n\<rparr>]\<rparr>))"
proof (cases "scheduler_of_config dp cf")
  case (Inl e)
  with run show ?thesis
    by (auto simp: sync_scheduler_def run_ok_Some in_step_def intro!: exI [of _ "[]"] exI [of _ "None"])
next
  case (Inr m)
  let ?sk = "\<lparr>sk_cron = sd_cron s, sk_timezone = sd_timezone s, sk_enabled = (case sd_enabled s of Some b \<Rightarrow> b | None \<Rightarrow> True)\<rparr>"
  have sk: "?sk = \<lparr>sk_cron = sd_cron s, sk_timezone = sd_timezone s, sk_enabled = sd_enabled s \<noteq> Some False\<rparr>"
    by (auto split: option.split)
  let ?job = "\<lambda>ts. create_or_update_job (dp_lib dp) (dp_job_name dp) (dp_clock dp ts) (wr_id w) u ?sk"
  let ?call = "on_scheduler m ''Cloud Scheduler API error: '' ?job"
  let ?f = "\<lambda>nm (w :: workflow_row). w\<lparr>wr_scheduler_job_name := Some nm\<rparr>"
  let ?change = "\<lambda>nm. change_workflow dp u (wr_id w) ''Failed to get workflow for job name update''
     ''Failed to update workflow scheduler_job_name'' (?f nm)"
  from run Inr s consider
      (fails) e where "?call (ts, xs) (db, sent) = Some (Inl e, (ts', xs'), (db', sent'))" "r = Inl e"
    | (named) t nm ts1 db1 where "?call (ts, xs) (db, sent) = Some (Inr (t, nm), (ts1, xs'), (db1, sent'))"
        "?change nm ts1 db1 = Some (r, ts', db')"
    by (auto simp: sync_scheduler_def run_ok_Some [of ?call] run_ok_Some [of "run_return _"] on_db_Some)
  then show ?thesis
  proof cases
    case fails
    from on_scheduler_Some [OF fails(1)] obtain e' m' where
      call: "?job ts xs (m\<lparr>sm_sent := sent\<rparr>) = Some (Inl e', xs', m')" "sent' = sm_sent m'" "ts' = ts" "db' = db"
      by (metis (no_types, lifting) map_sum.simps(2) sum.exhaust sum.distinct(1))
    from create_or_update_ends [OF call(1)] call(2-) fails(2) show ?thesis
      unfolding sk by (auto intro!: exI [of _ "None"])
  next
    case named
    from on_scheduler_Some [OF named(1)] obtain q m' where
      call: "?job ts xs (m\<lparr>sm_sent := sent\<rparr>) = Some (q, xs', m')" "sent' = sm_sent m'" "ts1 = ts" "db1 = db"
        "Inr (t, nm) = map_sum (\<lambda>e. Message (''Cloud Scheduler API error: '' @ show_cloud_error e)) id q"
      by blast
    then have q: "q = Inr (t, nm)" by (cases q) simp_all
    have f: "?f nm w = w\<lparr>wr_schedule_enabled := wr_schedule_enabled w, wr_scheduler_job_name := Some nm\<rparr>" by simp
    from change_calm [OF ts db w f clock named(2) [unfolded call]] create_or_update_ends [OF call(1) [unfolded q]] call(2)
    show ?thesis unfolding sk by (auto intro!: exI [of _ "Some nm"])
  qed
qed

text \<open>What a first deployment leaves of a schedule, in the row and at the scheduler.\<close>

definition settled :: "deploy \<Rightarrow> tenant \<Rightarrow> workflow_definition \<Rightarrow> exchange list \<Rightarrow> exchange list \<Rightarrow>
    scheduler_request list \<Rightarrow> scheduler_request list \<Rightarrow> workflow_row \<Rightarrow> bool" where
  "settled dp u d xs xs' sent sent' w \<longleftrightarrow>
     (case wd_schedule d of
        None \<Rightarrow> xs' = xs \<and> sent' = sent \<and> wr_schedule_enabled w = None \<and> wr_scheduler_job_name w = None
      | Some s \<Rightarrow>
          wr_schedule_enabled w = Some (wr_scheduler_job_name w \<noteq> None \<and> sd_enabled s \<noteq> Some False) \<and>
          (\<exists>used rqs. xs = used @ xs' \<and> sent' = sent @ rqs \<and>
             in_step (dp_job_name dp)
               \<lparr>sk_cron = sd_cron s, sk_timezone = sd_timezone s, sk_enabled = sd_enabled s \<noteq> Some False\<rparr>
               (wr_id w) u used rqs (wr_scheduler_job_name w)))"

lemma settle_calm:
  assumes ts: "list_all (calm u) ts" and db: "t_workflows db = W @ [w]" and w: "last_workflow u W w"
    and clock: "\<forall>rest. length rest \<le> length ts \<longrightarrow> wr_created_at w \<le> dp_now dp rest"
    and asked: "wr_schedule_enabled w = map_option (\<lambda>s. sd_enabled s \<noteq> Some False) (wd_schedule d)" "wr_scheduler_job_name w = None"
    and run: "settle_schedule dp cf u d False (wr_id w) (ts, xs) (db, sent) = Some ((), (ts', xs'), (db', sent'))"
  shows "\<exists>e j n. db' = db\<lparr>t_workflows := W @ [w\<lparr>wr_schedule_enabled := e, wr_scheduler_job_name := j, wr_updated_at := n\<rparr>]\<rparr> \<and>
    settled dp u d xs xs' sent sent' (w\<lparr>wr_schedule_enabled := e, wr_scheduler_job_name := j, wr_updated_at := n\<rparr>)"
proof (cases "wd_schedule d")
  case None
  with run asked db show ?thesis
    by (auto simp: settle_schedule_def settled_def
        intro!: exI [of _ "wr_schedule_enabled w"] exI [of _ "wr_scheduler_job_name w"] exI [of _ "wr_updated_at w"])
next
  case (Some s)
  from run Some obtain r ts1 xs1 db1 sent1 where
    s: "sync_scheduler dp cf u d (wr_id w) (ts, xs) (db, sent) = Some (r, (ts1, xs1), (db1, sent1))"
    and k: "(case r of Inr _ \<Rightarrow> run_return () | Inl _ \<Rightarrow> run_logged (on_db (disable_schedule_on_sync_failure dp u (wr_id w))))
      (ts1, xs1) (db1, sent1) = Some ((), (ts', xs'), (db', sent'))"
    by (auto simp: settle_schedule_def sync_or_disable_def run_bind_Some split_paired_Ex)
  have net: "xs' = xs1 \<and> sent' = sent1"
    using k by (auto simp: run_logged_def run_bind_Some on_db_Some split_paired_Ex split: sum.splits)
  from sync_calm [OF ts db w clock s Some] obtain used rqs j where c: "xs = used @ xs1" "sent1 = sent @ rqs"
    "in_step (dp_job_name dp) \<lparr>sk_cron = sd_cron s, sk_timezone = sd_timezone s, sk_enabled = sd_enabled s \<noteq> Some False\<rparr>
      (wr_id w) u used rqs j"
    "case r of Inl e \<Rightarrow> j = None \<and> ts1 = ts \<and> db1 = db
     | Inr _ \<Rightarrow> j \<noteq> None \<and> (\<exists>n. db1 = db\<lparr>t_workflows := W @ [w\<lparr>wr_scheduler_job_name := j, wr_updated_at := n\<rparr>]\<rparr>)"
    by (elim exE conjE) (rule that)
  have settled: "settled dp u d xs xs' sent sent' (w\<lparr>wr_schedule_enabled := Some (j \<noteq> None \<and> sd_enabled s \<noteq> Some False),
      wr_scheduler_job_name := j, wr_updated_at := n\<rparr>)" for n
    using c(1-3) net Some by (auto simp: settled_def)
  show ?thesis
  proof (cases r)
    case (Inr x)
    with c(4) k obtain n where n: "j \<noteq> None" "db' = db\<lparr>t_workflows := W @ [w\<lparr>wr_scheduler_job_name := j, wr_updated_at := n\<rparr>]\<rparr>" by auto
    have "w\<lparr>wr_scheduler_job_name := j, wr_updated_at := n\<rparr> =
      w\<lparr>wr_schedule_enabled := Some (j \<noteq> None \<and> sd_enabled s \<noteq> Some False), wr_scheduler_job_name := j, wr_updated_at := n\<rparr>"
      using asked(1) Some n(1) by simp
    with n(2) settled [of n] show ?thesis by metis
  next
    case (Inl x)
    with c(4) have same: "ts1 = ts" "db1 = db" "j = None" by simp_all
    let ?f = "\<lambda>w :: workflow_row. w\<lparr>wr_schedule_enabled := Some False\<rparr>"
    from k Inl same obtain r' where
      u: "change_workflow dp u (wr_id w) ''Failed to get workflow for schedule disable''
         ''Failed to update workflow schedule_enabled'' ?f ts db = Some (r', ts', db')"
      by (auto simp: run_logged_def run_bind_Some on_db_Some disable_schedule_on_sync_failure_def split_paired_Ex)
    have f: "?f w = w\<lparr>wr_schedule_enabled := Some False, wr_scheduler_job_name := wr_scheduler_job_name w\<rparr>" by simp
    from change_calm [OF ts db w f clock u] obtain n where n: "db' = db\<lparr>t_workflows := W @ [(?f w)\<lparr>wr_updated_at := n\<rparr>]\<rparr>" by blast
    have "(?f w)\<lparr>wr_updated_at := n\<rparr> =
      w\<lparr>wr_schedule_enabled := Some (j \<noteq> None \<and> sd_enabled s \<noteq> Some False), wr_scheduler_job_name := j, wr_updated_at := n\<rparr>"
      using asked(2) same(3) by simp
    with n settled [of n] show ?thesis by metis
  qed
qed

text \<open>
  C34: a first deployment and the scheduler agree. Without interference, and with a clock that does not
  go back, a successful deployment adds one row, the workflow of the definition with its cron and time
  zone. Without a schedule the scheduler is not asked and the row has no schedule. With a
  schedule, the row names a job exactly when the job was looked up and then placed by a second request
  that carries the schedule, the workflow, the tenant and the wanted state, and the reply to this
  request, the last exchange, was successful and named this very job; the
  schedule is then enabled as the definition asks. In all other cases (no key file, no token, the lookup or
  the second request failed or was refused, or the reply could not be read) the row names no job and
  the schedule is disabled.
\<close>

theorem first_deploy_in_step:
  assumes cf: "dp_config dp = Inr cf" and ts: "list_all (calm (deploy_tenant dp cf)) ts" and clock: "steady dp"
    and run: "deploy_execute dp path (ts, xs) (db, sent) = Some (Inr r, (ts', xs'), (db', sent'))"
  shows "\<exists>d w. parse_workflow_file dp path = Inr d \<and> db' = db\<lparr>t_workflows := t_workflows db @ [w]\<rparr> \<and>
    wr_id w = dm_workflow r \<and> wr_name w = wd_name d \<and> wr_tenant_id w = Some (deploy_tenant dp cf) \<and>
    wr_schedule_cron w = map_option sd_cron (wd_schedule d) \<and>
    wr_schedule_timezone w = map_option sd_timezone (wd_schedule d) \<and>
    settled dp (deploy_tenant dp cf) d xs xs' sent sent' w"
proof -
  let ?u = "deploy_tenant dp cf"
  from run cf obtain d existing ts1 db1 ts2 db2 where d: "parse_workflow_file dp path = Inr d"
    and f: "find_workflow_by_name ?u (wd_name d) ts db = Some (Inr existing, ts1, db1)"
    and dw: "deploy_workflow dp path ?u ts1 db1 = Some (Inr r, ts2, db2)"
    and s: "settle_schedule dp cf ?u d (had_schedule existing) (dm_workflow r) (ts2, xs) (db2, sent) = Some ((), (ts', xs'), (db', sent'))"
    by (auto simp: execute_result)
  from find_workflow_calm [OF ts f] have ts1: "list_all (calm ?u) ts1" and db1: "db1 = db" by simp_all
  from deployed_parts [OF dw] d obtain ts3 db3 where
    f2: "find_workflow_by_name ?u (wd_name d) ts1 db1 = Some (Inr None, ts3, db3)"
    and p: "put_workflow ?u False (workflow_of_definition dp ts3 ?u d None) ts3 db3 = Some (Inr (), ts2, db2)"
    and r: "r = \<lparr>dm_workflow = dp_fresh dp ts3, dm_assets = [], dm_count = 0, dm_was_update = False\<rparr>"
    by auto
  from find_workflow_calm [OF ts1 f2] have ts3: "list_all (calm ?u) ts3" and db3: "db3 = db" by (simp_all add: db1)
  let ?w = "workflow_of_definition dp ts3 ?u d None"
  from put_workflow_calm [OF ts3, of None dp ts3 d db3 "Inr ()" ts2 db2] p
  have ts2: "list_all (calm ?u) ts2" and db2: "db2 = db\<lparr>t_workflows := t_workflows db @ [?w]\<rparr>"
    and w: "last_workflow ?u (t_workflows db) ?w"
    by (simp_all add: db3 last_workflow_def) (simp add: workflow_of_definition_def)
  have none: "existing = None" using find_workflow_finds [OF ts f] find_workflow_finds [OF ts1 f2] db1 by simp
  have "length ts2 < length ts3" using p by (auto simp: put_workflow_def deploying_def dest: try_shorter)
  then have now: "\<forall>rest. length rest \<le> length ts2 \<longrightarrow> wr_created_at ?w \<le> dp_now dp rest"
    using clock by (simp add: steady_def workflow_of_definition_def)
  have id: "dm_workflow r = wr_id ?w" using r by (simp add: workflow_of_definition_def)
  have last: "t_workflows db2 = t_workflows db @ [?w]" by (simp add: db2)
  have asked: "wr_schedule_enabled ?w = map_option (\<lambda>s. sd_enabled s \<noteq> Some False) (wd_schedule d)"
      "wr_scheduler_job_name ?w = None"
    by (auto simp: workflow_of_definition_def split: option.split intro!: map_option_cong)
  have s': "settle_schedule dp cf ?u d False (wr_id ?w) (ts2, xs) (db2, sent) = Some ((), (ts', xs'), (db', sent'))"
    using s none id by (simp add: had_schedule_def)
  from settle_calm [OF ts2 last w now asked s'] obtain e j n where
    out: "db' = db2\<lparr>t_workflows := t_workflows db @ [?w\<lparr>wr_schedule_enabled := e, wr_scheduler_job_name := j, wr_updated_at := n\<rparr>]\<rparr>"
      "settled dp ?u d xs xs' sent sent' (?w\<lparr>wr_schedule_enabled := e, wr_scheduler_job_name := j, wr_updated_at := n\<rparr>)"
    by (elim exE conjE) (rule that)
  let ?v = "?w\<lparr>wr_schedule_enabled := e, wr_scheduler_job_name := j, wr_updated_at := n\<rparr>"
  show ?thesis
    by (rule exI [of _ d], rule exI [of _ ?v])
       (use d out in \<open>simp add: id, simp add: db2 workflow_of_definition_def\<close>)
qed

section \<open>Concrete deployments\<close>

definition plain_config :: config where
  "plain_config = cli_config_default\<lparr>cf_tenant_id := Some ''acme'', cf_project_id := Some ''p'', cf_region := Some ''r'',
     cf_worker_url := Some ''https://w''\<rparr>"

definition definition_named :: "string \<Rightarrow> asset_definition list \<Rightarrow> workflow_definition" where
  "definition_named nm as = \<lparr>wd_name = nm, wd_description = None, wd_owner = None, wd_tags = [],
     wd_schedule = Some \<lparr>sd_cron = ''0 2 * * *'', sd_timezone = ''UTC'', sd_enabled = None\<rparr>, wd_assets = as\<rparr>"

definition plain_asset :: asset_definition where
  "plain_asset = \<lparr>ad_name = ''a'', ad_type = ''table'', ad_description = None, ad_owner = None, ad_tags = [],
     ad_dependencies = [], ad_partition = None, ad_module = None, ad_function = None\<rparr>"

definition plain_deploy :: "asset_definition list \<Rightarrow> deploy" where
  "plain_deploy as = \<lparr>dp_env = (\<lambda>_. None), dp_config = Inr plain_config, dp_connect = None,
     dp_files = (\<lambda>p. if p = ''w.json'' then Some (Inr ''{}'') else None), dp_extension = (\<lambda>_. Some ''json''),
     dp_yaml = (\<lambda>_. Inl ''no''), dp_toml = (\<lambda>_. Inl ''no''), dp_json = (\<lambda>_. Inr (definition_named ''w'' as)),
     dp_cron = (\<lambda>_. True), dp_timezone = (\<lambda>_. True), dp_partition_text = (\<lambda>_. []), dp_sx = (\<lambda>_. []),
     dp_now = (\<lambda>_. 1000), dp_fresh = (\<lambda>_. ''u''), dp_clock = (\<lambda>_. 1000), dp_lib = plain_cloud,
     dp_job_name = (\<lambda>_. Inr ''job''), dp_service_account = (\<lambda>_. Inl ''no''), dp_breaker = breaker_config_default\<rparr>"

lemma plain_deploys:
  "parse_workflow_file (plain_deploy []) ''w.json'' = Inr (definition_named ''w'' [])"
  "map_option (\<lambda>(r, s, db, sent). (r, s, map (\<lambda>w. (wr_name w, wr_schedule_enabled w, wr_scheduler_job_name w)) (t_workflows db), sent))
     (deploy_execute (plain_deploy []) ''w.json'' (quiet 5, []) (empty_db, [])) =
   Some (Inr \<lparr>dm_workflow = ''u'', dm_assets = [], dm_count = 0, dm_was_update = False\<rparr>, ([], []), [(''w'', Some False, None)], [])"
  "map_option (\<lambda>(r, s, db, sent). (r, s, map wr_name (t_workflows db), sent))
     (deploy_execute (plain_deploy [plain_asset]) ''w.json'' (quiet 4, []) (empty_db, [])) =
   Some (Inl (Unexplained (ValidationError ''Limit cannot exceed 1000'')), ([], []), [''w''], [])"
  by code_simp+

theorem deploys_only_new_empty_witness:
  "\<exists>r s' db'. deploy_execute (plain_deploy []) ''w.json'' (quiet 5, []) (empty_db, []) = Some (Inr r, s', db') \<and>
     dm_assets r = [] \<and> \<not> dm_was_update r"
proof -
  from plain_deploys(2) obtain r ts' xs' db' sent' where
    run: "deploy_execute (plain_deploy []) ''w.json'' (quiet 5, []) (empty_db, []) = Some (Inr r, (ts', xs'), (db', sent'))" by auto
  from deploys_only_new_empty [OF run] run show ?thesis by auto
qed

lemma plain_calm: "dp_config (plain_deploy as) = Inr plain_config" "list_all (calm (deploy_tenant (plain_deploy as) plain_config)) (quiet n)"
  by (simp_all add: plain_deploy_def deploy_tenant_def plain_config_def or_lower_def quiet_calm)

theorem failed_deploy_leaves_witness:
  "\<exists>e s' db' w. deploy_execute (plain_deploy [plain_asset]) ''w.json'' (quiet 4, []) (empty_db, []) = Some (Inl e, s', db', []) \<and>
     t_workflows db' = [w] \<and> t_assets db' = []"
proof -
  from plain_deploys(3) obtain ts' xs' db' sent' where
    run: "deploy_execute (plain_deploy [plain_asset]) ''w.json'' (quiet 4, []) (empty_db, []) =
      Some (Inl (Unexplained (ValidationError ''Limit cannot exceed 1000'')), (ts', xs'), (db', sent'))" and
    w: "map wr_name (t_workflows db') = [''w'']" by auto
  from failed_deploy_leaves [OF plain_calm run] w have "sent' = []" "t_assets db' = []"
    by (auto simp: empty_db_def)
  with run w show ?thesis by auto
qed

text \<open>A deployment with a key file: the token, no job under the name, and the job is made.\<close>

definition keyed_deploy :: deploy where
  "keyed_deploy = (plain_deploy [])\<lparr>dp_config := Inr (plain_config\<lparr>cf_service_account_file := Some ''key.json''\<rparr>),
     dp_files := (\<lambda>p. if p = ''w.json'' \<or> p = ''key.json'' then Some (Inr ''{}'') else None),
     dp_service_account := (\<lambda>_. Inr (''service_account'', \<lparr>cd_client_email = ''me'', cd_private_key_id = ''1'', cd_private_key = ''k''\<rparr>)),
     dp_job_name := (\<lambda>b. case b of Some nm \<Rightarrow> Inr nm | None \<Rightarrow> Inl ''no body'')\<rparr>"

definition reply :: "nat \<Rightarrow> string \<Rightarrow> exchange" where
  "reply status body = \<lparr>ex_end = 5, ex_result = Inr \<lparr>hr_status = status, hr_body = Some body, hr_retry_after = None\<rparr>\<rparr>"

lemma keyed_deploys:
  "map_option (\<lambda>(r, s, db, sent). (r, s, map (\<lambda>w. (wr_schedule_enabled w, wr_scheduler_job_name w)) (t_workflows db), map sq_method sent))
     (deploy_execute keyed_deploy ''w.json'' (quiet 5, [reply 200 ''token'', reply 404 ''none'', reply 200 ''the job'']) (empty_db, [])) =
   Some (Inr \<lparr>dm_workflow = ''u'', dm_assets = [], dm_count = 0, dm_was_update = False\<rparr>, ([], []),
     [(Some True, Some ''the job'')], [''GET'', ''POST''])"
  "map_option (\<lambda>(r, s, db, sent). (r, s, map (\<lambda>w. (wr_schedule_enabled w, wr_scheduler_job_name w)) (t_workflows db), map sq_method sent))
     (deploy_execute keyed_deploy ''w.json'' (quiet 5, [reply 200 ''token'', reply 404 ''none'', reply 500 ''the job'']) (empty_db, [])) =
   Some (Inr \<lparr>dm_workflow = ''u'', dm_assets = [], dm_count = 0, dm_was_update = False\<rparr>, ([], []),
     [(Some False, None)], [''GET'', ''POST''])"
  by code_simp+

theorem first_deploy_in_step_witness:
  "\<exists>r s' db' sent' w rq1 rq2. deploy_execute keyed_deploy ''w.json''
       (quiet 5, [reply 200 ''token'', reply 404 ''none'', reply 200 ''the job'']) (empty_db, []) = Some (Inr r, s', db', sent') \<and>
     t_workflows db' = [w] \<and> wr_schedule_enabled w = Some True \<and> wr_scheduler_job_name w = Some ''the job'' \<and>
     sent' = [rq1, rq2] \<and> sq_method rq1 = ''GET'' \<and>
     places \<lparr>sk_cron = ''0 2 * * *'', sk_timezone = ''UTC'', sk_enabled = True\<rparr> (wr_id w) ''acme'' rq2"
proof -
  let ?xs = "[reply 200 ''token'', reply 404 ''none'', reply 200 ''the job'']"
  let ?cf = "plain_config\<lparr>cf_service_account_file := Some ''key.json''\<rparr>"
  from keyed_deploys(1) obtain r ts' xs' db' sent' where
    run: "deploy_execute keyed_deploy ''w.json'' (quiet 5, ?xs) (empty_db, []) = Some (Inr r, (ts', xs'), (db', sent'))"
    and row: "map (\<lambda>w. (wr_schedule_enabled w, wr_scheduler_job_name w)) (t_workflows db') = [(Some True, Some ''the job'')]" by auto
  have cf: "dp_config keyed_deploy = Inr ?cf" by (simp add: keyed_deploy_def)
  have tenant: "deploy_tenant keyed_deploy ?cf = ''acme''"
    by (simp add: keyed_deploy_def plain_deploy_def deploy_tenant_def plain_config_def or_lower_def)
  have calm: "list_all (calm (deploy_tenant keyed_deploy ?cf)) (quiet 5)" unfolding tenant by (rule quiet_calm)
  have parsed: "parse_workflow_file keyed_deploy ''w.json'' = Inr (definition_named ''w'' [])" by code_simp
  have "steady keyed_deploy" by (simp add: steady_def keyed_deploy_def plain_deploy_def)
  from first_deploy_in_step [OF cf calm this run] obtain w where
    w: "t_workflows db' = [w]" "settled keyed_deploy ''acme'' (definition_named ''w'' []) ?xs xs' [] sent' w"
    unfolding parsed tenant by (auto simp: empty_db_def)
  with row have "wr_schedule_enabled w = Some True" "wr_scheduler_job_name w = Some ''the job''" by simp_all
  moreover with w(2) obtain rq1 rq2 where "sent' = [rq1, rq2]" "sq_method rq1 = ''GET''"
    "places \<lparr>sk_cron = ''0 2 * * *'', sk_timezone = ''UTC'', sk_enabled = True\<rparr> (wr_id w) ''acme'' rq2"
    by (auto simp: settled_def in_step_def definition_named_def)
  ultimately show ?thesis using run w(1) by blast
qed

end
