(* ===== verification/CliRun.thy ===== *)
theory CliRun
  imports CliBackfill
begin

text \<open>
  The commands that run a workflow and follow an execution (\<open>servo-cli/src/commands/run.rs\<close>,
  \<open>status.rs\<close> and \<open>servo-cli/src/polling.rs\<close>). The clock of a storage call is that of its tick; the
  poller stops at the first tick that is past its deadline, so a call that is under way at the deadline
  is counted as not begun. What is printed is left out.
\<close>

section \<open>Polling\<close>

definition is_terminal_state :: "string \<Rightarrow> bool" where
  "is_terminal_state s \<longleftrightarrow> s \<in> {''succeeded'', ''failed'', ''cancelled'', ''timeout''}"

definition parse_execution_state :: "string \<Rightarrow> execution_state option" where
  "parse_execution_state s =
     (if s = ''pending'' then Some Pending
      else if s = ''running'' then Some Running
      else if s = ''succeeded'' then Some Succeeded
      else if s = ''failed'' then Some Orchestrator.Failed
      else if s = ''cancelled'' then Some Cancelled
      else if s = ''timeout'' then Some TimedOut
      else None)"

definition poll_timeout :: "uuid \<Rightarrow> nat \<Rightarrow> string" where
  "poll_timeout i secs = ''Execution '' @ i @ '' did not complete within timeout of '' @ show_nat secs @ ''s''"

definition polled_state :: "string \<Rightarrow> command_error + execution_state" where
  "polled_state s = (case parse_execution_state s of Some st \<Rightarrow> Inr st | None \<Rightarrow> Inl (Told ''Invalid execution state''))"

fun poll_until :: "tenant \<Rightarrow> uuid \<Rightarrow> nat \<Rightarrow> time \<Rightarrow> (command_error + execution_state) run" where
  "poll_until u i secs deadline [] db = None"
| "poll_until u i secs deadline (t # ts) db =
     (if deadline \<le> now (tk_call t) then Some (Inl (Told (poll_timeout i secs)), t # ts, db)
      else case get_execution ((tk_call t)\<lparr>tenant := u\<rparr>) i (foldl db_step db (tk_ops t)) of
        (Inl e, db') \<Rightarrow> Some (Inl (Told ''Failed to fetch execution status''), ts, db')
      | (Inr x, db') \<Rightarrow>
          if is_terminal_state (x_state x) then Some (polled_state (x_state x), ts, db')
          else poll_until u i secs deadline ts db')"

text \<open>An interval of zero panics.\<close>

definition poll_execution_status :: "('d, 't) command \<Rightarrow> tenant \<Rightarrow> uuid \<Rightarrow> nat \<Rightarrow> nat \<Rightarrow> (command_error + execution_state) run" where
  "poll_execution_status cm u i secs interval =
     (if interval = 0 then run_panic
      else run_bind run_point (\<lambda>ts. poll_until u i secs (bc_now cm ts 0 + int secs * 1000)))"

section \<open>Running a workflow\<close>

datatype run_status =
  RunSucceeded uuid | RunFailed uuid | RunTimeout uuid | RunCancelled uuid | AsyncStarted uuid

definition status_of :: "uuid \<Rightarrow> execution_state \<Rightarrow> run_status" where
  "status_of i s =
     (case s of Succeeded \<Rightarrow> RunSucceeded i | Orchestrator.Failed \<Rightarrow> RunFailed i | TimedOut \<Rightarrow> RunTimeout i
      | Cancelled \<Rightarrow> RunCancelled i | _ \<Rightarrow> RunFailed i)"

text \<open>
  The command's world is the database and the tasks that have been handed to a queue. Its orchestrator
  is made without a task queue; what the orchestrator hands over would be appended to the tasks.
\<close>

type_synonym 'a handing_run = "(tick list, db \<times> task list, 'a) action"

definition on_store :: "'a run \<Rightarrow> 'a handing_run" where
  "on_store f ts s = map_option (\<lambda>(a, ts', db'). (a, ts', (db', snd s))) (f ts (fst s))"

definition hand_over :: "task list \<Rightarrow> unit handing_run" where
  "hand_over tasks ts s = Some ((), ts, (fst s, snd s @ tasks))"

definition start_from_command ::
  "('d, 't) command \<Rightarrow> (sqlx_error \<Rightarrow> string) \<Rightarrow> tenant \<Rightarrow> uuid \<Rightarrow> (command_error + uuid) handing_run" where
  "start_from_command cm sx u w =
     run_bind (on_store run_point) (\<lambda>ts.
     run_bind (on_store (perform (\<lambda>c db.
         case start_execution sx None (bc_fresh cm ts) (c\<lparr>tenant := u\<rparr>) w None db of (r, tasks, db') \<Rightarrow> ((r, tasks), db'))))
       (\<lambda>(r, tasks). run_bind (hand_over tasks)
         (\<lambda>_. run_return (map_sum (\<lambda>_. Told ''Failed to start execution'') id r))))"

definition run_execute ::
  "('d, 't) command \<Rightarrow> (sqlx_error \<Rightarrow> string) \<Rightarrow> string \<Rightarrow> bool \<Rightarrow> nat \<Rightarrow> nat \<Rightarrow> (command_error + run_status) handing_run" where
  "run_execute cm sx nm wait secs interval =
     (case bc_uuid cm nm of
        None \<Rightarrow> run_return (Inl (Told ''workflow_name must be a valid UUID. Name lookup not yet implemented.''))
      | Some w \<Rightarrow>
          connected cm (\<lambda>u.
            run_ok (on_store (try_db (\<lambda>_. Told ''Workflow not found'') (as_tenant u (\<lambda>c. get_workflow c w)))) (\<lambda>_.
            run_ok (start_from_command cm sx u w) (\<lambda>i.
              if wait then run_ok (on_store (poll_execution_status cm u i secs interval)) (\<lambda>s. run_return (Inr (status_of i s)))
              else run_return (Inr (AsyncStarted i))))))"

definition status_execute :: "('d, 't) command \<Rightarrow> string \<Rightarrow> tenant \<Rightarrow> (command_error + execution_row \<times> execution_state) run" where
  "status_execute cm s u =
     (case bc_connect cm of
        Some e \<Rightarrow> run_return (Inl (Stored e))
      | None \<Rightarrow>
          (case bc_uuid cm s of
             None \<Rightarrow> run_return (Inl (Told ''invalid UUID''))
           | Some i \<Rightarrow>
               run_ok (stored u (\<lambda>c. get_execution c i)) (\<lambda>x.
                 run_return (case parse_state (x_state x) of
                   Inl _ \<Rightarrow> Inl (Told ''Invalid execution state'')
                 | Inr st \<Rightarrow> Inr (x, st)))))"

end
