(* ===== verification/CliRunLife.thy ===== *)
theory CliRunLife
  imports CliRun CliBackfillLife
begin

text \<open>
  What the commands that run a workflow guarantee: what a state that is polled says of the stored
  execution, that polling ends, and that a workflow that is started from the command line is never
  executed.
\<close>

section \<open>Polling\<close>

lemma parse_terminal: "is_terminal_state s \<Longrightarrow> \<exists>st. polled_state s = Inr st \<and> s = state_string st \<and> st \<notin> {Pending, Running}"
  by (auto simp: is_terminal_state_def polled_state_def parse_execution_state_def)

lemma polled_read: "get_execution c i db = (Inr x, db') \<Longrightarrow> db' = db \<and> x \<in> set (my_executions c db) \<and> x_id x = i"
  by (auto simp: get_execution_def with_tenant_context_Inr split: option.splits dest: find_Some_in)

lemma mine: "my_executions (c\<lparr>tenant := u\<rparr>) db = my_executions (call_of u 0) db"
  by (simp add: my_executions_def visible_def cong: option.case_cong)

text \<open>
  The answer of the poller. Whatever other processes write meanwhile, a state that it returns is
  final and is that of the stored execution at the moment of its last read.
\<close>

theorem poll_verdict:
  assumes "poll_until u i secs deadline ts db = Some (Inr s, ts', db')"
  shows "s \<notin> {Pending, Running} \<and> (\<exists>x\<in>set (my_executions (call_of u 0) db'). x_id x = i \<and> x_state x = state_string s)"
  using assms
proof (induction ts arbitrary: db)
  case (Cons t ts)
  obtain r db1 where g: "get_execution ((tk_call t)\<lparr>tenant := u\<rparr>) i (foldl db_step db (tk_ops t)) = (r, db1)" by fastforce
  with Cons.prems obtain x where x: "r = Inr x" by (cases r) (auto split: if_splits)
  note read = polled_read [OF g [unfolded x]]
  show ?case
  proof (cases "is_terminal_state (x_state x)")
    case True
    with parse_terminal obtain st where "polled_state (x_state x) = Inr st" "x_state x = state_string st" "st \<notin> {Pending, Running}" by blast
    with Cons.prems g x read True show ?thesis by (auto simp: mine split: if_splits)
  next
    case False
    with Cons g x show ?thesis by (auto split: if_splits)
  qed
qed simp

text \<open>The poller ends on every schedule that passes its deadline.\<close>

theorem poll_ends:
  assumes "\<exists>t\<in>set ts. deadline \<le> now (tk_call t)"
  shows "poll_until u i secs deadline ts db \<noteq> None"
  using assms
proof (induction ts arbitrary: db)
  case (Cons t ts)
  obtain r db1 where g: "get_execution ((tk_call t)\<lparr>tenant := u\<rparr>) i (foldl db_step db (tk_ops t)) = (r, db1)" by fastforce
  show ?case
  proof (cases "deadline \<le> now (tk_call t)")
    case False
    with Cons.prems have "\<exists>t\<in>set ts. deadline \<le> now (tk_call t)" by auto
    from Cons.IH [OF this, of db1] g False show ?thesis by (cases r) simp_all
  qed simp
qed simp

section \<open>An execution from the command line\<close>

lemma poll_pending:
  assumes "list_all (calm u) ts" "has_row u x db" "\<not> is_terminal_state (x_state x)"
    and "poll_until u (x_id x) secs deadline ts db = Some (r, ts', db')"
  shows "r = Inl (Told (poll_timeout (x_id x) secs)) \<and> db' = db"
  using assms
proof (induction ts)
  case (Cons t ts)
  have t: "calm u t" using Cons.prems(1) by simp
  have c: "(tk_call t)\<lparr>tenant := u\<rparr> = tk_call t" "tk_ops t = []" using t by (auto simp: calm_def)
  show ?case
    using Cons get_calm [OF Cons.prems(2) t] by (auto simp: c split: if_splits)
qed simp

lemma on_store_Some: "on_store f ts (db, q) = Some (a, ts', s') \<longleftrightarrow> (\<exists>db'. f ts db = Some (a, ts', db') \<and> s' = (db', q))"
  by (auto simp: on_store_def)

lemma no_queue: "start_execution sx None fresh c w key db = (r, tasks, db') \<Longrightarrow> tasks = []"
  by (auto simp: start_execution_def start_execution_with_def Let_def split: option.splits prod.splits sum.splits if_splits)

lemma started_calm:
  assumes ts: "list_all (calm u) ts" and ok: "db_ok db"
    and run: "start_from_command cm sx u w ts (db, q0) = Some (r, ts', (db', q'))"
  shows "list_all (calm u) ts' \<and> db_ok db' \<and> q' = q0 \<and> (case r of Inl e \<Rightarrow> db' = db
    | Inr i \<Rightarrow> \<exists>x. x_id x = i \<and> x_state x = ''pending'' \<and> x_workflow_id x = w \<and> x_tenant_id x = Some u \<and>
        db' = db\<lparr>t_executions := t_executions db @ [x]\<rparr> \<and> i \<notin> x_id ` set (t_executions db))"
proof -
  note cmd = start_from_command_def run_bind_Some run_point_def perform_def on_store_Some hand_over_def
  from run obtain t where t: "ts = t # ts'" by (cases ts) (auto simp: cmd split: prod.splits)
  have c: "(tk_call t)\<lparr>tenant := u\<rparr> = tk_call t" "tk_ops t = []" "tenant (tk_call t) = u" using ts t by (auto simp: calm_def)
  obtain q tasks db1 where s: "start_execution sx None (bc_fresh cm ts) (tk_call t) w None db = (q, tasks, db1)" by (cases "start_execution sx None (bc_fresh cm ts) (tk_call t) w None db")
  with run t c have r: "r = map_sum (\<lambda>_. Told ''Failed to start execution'') id q" "db1 = db'" "q' = q0 @ tasks"
    by (auto simp: cmd)
  have "tasks = []" by (rule no_queue [OF s])
  let ?x = "new_execution (bc_fresh cm ts) (tk_call t) w None"
  obtain z db2 where z: "create_execution (tk_call t) ?x db = (z, db2)" by fastforce
  have "case z of Inl e \<Rightarrow> db2 = db | Inr _ \<Rightarrow> db2 = db\<lparr>t_executions := t_executions db @ [?x]\<rparr> \<and> x_id ?x \<notin> x_id ` set (t_executions db)"
    using z c(3)
    by (cases z) (auto simp: create_execution_def checked_Inr with_tenant_context_Inr insert_execution_def stmt_insert_case
        execution_keys_def execution_pkey_def list_ex_iff new_execution_def simp del: checked.simps
        dest!: checked_Inl with_tenant_context_Inl split: if_splits)
  moreover have "q = map_sum (map_storage_error sx ''Failed to create execution'') (\<lambda>_. x_id ?x) z \<and> db1 = db2"
    using s z by (cases z) (auto simp: start_execution_def start_execution_with_def Let_def)
  moreover have "x_id ?x = bc_fresh cm ts" "x_state ?x = ''pending''" "x_workflow_id ?x = w" "x_tenant_id ?x = Some u"
    using c(3) by (simp_all add: new_execution_def)
  moreover have "db_ok db2" using create_execution_ok [OF ok, of "tk_call t" ?x] by (simp add: z)
  ultimately show ?thesis
    using r t ts \<open>tasks = []\<close> by (cases z) auto
qed

text \<open>
  C20: an execution that is started from the command line goes to no queue and stays pending. Whether
  or not the command waits, and on any schedule without interference, no task has been handed
  over to a queue when it returns. Either nothing was written and it ended with an error, or the database has one
  pending execution of the workflow more, and the command has returned its identifier at once, or,
  when it waits, has ended with the error of its timer: a command that waits never succeeds.
\<close>

theorem run_waits_in_vain:
  assumes tenant: "bc_env cm ''TENANT_ID'' = Some u" and ts: "list_all (calm u) ts" and ok: "db_ok db"
    and run: "run_execute cm sx nm wait secs interval ts (db, q) = Some (r, ts', (db', q'))"
  shows "q' = q \<and> (db' = db \<and> (\<exists>e. r = Inl e) \<or>
    (\<exists>x. r = (if wait then Inl (Told (poll_timeout (x_id x) secs)) else Inr (AsyncStarted (x_id x))) \<and>
      x_state x = ''pending'' \<and> bc_uuid cm nm = Some (x_workflow_id x) \<and> x_tenant_id x = Some u \<and>
      db' = db\<lparr>t_executions := t_executions db @ [x]\<rparr>))"
proof (cases "\<exists>w. bc_uuid cm nm = Some w \<and> bc_connect cm = None")
  case False
  with run tenant show ?thesis
    by (cases "bc_uuid cm nm"; cases "bc_connect cm") (auto simp: run_execute_def connected_def tenant_of_def)
next
  case True
  then obtain w where w: "bc_uuid cm nm = Some w" "bc_connect cm = None" by blast
  let ?get = "try_db (\<lambda>_. Told ''Workflow not found'') (as_tenant u (\<lambda>c. get_workflow c w)) :: (command_error + workflow_row) run"
  have read: "db1 = db \<and> list_all (calm u) ts1" if got: "?get ts db = Some (q, ts1, db1)" for q ts1 db1
  proof -
    obtain t where t: "ts = t # ts1" using got by (cases ts) (auto simp: try_db_def run_bind_Some perform_Some)
    have "snd (get_workflow c w d) = d" for c d
      unfolding get_workflow_def by (rule read_only) (auto split: option.splits)
    then have "db1 = foldl db_step db (tk_ops t)"
      using got t by (auto simp: try_db_def run_bind_Some perform_Some as_tenant_def) (metis snd_conv)+
    with ts t show ?thesis by (simp add: calm_def)
  qed
  from run tenant w consider
      (missing) e where "?get ts db = Some (Inl e, ts', db')" "r = Inl e" "q' = q"
    | (refused) a ts1 db1 e where "?get ts db = Some (Inr a, ts1, db1)"
        "start_from_command cm sx u w ts1 (db1, q) = Some (Inl e, ts', (db', q'))" "r = Inl e"
    | (started) a ts1 db1 i where "?get ts db = Some (Inr a, ts1, db1)" "\<not> wait"
        "start_from_command cm sx u w ts1 (db1, q) = Some (Inr i, ts', (db', q'))" "r = Inr (AsyncStarted i)"
    | (waits) a ts1 db1 i ts2 db2 p where "?get ts db = Some (Inr a, ts1, db1)" "wait"
        "start_from_command cm sx u w ts1 (db1, q) = Some (Inr i, ts2, (db2, q'))"
        "poll_execution_status cm u i secs interval ts2 db2 = Some (p, ts', db')" "r = map_sum id (status_of i) p"
    by (cases wait) (auto simp: run_execute_def connected_def tenant_of_def run_ok_Some on_store_Some)
  then show ?thesis
  proof cases
    case missing
    with read [OF missing(1)] show ?thesis by auto
  next
    case refused
    from read [OF refused(1)] have ts1: "list_all (calm u) ts1" and db1: "db1 = db" by simp_all
    from started_calm [OF ts1 _ refused(2)] ok refused(3) db1 show ?thesis by auto
  next
    case started
    from read [OF started(1)] have ts1: "list_all (calm u) ts1" and db1: "db1 = db" by simp_all
    from started_calm [OF ts1 _ started(3)] ok started(2,4) w(1) show ?thesis unfolding db1 by auto
  next
    case started: waits
    from read [OF started(1)] have ts1: "list_all (calm u) ts1" and db1: "db1 = db" by simp_all
    from started_calm [OF ts1 _ started(3)] ok obtain x :: execution_row where
      x: "x_id x = i" "x_state x = ''pending''" "x_tenant_id x = Some u" "db2 = db\<lparr>t_executions := t_executions db @ [x]\<rparr>"
        "x_workflow_id x = w"
      and ts2: "list_all (calm u) ts2" and ok2: "db_ok db2" and q': "q' = q" unfolding db1 by auto
    have row: "has_row u x db2"
      using db_okD(2) [OF ok2] x(3,4) by (simp add: has_row_def visible_def)
    have wait: "\<not> is_terminal_state (x_state x)" by (simp add: x(2) is_terminal_state_def)
    from started(4) obtain deadline where "poll_until u (x_id x) secs deadline ts2 db2 = Some (p, ts', db')"
      by (auto simp: poll_execution_status_def run_panic_def run_bind_Some run_point_def x(1) split: if_splits)
    from poll_pending [OF ts2 row wait this] x started(2,5) w(1) q' show ?thesis by auto
  qed
qed

section \<open>Concrete runs\<close>

definition runnable_db :: db where
  "runnable_db = foldl db_step empty_db [Meta sample_call (Create_workflow strict_workflow)]"

lemma waiting_run:
  "map_option (\<lambda>(r, ts, db', q'). (r, ts, map x_state (t_executions db'), length q'))
     (run_execute plain_command (\<lambda>_. []) ''w'' True 0 1 (quiet 3) (runnable_db, [])) =
   Some (Inl (Told (poll_timeout ''uu'' 0)), quiet 1, [''pending''], 0)"
  "map_option (\<lambda>(r, ts, db'). (r, map x_id (t_executions db')))
     (poll_until ''acme'' ''e'' 0 2000 (quiet 1)
       (empty_db\<lparr>t_executions := [new_execution ''e'' sample_call ''w'' None\<lparr>x_state := ''timeout''\<rparr>]\<rparr>)) =
   Some (Inr TimedOut, [''e''])"
  by code_simp+

theorem run_waits_in_vain_witness:
  "\<exists>r ts' db' x. run_execute plain_command (\<lambda>_. []) ''w'' True 0 1 (quiet 3) (runnable_db, []) = Some (r, ts', (db', [])) \<and>
     r = Inl (Told (poll_timeout (x_id x) 0)) \<and> t_executions db' = [x] \<and> x_state x = ''pending''"
proof -
  from waiting_run(1) obtain ts' db' where
    run: "run_execute plain_command (\<lambda>_. []) ''w'' True 0 1 (quiet 3) (runnable_db, []) =
      Some (Inl (Told (poll_timeout ''uu'' 0)), ts', (db', []))"
    and st: "map x_state (t_executions db') = [''pending'']" by auto
  have u: "bc_env plain_command ''TENANT_ID'' = Some ''acme''" by (simp add: plain_command_def)
  have ok: "db_ok runnable_db" unfolding runnable_db_def by (rule db_steps_ok)
  have empty: "t_executions runnable_db = []" by code_simp
  from run_waits_in_vain [OF u quiet_calm ok run] st empty obtain x :: execution_row where
    "Inl (Told (poll_timeout ''uu'' 0)) = (Inl (Told (poll_timeout (x_id x) 0)) :: command_error + run_status)"
    "x_state x = ''pending''" "t_executions db' = [x]" by (auto split: if_splits)
  with run show ?thesis by auto
qed

theorem poll_verdict_witness:
  "\<exists>ts' db'. poll_until ''acme'' ''e'' 0 2000 (quiet 1)
     (empty_db\<lparr>t_executions := [new_execution ''e'' sample_call ''w'' None\<lparr>x_state := ''timeout''\<rparr>]\<rparr>) = Some (Inr TimedOut, ts', db') \<and>
     (\<exists>x\<in>set (my_executions (call_of ''acme'' 0) db'). x_id x = ''e'' \<and> x_state x = ''timeout'')"
proof -
  from waiting_run(2) obtain ts' db' where
    run: "poll_until ''acme'' ''e'' 0 2000 (quiet 1)
     (empty_db\<lparr>t_executions := [new_execution ''e'' sample_call ''w'' None\<lparr>x_state := ''timeout''\<rparr>]\<rparr>) = Some (Inr TimedOut, ts', db')" by auto
  from poll_verdict [OF run] run show ?thesis by auto
qed

theorem poll_ends_witness: "poll_until ''acme'' ''e'' 0 1000 (quiet 1) empty_db \<noteq> None"
  by (rule poll_ends) (simp add: quiet_def quiet_tick_def sample_call_def)

end
