(* ===== verification/SensitiveFilter.thy ===== *)
theory SensitiveFilter
  imports Prelude
begin

text \<open>
  What is removed from the spans before they leave the worker
  (\<open>servo-worker/src/sensitive_filter.rs\<close>). An attribute has a key and a value, which is a text or a
  value of another kind; a span is its attributes and the rest of it, which the filter does not touch.
  The lower case of a text is that of its ASCII letters. The exporter that is wrapped is a library.
\<close>

definition sensitive_key_patterns :: "string list" where
  "sensitive_key_patterns =
     [''password'', ''secret'', ''token'', ''bearer'', ''authorization'', ''credential'', ''api_key'', ''apikey'',
      ''private_key'', ''privatekey'', ''hmac'', ''signature'', ''x-servo-signature'', ''oidc'', ''jwt'',
      ''access_token'', ''refresh_token'', ''client_secret'', ''database_url'', ''connection_string'']"

definition sensitive_value_patterns :: "string list" where
  "sensitive_value_patterns =
     [''bearer '', ''basic '', ''ey'', ''ghp_'', ''gho_'', ''sk-'', ''pk_'', ''ya29.'', ''agp_'', ''postgres://'',
      ''postgresql://'', ''mysql://'', ''redis://'']"

definition safe_keys :: "string list" where
  "safe_keys =
     [''execution_id'', ''workflow_id'', ''tenant_id'', ''request_id'', ''trace_id'', ''span_id'',
      ''parent_span_id'', ''task_id'', ''asset_id'', ''step_id'', ''db.system'', ''db.operation'',
      ''db.sql.table'', ''db.name'', ''db.response.rows_affected'', ''http.method'', ''http.status_code'',
      ''http.route'', ''http.target'', ''service.name'', ''service.version'', ''environment'', ''queue_path'',
      ''target_url'', ''attempts'', ''max_attempts'', ''max_concurrent'', ''available_before'',
      ''wait_duration_ms'', ''total_duration_ms'', ''strategy'', ''status'', ''error.type'', ''error.message'',
      ''level'', ''target'', ''file'', ''line'', ''otel.name'', ''otel.kind'', ''otel.status_code'',
      ''otel.status_message'', ''code.function'', ''code.namespace'', ''code.filepath'', ''code.lineno'',
      ''thread.id'', ''thread.name'']"

definition redacted :: string where
  "redacted = ''[REDACTED]''"

definition is_sensitive_key :: "string \<Rightarrow> bool" where
  "is_sensitive_key key \<longleftrightarrow>
     (let lower = to_lowercase key in
      lower \<notin> set (map to_lowercase safe_keys) \<and>
      list_ex (\<lambda>p. str_contains p lower) (map to_lowercase sensitive_key_patterns))"

definition is_sensitive_value :: "string \<Rightarrow> bool" where
  "is_sensitive_value v \<longleftrightarrow> list_ex (\<lambda>p. starts_with p (to_lowercase v)) sensitive_value_patterns"

definition filter_value :: "string \<Rightarrow> string \<Rightarrow> string" where
  "filter_value key v = (if is_sensitive_key key \<or> is_sensitive_value v then redacted else v)"

datatype 'v attribute_value = Text_value string | Other_value 'v

type_synonym 'v attribute = "string \<times> 'v attribute_value"

fun filter_key_value :: "'v attribute \<Rightarrow> 'v attribute" where
  "filter_key_value (key, Text_value v) =
     (if is_sensitive_key key \<or> is_sensitive_value v then (key, Text_value redacted) else (key, Text_value v))"
| "filter_key_value (key, Other_value x) = (key, Other_value x)"

definition filter_attributes :: "'v attribute list \<Rightarrow> 'v attribute list" where
  "filter_attributes as = map filter_key_value as"

record ('v, 'r) span =
  span_attributes :: "'v attribute list"
  span_rest :: 'r

definition exported :: "('v, 'r) span list \<Rightarrow> ('v, 'r) span list" where
  "exported batch = map (\<lambda>s. s\<lparr>span_attributes := filter_attributes (span_attributes s)\<rparr>) batch"

section \<open>What leaves the worker\<close>

text \<open>A text that may leave under a key.\<close>

definition harmless :: "'v attribute \<Rightarrow> bool" where
  "harmless a \<longleftrightarrow> (case snd a of Text_value v \<Rightarrow> v = redacted \<or> \<not> is_sensitive_key (fst a) \<and> \<not> is_sensitive_value v
     | Other_value _ \<Rightarrow> True)"

lemma filter_harmless: "harmless (filter_key_value a)"
  by (cases a; cases "snd a") (auto simp: harmless_def)

lemma redacted_is_plain: "\<not> is_sensitive_value redacted"
  by code_simp

lemma filter_idem: "filter_key_value (filter_key_value a) = filter_key_value a"
  by (cases a; cases "snd a") (auto simp: redacted_is_plain)

lemma filter_key_same: "fst (filter_key_value a) = fst a"
  by (cases a; cases "snd a") auto

lemma filter_other: "harmless a \<Longrightarrow> filter_key_value a = a"
  by (cases a; cases "snd a") (auto simp: harmless_def redacted_is_plain)

text \<open>
  The filter of the spans. No text of an exported span has a sensitive key or a sensitive value
  unless it has been replaced; the keys and their order, and the rest of the spans, are kept; a span
  that was harmless is exported unchanged, and filtering twice is filtering once. Values that are not
  texts pass under every key.
\<close>

theorem exported_clean:
  "list_all (\<lambda>s. list_all harmless (span_attributes s)) (exported batch) \<and>
   map (map fst \<circ> span_attributes) (exported batch) = map (map fst \<circ> span_attributes) batch \<and>
   map span_rest (exported batch) = map span_rest batch \<and>
   exported (exported batch) = exported batch \<and>
   (list_all (\<lambda>s. list_all harmless (span_attributes s)) batch \<longrightarrow> exported batch = batch)"
proof -
  have id: "filter_attributes as = as" if "list_all harmless as" for as :: "'a attribute list"
    using that by (induction as) (auto simp: filter_attributes_def filter_other)
  have "exported batch = batch" if "list_all (\<lambda>s. list_all harmless (span_attributes s)) batch"
    using that by (induction batch) (auto simp: exported_def id)
  then show ?thesis
    by (auto simp: exported_def filter_attributes_def list_all_iff filter_harmless filter_key_same filter_idem)
qed

text \<open>An array of tokens is not a text: it is exported as it is.\<close>

lemma other_values_pass: "filter_key_value (''access_token'', Other_value x) = (''access_token'', Other_value x)"
  by simp

end
