(* ===== verification/Spec2Isabelle.thy ===== *)
theory Spec2Isabelle
  imports Quality LocalLife Registry Compiler Database Breaker Upstream Lineage ExecutorLife AccessLife Pipeline Typing
    CliBackfillLife DeployLife CliRunLife SensitiveFilter
begin

text \<open>
  A verification development for Servo, a serverless data orchestrator written in Rust.

  \<^bold>\<open>The program.\<close> Assets (tables, files, models) form workflows with dependencies
  (\<open>servo-core\<close>). Their metadata, the executions of workflows, the backfill jobs with their
  partitions and the data quality checks are rows of a PostgreSQL database with row level security by
  tenant (\<open>servo-storage\<close>). An orchestrator starts executions and hands them to a task queue
  (\<open>servo-runtime/src/orchestrator.rs\<close>, \<open>servo-cloud-gcp\<close>); a worker takes the tasks over HTTP,
  executes their assets as Python programs, checks the outputs and records the end
  (\<open>servo-worker\<close>). A local executor does the same without queue and worker; a backfill executor polls
  the database for backfill jobs (\<open>servo-runtime\<close>). A command line deploys workflows with their
  schedules, requests backfills and runs workflows (\<open>servo-cli\<close>).

  \<^bold>\<open>Conventions.\<close> A Rust struct is a record, an enum a datatype, a map or a table a list of rows
  or a function, an error a value on the left of a sum. A panic is \<open>None\<close>, which is also a run that
  does not end. Identifiers, tenants and texts are lists of bytes, instants are milliseconds.
  Machine integers are \<open>word\<close> where the code wraps or saturates (circuit breaker, estimates), and integers
  with their range written out elsewhere. What is not under \<open>src/\<close> is a parameter: hash functions,
  regular expressions, calendars, JSON and floating point arithmetic, the network, Python.

  \<^bold>\<open>Time and interleaving.\<close> A storage call is one transaction. A function that makes several runs
  against a schedule (theory Schedule): each tick carries the call (tenant, clock, rows locked by others, faults of
  begin, commit and rollback) and the writes that others commit just before it. A theorem about every
  schedule speaks of every interleaving; a schedule is \<open>calm\<close> when nobody interferes and nothing
  fails. The network is a list of exchanges in the same way (theory Cloud). Timers are checked at the
  ticks.

  \<^bold>\<open>Theories.\<close>
  \<^item> Prelude, Text: strings of the Rust library, tables and their three statements, collections of
    lemmas. Json: documents. Contexts: the partition an execution is for.
  \<^item> Assets (\<open>asset.rs\<close>, \<open>workflow.rs\<close>, \<open>scheduler.rs\<close>), Registry (\<open>registry.rs\<close>), Kahn and
    Compiler (\<open>compiler.rs\<close>): the index of the registry is consistent; a plan is a topological order,
    and it is refused exactly for cycles.
  \<^item> Storage, Tables (\<open>models.rs\<close>, the migrations), BackfillStore, MetaStore, CheckStore
    (\<open>postgres.rs\<close>): one definition for each operation, with its validation, statements and the
    constraints of its table. Lifecycle is the contract of a table with states; BackfillLife, BackfillClaims,
    ExecutionLife and Database prove that every sequence of writes keeps keys, references and checks, that
    every single call moves a job, a partition or an execution by at most one of the moves written out
    for that call, that tenants are isolated, and what claims, cancellations, pauses and resumptions do.
    Typing: what is stored parses, severities included, and is never refused as an invalid state.
  \<^item> Bfs is the breadth first search that the program has four times, as a locale; Upstream (the
    traversals in \<open>postgres.rs\<close>) and Lineage (\<open>servo-lineage\<close>) interpret it: what is found is exactly what is
    reachable, at its least distance, and a shortest path is shortest.
  \<^item> Retry (\<open>retry.rs\<close>), Breaker (the circuit breaker, which refines a counter of trailing failures
    and recovers unless a dropped probe has left its guard behind),
    Eta (\<open>eta.rs\<close>), Partitions (the mappings between partition keys; a month is its days).
  \<^item> Orchestrator and ExecutionLife (\<open>orchestrator.rs\<close>, \<open>state_machine.rs\<close>); Executor and ExecutorLife
    (\<open>backfill_executor.rs\<close>); LocalRun and LocalLife (\<open>local_executor.rs\<close>).
  \<^item> Quality (\<open>quality.rs\<close>), Checks (\<open>check_validator.rs\<close>), Pii (\<open>pii.rs\<close>), Worker and WorkerLife
    (\<open>servo-worker/src/executor.rs\<close>): checks gate a plan, the end of an execution is recorded, and an
    execution keeps the database intact under any interference. SensitiveFilter
    (\<open>sensitive_filter.rs\<close>): what leaves with the spans.
  \<^item> Cloud (tokens, secrets, signatures, task queue), Access and AccessLife (the entry of the worker: OIDC,
    HMAC, rate limits), CloudRun (the executor that enqueues), Pipeline (from the orchestrator to the
    worker).
  \<^item> CliBackfill and CliBackfillLife (\<open>commands/backfill.rs\<close>), Scheduler (\<open>scheduler.rs\<close> of the cloud
    crate), Deploy and DeployLife (\<open>commands/deploy.rs\<close>, \<open>config.rs\<close>), CliRun and CliRunLife
    (\<open>commands/run.rs\<close>, \<open>status.rs\<close>, \<open>polling.rs\<close>).

  \<^bold>\<open>How the parts rest on each other.\<close> The operations of the storage are shown to be sequences of
  guarded statements; the contracts of Lifecycle, Bfs and Registry are locales, interpreted on the
  tables, the traversals and the registry and catalogue. The executors are built from runs, and the
  rules \<open>run_intros\<close> show that each run only makes writes of the storage, so that the integrity of the
  database holds for all of them. Exact results are proved on calm schedules.

  \<^bold>\<open>Bounds and fuel.\<close> Most loops recurse on the schedule or on a list. Fuel is used where the code
  bounds a loop itself: 367 steps for a range of at most 366 days, the depth limit of the
  traversals, three attempts of an enqueue (at most four exchanges). An execution by the worker returns on
  three ticks for each asset and seven more; the theorems about termination state these bounds.

  \<^bold>\<open>What does not hold.\<close> Several parts do not do what they are made for, and the theorems say so:
  no task that the queue posts passes the handler it is addressed to (tasks_never_accepted); a dispatched
  execution succeeds without executing an asset (dispatched_runs_nothing); only new workflows without
  assets can be deployed (deploys_only_new_empty); an execution from the command line is never executed
  (run_waits_in_vain); a circuit breaker whose probe was dropped blocks for ever (breaker_recovers); an
  executor that polls between the two calls of a backfill request loses the
  partition (early_executor_loses_partition).

  \<^bold>\<open>Not modelled.\<close> Metrics, logs, spans and what commands print; the construction of servers and clients
  from the environment; the discovery of the metadata server, identity tokens for other services and
  health checks of the cloud clients; the commands that only look up and print (lineage, partition, quality);
  the trace context; benchmarks and tests; the Python package. White space and letter
  case are those of ASCII, where Rust knows those of Unicode. A timer that fires during a storage call is
  taken to fire before it or after it.
\<close>

end
